(* ===== verification/Py_Prelude.thy ===== *)
theory Py_Prelude
  imports Complex_Main "HOL-Library.Log_Nat" "HOL-Library.List_Lexorder" "HOL-Library.Char_ord"
begin

text \<open>
  The prelude of the development: Python exceptions as values of a sum type, the sequencing
  operators that thread them, Python's insertion-ordered dictionaries as association lists, and
  the list lemmas the components share.

  An exception is its class and a message head. The program branches on the class only (every
  \<open>except\<close> clause names classes), so the message is kept as the text that identifies the raise
  site, not the whole f-string.
\<close>

named_theorems py_simps \<open>unfolding rules for the sequencing operators\<close>
named_theorems py_splits \<open>inversion rules: what a returned value says of the computation\<close>

section \<open>Exceptions\<close>

datatype exc_class =
    PyException | ValueError | KeyError | TypeError | AttributeError | IndexError
  | OverflowError | ZeroDivisionError | OSError | FileNotFoundError | RuntimeError
  | JSONDecodeError | UnknownIdError | PublisherCountsFormatError | ManifestArgError
  | MetricUnavailableError | GateRefused | CalledProcessError | StopIteration
  | BundlePinError | BundleNotRegistered | PcdFormatError | UnicodeDecodeError

text \<open>The direct base class of each exception class, \<open>None\<close> at the top.\<close>

fun exc_base :: "exc_class \<Rightarrow> exc_class option" where
  "exc_base PyException = None"
| "exc_base KeyError = Some PyException"
| "exc_base IndexError = Some PyException"
| "exc_base FileNotFoundError = Some OSError"
| "exc_base JSONDecodeError = Some ValueError"
| "exc_base UnknownIdError = Some ValueError"
| "exc_base PublisherCountsFormatError = Some ValueError"
| "exc_base ManifestArgError = Some ValueError"
| "exc_base MetricUnavailableError = Some RuntimeError"
| "exc_base GateRefused = Some RuntimeError"
| "exc_base PcdFormatError = Some ValueError"
| "exc_base UnicodeDecodeError = Some ValueError"
| "exc_base c = Some PyException"

text \<open>\<open>isinstance(exc, cls)\<close> on the hierarchy above, which is three levels deep.\<close>

definition exc_isa :: "exc_class \<Rightarrow> exc_class \<Rightarrow> bool" where
  "exc_isa c d \<longleftrightarrow> c = d \<or> exc_base c = Some d \<or>
     (case exc_base c of None \<Rightarrow> False | Some b \<Rightarrow> exc_base b = Some d)"

lemma exc_isa_refl [simp]: "exc_isa c c"
  by (simp add: exc_isa_def)

lemma exc_isa_top [simp]: "exc_isa c PyException"
  by (cases c) (simp_all add: exc_isa_def)

datatype exc = Exc (exc_of: exc_class) (exc_msg: string)

fun exc_name :: "exc_class \<Rightarrow> string" where
  "exc_name PyException = ''Exception''"
| "exc_name ValueError = ''ValueError''"
| "exc_name KeyError = ''KeyError''"
| "exc_name TypeError = ''TypeError''"
| "exc_name AttributeError = ''AttributeError''"
| "exc_name IndexError = ''IndexError''"
| "exc_name OverflowError = ''OverflowError''"
| "exc_name ZeroDivisionError = ''ZeroDivisionError''"
| "exc_name OSError = ''OSError''"
| "exc_name FileNotFoundError = ''FileNotFoundError''"
| "exc_name RuntimeError = ''RuntimeError''"
| "exc_name JSONDecodeError = ''JSONDecodeError''"
| "exc_name UnknownIdError = ''UnknownIdError''"
| "exc_name PublisherCountsFormatError = ''PublisherCountsFormatError''"
| "exc_name ManifestArgError = ''ManifestArgError''"
| "exc_name MetricUnavailableError = ''MetricUnavailableError''"
| "exc_name GateRefused = ''GateRefused''"
| "exc_name CalledProcessError = ''CalledProcessError''"
| "exc_name StopIteration = ''StopIteration''"
| "exc_name BundlePinError = ''BundlePinError''"
| "exc_name BundleNotRegistered = ''BundleNotRegistered''"
| "exc_name PcdFormatError = ''PcdFormatError''"
| "exc_name UnicodeDecodeError = ''UnicodeDecodeError''"

text \<open>\<open>f"{type(exc).__name__}: {exc}"\<close>.\<close>

definition exc_text :: "exc \<Rightarrow> string" where
  "exc_text e = exc_name (exc_of e) @ '': '' @ exc_msg e"

type_synonym 'a res = "exc + 'a"

abbreviation Raise :: "exc_class \<Rightarrow> string \<Rightarrow> 'a res" where
  "Raise c m \<equiv> Inl (Exc c m)"

abbreviation Ret :: "'a \<Rightarrow> 'a res" where
  "Ret x \<equiv> Inr x"

definition bindE :: "'a res \<Rightarrow> ('a \<Rightarrow> 'b res) \<Rightarrow> 'b res" where
  "bindE m f = (case m of Inl e \<Rightarrow> Inl e | Inr x \<Rightarrow> f x)"

lemma bindE_simps [simp, py_simps]:
  "bindE (Inl e) f = Inl e"
  "bindE (Inr x) f = f x"
  by (simp_all add: bindE_def)

lemma bindE_Inr_iff [py_splits]: "bindE m f = Inr y \<longleftrightarrow> (\<exists>x. m = Inr x \<and> f x = Inr y)"
  by (cases m) auto

lemma bindE_InrE:
  assumes "bindE m f = Inr y" obtains x where "m = Inr x" "f x = Inr y"
  using assms by (auto simp: bindE_Inr_iff)

lemma if_Inl_InrE:
  assumes "(if c then Inl e else m) = Inr y" obtains "\<not> c" "m = Inr y"
  using assms by (cases c) auto

lemma prod_InrE:
  assumes "(case p of (a, b) \<Rightarrow> f a b) = Inr y" obtains a b where "p = (a, b)" "f a b = Inr y"
  using assms by (cases p) auto

lemmas InrE = bindE_InrE if_Inl_InrE prod_InrE

lemma bindE_Inl_iff [py_splits]:
  "bindE m f = Inl e \<longleftrightarrow> m = Inl e \<or> (\<exists>x. m = Inr x \<and> f x = Inl e)"
  by (cases m) auto

lemma bindE_cong [fundef_cong]: "m = m' \<Longrightarrow> (\<And>x. m' = Inr x \<Longrightarrow> f x = g x) \<Longrightarrow> bindE m f = bindE m' g"
  by (cases m') auto

lemma bindE_assoc: "bindE (bindE m f) g = bindE m (\<lambda>x. bindE (f x) g)"
  by (cases m) auto

text \<open>\<open>except C1, C2 as exc: raise handler(exc)\<close> around a computation: a raised exception of one
  of the listed classes is handed to the handler, any other passes.\<close>

definition catchE :: "exc_class list \<Rightarrow> (exc \<Rightarrow> 'a res) \<Rightarrow> 'a res \<Rightarrow> 'a res" where
  "catchE cs h m =
     (case m of
        Inl e \<Rightarrow> if list_ex (exc_isa (exc_of e)) cs then h e else Inl e
      | Inr x \<Rightarrow> Inr x)"

lemma catchE_Inr [simp, py_simps]: "catchE cs h (Inr x) = Inr x"
  by (simp add: catchE_def)

lemma catchE_Inl [py_simps]:
  "catchE cs h (Inl e) = (if list_ex (exc_isa (exc_of e)) cs then h e else Inl e)"
  by (simp add: catchE_def)

lemma catchE_all [simp]: "catchE [PyException] h (Inl e) = h e"
  by (simp add: catchE_def)

text \<open>A comprehension whose element expression may raise: left to right, the first exception
  leaves it.\<close>

fun mapE :: "('a \<Rightarrow> 'b res) \<Rightarrow> 'a list \<Rightarrow> 'b list res" where
  "mapE f [] = Inr []"
| "mapE f (x # xs) = bindE (f x) (\<lambda>y. bindE (mapE f xs) (\<lambda>ys. Inr (y # ys)))"

lemma mapE_Inr_length: "mapE f xs = Inr ys \<Longrightarrow> length ys = length xs"
  by (induction xs arbitrary: ys) (auto simp: py_splits)

lemma mapE_Inr_list_all2: "mapE f xs = Inr ys \<longleftrightarrow> list_all2 (\<lambda>x y. f x = Inr y) xs ys"
  by (induction xs arbitrary: ys) (auto simp: py_splits list_all2_Cons1)

lemma mapE_Inr_nth: "mapE f xs = Inr ys \<Longrightarrow> i < length xs \<Longrightarrow> f (xs ! i) = Inr (ys ! i)"
  by (simp add: mapE_Inr_list_all2 list_all2_conv_all_nth)

lemma mapE_pure: "mapE (\<lambda>x. Inr (g x)) xs = Inr (map g xs)"
  by (induction xs) auto

lemma mapE_Inl_witness: "mapE f xs = Inl e \<Longrightarrow> \<exists>x \<in> set xs. f x = Inl e"
  by (induction xs) (auto simp: py_splits)

text \<open>A loop that threads a state and may raise.\<close>

fun foldE :: "('s \<Rightarrow> 'a \<Rightarrow> 's res) \<Rightarrow> 's \<Rightarrow> 'a list \<Rightarrow> 's res" where
  "foldE f s [] = Inr s"
| "foldE f s (x # xs) = bindE (f s x) (\<lambda>s'. foldE f s' xs)"

lemma foldE_append: "foldE f s (xs @ ys) = bindE (foldE f s xs) (\<lambda>s'. foldE f s' ys)"
  by (induction xs arbitrary: s) (auto simp: bindE_assoc)

lemma foldE_invariant:
  assumes "\<And>s x s'. x \<in> set xs \<Longrightarrow> P s \<Longrightarrow> f s x = Inr s' \<Longrightarrow> P s'"
    and "P s" and "foldE f s xs = Inr s'"
  shows "P s'"
  using assms
proof (induction xs arbitrary: s)
  case Nil
  then show ?case by simp
next
  case (Cons x xs)
  then obtain s1 where "f s x = Inr s1" "foldE f s1 xs = Inr s'" by (auto simp: py_splits)
  with Cons show ?case by (metis list.set_intros)
qed

text \<open>\<open>try: return Some(m) except: return None\<close>.\<close>

definition result_opt :: "'a res \<Rightarrow> 'a option" where
  "result_opt m = (case m of Inl _ \<Rightarrow> None | Inr x \<Rightarrow> Some x)"

lemma result_opt_simps [simp]: "result_opt (Inl e) = None" "result_opt (Inr x) = Some x"
  by (simp_all add: result_opt_def)

section \<open>Dictionaries\<close>

text \<open>
  A Python dictionary keeps its keys in insertion order; assigning an existing key keeps its
  place. An association list with distinct keys is exactly that, and \<open>map_of\<close> reads it.
\<close>

fun dict_set :: "'k \<Rightarrow> 'v \<Rightarrow> ('k \<times> 'v) list \<Rightarrow> ('k \<times> 'v) list" where
  "dict_set k v [] = [(k, v)]"
| "dict_set k v (p # d) = (if fst p = k then (k, v) # d else p # dict_set k v d)"

definition dict_keys :: "('k \<times> 'v) list \<Rightarrow> 'k list" where
  "dict_keys d = map fst d"

lemma map_of_dict_set [simp]: "map_of (dict_set k v d) = (map_of d)(k \<mapsto> v)"
  by (induction d) (auto simp: fun_eq_iff)

lemma dict_set_keys:
  "dict_keys (dict_set k v d) = (if k \<in> set (dict_keys d) then dict_keys d else dict_keys d @ [k])"
  by (induction d) (auto simp: dict_keys_def)

lemma distinct_dict_set: "distinct (dict_keys d) \<Longrightarrow> distinct (dict_keys (dict_set k v d))"
  by (simp add: dict_set_keys)

text \<open>\<open>{**d, **e}\<close>: the entries of \<open>e\<close> are assigned into a copy of \<open>d\<close>, in order.\<close>

definition dict_merge :: "('k \<times> 'v) list \<Rightarrow> ('k \<times> 'v) list \<Rightarrow> ('k \<times> 'v) list" where
  "dict_merge d e = fold (\<lambda>(k, v). dict_set k v) e d"

lemma dict_merge_Nil [simp]: "dict_merge d [] = d"
  by (simp add: dict_merge_def)

lemma map_of_dict_merge:
  "distinct (dict_keys e) \<Longrightarrow> map_of (dict_merge d e) = map_of d ++ map_of e"
proof (induction e arbitrary: d)
  case Nil
  then show ?case by (simp add: dict_merge_def)
next
  case (Cons p e)
  obtain k v where p: "p = (k, v)" by (cases p)
  from Cons.prems p have dist: "distinct (dict_keys e)" and k: "k \<notin> dom (map_of e)"
    by (auto simp: dict_keys_def dom_map_of_conv_image_fst)
  have "map_of (dict_merge d (p # e)) = (map_of d)(k \<mapsto> v) ++ map_of e"
    using Cons.IH [OF dist, of "dict_set k v d"] p by (simp add: dict_merge_def fun_upd_def)
  also have "\<dots> = map_of d ++ map_of (p # e)"
    using k p by (auto simp: map_add_def fun_eq_iff split: option.splits)
  finally show ?case .
qed

lemma dict_merge_keys_subset: "set (dict_keys d) \<subseteq> set (dict_keys (dict_merge d e))"
proof (induction e arbitrary: d)
  case Nil
  then show ?case by simp
next
  case (Cons p e)
  have "set (dict_keys d) \<subseteq> set (dict_keys (dict_set (fst p) (snd p) d))"
    by (auto simp: dict_set_keys)
  with Cons [of "dict_set (fst p) (snd p) d"] show ?case
    by (auto simp: dict_merge_def case_prod_beta)
qed

section \<open>Lists\<close>

text \<open>Python's \<open>";".join(parts)\<close>.\<close>

fun join :: "string \<Rightarrow> string list \<Rightarrow> string" where
  "join sep [] = []"
| "join sep [x] = x"
| "join sep (x # xs) = x @ sep @ join sep xs"

text \<open>Python's \<open>s.startswith(p)\<close> and \<open>p in s\<close> on strings.\<close>

fun starts_with :: "string \<Rightarrow> string \<Rightarrow> bool" where
  "starts_with s [] = True"
| "starts_with [] (c # p) = False"
| "starts_with (d # s) (c # p) = (c = d \<and> starts_with s p)"

lemma starts_with_iff: "starts_with s p \<longleftrightarrow> (\<exists>r. s = p @ r)"
  by (induction s p rule: starts_with.induct) auto

fun has_infix :: "string \<Rightarrow> string \<Rightarrow> bool" where
  "has_infix [] p = (p = [])"
| "has_infix (c # s) p = (starts_with (c # s) p \<or> has_infix s p)"

lemma has_infix_iff: "has_infix s p \<longleftrightarrow> (\<exists>a b. s = a @ p @ b)"
proof (induction s)
  case Nil
  then show ?case by auto
next
  case (Cons c s)
  have "(\<exists>a b. c # s = a @ p @ b) \<longleftrightarrow> (\<exists>b. c # s = p @ b) \<or> (\<exists>a b. s = a @ p @ b)"
    by (metis append_Cons append_Nil list.inject neq_Nil_conv)
  with Cons show ?case by (simp add: starts_with_iff)
qed

end
