(* ===== verification/Float64.thy ===== *)
theory Float64
  imports Py_Prelude
begin

text \<open>
  Python floats and numpy float64: IEEE 754 binary64 with rounding to nearest, ties to even. A
  finite value is the rational number it stands for; \<open>rnd\<close> is the one rounding function, and
  every arithmetic operation is the exact rational operation followed by \<open>rnd\<close>. The two zeros
  are one value (no operation of the program observes the sign of a zero).

  The lemmas: \<open>rnd\<close> is monotone and is the identity on the integers up to \<open>2 ^ 53\<close>. The locale
  \<open>monotone_rounding\<close> is what the components use of it.
\<close>

section \<open>Rounding\<close>

text \<open>Nearest integer, ties to even: Python's \<open>round(x)\<close> on an exact value.\<close>

definition round_even :: "rat \<Rightarrow> int" where
  "round_even q =
     (let f = \<lfloor>q\<rfloor>; d = q - of_int f
      in if d < 1/2 then f else if 1/2 < d then f + 1 else if even f then f else f + 1)"

lemma round_even_bounds: "\<lfloor>q\<rfloor> \<le> round_even q" "round_even q \<le> \<lfloor>q\<rfloor> + 1"
  by (simp_all add: round_even_def Let_def)

lemma round_even_of_int [simp]: "round_even (of_int n) = n"
  by (simp add: round_even_def)

lemma round_even_near: "\<bar>of_int (round_even q) - q\<bar> \<le> 1/2"
  unfolding round_even_def Let_def by (auto simp: abs_if) linarith+

lemma round_even_mono: "p \<le> q \<Longrightarrow> round_even p \<le> round_even q"
proof (cases "\<lfloor>p\<rfloor> = \<lfloor>q\<rfloor>")
  case True
  assume "p \<le> q"
  with True show ?thesis by (auto simp: round_even_def Let_def)
next
  case False
  assume "p \<le> q"
  with False have "\<lfloor>p\<rfloor> + 1 \<le> \<lfloor>q\<rfloor>" using floor_mono [of p q] by linarith
  then show ?thesis using round_even_bounds [of p] round_even_bounds [of q] by linarith
qed

lemma round_even_le_int: "q \<le> of_int n \<Longrightarrow> round_even q \<le> n"
  using round_even_mono [of q "of_int n"] by simp

lemma round_even_ge_int: "of_int n \<le> q \<Longrightarrow> n \<le> round_even q"
  using round_even_mono [of "of_int n" q] by simp

text \<open>The binary exponent of a positive rational: \<open>2 powi e \<le> q < 2 powi (e + 1)\<close>.\<close>

definition bin_exp :: "rat \<Rightarrow> int" where
  "bin_exp q =
     (let (a, b) = quotient_of q; k = bitlen a - bitlen b
      in if 2 powi k \<le> q then k else k - 1)"

lemma two_powi_less_iff [simp]: "(2::rat) powi a < 2 powi b \<longleftrightarrow> a < b"
  using power_int_strict_increasing [of a b "2::rat"] power_int_increasing [of b a "2::rat"]
  by (cases "a < b") auto

lemma two_powi_le_iff [simp]: "(2::rat) powi a \<le> 2 powi b \<longleftrightarrow> a \<le> b"
  using two_powi_less_iff [of b a] by (simp only: linorder_not_less [symmetric])

lemma two_powi_nat: "0 \<le> k \<Longrightarrow> (2::rat) powi k = of_int (2 ^ nat k)"
  by (simp add: power_int_def)

lemma bitlen_bounds_rat:
  assumes "0 < x"
  shows "2 powi (bitlen x - 1) \<le> rat_of_int x" "rat_of_int x < 2 powi bitlen x"
proof -
  have pos: "1 \<le> bitlen x" using assms bitlen_eq_zero_iff [of x] bitlen_nonneg [of x] by linarith
  have "2 ^ nat (bitlen x - 1) \<le> x" "x < 2 ^ nat (bitlen x)" using bitlen_bounds [OF assms] by auto
  then have "rat_of_int (2 ^ nat (bitlen x - 1)) \<le> rat_of_int x"
    "rat_of_int x < rat_of_int (2 ^ nat (bitlen x))"
    by (simp_all only: of_int_le_iff of_int_less_iff)
  with pos show "2 powi (bitlen x - 1) \<le> rat_of_int x" "rat_of_int x < 2 powi bitlen x"
    by (simp_all add: two_powi_nat)
qed

lemma bin_exp_bounds:
  assumes "0 < q"
  shows "2 powi bin_exp q \<le> q" "q < 2 powi (bin_exp q + 1)"
proof -
  obtain a b where ab: "quotient_of q = (a, b)" by (cases "quotient_of q")
  have b: "0 < b" using ab by (rule quotient_of_denom_pos)
  have q: "q = of_int a / of_int b" using ab by (rule quotient_of_div)
  with assms b have a: "0 < a" by (simp add: zero_less_divide_iff)
  define k where "k = bitlen a - bitlen b"
  have "2 powi (k - 1) * rat_of_int b \<le> 2 powi (k - 1) * 2 powi bitlen b"
    using bitlen_bounds_rat(2) [OF b] by (intro mult_left_mono) auto
  also have "\<dots> = 2 powi (bitlen a - 1)"
    by (simp add: k_def flip: power_int_add)
  also have "\<dots> \<le> of_int a" using bitlen_bounds_rat(1) [OF a] .
  finally have lo: "2 powi (k - 1) \<le> q" using b by (simp add: q pos_le_divide_eq)
  have "rat_of_int a < 2 powi (k + 1) * 2 powi (bitlen b - 1)"
    using bitlen_bounds_rat(2) [OF a] by (simp add: k_def flip: power_int_add)
  also have "\<dots> \<le> 2 powi (k + 1) * of_int b"
    using bitlen_bounds_rat(1) [OF b] by (intro mult_left_mono) auto
  finally have hi: "q < 2 powi (k + 1)" using b by (simp add: q pos_divide_less_eq)
  have "bin_exp q = (if 2 powi k \<le> q then k else k - 1)"
    by (simp add: bin_exp_def ab k_def)
  with lo hi show "2 powi bin_exp q \<le> q" "q < 2 powi (bin_exp q + 1)"
    by (auto simp: not_le)
qed

text \<open>The exponent of one unit in the last place, and rounding to a multiple of it.\<close>

definition ulp_exp :: "rat \<Rightarrow> int" where
  "ulp_exp q = max (bin_exp q - 52) (-1074)"

definition round_to :: "int \<Rightarrow> rat \<Rightarrow> rat" where
  "round_to u q = of_int (round_even (q / 2 powi u)) * 2 powi u"

definition rnd_pos :: "rat \<Rightarrow> rat" where
  "rnd_pos q = round_to (ulp_exp q) q"

lemma round_to_mono: "p \<le> q \<Longrightarrow> round_to u p \<le> round_to u q"
  by (auto simp: round_to_def intro!: mult_right_mono round_even_mono divide_right_mono)

lemma round_to_pow2: "u \<le> m \<Longrightarrow> round_to u (2 powi m) = 2 powi m"
proof -
  assume um: "u \<le> m"
  then have "(2::rat) powi m / 2 powi u = of_int (2 ^ nat (m - u))"
    by (simp add: two_powi_nat flip: power_int_diff)
  then have "round_to u (2 powi m) = of_int (2 ^ nat (m - u)) * 2 powi u"
    by (simp only: round_to_def round_even_of_int)
  also have "\<dots> = (2::rat) powi (m - u) * 2 powi u" using um by (simp only: two_powi_nat)
  also have "\<dots> = 2 powi m" by (simp flip: power_int_add)
  finally show ?thesis .
qed

lemma bin_exp_mono:
  assumes "0 < p" "p \<le> q"
  shows "bin_exp p \<le> bin_exp q"
proof -
  have "2 powi bin_exp p \<le> p" "q < 2 powi (bin_exp q + 1)"
    using bin_exp_bounds assms by auto
  with assms(2) have "(2::rat) powi bin_exp p < 2 powi (bin_exp q + 1)" by linarith
  then show ?thesis by simp
qed

lemma rnd_pos_mono:
  assumes "0 < p" "p \<le> q"
  shows "rnd_pos p \<le> rnd_pos q"
proof (cases "ulp_exp p = ulp_exp q")
  case True
  then show ?thesis using assms(2) by (simp add: rnd_pos_def round_to_mono)
next
  case False
  let ?e = "bin_exp q"
  have le: "bin_exp p \<le> ?e" using bin_exp_mono assms by auto
  with False have u: "ulp_exp q = ?e - 52" "ulp_exp p \<le> ?e" "bin_exp p + 1 \<le> ?e"
    by (auto simp: ulp_exp_def max_def split: if_splits)
  have "p \<le> 2 powi ?e"
  proof -
    have "p < 2 powi (bin_exp p + 1)" using bin_exp_bounds assms by auto
    also have "(2::rat) powi (bin_exp p + 1) \<le> 2 powi ?e"
      using u(3) by (intro power_int_increasing) auto
    finally show ?thesis by simp
  qed
  then have "rnd_pos p \<le> 2 powi ?e"
    using round_to_mono [of p "2 powi ?e" "ulp_exp p"] round_to_pow2 [OF u(2)]
    by (simp add: rnd_pos_def)
  also have "2 powi ?e \<le> rnd_pos q"
    using round_to_mono [of "2 powi ?e" q "ulp_exp q"] round_to_pow2 [of "ulp_exp q" ?e] u(1)
      bin_exp_bounds(1) [of q] assms by (simp add: rnd_pos_def)
  finally show ?thesis .
qed

lemma rnd_pos_nonneg: "0 < q \<Longrightarrow> 0 \<le> rnd_pos q"
  by (auto simp: rnd_pos_def round_to_def intro!: mult_nonneg_nonneg round_even_ge_int)

definition rnd_rat :: "rat \<Rightarrow> rat" where
  "rnd_rat q = (if q = 0 then 0 else if 0 < q then rnd_pos q else - rnd_pos (- q))"

lemma rnd_rat_0 [simp]: "rnd_rat 0 = 0"
  by (simp add: rnd_rat_def)

lemma rnd_rat_minus: "rnd_rat (- q) = - rnd_rat q"
  by (simp add: rnd_rat_def)

lemma rnd_rat_mono: "p \<le> q \<Longrightarrow> rnd_rat p \<le> rnd_rat q"
  using rnd_pos_mono [of p q] rnd_pos_mono [of "- q" "- p"] rnd_pos_nonneg [of q]
    rnd_pos_nonneg [of "- p"]
  by (auto simp: rnd_rat_def not_less)

lemma round_to_int: "u \<le> 0 \<Longrightarrow> round_to u (of_int n) = of_int n"
proof -
  assume u: "u \<le> 0"
  then have "(of_int n :: rat) / 2 powi u = of_int (n * 2 ^ nat (- u))"
    by (simp add: power_int_def field_simps)
  then have "round_to u (of_int n) = of_int (n * 2 ^ nat (- u)) * 2 powi u"
    by (simp only: round_to_def round_even_of_int)
  also have "\<dots> = of_int n" using u by (simp add: power_int_def field_simps)
  finally show ?thesis .
qed

text \<open>Integers of at most 53 bits are exact.\<close>

lemma rnd_pos_int:
  assumes "0 < n" "n \<le> 2 ^ 53"
  shows "rnd_pos (of_int n) = of_int n"
proof (cases "n = 2 ^ 53")
  case True
  then have "(of_int n :: rat) = 2 powi 53" by simp
  moreover have "ulp_exp (2 powi 53) \<le> 53"
  proof -
    have "(2::rat) powi bin_exp (2 powi 53) \<le> 2 powi 53" by (rule bin_exp_bounds) simp
    then have "bin_exp (2 powi 53) \<le> 53" by (simp only: two_powi_le_iff)
    then show ?thesis by (simp add: ulp_exp_def)
  qed
  ultimately show ?thesis by (simp only: rnd_pos_def round_to_pow2)
next
  case False
  with assms have "(of_int n :: rat) < of_int (2 ^ 53)" by (simp only: of_int_less_iff)
  then have lt: "(of_int n :: rat) < 2 powi 53" by (simp add: power_int_def)
  have "(2::rat) powi bin_exp (of_int n) \<le> of_int n" by (rule bin_exp_bounds) (use assms in simp)
  with lt have "(2::rat) powi bin_exp (of_int n) < 2 powi 53" by linarith
  then have "bin_exp (of_int n) < 53" by (simp only: two_powi_less_iff)
  then have "ulp_exp (of_int n) \<le> 0" by (simp add: ulp_exp_def)
  then show ?thesis by (simp add: rnd_pos_def round_to_int)
qed

lemma rnd_rat_int: "\<bar>n\<bar> \<le> 2 ^ 53 \<Longrightarrow> rnd_rat (of_int n) = of_int n"
  using rnd_pos_int [of n] rnd_pos_int [of "- n"] by (auto simp: rnd_rat_def)

lemma rnd_rat_1 [simp]: "rnd_rat 1 = 1"
  using rnd_rat_int [of 1] by simp


section \<open>Values and arithmetic\<close>

datatype f64 = Fin rat | PInf | NInf | NaN

text \<open>A rounded result of magnitude \<open>2 ^ 1024\<close> or more (binary exponent 1024) is an infinity.\<close>

definition rnd :: "rat \<Rightarrow> f64" where
  "rnd q =
     (let r = rnd_rat q
      in if r = 0 \<or> bin_exp \<bar>r\<bar> < 1024 then Fin r else if 0 < r then PInf else NInf)"

lemma rnd_small: "\<bar>q\<bar> \<le> 2 ^ 53 \<Longrightarrow> rnd q = Fin (rnd_rat q)"
proof -
  assume q: "\<bar>q\<bar> \<le> 2 ^ 53"
  have "rnd_rat q \<le> rnd_rat (of_int (2 ^ 53))" "rnd_rat (of_int (- (2 ^ 53))) \<le> rnd_rat q"
    using q by (auto intro!: rnd_rat_mono simp: abs_le_iff)
  then have "\<bar>rnd_rat q\<bar> \<le> 2 ^ 53"
    using rnd_rat_int [of "2 ^ 53"] rnd_rat_int [of "- (2 ^ 53)"] by (simp add: abs_le_iff)
  then have b: "\<bar>rnd_rat q\<bar> \<le> 2 powi 53" by simp
  have "bin_exp \<bar>rnd_rat q\<bar> \<le> 53" if "rnd_rat q \<noteq> 0"
  proof -
    have "2 powi bin_exp \<bar>rnd_rat q\<bar> \<le> \<bar>rnd_rat q\<bar>" by (rule bin_exp_bounds) (use that in simp)
    with b have "(2::rat) powi bin_exp \<bar>rnd_rat q\<bar> \<le> 2 powi 53" by (rule order_trans [rotated])
    then show ?thesis by (simp only: two_powi_le_iff)
  qed
  then show ?thesis by (cases "rnd_rat q = 0") (simp_all add: rnd_def Let_def)
qed

lemma rnd_int: "\<bar>n\<bar> \<le> 2 ^ 53 \<Longrightarrow> rnd (of_int n) = Fin (of_int n)"
proof -
  assume n: "\<bar>n\<bar> \<le> 2 ^ 53"
  then have "\<bar>rat_of_int n\<bar> \<le> 2 ^ 53"
    by (metis of_int_abs of_int_le_iff of_int_numeral of_int_power)
  then show ?thesis using rnd_rat_int [OF n] by (simp add: rnd_small)
qed

lemma rnd_0 [simp]: "rnd 0 = Fin 0" and rnd_1 [simp]: "rnd 1 = Fin 1"
  by (simp_all add: rnd_small)

lemma rnd_numeral: "numeral n \<le> (2 ^ 53 :: int) \<Longrightarrow> rnd (numeral n) = Fin (numeral n)"
  using rnd_int [of "numeral n"] by simp

lemma rnd_neg_numeral: "numeral n \<le> (2 ^ 53 :: int) \<Longrightarrow> rnd (- numeral n) = Fin (- numeral n)"
  using rnd_int [of "- numeral n"] by simp

lemma rnd_neg_1 [simp]: "rnd (- 1) = Fin (- 1)"
  using rnd_int [of "- 1"] by simp

text \<open>A literal of the source, an exact conversion of an int, \<open>int / int\<close> (which Python rounds
  once), and the numpy conversion of an int64.\<close>

abbreviation of_lit :: "rat \<Rightarrow> f64" where
  "of_lit q \<equiv> rnd q"

definition of_i64 :: "int \<Rightarrow> f64" where
  "of_i64 n = rnd (of_int n)"

definition is_nan :: "f64 \<Rightarrow> bool" where
  "is_nan x \<longleftrightarrow> x = NaN"

lemma is_nan_simps [simp]:
  "is_nan NaN" "\<not> is_nan (Fin q)" "\<not> is_nan PInf" "\<not> is_nan NInf"
  by (simp_all add: is_nan_def)

instantiation f64 :: "{zero, one, plus, minus, uminus, times, inverse, ord, abs}"
begin

definition zero_f64 :: f64 where "zero_f64 = Fin 0"

definition one_f64 :: f64 where "one_f64 = Fin 1"

fun uminus_f64 :: "f64 \<Rightarrow> f64" where
  "uminus_f64 (Fin a) = Fin (- a)"
| "uminus_f64 PInf = NInf"
| "uminus_f64 NInf = PInf"
| "uminus_f64 NaN = NaN"

fun plus_f64 :: "f64 \<Rightarrow> f64 \<Rightarrow> f64" where
  "plus_f64 (Fin a) (Fin b) = rnd (a + b)"
| "plus_f64 NaN y = NaN"
| "plus_f64 x NaN = NaN"
| "plus_f64 PInf NInf = NaN"
| "plus_f64 NInf PInf = NaN"
| "plus_f64 PInf y = PInf"
| "plus_f64 x PInf = PInf"
| "plus_f64 NInf y = NInf"
| "plus_f64 x NInf = NInf"

definition minus_f64 :: "f64 \<Rightarrow> f64 \<Rightarrow> f64" where "minus_f64 x y = x + - y"

fun times_f64 :: "f64 \<Rightarrow> f64 \<Rightarrow> f64" where
  "times_f64 (Fin a) (Fin b) = rnd (a * b)"
| "times_f64 NaN y = NaN"
| "times_f64 x NaN = NaN"
| "times_f64 (Fin a) PInf = (if a = 0 then NaN else if 0 < a then PInf else NInf)"
| "times_f64 (Fin a) NInf = (if a = 0 then NaN else if 0 < a then NInf else PInf)"
| "times_f64 PInf (Fin a) = (if a = 0 then NaN else if 0 < a then PInf else NInf)"
| "times_f64 NInf (Fin a) = (if a = 0 then NaN else if 0 < a then NInf else PInf)"
| "times_f64 PInf PInf = PInf"
| "times_f64 NInf NInf = PInf"
| "times_f64 PInf NInf = NInf"
| "times_f64 NInf PInf = NInf"

text \<open>numpy's division, which does not raise on a zero divisor.\<close>

fun divide_f64 :: "f64 \<Rightarrow> f64 \<Rightarrow> f64" where
  "divide_f64 (Fin a) (Fin b) =
     (if b \<noteq> 0 then rnd (a / b) else if a = 0 then NaN else if 0 < a then PInf else NInf)"
| "divide_f64 NaN y = NaN"
| "divide_f64 x NaN = NaN"
| "divide_f64 (Fin a) y = Fin 0"
| "divide_f64 PInf (Fin b) = (if 0 \<le> b then PInf else NInf)"
| "divide_f64 NInf (Fin b) = (if 0 \<le> b then NInf else PInf)"
| "divide_f64 x y = NaN"

definition inverse_f64 :: "f64 \<Rightarrow> f64" where "inverse_f64 x = 1 div x"

fun abs_f64 :: "f64 \<Rightarrow> f64" where
  "abs_f64 (Fin a) = Fin \<bar>a\<bar>"
| "abs_f64 NaN = NaN"
| "abs_f64 x = PInf"

text \<open>Comparisons: every comparison with a NaN is false.\<close>

fun less_f64 :: "f64 \<Rightarrow> f64 \<Rightarrow> bool" where
  "less_f64 (Fin a) (Fin b) = (a < b)"
| "less_f64 NaN y = False"
| "less_f64 x NaN = False"
| "less_f64 PInf y = False"
| "less_f64 x PInf = True"
| "less_f64 x NInf = False"
| "less_f64 NInf y = True"

definition less_eq_f64 :: "f64 \<Rightarrow> f64 \<Rightarrow> bool" where
  "less_eq_f64 x y \<longleftrightarrow> x < y \<or> (x = y \<and> x \<noteq> NaN)"

instance ..

end

text \<open>Python's \<open>==\<close> on floats: a NaN differs from itself.\<close>

definition f64_eq :: "f64 \<Rightarrow> f64 \<Rightarrow> bool" where
  "f64_eq x y \<longleftrightarrow> x = y \<and> x \<noteq> NaN"

lemma less_f64_NaN [simp]: "\<not> x < NaN" "\<not> NaN < x"
  by (cases x; simp)+

lemma le_f64_simps [simp]:
  "Fin a \<le> Fin b \<longleftrightarrow> a \<le> b"
  "\<not> NaN \<le> x" "\<not> x \<le> NaN" "Fin a \<le> PInf" "\<not> PInf \<le> Fin a" "NInf \<le> Fin a" "\<not> Fin a \<le> NInf"
  by (auto simp: less_eq_f64_def)

lemma le_PInf [simp]: "x \<le> PInf \<longleftrightarrow> x \<noteq> NaN" and NInf_le [simp]: "NInf \<le> x \<longleftrightarrow> x \<noteq> NaN"
  by (cases x; simp add: less_eq_f64_def)+

lemma less_f64_Fin [simp]: "Fin a < Fin b \<longleftrightarrow> a < b" "NInf < Fin a" "\<not> Fin a < NInf" "Fin a < PInf"
  "\<not> PInf < x"
  by (simp_all, cases x, simp_all)

lemma not_less_f64: "\<not> x < y \<longleftrightarrow> y \<le> x \<or> x = NaN \<or> y = NaN"
  by (cases x; cases y) (auto simp: less_eq_f64_def)

lemma f64_le_trans: "x \<le> y \<Longrightarrow> y \<le> z \<Longrightarrow> x \<le> (z::f64)"
  by (cases x; cases y; cases z) (auto simp: less_eq_f64_def)

lemma rnd_not_NaN [simp]: "rnd q \<noteq> NaN" "NaN \<noteq> rnd q"
  by (simp_all add: rnd_def Let_def)

text \<open>Rounding to a float, overflow included, is monotone.\<close>

lemma rnd_mono:
  assumes "p \<le> q"
  shows "rnd p \<le> rnd q"
proof -
  define r s where rs: "r = rnd_rat p" "s = rnd_rat q"
  have le: "r \<le> s" using rnd_rat_mono [OF assms] by (simp add: rs)
  have pos: "bin_exp r \<le> bin_exp s" if "0 < r" using bin_exp_mono [OF that le] .
  have neg: "bin_exp (- s) \<le> bin_exp (- r)" if "s < 0" using bin_exp_mono [of "- s" "- r"] that le by simp
  show ?thesis
    using le pos neg by (cases r "0::rat" rule: linorder_cases; cases s "0::rat" rule: linorder_cases)
      (auto simp: rnd_def Let_def rs [symmetric] less_eq_f64_def)
qed

lemma f64_minus_Fin [simp]: "Fin a - Fin b = rnd (a - b)"
  by (simp add: minus_f64_def)

text \<open>The builtin \<open>max(a, b)\<close> and \<open>min(a, b)\<close> keep the first argument unless the second is
  strictly better, so a NaN in second place is dropped.\<close>

definition py_max :: "f64 \<Rightarrow> f64 \<Rightarrow> f64" where
  "py_max a b = (if a < b then b else a)"

definition py_min :: "f64 \<Rightarrow> f64 \<Rightarrow> f64" where
  "py_min a b = (if b < a then b else a)"

text \<open>\<open>int / int\<close>: the exact quotient, rounded once; zero divisor and overflow raise.\<close>

definition int_div :: "int \<Rightarrow> int \<Rightarrow> f64 res" where
  "int_div a b =
     (if b = 0 then Raise ZeroDivisionError ''division by zero''
      else case rnd (of_int a / of_int b) of
        Fin q \<Rightarrow> Ret (Fin q)
      | _ \<Rightarrow> Raise OverflowError ''integer division result too large for a float'')"

text \<open>\<open>float(n)\<close> of an int, and the float operand an int becomes in mixed arithmetic.\<close>

definition float_of_int :: "int \<Rightarrow> f64 res" where
  "float_of_int n =
     (case rnd (of_int n) of
        Fin q \<Rightarrow> Ret (Fin q)
      | _ \<Rightarrow> Raise OverflowError ''int too large to convert to float'')"

text \<open>\<open>x / y\<close> of two Python floats.\<close>

definition float_div :: "f64 \<Rightarrow> f64 \<Rightarrow> f64 res" where
  "float_div x y =
     (if y = Fin 0 then Raise ZeroDivisionError ''float division by zero'' else Ret (x div y))"

text \<open>\<open>round(x)\<close> of a float gives an int, ties to even.\<close>

definition py_round :: "f64 \<Rightarrow> int res" where
  "py_round x =
     (case x of
        Fin q \<Rightarrow> Ret (round_even q)
      | NaN \<Rightarrow> Raise ValueError ''cannot convert float NaN to integer''
      | _ \<Rightarrow> Raise OverflowError ''cannot convert float infinity to integer'')"

lemma int_div_nonzero:
  "b \<noteq> 0 \<Longrightarrow> \<bar>of_int a / of_int b :: rat\<bar> \<le> 2 ^ 53 \<Longrightarrow>
     int_div a b = Inr (Fin (rnd_rat (of_int a / of_int b)))"
  by (simp add: int_div_def rnd_small)

section \<open>What the components use of rounding\<close>

locale monotone_rounding =
  fixes r :: "rat \<Rightarrow> rat"
  assumes r_mono: "p \<le> q \<Longrightarrow> r p \<le> r q"
    and r_zero: "r 0 = 0"
    and r_one: "r 1 = 1"
begin

lemma r_nonneg: "0 \<le> q \<Longrightarrow> 0 \<le> r q"
  using r_mono [of 0 q] by (simp add: r_zero)

lemma r_nonpos: "q \<le> 0 \<Longrightarrow> r q \<le> 0"
  using r_mono [of q 0] by (simp add: r_zero)

lemma r_le_one: "q \<le> 1 \<Longrightarrow> r q \<le> 1"
  using r_mono [of q 1] by (simp add: r_one)

lemma r_ge_one: "1 \<le> q \<Longrightarrow> 1 \<le> r q"
  using r_mono [of 1 q] by (simp add: r_one)

text \<open>One minus a ratio, clamped at zero, stays a rate.\<close>

lemma complement_rate: "0 \<le> q \<Longrightarrow> 0 \<le> max 0 (r (1 - r q)) \<and> max 0 (r (1 - r q)) \<le> 1"
  using r_nonneg [of q] r_le_one [of "1 - r q"] by simp

lemma complement_antimono: "p \<le> q \<Longrightarrow> r (1 - r q) \<le> r (1 - r p)"
  by (rule r_mono) (simp add: r_mono)

end

interpretation fl: monotone_rounding rnd_rat
  by unfold_locales (auto simp: rnd_rat_mono)

section \<open>Printing\<close>

text \<open>Decimal digits of a natural number, and \<open>str\<close> of an int.\<close>

fun show_nat :: "nat \<Rightarrow> string" where
  "show_nat n =
     (if n < 10 then [char_of (48 + n)] else show_nat (n div 10) @ [char_of (48 + n mod 10)])"

declare show_nat.simps [simp del]

definition show_int :: "int \<Rightarrow> string" where
  "show_int n = (if n < 0 then ''-'' @ show_nat (nat (- n)) else show_nat (nat n))"

definition pad_left :: "nat \<Rightarrow> string \<Rightarrow> string" where
  "pad_left n s = replicate (n - length s) CHR ''0'' @ s"

text \<open>The format \<open>{x:.nf}\<close>: the exact value to \<open>n\<close> decimals, ties to even.\<close>

definition fmt_fixed :: "nat \<Rightarrow> f64 \<Rightarrow> string" where
  "fmt_fixed n x =
     (case x of
        NaN \<Rightarrow> ''nan''
      | PInf \<Rightarrow> ''inf''
      | NInf \<Rightarrow> ''-inf''
      | Fin q \<Rightarrow>
          let m = nat (round_even (\<bar>q\<bar> * 10 ^ n)); ds = pad_left (Suc n) (show_nat m);
              k = length ds - n
          in (if q < 0 then ''-'' else []) @ take k ds @
             (if n = 0 then [] else ''.'' @ drop k ds))"

text \<open>\<open>repr(x)\<close>: the shortest decimal that rounds back to \<open>x\<close>, nearest first. \<open>dec_exp\<close> is the
  decimal exponent of a positive rational.\<close>

definition dec_exp :: "rat \<Rightarrow> int" where
  "dec_exp q =
     (let k = (bin_exp q * 30103) div 100000
      in if 10 powi (k + 1) \<le> q then k + 1 else if q < 10 powi k then k - 1 else k)"

definition shortest_at :: "rat \<Rightarrow> int \<Rightarrow> nat \<Rightarrow> (int \<times> int) option" where
  "shortest_at q e n =
     (let s = e - (int n - 1); t = q / 10 powi s; lo = \<lfloor>t\<rfloor>; hi = lo + 1;
          ok = (\<lambda>c. rnd_rat (of_int c * 10 powi s) = q)
      in if ok lo \<and> (\<not> ok hi \<or> t - of_int lo \<le> of_int hi - t) then Some (lo, s)
         else if ok hi then Some (hi, s) else None)"

fun first_shortest :: "rat \<Rightarrow> int \<Rightarrow> nat list \<Rightarrow> (int \<times> int) option" where
  "first_shortest q e [] = None"
| "first_shortest q e (n # ns) =
     (case shortest_at q e n of None \<Rightarrow> first_shortest q e ns | Some r \<Rightarrow> Some r)"

definition shortest_dec :: "rat \<Rightarrow> (int \<times> int) option" where
  "shortest_dec q = first_shortest q (dec_exp q) [1..<18]"

definition strip_zeros :: "string \<Rightarrow> string" where
  "strip_zeros s = rev (dropWhile (\<lambda>c. c = CHR ''0'') (rev s))"

definition layout_digits :: "string \<Rightarrow> int \<Rightarrow> string" where
  "layout_digits ds p =
     (if - 4 < p \<and> p \<le> 16 then
        (if p \<le> 0 then ''0.'' @ replicate (nat (- p)) CHR ''0'' @ ds
         else if int (length ds) \<le> p then ds @ replicate (nat p - length ds) CHR ''0'' @ ''.0''
         else take (nat p) ds @ ''.'' @ drop (nat p) ds)
      else
        take 1 ds @ (if length ds = 1 then [] else ''.'' @ drop 1 ds) @ ''e'' @
        (if p - 1 < 0 then ''-'' else ''+'') @ pad_left 2 (show_nat (nat \<bar>p - 1\<bar>)))"

definition repr_f64 :: "f64 \<Rightarrow> string" where
  "repr_f64 x =
     (case x of
        NaN \<Rightarrow> ''nan''
      | PInf \<Rightarrow> ''inf''
      | NInf \<Rightarrow> ''-inf''
      | Fin q \<Rightarrow>
          if q = 0 then ''0.0''
          else case shortest_dec \<bar>q\<bar> of
            None \<Rightarrow> []
          | Some (c, s) \<Rightarrow>
              let full = show_int c
              in (if q < 0 then ''-'' else []) @
                 layout_digits (strip_zeros full) (int (length full) + s))"

text \<open>The format \<open>{x:g}\<close>: six significant digits, trailing zeros dropped.\<close>

definition fmt_g :: "f64 \<Rightarrow> string" where
  "fmt_g x =
     (case x of
        NaN \<Rightarrow> ''nan''
      | PInf \<Rightarrow> ''inf''
      | NInf \<Rightarrow> ''-inf''
      | Fin q \<Rightarrow>
          if q = 0 then ''0''
          else
            let e0 = dec_exp \<bar>q\<bar>; m0 = round_even (\<bar>q\<bar> / 10 powi (e0 - 5));
                e = (if m0 = 1000000 then e0 + 1 else e0); m = (if m0 = 1000000 then 100000 else m0);
                ds = strip_zeros (show_int m); n = int (length ds)
            in (if q < 0 then ''-'' else []) @
               (if e < - 4 \<or> 6 \<le> e
                then take 1 ds @ (if n = 1 then [] else ''.'' @ drop 1 ds) @ ''e'' @
                     (if e < 0 then ''-'' else ''+'') @ pad_left 2 (show_nat (nat \<bar>e\<bar>))
                else if e < 0 then ''0.'' @ replicate (nat (- e - 1)) CHR ''0'' @ ds
                else if n \<le> e + 1 then ds @ replicate (nat (e + 1 - n)) CHR ''0''
                else take (nat (e + 1)) ds @ ''.'' @ drop (nat (e + 1)) ds))"

end
