(* ===== verification/Py_Values.thy ===== *)
theory Py_Values
  imports Float64
begin

text \<open>
  The dynamically typed values that reach the program from JSON and YAML documents and from CSV
  rows, with the Python operations the program applies to them: \<open>==\<close>, truth value, \<open>str\<close>,
  \<open>int(...)\<close>, \<open>float(...)\<close>, subscription, \<open>in\<close>. Documents are modelled from the parsed value on
  (\<open>json.loads\<close>, \<open>yaml.safe_load\<close> and \<open>csv.DictReader\<close> are library code); a file is absent,
  unparsable, or holds a value.
\<close>

section \<open>Values\<close>

datatype pyval =
    PNone
  | PBool bool
  | PInt int
  | PFloat f64
  | PStr string
  | PList "pyval list"
  | PDict "(string \<times> pyval) list"

fun is_str :: "pyval \<Rightarrow> bool" where
  "is_str (PStr s) = True"
| "is_str v = False"

fun is_bool :: "pyval \<Rightarrow> bool" where
  "is_bool (PBool b) = True"
| "is_bool v = False"

fun is_dict :: "pyval \<Rightarrow> bool" where
  "is_dict (PDict d) = True"
| "is_dict v = False"

lemma is_str_iff: "is_str v \<longleftrightarrow> (\<exists>s. v = PStr s)"
  by (cases v) auto

lemma is_bool_iff: "is_bool v \<longleftrightarrow> (\<exists>b. v = PBool b)"
  by (cases v) auto

lemma is_dict_iff: "is_dict v \<longleftrightarrow> (\<exists>d. v = PDict d)"
  by (cases v) auto

text \<open>Truth value: \<open>if v\<close>.\<close>

fun truthy :: "pyval \<Rightarrow> bool" where
  "truthy PNone = False"
| "truthy (PBool b) = b"
| "truthy (PInt n) = (n \<noteq> 0)"
| "truthy (PFloat x) = (x \<noteq> Fin 0)"
| "truthy (PStr s) = (s \<noteq> [])"
| "truthy (PList xs) = (xs \<noteq> [])"
| "truthy (PDict d) = (d \<noteq> [])"

text \<open>Numbers compare by exact value across \<open>bool\<close>, \<open>int\<close> and \<open>float\<close>; anything else
  structurally.\<close>

fun num_value :: "pyval \<Rightarrow> f64 option" where
  "num_value (PBool b) = Some (Fin (if b then 1 else 0))"
| "num_value (PInt n) = Some (Fin (of_int n))"
| "num_value (PFloat x) = Some x"
| "num_value v = None"

definition py_eq :: "pyval \<Rightarrow> pyval \<Rightarrow> bool" where
  "py_eq a b =
     (case (num_value a, num_value b) of
        (Some x, Some y) \<Rightarrow> f64_eq x y
      | (None, None) \<Rightarrow> a = b
      | _ \<Rightarrow> False)"

lemma py_eq_PStr [simp]: "py_eq v (PStr s) \<longleftrightarrow> v = PStr s" "py_eq (PStr s) v \<longleftrightarrow> v = PStr s"
  by (cases v; auto simp: py_eq_def)+

lemma py_eq_PNone [simp]: "py_eq v PNone \<longleftrightarrow> v = PNone"
  by (cases v) (auto simp: py_eq_def)

text \<open>Membership of a string in a container: a key of a dictionary, an element of a list, a
  substring of a string; any other type raises.\<close>

definition str_in :: "string \<Rightarrow> pyval \<Rightarrow> bool res" where
  "str_in k v =
     (case v of
        PDict d \<Rightarrow> Ret (k \<in> set (map fst d))
      | PList xs \<Rightarrow> Ret (PStr k \<in> set xs)
      | PStr s \<Rightarrow> Ret (has_infix s k)
      | _ \<Rightarrow> Raise TypeError ''argument is not iterable'')"

text \<open>Membership of a value in a tuple of strings, and in a frozenset of strings (whose elements
  are hashed first).\<close>

definition in_strs :: "pyval \<Rightarrow> string list \<Rightarrow> bool" where
  "in_strs v ss \<longleftrightarrow> list_ex (\<lambda>s. py_eq v (PStr s)) ss"

lemma in_strs_iff: "in_strs v ss \<longleftrightarrow> (\<exists>s \<in> set ss. v = PStr s)"
  by (auto simp: in_strs_def list_ex_iff)

fun hashable :: "pyval \<Rightarrow> bool" where
  "hashable (PList xs) = False"
| "hashable (PDict d) = False"
| "hashable v = True"

definition in_strset :: "pyval \<Rightarrow> string list \<Rightarrow> bool res" where
  "in_strset v ss = (if hashable v then Ret (in_strs v ss) else Raise TypeError ''unhashable type'')"

text \<open>\<open>v[k]\<close> and \<open>v.get(k)\<close> with a string key.\<close>

definition getitem :: "pyval \<Rightarrow> string \<Rightarrow> pyval res" where
  "getitem v k =
     (case v of
        PDict d \<Rightarrow> (case map_of d k of None \<Rightarrow> Raise KeyError k | Some x \<Rightarrow> Ret x)
      | _ \<Rightarrow> Raise TypeError ''indices must be integers'')"

definition get_or :: "pyval \<Rightarrow> string \<Rightarrow> pyval \<Rightarrow> pyval res" where
  "get_or v k dflt =
     (case v of
        PDict d \<Rightarrow> Ret (case map_of d k of None \<Rightarrow> dflt | Some x \<Rightarrow> x)
      | _ \<Rightarrow> Raise AttributeError ''get'')"

text \<open>Iterating a value: the keys of a dictionary, the elements of a list, the characters of a
  string.\<close>

definition py_iter :: "pyval \<Rightarrow> pyval list res" where
  "py_iter v =
     (case v of
        PList xs \<Rightarrow> Ret xs
      | PDict d \<Rightarrow> Ret (map (PStr \<circ> fst) d)
      | PStr s \<Rightarrow> Ret (map (\<lambda>c. PStr [c]) s)
      | _ \<Rightarrow> Raise TypeError ''object is not iterable'')"

section \<open>Printing\<close>

definition hex_digit :: "nat \<Rightarrow> char" where
  "hex_digit n = (if n < 10 then char_of (48 + n) else char_of (87 + n))"

definition escape_char :: "char \<Rightarrow> char \<Rightarrow> string" where
  "escape_char q c =
     (if c = q \<or> c = CHR 0x5C then [CHR 0x5C, c]
      else if c = CHR 0x0A then [CHR 0x5C, CHR ''n'']
      else if c = CHR 0x0D then [CHR 0x5C, CHR ''r'']
      else if c = CHR 0x09 then [CHR 0x5C, CHR ''t'']
      else let n = of_char c :: nat in
        if n < 32 \<or> n = 127 then [CHR 0x5C, CHR ''x'', hex_digit (n div 16), hex_digit (n mod 16)]
        else [c])"

definition repr_str :: "string \<Rightarrow> string" where
  "repr_str s =
     (let q = (if CHR 0x27 \<in> set s \<and> CHR 0x22 \<notin> set s then CHR 0x22 else CHR 0x27)
      in [q] @ concat (map (escape_char q) s) @ [q])"

fun py_repr :: "pyval \<Rightarrow> string" where
  "py_repr PNone = ''None''"
| "py_repr (PBool b) = (if b then ''True'' else ''False'')"
| "py_repr (PInt n) = show_int n"
| "py_repr (PFloat x) = repr_f64 x"
| "py_repr (PStr s) = repr_str s"
| "py_repr (PList xs) = ''['' @ join '', '' (map py_repr xs) @ '']''"
| "py_repr (PDict d) =
     ''{'' @ join '', '' (map (\<lambda>p. repr_str (fst p) @ '': '' @ py_repr (snd p)) d) @ ''}''"

definition py_str :: "pyval \<Rightarrow> string" where
  "py_str v = (case v of PStr s \<Rightarrow> s | _ \<Rightarrow> py_repr v)"

lemma py_str_PStr [simp]: "py_str (PStr s) = s"
  by (simp add: py_str_def)

section \<open>Parsing numbers\<close>

definition is_space :: "char \<Rightarrow> bool" where
  "is_space c \<longleftrightarrow> c = CHR '' '' \<or> (let n = of_char c :: nat in 9 \<le> n \<and> n \<le> 13 \<or> 28 \<le> n \<and> n \<le> 31 \<or> n = 133 \<or> n = 160)"

definition strip :: "string \<Rightarrow> string" where
  "strip s = rev (dropWhile is_space (rev (dropWhile is_space s)))"

definition digit_of :: "char \<Rightarrow> nat option" where
  "digit_of c = (let n = of_char c :: nat in if 48 \<le> n \<and> n \<le> 57 then Some (n - 48) else None)"

text \<open>A non-empty run of digits, single underscores allowed between two of them.\<close>

fun scan_digits :: "nat \<Rightarrow> bool \<Rightarrow> string \<Rightarrow> nat option" where
  "scan_digits acc after_digit [] = (if after_digit then Some acc else None)"
| "scan_digits acc after_digit (c # s) =
     (case digit_of c of
        Some d \<Rightarrow> scan_digits (acc * 10 + d) True s
      | None \<Rightarrow> if c = CHR ''_'' \<and> after_digit then scan_digits acc False s else None)"

fun split_sign :: "string \<Rightarrow> bool \<times> string" where
  "split_sign (CHR ''-'' # s) = (True, s)"
| "split_sign (CHR ''+'' # s) = (False, s)"
| "split_sign s = (False, s)"

definition parse_int :: "string \<Rightarrow> int option" where
  "parse_int s =
     (let (neg, ds) = split_sign (strip s)
      in map_option (\<lambda>n. if neg then - int n else int n) (scan_digits 0 False ds))"

definition lower :: "char \<Rightarrow> char" where
  "lower c = (let n = of_char c :: nat in if 65 \<le> n \<and> n \<le> 90 then char_of (n + 32) else c)"

text \<open>A decimal literal \<open>ddd.ddd\<close> with an optional exponent, as an exact rational.\<close>

definition parse_mantissa :: "string \<Rightarrow> rat option" where
  "parse_mantissa s =
     (let ip = takeWhile (\<lambda>c. c \<noteq> CHR ''.'') s; rest = dropWhile (\<lambda>c. c \<noteq> CHR ''.'') s;
          fp = drop 1 rest; k = length (filter (\<lambda>c. c \<noteq> CHR ''_'') fp);
          part = (\<lambda>ds. if ds = [] then Some 0 else scan_digits 0 False ds)
      in if ip = [] \<and> fp = [] then None
         else case (part ip, part fp) of
           (Some a, Some b) \<Rightarrow> Some (of_nat a + of_nat b / 10 ^ k)
         | _ \<Rightarrow> None)"

definition parse_float :: "string \<Rightarrow> f64 option" where
  "parse_float s =
     (let (neg, body) = split_sign (strip s); w = map lower body
      in if w = ''inf'' \<or> w = ''infinity'' then Some (if neg then NInf else PInf)
         else if w = ''nan'' then Some NaN
         else
           let m = takeWhile (\<lambda>c. c \<noteq> CHR ''e'') w; rest = dropWhile (\<lambda>c. c \<noteq> CHR ''e'') w;
               ex = (if rest = [] then Some 0
                     else let (eneg, es) = split_sign (drop 1 rest)
                          in map_option (\<lambda>n. if eneg then - int n else int n) (scan_digits 0 False es))
           in case (parse_mantissa m, ex) of
                (Some q, Some e) \<Rightarrow> Some (rnd ((if neg then - q else q) * 10 powi e))
              | _ \<Rightarrow> None)"

text \<open>\<open>int(v)\<close> and \<open>float(v)\<close>.\<close>

definition truncate_rat :: "rat \<Rightarrow> int" where
  "truncate_rat q = (if 0 \<le> q then \<lfloor>q\<rfloor> else \<lceil>q\<rceil>)"

definition py_int :: "pyval \<Rightarrow> int res" where
  "py_int v =
     (case v of
        PInt n \<Rightarrow> Ret n
      | PBool b \<Rightarrow> Ret (if b then 1 else 0)
      | PFloat (Fin q) \<Rightarrow> Ret (truncate_rat q)
      | PFloat NaN \<Rightarrow> Raise ValueError ''cannot convert float NaN to integer''
      | PFloat _ \<Rightarrow> Raise OverflowError ''cannot convert float infinity to integer''
      | PStr s \<Rightarrow> (case parse_int s of
            None \<Rightarrow> Raise ValueError ''invalid literal for int()''
          | Some n \<Rightarrow> Ret n)
      | _ \<Rightarrow> Raise TypeError ''int() argument'')"

definition py_float :: "pyval \<Rightarrow> f64 res" where
  "py_float v =
     (case v of
        PFloat x \<Rightarrow> Ret x
      | PInt n \<Rightarrow> float_of_int n
      | PBool b \<Rightarrow> Ret (Fin (if b then 1 else 0))
      | PStr s \<Rightarrow> (case parse_float s of
            None \<Rightarrow> Raise ValueError ''could not convert string to float''
          | Some x \<Rightarrow> Ret x)
      | _ \<Rightarrow> Raise TypeError ''float() argument'')"

lemma py_int_PInt [simp]: "py_int (PInt n) = Inr n"
  by (simp add: py_int_def)

lemma py_float_PFloat [simp]: "py_float (PFloat x) = Inr x"
  by (simp add: py_float_def)

text \<open>\<open>int(str(n)) = n\<close>.\<close>

lemma digit_of_char [simp]: "d < 10 \<Longrightarrow> digit_of (char_of (48 + d)) = Some d"
  by (simp add: digit_of_def)

lemma scan_digits_snoc:
  "scan_digits acc b xs = Some n \<Longrightarrow> d < 10 \<Longrightarrow>
     scan_digits acc b (xs @ [char_of (48 + d)]) = Some (n * 10 + d)"
  by (induction xs arbitrary: acc b) (auto split: option.splits if_splits)

lemma scan_show_nat: "scan_digits 0 False (show_nat n) = Some n"
proof (induction n rule: show_nat.induct)
  case (1 n)
  show ?case
  proof (cases "n < 10")
    case True
    then show ?thesis by (simp add: show_nat.simps [of n])
  next
    case False
    with 1 have "scan_digits 0 False (show_nat (n div 10)) = Some (n div 10)" by simp
    then have "scan_digits 0 False (show_nat (n div 10) @ [char_of (48 + n mod 10)]) =
        Some (n div 10 * 10 + n mod 10)"
      by (rule scan_digits_snoc) simp
    with False show ?thesis by (simp add: show_nat.simps [of n])
  qed
qed

text \<open>\<open>s.splitlines()\<close>: the line boundaries of \<open>str\<close> among the first 256 code points; a carriage
  return and line feed pair is one boundary.\<close>

definition is_linebreak :: "char \<Rightarrow> bool" where
  "is_linebreak c \<longleftrightarrow> (let n = of_char c :: nat in 10 \<le> n \<and> n \<le> 13 \<or> 28 \<le> n \<and> n \<le> 30 \<or> n = 133)"

function split_lines :: "string \<Rightarrow> string \<Rightarrow> string list" where
  "split_lines cur [] = (if cur = [] then [] else [rev cur])"
| "split_lines cur (c # s) =
     (if is_linebreak c
      then rev cur # split_lines [] (if c = CHR 0x0D \<and> s \<noteq> [] \<and> hd s = CHR 0x0A then tl s else s)
      else split_lines (c # cur) s)"
  by pat_completeness auto
termination
  by (relation "measure (\<lambda>(cur, s). length s)") auto

definition splitlines :: "string \<Rightarrow> string list" where
  "splitlines s = split_lines [] s"

text \<open>Joining lines that hold no boundary with line feeds and splitting again gives them back.\<close>

lemma split_lines_line:
  "list_all (\<lambda>c. \<not> is_linebreak c) line \<Longrightarrow>
     split_lines cur (line @ CHR 0x0A # s) = (rev cur @ line) # split_lines [] s"
  by (induction line arbitrary: cur) (auto simp: is_linebreak_def)

section \<open>Files\<close>

datatype jfile = JAbsent | JBad | JDoc pyval

definition read_json :: "jfile \<Rightarrow> pyval res" where
  "read_json f =
     (case f of
        JAbsent \<Rightarrow> Raise FileNotFoundError ''no such file''
      | JBad \<Rightarrow> Raise JSONDecodeError ''not JSON''
      | JDoc v \<Rightarrow> Ret v)"

text \<open>A CSV file as \<open>csv.DictReader\<close> yields it: one dictionary per row from the header's column
  names to the cell's text, \<open>None\<close> for a cell the row is too short to have.\<close>

type_synonym csv_row = "(string \<times> string option) list"

datatype csv_file = CAbsent | CRows "csv_row list"

definition read_rows :: "csv_file \<Rightarrow> csv_row list res" where
  "read_rows f =
     (case f of CAbsent \<Rightarrow> Raise FileNotFoundError ''no such file'' | CRows rs \<Rightarrow> Ret rs)"

definition cell_value :: "csv_row \<Rightarrow> string \<Rightarrow> pyval res" where
  "cell_value row c =
     (case map_of row c of
        None \<Rightarrow> Raise KeyError c
      | Some None \<Rightarrow> Ret PNone
      | Some (Some s) \<Rightarrow> Ret (PStr s))"

end
