(* ===== verification/Kit_Pose.thy ===== *)
theory Kit_Pose
  imports Kit
begin

text \<open>
  The transform algebra of \<^verbatim>\<open>runner/kit.py\<close>: rotation matrices, their product, the extraction of the
  angles, and the attach location and rotation of a sensor. Matrices are the code's tuples of
  tuples over the reals; the two generator sums are sums over \<open>range(3)\<close>.
\<close>

type_synonym vec3 = "real \<times> real \<times> real"
type_synonym mat3 = "vec3 \<times> vec3 \<times> vec3"

definition tuple3 :: "(nat \<Rightarrow> 'a) \<Rightarrow> 'a \<times> 'a \<times> 'a" where
  "tuple3 f = (f 0, f 1, f 2)"

fun nth3 :: "'a \<times> 'a \<times> 'a \<Rightarrow> nat \<Rightarrow> 'a" where
  "nth3 (a, b, c) i = (if i = 0 then a else if i = 1 then b else c)"

definition sum3 :: "(nat \<Rightarrow> real) \<Rightarrow> real" where
  "sum3 f = sum_list (map f [0..<3])"

lemma sum3_simp [simp]: "sum3 f = f 0 + f 1 + f 2"
  by (simp add: sum3_def numeral_3_eq_3 numeral_2_eq_2)

abbreviation entry :: "mat3 \<Rightarrow> nat \<Rightarrow> nat \<Rightarrow> real" where
  "entry m i j \<equiv> nth3 (nth3 m i) j"

definition rotation_matrix :: "real \<Rightarrow> real \<Rightarrow> real \<Rightarrow> mat3" where
  "rotation_matrix roll pitch yaw =
     (let cr = cos roll; sr = sin roll; cp = cos pitch; sp = sin pitch; cy = cos yaw; sy = sin yaw
      in ((cy * cp, cy * sp * sr - sy * cr, cy * sp * cr + sy * sr),
          (sy * cp, sy * sp * sr + cy * cr, sy * sp * cr - cy * sr),
          (- sp, cp * sr, cp * cr)))"

definition mat_apply :: "mat3 \<Rightarrow> vec3 \<Rightarrow> vec3" where
  "mat_apply matrix vec = tuple3 (\<lambda>i. sum3 (\<lambda>k. entry matrix i k * nth3 vec k))"

definition matmul :: "mat3 \<Rightarrow> mat3 \<Rightarrow> mat3" where
  "matmul a b = tuple3 (\<lambda>i. tuple3 (\<lambda>j. sum3 (\<lambda>k. entry a i k * entry b k j)))"

definition rpy_from_matrix :: "mat3 \<Rightarrow> real \<times> real \<times> real" where
  "rpy_from_matrix matrix =
     (let cos_pitch = hypot (entry matrix 0 0) (entry matrix 1 0)
      in if 1 / 10 ^ 9 < cos_pitch
         then (atan2 (entry matrix 2 1) (entry matrix 2 2),
               atan2 (- entry matrix 2 0) cos_pitch,
               atan2 (entry matrix 1 0) (entry matrix 0 0))
         else (atan2 (- entry matrix 1 2) (entry matrix 1 1),
               atan2 (- entry matrix 2 0) cos_pitch,
               0))"

text \<open>The real numbers a transform's floats denote. An infinite angle makes \<open>math.cos\<close> raise
  ValueError; an infinite offset or a NaN entry, which no calibration holds, is treated the same way.\<close>

definition finite_f64 :: "f64 \<Rightarrow> real res" where
  "finite_f64 x = (case x of Fin q \<Rightarrow> Ret (real_of_rat q) | _ \<Rightarrow> Raise ValueError ''math domain error'')"

definition offset_of :: "transform6 \<Rightarrow> vec3 res" where
  "offset_of t =
     bindE (finite_f64 (t_x t)) (\<lambda>x. bindE (finite_f64 (t_y t)) (\<lambda>y. bindE (finite_f64 (t_z t)) (\<lambda>z.
       Ret (x, y, z))))"

definition mount_of :: "transform6 \<Rightarrow> mat3 res" where
  "mount_of t =
     bindE (finite_f64 (t_roll t)) (\<lambda>r. bindE (finite_f64 (t_pitch t)) (\<lambda>p. bindE (finite_f64 (t_yaw t)) (\<lambda>y.
       Ret (rotation_matrix r p y))))"

text \<open>\<open>kit.kit_to_sensor[sensor_frame]\<close>.\<close>

definition sensor_of :: "kit_config \<Rightarrow> string \<Rightarrow> transform6 res" where
  "sensor_of kit frame =
     (case map_of (kit_to_sensor kit) frame of None \<Rightarrow> Raise KeyError frame | Some t \<Rightarrow> Ret t)"

definition sensor_in_base_link :: "kit_config \<Rightarrow> string \<Rightarrow> vec3 res" where
  "sensor_in_base_link kit sensor_frame =
     (let bk = base_to_kit kit
      in bindE (sensor_of kit sensor_frame) (\<lambda>sensor.
         bindE (mount_of bk) (\<lambda>rot.
         bindE (offset_of sensor) (\<lambda>s.
         bindE (offset_of bk) (\<lambda>b.
           case mat_apply rot s of (rx, ry, rz) \<Rightarrow>
             Ret (nth3 b 0 + rx, nth3 b 1 + ry, nth3 b 2 + rz))))))"

definition sensor_rotation_in_base_link :: "kit_config \<Rightarrow> string \<Rightarrow> (real \<times> real \<times> real) res" where
  "sensor_rotation_in_base_link kit sensor_frame =
     bindE (sensor_of kit sensor_frame) (\<lambda>sensor.
     bindE (mount_of (base_to_kit kit)) (\<lambda>rb.
     bindE (mount_of sensor) (\<lambda>rs.
       Ret (rpy_from_matrix (matmul rb rs)))))"

definition ros_rpy_to_carla_rotation :: "real \<Rightarrow> real \<Rightarrow> real \<Rightarrow> real \<times> real \<times> real" where
  "ros_rpy_to_carla_rotation roll pitch yaw = (degrees roll, - degrees pitch, - degrees yaw)"

definition carla_attach_rotation :: "kit_config \<Rightarrow> string \<Rightarrow> (real \<times> real \<times> real) res" where
  "carla_attach_rotation kit sensor_frame =
     bindE (sensor_rotation_in_base_link kit sensor_frame) (\<lambda>(roll, pitch, yaw).
       Ret (ros_rpy_to_carla_rotation roll pitch yaw))"

definition carla_attach_location :: "kit_config \<Rightarrow> string \<Rightarrow> vec3 res" where
  "carla_attach_location kit sensor_frame = sensor_in_base_link kit sensor_frame"

section \<open>Rotations\<close>

text \<open>A rotation: its first two columns are orthonormal and the third is their cross product.\<close>

definition is_rotation :: "mat3 \<Rightarrow> bool" where
  "is_rotation m \<longleftrightarrow>
     (case m of ((a, b, c), (d, e, f), (g, h, i)) \<Rightarrow>
        a * a + d * d + g * g = 1 \<and> b * b + e * e + h * h = 1 \<and> a * b + d * e + g * h = 0 \<and>
        c = d * h - g * e \<and> f = g * b - a * h \<and> i = a * e - d * b)"

lemma sin_cos_unit: "sin x * sin x + cos x * cos x = (1::real)"
  using sin_cos_squared_add [of x] by (simp add: power2_eq_square)

lemma rotation_matrix_is_rotation [simp]: "is_rotation (rotation_matrix r p y)"
proof -
  note u = sin_cos_unit [of r] sin_cos_unit [of p] sin_cos_unit [of y]
  show ?thesis
    unfolding is_rotation_def rotation_matrix_def Let_def case_prod_conv
    by (intro conjI; insert u; algebra)
qed

lemma matmul_expand:
  "matmul ((a, b, c), (d, e, f), (g, h, i)) ((a', b', c'), (d', e', f'), (g', h', i')) =
     ((a * a' + b * d' + c * g', a * b' + b * e' + c * h', a * c' + b * f' + c * i'),
      (d * a' + e * d' + f * g', d * b' + e * e' + f * h', d * c' + e * f' + f * i'),
      (g * a' + h * d' + i * g', g * b' + h * e' + i * h', g * c' + h * f' + i * i'))"
  by (simp add: matmul_def tuple3_def)

lemma rotation_rows:
  assumes "is_rotation ((a, b, c), (d, e, f), (g, h, i))"
  shows "g * g + h * h + i * i = 1" "d * d + e * e + f * f = 1" "a * c + d * f + g * i = 0"
    "b * c + e * f + h * i = 0" "c * c + f * f + i * i = 1"
  using assms unfolding is_rotation_def case_prod_conv by algebra+

lemma rotation_cofactors:
  assumes "is_rotation ((a, b, c), (d, e, f), (g, h, i))"
  shows "a = e * i - h * f" "b = g * f - d * i" "d = h * c - b * i" "e = a * i - g * c"
    "g = b * f - e * c" "h = d * c - a * f"
  using assms unfolding is_rotation_def case_prod_conv by algebra+

text \<open>A rotation keeps inner products and cross products, so the columns of a product of rotations
  are orthonormal and right-handed again.\<close>

lemma rotation_inner:
  assumes "is_rotation ((a, b, c), (d, e, f), (g, h, i))"
  shows "(a * x + b * y + c * z) * (a * x' + b * y' + c * z') +
    (d * x + e * y + f * z) * (d * x' + e * y' + f * z') +
    (g * x + h * y + i * z) * (g * x' + h * y' + i * z') = x * x' + y * y' + z * z'" (is "?l = _")
proof -
  have "?l = x * x' * (a * a + d * d + g * g) + y * y' * (b * b + e * e + h * h) +
      z * z' * (c * c + f * f + i * i) + (x * y' + y * x') * (a * b + d * e + g * h) +
      (x * z' + z * x') * (a * c + d * f + g * i) + (y * z' + z * y') * (b * c + e * f + h * i)"
    by (simp add: algebra_simps)
  moreover have "a * a + d * d + g * g = 1" "b * b + e * e + h * h = 1" "a * b + d * e + g * h = 0"
    using assms by (simp_all add: is_rotation_def)
  ultimately show ?thesis by (simp add: rotation_rows [OF assms])
qed

lemma cross_row:
  fixes x y z :: real
  assumes "r3 = p1 * q2 - q1 * p2" "r2 = q1 * p3 - p1 * q3" "r1 = p2 * q3 - q2 * p3"
  shows "r1 * (y * z' - z * y') + r2 * (z * x' - x * z') + r3 * (x * y' - y * x') =
    (p1 * x + p2 * y + p3 * z) * (q1 * x' + q2 * y' + q3 * z') -
    (q1 * x + q2 * y + q3 * z) * (p1 * x' + p2 * y' + p3 * z')"
  by (simp add: assms algebra_simps)

lemma is_rotation_matmul:
  assumes "is_rotation m" "is_rotation n"
  shows "is_rotation (matmul m n)"
proof -
  obtain a b c d e f g h i where m: "m = ((a, b, c), (d, e, f), (g, h, i))" by (cases m) auto
  obtain a' b' c' d' e' f' g' h' i' where n: "n = ((a', b', c'), (d', e', f'), (g', h', i'))"
    by (cases n) auto
  note rm = assms(1) [unfolded m] and rn = assms(2) [unfolded n]
  note B = rn [unfolded is_rotation_def case_prod_conv]
  note C = rotation_cofactors [OF rm]
  have A: "c = d * h - g * e" "f = g * b - a * h" "i = a * e - d * b"
    using rm unfolding is_rotation_def case_prod_conv by blast+
  have v: "c' = d' * h' - g' * e'" "f' = g' * b' - a' * h'" "i' = a' * e' - d' * b'"
    using B by blast+
  have "a * c' + b * f' + c * i' = (d * a' + e * d' + f * g') * (g * b' + h * e' + i * h') -
      (g * a' + h * d' + i * g') * (d * b' + e * e' + f * h')"
    unfolding v by (rule cross_row [OF A(1) C(2) C(1)])
  moreover have "d * c' + e * f' + f * i' = (g * a' + h * d' + i * g') * (a * b' + b * e' + c * h') -
      (a * a' + b * d' + c * g') * (g * b' + h * e' + i * h')"
    unfolding v by (rule cross_row [OF A(2) C(4) C(3)])
  moreover have "g * c' + h * f' + i * i' = (a * a' + b * d' + c * g') * (d * b' + e * e' + f * h') -
      (d * a' + e * d' + f * g') * (a * b' + b * e' + c * h')"
    unfolding v by (rule cross_row [OF A(3) C(6) C(5)])
  ultimately show ?thesis
    using B unfolding m n matmul_expand is_rotation_def case_prod_conv rotation_inner [OF rm] by blast
qed

section \<open>Extraction inverts construction\<close>

lemma rotation_matrix_entries [simp]:
  "entry (rotation_matrix r p y) 0 0 = cos y * cos p" "entry (rotation_matrix r p y) 1 0 = sin y * cos p"
  "entry (rotation_matrix r p y) 2 0 = - sin p" "entry (rotation_matrix r p y) 2 1 = cos p * sin r"
  "entry (rotation_matrix r p y) 2 2 = cos p * cos r"
  by (simp_all add: rotation_matrix_def Let_def)

lemmas rotation_matrix_entries_Suc [simp] = rotation_matrix_entries [unfolded One_nat_def]

lemma hypot_polar: "0 \<le> r \<Longrightarrow> hypot (cos t * r) (sin t * r) = r"
proof -
  have "cos t * r * (cos t * r) + sin t * r * (sin t * r) = r * r * ((sin t)\<^sup>2 + (cos t)\<^sup>2)"
    by algebra
  then show "0 \<le> r \<Longrightarrow> ?thesis" by (simp add: hypot_def)
qed

text \<open>C7: Off the gimbal singularity the extraction is the exact inverse of the matrix construction,
  for every roll and yaw in \<open>(-pi, pi]\<close> and every pitch strictly between the poles.\<close>

theorem rpy_roundtrip:
  assumes "1 / 10 ^ 9 < cos p" "- (pi / 2) < p" "p < pi / 2"
    "- pi < r" "r \<le> pi" "- pi < y" "y \<le> pi"
  shows "rpy_from_matrix (rotation_matrix r p y) = (r, p, y)"
proof -
  have c: "0 < cos p" using assms(1) by (rule less_trans [rotated]) simp
  then have h: "hypot (cos y * cos p) (sin y * cos p) = cos p" by (simp add: hypot_polar)
  have "atan2 (cos p * sin r) (cos p * cos r) = r" "atan2 (cos p * sin y) (cos p * cos y) = y"
    using c assms by (simp_all add: atan2_polar)
  moreover have "atan2 (sin p) (cos p) = p" using atan2_polar [of 1 p] assms by simp
  ultimately show ?thesis
    using assms(1) unfolding rpy_from_matrix_def rotation_matrix_entries h Let_def
    by (simp add: mult.commute)
qed

theorem rpy_roundtrip_witness:
  "rpy_from_matrix (rotation_matrix pi 0 (- (pi / 2))) = (pi, 0, - (pi / 2))"
  using rpy_roundtrip [of 0 pi "- (pi / 2)"] pi_gt_zero by simp

lemma rotation_first_column:
  assumes "is_rotation ((a, b, c), (d, e, f), (g, h, i))"
  shows "hypot (hypot a d) (- g) = 1" "hypot h i = hypot a d"
proof -
  have "hypot a d * hypot a d + (- g) * (- g) = 1"
    using assms by (simp add: hypot_square is_rotation_def)
  then show "hypot (hypot a d) (- g) = 1" by (subst hypot_def) (simp only: real_sqrt_one)
  have "h * h + i * i = a * a + d * d"
    using rotation_rows(1) [OF assms] assms by (simp add: is_rotation_def)
  then show "hypot h i = hypot a d" by (simp add: hypot_def)
qed

text \<open>Rebuilding from extracted angles, first off the singularity and then exactly on it.\<close>

lemma rebuild_regular:
  assumes "is_rotation ((a, b, c), (d, e, f), (g, h, i))" "0 < hypot a d"
  shows "rotation_matrix (atan2 h i) (atan2 (- g) (hypot a d)) (atan2 d a) =
    ((a, b, c), (d, e, f), (g, h, i))"
proof -
  let ?c = "hypot a d"
  note one = rotation_first_column [OF assms(1)]
  have cp: "cos (atan2 (- g) ?c) = ?c" and sp: "sin (atan2 (- g) ?c) = - g"
    using cos_atan2 [of ?c "- g"] sin_atan2 [where x = ?c and y = "- g"] by (simp_all only: one mult_1)
  have y: "?c * cos (atan2 d a) = a" "?c * sin (atan2 d a) = d" by (rule cos_atan2 sin_atan2)+
  have r: "?c * cos (atan2 h i) = i" "?c * sin (atan2 h i) = h"
    using cos_atan2 [of i h] sin_atan2 [where x = i and y = h] one(2)
    by (simp_all add: hypot_def add.commute)
  define cy sy cr sr where "cy = cos (atan2 d a)" "sy = sin (atan2 d a)" "cr = cos (atan2 h i)" "sr = sin (atan2 h i)"
  note q = y [folded cy_sy_cr_sr_def] r [folded cy_sy_cr_sr_def]
  have cc: "?c * ?c = a * a + d * d" by (rule hypot_square)
  note R = assms(1) [unfolded is_rotation_def case_prod_conv] and C = rotation_cofactors [OF assms(1)]
  have nz: "?c * ?c \<noteq> 0" using assms(2) by (auto simp del: hypot_0_iff)
  have scale: "x = z" if "?c * ?c * x = (a * a + d * d) * z" for x z
    using that nz unfolding cc by (simp only: mult_cancel_left) blast
  have ac: "a * c + d * f + g * i = 0" by (rule rotation_rows(3) [OF assms(1)])
  have "cy * (- g) * sr - sy * cr = b"
  proof (rule scale)
    have "?c * ?c * (cy * (- g) * sr - sy * cr) = (?c * cy) * (- g) * (?c * sr) - (?c * sy) * (?c * cr)"
      by algebra
    then show "?c * ?c * (cy * (- g) * sr - sy * cr) = (a * a + d * d) * b"
      unfolding q using R by algebra
  qed
  moreover have "cy * (- g) * cr + sy * sr = c"
  proof (rule scale)
    have "?c * ?c * (cy * (- g) * cr + sy * sr) = (?c * cy) * (- g) * (?c * cr) + (?c * sy) * (?c * sr)"
      by algebra
    then show "?c * ?c * (cy * (- g) * cr + sy * sr) = (a * a + d * d) * c"
      unfolding q using R ac by algebra
  qed
  moreover have "sy * (- g) * sr + cy * cr = e"
  proof (rule scale)
    have "?c * ?c * (sy * (- g) * sr + cy * cr) = (?c * sy) * (- g) * (?c * sr) + (?c * cy) * (?c * cr)"
      by algebra
    then show "?c * ?c * (sy * (- g) * sr + cy * cr) = (a * a + d * d) * e"
      unfolding q using R by algebra
  qed
  moreover have "sy * (- g) * cr - cy * sr = f"
  proof (rule scale)
    have "?c * ?c * (sy * (- g) * cr - cy * sr) = (?c * sy) * (- g) * (?c * cr) - (?c * cy) * (?c * sr)"
      by algebra
    then show "?c * ?c * (sy * (- g) * cr - cy * sr) = (a * a + d * d) * f"
      unfolding q using R ac by algebra
  qed
  ultimately show ?thesis
    using q by (simp add: rotation_matrix_def Let_def cp sp cy_sy_cr_sr_def [symmetric] mult.commute)
qed

lemma rebuild_gimbal:
  assumes "is_rotation ((a, b, c), (d, e, f), (g, h, i))" "hypot a d = 0"
  shows "rotation_matrix (atan2 (- f) e) (atan2 (- g) (hypot a d)) 0 = ((a, b, c), (d, e, f), (g, h, i))"
proof -
  have ad: "a = 0" "d = 0" using assms(2) by simp_all
  note R = assms(1) [unfolded is_rotation_def case_prod_conv ad]
  have gg: "g * g = 1" and gh: "g * h = 0" and i: "i = 0" and c: "c = - (g * e)" and f: "f = g * b"
    using R by simp_all
  from gg gh have h: "h = 0" by auto
  have "e * e + f * f = 1" using rotation_rows(2) [OF assms(1)] ad by simp
  then have one: "hypot e (- f) = 1" by (simp add: hypot_def)
  have r: "cos (atan2 (- f) e) = e" "sin (atan2 (- f) e) = - f"
    using cos_atan2 [of e "- f"] sin_atan2 [where x = e and y = "- f"] by (simp_all only: one mult_1)
  have p: "cos (atan2 (- g) 0) = 0" "sin (atan2 (- g) 0) = - g"
    using gg square_eq_1_iff [of g] by (auto simp: atan2_def)
  have "g * f = b" using gg f by algebra
  then show ?thesis
    by (simp add: rotation_matrix_def Let_def ad r p h i c)
qed

lemma rebuild_matrix:
  assumes "is_rotation m" "1 / 10 ^ 9 < hypot (entry m 0 0) (entry m 1 0) \<or> hypot (entry m 0 0) (entry m 1 0) = 0"
    and "rpy_from_matrix m = (r, p, y)"
  shows "rotation_matrix r p y = m"
proof -
  obtain a b c d e f g h i where m: "m = ((a, b, c), (d, e, f), (g, h, i))" by (cases m) auto
  note rm = assms(1) [unfolded m]
  from assms(2) m have "1 / 10 ^ 9 < hypot a d \<or> hypot a d = 0" by simp
  then show ?thesis
  proof
    assume big: "1 / 10 ^ 9 < hypot a d"
    then have "0 < hypot a d" by (rule less_trans [rotated]) simp
    from rebuild_regular [OF rm this] big assms(3) show ?thesis
      by (simp add: m rpy_from_matrix_def Let_def)
  next
    assume "hypot a d = 0"
    from rebuild_gimbal [OF rm this] this assms(3) show ?thesis
      by (simp add: m rpy_from_matrix_def Let_def)
  qed
qed

text \<open>On any rotation, rebuilding the matrix from the angles the extraction returns gives the
  rotation back, on both branches: off the singularity and at the gimbal poles, where the yaw is
  pinned to 0 and the roll carries the whole turn.\<close>

theorem rpy_rebuilds:
  assumes "is_rotation m" "1 / 10 ^ 9 < hypot (entry m 0 0) (entry m 1 0) \<or> hypot (entry m 0 0) (entry m 1 0) = 0"
    and "rpy_from_matrix m = (r, p, y)"
  shows "rotation_matrix r p y = m"
  using assms by (rule rebuild_matrix)

theorem rpy_rebuilds_witness:
  "rotation_matrix (pi / 2) (pi / 2) 0 = ((0, 1, 0), (0, 0, - 1), (- 1, 0, 0)) \<and>
   rotation_matrix pi 0 0 = ((1, 0, 0), (0, - 1, 0), (0, 0, - 1))"
proof -
  let ?g = "((0, 1, 0), (0, 0, - 1), (- 1, 0, 0)) :: mat3"
  let ?m = "((1, 0, 0), (0, - 1, 0), (0, 0, - 1)) :: mat3"
  have "rpy_from_matrix ?g = (pi / 2, pi / 2, 0)" "rpy_from_matrix ?m = (pi, 0, 0)"
    by (simp_all add: rpy_from_matrix_def Let_def atan2_def)
  moreover have "is_rotation ?g" "is_rotation ?m" by (simp_all add: is_rotation_def)
  ultimately show ?thesis
    using rpy_rebuilds [of ?g "pi / 2" "pi / 2" 0] rpy_rebuilds [of ?m pi 0 0] by simp
qed

section \<open>The attach pose\<close>

lemma mount_of_rotation: "mount_of t = Inr m \<Longrightarrow> is_rotation m"
  by (auto simp: mount_of_def py_splits)

lemma case_nth3: "(case v of (x, y, z) \<Rightarrow> f x y z) = f (nth3 v 0) (nth3 v 1) (nth3 v 2)"
  by (cases v) simp

lemma sensor_in_base_link_Inr:
  assumes "sensor_in_base_link kit frame = Inr v"
  shows "\<exists>sensor rot s b. sensor_of kit frame = Inr sensor \<and> mount_of (base_to_kit kit) = Inr rot \<and>
    offset_of sensor = Inr s \<and> offset_of (base_to_kit kit) = Inr b \<and>
    v = tuple3 (\<lambda>i. nth3 b i + nth3 (mat_apply rot s) i)"
  using assms
  unfolding sensor_in_base_link_def Let_def case_nth3 tuple3_def bindE_Inr_iff by blast

definition sq_norm :: "vec3 \<Rightarrow> real" where
  "sq_norm v = nth3 v 0 * nth3 v 0 + nth3 v 1 * nth3 v 1 + nth3 v 2 * nth3 v 2"

text \<open>The attach location is the kit translation plus the sensor's offset turned by the
  base-to-kit rotation: its distance from the kit origin is the length of the offset whatever the
  rotation, and a sensor at the kit origin sits exactly at the kit translation.\<close>

theorem attach_location_rigid:
  assumes "carla_attach_location kit frame = Inr v" "sensor_of kit frame = Inr sensor"
    and "offset_of sensor = Inr s" "offset_of (base_to_kit kit) = Inr b"
  shows "sq_norm (tuple3 (\<lambda>i. nth3 v i - nth3 b i)) = sq_norm s \<and> (s = (0, 0, 0) \<longrightarrow> v = b)"
proof -
  from sensor_in_base_link_Inr [OF assms(1) [unfolded carla_attach_location_def]] assms(2-4)
  obtain rot where rot: "mount_of (base_to_kit kit) = Inr rot"
    and v: "v = tuple3 (\<lambda>i. nth3 b i + nth3 (mat_apply rot s) i)" by auto
  obtain a0 b0 c d e f g h i where m: "rot = ((a0, b0, c), (d, e, f), (g, h, i))" by (cases rot) auto
  obtain x y z where s: "s = (x, y, z)" by (cases s) auto
  from mount_of_rotation [OF rot] rotation_inner [of a0 b0 c d e f g h i x y z x y z]
  have "sq_norm (mat_apply rot s) = sq_norm s"
    by (simp add: m s sq_norm_def mat_apply_def tuple3_def)
  moreover have "tuple3 (\<lambda>i. nth3 v i - nth3 b i) = mat_apply rot s"
    by (cases "mat_apply rot s") (simp add: v tuple3_def)
  moreover have "s = (0, 0, 0) \<Longrightarrow> v = b"
    by (cases b) (simp add: v mat_apply_def tuple3_def m)
  ultimately show ?thesis by simp
qed

text \<open>The rotation CARLA documents for a Rotator in degrees, in its left-handed frame (column by
  column: the images of the forward, right and up axes), and conjugation by the Y flip
  \<open>diag(1, -1, 1)\<close>.\<close>

definition rotator_matrix :: "real \<times> real \<times> real \<Rightarrow> mat3" where
  "rotator_matrix rot =
     (case rot of (roll, pitch, yaw) \<Rightarrow>
        let rad = (\<lambda>d. d * (pi / 180)); cr = cos (rad roll); sr = sin (rad roll); cp = cos (rad pitch);
            sp = sin (rad pitch); cy = cos (rad yaw); sy = sin (rad yaw)
        in ((cp * cy, cy * sp * sr - sy * cr, - (cy * sp * cr) - sy * sr),
            (cp * sy, sy * sp * sr + cy * cr, - (sy * sp * cr) + cy * sr),
            (sp, - (cp * sr), cp * cr)))"

definition flip_y :: mat3 where
  "flip_y = ((1, 0, 0), (0, - 1, 0), (0, 0, 1))"

lemma rotator_of_ros:
  "rotator_matrix (ros_rpy_to_carla_rotation r p y) = matmul (matmul flip_y (rotation_matrix r p y)) flip_y"
  by (simp add: rotator_matrix_def ros_rpy_to_carla_rotation_def degrees_def rotation_matrix_def Let_def
      flip_y_def matmul_expand mult.commute)

text \<open>C5: The Rotator handed to CARLA is exactly the composed mount rotation of the two calibration
  files seen through the Y flip: CARLA's matrix of it is \<open>M (R_kit R_sensor) M\<close>, for every sensor
  that is not within the tolerance of a gimbal pole without being on it.\<close>

theorem attach_rotation_correct:
  assumes "sensor_of kit frame = Inr sensor" "mount_of (base_to_kit kit) = Inr rb" "mount_of sensor = Inr rs"
    and "let c = hypot (entry (matmul rb rs) 0 0) (entry (matmul rb rs) 1 0) in 1 / 10 ^ 9 < c \<or> c = 0"
  shows "\<exists>rot. carla_attach_rotation kit frame = Inr rot \<and>
    rotator_matrix rot = matmul (matmul flip_y (matmul rb rs)) flip_y"
proof -
  obtain r p y where rpy: "rpy_from_matrix (matmul rb rs) = (r, p, y)"
    by (cases "rpy_from_matrix (matmul rb rs)") auto
  have "is_rotation (matmul rb rs)"
    by (intro is_rotation_matmul) (use assms(2,3) mount_of_rotation in blast)+
  then have "rotation_matrix r p y = matmul rb rs"
    using assms(4) rpy unfolding Let_def by (rule rebuild_matrix)
  then show ?thesis
    using assms(1-3)
    by (simp add: carla_attach_rotation_def sensor_rotation_in_base_link_def rpy rotator_of_ros)
qed

lemma atan2_half:
  assumes "0 \<le> x"
  shows "\<bar>atan2 y x\<bar> \<le> pi / 2"
proof (cases "0 < x")
  case True
  then show ?thesis
    using arctan_lbound [of "y / x"] arctan_ubound [of "y / x"] by (simp add: atan2_def)
next
  case False
  with assms show ?thesis by (simp add: atan2_def)
qed

lemma rpy_from_matrix_bounds:
  assumes "rpy_from_matrix m = (r, p, y)"
  shows "\<bar>r\<bar> \<le> pi" "\<bar>p\<bar> \<le> pi / 2" "\<bar>y\<bar> \<le> pi"
proof -
  have b: "\<bar>atan2 v u\<bar> \<le> pi" for u v using atan2_bounds [where x = u and y = v] by linarith
  have h: "\<bar>atan2 v (hypot u w)\<bar> \<le> pi / 2" for u v w by (rule atan2_half) simp
  show "\<bar>r\<bar> \<le> pi" "\<bar>p\<bar> \<le> pi / 2" "\<bar>y\<bar> \<le> pi"
    using assms b h by (auto simp only: rpy_from_matrix_def Let_def abs_zero pi_ge_zero prod.inject split: if_split_asm)
qed

lemma degrees_abs: "0 \<le> b \<Longrightarrow> \<bar>x\<bar> \<le> b * pi \<Longrightarrow> \<bar>degrees x\<bar> \<le> b * 180"
proof -
  assume "\<bar>x\<bar> \<le> b * pi"
  then have "\<bar>x\<bar> * (180 / pi) \<le> b * pi * (180 / pi)" by (rule mult_right_mono) simp
  then show "\<bar>degrees x\<bar> \<le> b * 180" by (simp add: degrees_def abs_mult)
qed

text \<open>The Rotator is always in range: roll and yaw within 180 degrees, pitch within 90, on
  every kit that loads, singular mounts included.\<close>

theorem attach_rotation_bounds:
  assumes "carla_attach_rotation kit frame = Inr (roll, pitch, yaw)"
  shows "\<bar>roll\<bar> \<le> 180 \<and> \<bar>pitch\<bar> \<le> 90 \<and> \<bar>yaw\<bar> \<le> 180"
proof -
  from assms obtain m where "(case rpy_from_matrix m of (r, p, y) \<Rightarrow> ros_rpy_to_carla_rotation r p y) =
      (roll, pitch, yaw)"
    unfolding carla_attach_rotation_def sensor_rotation_in_base_link_def bindE_Inr_iff case_prod_beta sum.inject
    by blast
  then obtain r p y where m: "rpy_from_matrix m = (r, p, y)"
    and d: "roll = degrees r" "pitch = - degrees p" "yaw = - degrees y"
    by (cases "rpy_from_matrix m") (simp add: ros_rpy_to_carla_rotation_def)
  show ?thesis
    using rpy_from_matrix_bounds [OF m] degrees_abs [of 1 r] degrees_abs [of "1 / 2" p] degrees_abs [of 1 y]
    by (simp add: d)
qed

section \<open>A sample kit\<close>

definition sample_kit :: kit_config where
  "sample_kit =
     \<lparr>base_to_kit = \<lparr>t_x = Fin 1, t_y = Fin 0, t_z = Fin 2, t_roll = Fin 0, t_pitch = Fin 0, t_yaw = Fin 0\<rparr>,
      kit_to_sensor =
        [(TOP_LIDAR_FRAME,
          \<lparr>t_x = Fin 0, t_y = Fin 0, t_z = Fin 0, t_roll = Fin 0, t_pitch = Fin 0, t_yaw = Fin (3 / 2)\<rparr>),
         (IMU_FRAME,
          \<lparr>t_x = Fin 0, t_y = Fin 3, t_z = Fin 4, t_roll = Fin 0, t_pitch = Fin 0, t_yaw = Fin 0\<rparr>)]\<rparr>"

theorem load_kit_roundtrip_witness:
  "load_kit (\<lambda>path. if path = ''k'' then Inr (kit_doc_of sample_kit)
       else Inr (sensors_doc_of sample_kit)) ''k'' ''s'' = Inr sample_kit"
  by (rule load_kit_roundtrip) simp_all

lemma sample_mounts:
  "sensor_of sample_kit TOP_LIDAR_FRAME = Inr (snd (hd (kit_to_sensor sample_kit)))"
  "sensor_of sample_kit IMU_FRAME = Inr (snd (last (kit_to_sensor sample_kit)))"
  "mount_of (base_to_kit sample_kit) = Inr ((1, 0, 0), (0, 1, 0), (0, 0, 1))"
  "mount_of (snd (hd (kit_to_sensor sample_kit))) = Inr (rotation_matrix 0 0 (3 / 2))"
  "offset_of (base_to_kit sample_kit) = Inr (1, 0, 2)"
  "offset_of (snd (last (kit_to_sensor sample_kit))) = Inr (0, 3, 4)"
  by (simp_all add: sample_kit_def kit_keys sensor_of_def mount_of_def offset_of_def finite_f64_def
      rotation_matrix_def of_rat_divide)

theorem attach_location_rigid_witness:
  "sq_norm (0, 3, 4) = 25 \<and> (\<exists>v. carla_attach_location sample_kit IMU_FRAME = Inr v \<and>
     sq_norm (tuple3 (\<lambda>i. nth3 v i - nth3 (1, 0, 2) i)) = 25)"
proof -
  have loc: "carla_attach_location sample_kit IMU_FRAME = Inr (1, 3, 6)"
    by (simp add: carla_attach_location_def sensor_in_base_link_def sample_mounts mat_apply_def tuple3_def)
  from attach_location_rigid [OF loc sample_mounts(2) sample_mounts(6) sample_mounts(5)] loc
  show ?thesis by (simp add: sq_norm_def)
qed

theorem attach_rotation_correct_witness:
  "\<exists>rot. carla_attach_rotation sample_kit TOP_LIDAR_FRAME = Inr rot \<and>
     rotator_matrix rot = matmul (matmul flip_y (rotation_matrix 0 0 (3 / 2))) flip_y"
proof -
  have id: "matmul ((1, 0, 0), (0, 1, 0), (0, 0, 1)) (rotation_matrix 0 0 (3 / 2)) = rotation_matrix 0 0 (3 / 2)"
    by (simp add: rotation_matrix_def Let_def matmul_expand)
  have "hypot (cos (3 / 2) * 1) (sin (3 / 2) * 1) = (1::real)" by (rule hypot_polar) simp
  then show ?thesis
    using attach_rotation_correct [OF sample_mounts(1) sample_mounts(3) sample_mounts(4)]
    by (simp add: id)
qed

theorem attach_rotation_bounds_witness:
  "\<exists>roll pitch yaw. carla_attach_rotation sample_kit TOP_LIDAR_FRAME = Inr (roll, pitch, yaw) \<and>
     \<bar>yaw\<bar> \<le> 180"
proof -
  obtain roll pitch yaw where r: "carla_attach_rotation sample_kit TOP_LIDAR_FRAME = Inr (roll, pitch, yaw)"
    by (simp add: carla_attach_rotation_def sensor_rotation_in_base_link_def sample_mounts
        ros_rpy_to_carla_rotation_def case_nth3)
  from attach_rotation_bounds [OF this] r show ?thesis by auto
qed

end
