(* ===== verification/Carla_World.thy ===== *)
theory Carla_World
  imports Kit_Pose
begin

text \<open>
  The effects of the runner. A computation takes the trace of the calls made so far with their
  outcomes and returns a result and the longer trace. Everything outside the program (the CARLA
  client and server, the clock, the signal that flips the stop flag, the file system, \<open>nm\<close>) is the
  environment \<open>env\<close>, a parameter: what it answers may depend on the whole history, and any call may
  raise. An actor or a blueprint is the handle CARLA answered with.

  The lemmas: a computation only appends to the trace; what the sequencing operators append is the
  concatenation of what their parts append.
\<close>

section \<open>Calls and the environment\<close>

text \<open>\<open>carla.WorldSettings\<close>: the four fields the runner touches and a handle for all the others.\<close>

record settings =
  synchronous_mode :: bool
  fixed_delta_seconds :: "f64 option"
  max_substep_delta_time :: f64
  max_substeps :: int
  other_settings :: nat

text \<open>\<open>carla.Transform\<close>: at a location (metres) and a rotation (roll, pitch, yaw in degrees), at the
  six numbers of \<open>--initial-pose\<close>, or a recommended spawn point of the map.\<close>

datatype transform = KitPose vec3 vec3 | GivenPose "f64 list" | MapPose nat

datatype call =
    Find string
  | HasAttribute nat string
  | SetAttribute nat string string
  | SpawnActor nat transform "nat option"
  | Destroy nat
  | ApplyControl nat f64 f64 f64
  | GetSettings
  | ApplySettings settings
  | Tick
  | WaitForTick
  | PerfCounter
  | Sleep f64
  | ShouldContinue
  | ImportCarla
  | NewClient string int
  | SetTimeout f64
  | GetWorld
  | MapName
  | LoadWorld string
  | SetPublishTf bool
  | GetBlueprintLibrary
  | GetSpawnPoints
  | InstallSigint
  | IsFile string
  | OpenYaml string
  | RunNm string
  | PrintOut string
  | PrintErr string

datatype outcome =
    Failed exc | OkUnit | OkBool bool | OkId nat | OkIds "nat list" | OkStr string | OkTime f64
  | OkSettings settings | OkDoc pyval

type_synonym event = "call \<times> outcome"
type_synonym trace = "event list"

record env =
  env_find :: "trace \<Rightarrow> string \<Rightarrow> nat res"
  env_has :: "trace \<Rightarrow> nat \<Rightarrow> string \<Rightarrow> bool res"
  env_spawn :: "trace \<Rightarrow> nat \<Rightarrow> transform \<Rightarrow> nat option \<Rightarrow> nat res"
  env_settings :: "trace \<Rightarrow> settings res"
  env_time :: "trace \<Rightarrow> f64 res"
  env_go :: "trace \<Rightarrow> bool res"
  env_map_name :: "trace \<Rightarrow> string res"
  env_points :: "trace \<Rightarrow> nat list res"
  env_isfile :: "trace \<Rightarrow> string \<Rightarrow> bool res"
  env_yaml :: "trace \<Rightarrow> string \<Rightarrow> pyval res"
  env_nm :: "trace \<Rightarrow> string \<Rightarrow> string res"
  env_unit :: "trace \<Rightarrow> call \<Rightarrow> unit res"

section \<open>Computations\<close>

text \<open>A computation reads the history and returns its result with the events it adds.\<close>

type_synonym 'a io = "trace \<Rightarrow> 'a res \<times> trace"

definition ask :: "(trace \<Rightarrow> 'a res) \<Rightarrow> ('a \<Rightarrow> outcome) \<Rightarrow> call \<Rightarrow> 'a io" where
  "ask f ok c t = (f t, [(c, case f t of Inl e \<Rightarrow> Failed e | Inr x \<Rightarrow> ok x)])"

definition do_call :: "env \<Rightarrow> call \<Rightarrow> unit io" where
  "do_call env c = ask (\<lambda>t. env_unit env t c) (\<lambda>_. OkUnit) c"

definition liftI :: "'a res \<Rightarrow> 'a io" where
  "liftI r t = (r, [])"

abbreviation retI :: "'a \<Rightarrow> 'a io" where
  "retI x \<equiv> liftI (Inr x)"

definition bindI :: "'a io \<Rightarrow> ('a \<Rightarrow> 'b io) \<Rightarrow> 'b io" where
  "bindI m f t =
     (case m t of
        (Inl e, es) \<Rightarrow> (Inl e, es)
      | (Inr x, es) \<Rightarrow> (case f x (t @ es) of (r, es') \<Rightarrow> (r, es @ es')))"

text \<open>\<open>try: m except Exception: h\<close>. Every exception of the model is an \<open>Exception\<close>.\<close>

definition catchI :: "'a io \<Rightarrow> (exc \<Rightarrow> 'a io) \<Rightarrow> 'a io" where
  "catchI m h t =
     (case m t of
        (Inl e, es) \<Rightarrow> (case h e (t @ es) of (r, es') \<Rightarrow> (r, es @ es'))
      | (Inr x, es) \<Rightarrow> (Inr x, es))"

text \<open>\<open>try: m except Exception: pass\<close>.\<close>

definition ignoreI :: "unit io \<Rightarrow> unit io" where
  "ignoreI m = catchI m (\<lambda>_. retI ())"

text \<open>\<open>try: m finally: c\<close>: an exception of the clean-up replaces the result.\<close>

definition finallyI :: "'a io \<Rightarrow> unit io \<Rightarrow> 'a io" where
  "finallyI m c t =
     (case m t of (r, es) \<Rightarrow>
       (case c (t @ es) of
          (Inl e, es') \<Rightarrow> (Inl e, es @ es')
        | (Inr _, es') \<Rightarrow> (r, es @ es')))"

text \<open>\<open>for x in xs: f(x)\<close>.\<close>

fun forI :: "('a \<Rightarrow> unit io) \<Rightarrow> 'a list \<Rightarrow> unit io" where
  "forI f [] = retI ()"
| "forI f (x # xs) = bindI (f x) (\<lambda>_. forI f xs)"

text \<open>\<open>for x in xs: acc.append(f(x))\<close>: \<open>acc\<close> outlives an exception, so it is returned beside it.\<close>

fun gatherI :: "('a \<Rightarrow> 'b io) \<Rightarrow> 'a list \<Rightarrow> 'b list \<Rightarrow> trace \<Rightarrow> (exc option \<times> 'b list) \<times> trace" where
  "gatherI f [] acc t = ((None, acc), [])"
| "gatherI f (x # xs) acc t =
     (case f x t of
        (Inl e, es) \<Rightarrow> ((Some e, acc), es)
      | (Inr y, es) \<Rightarrow> (case gatherI f xs (acc @ [y]) (t @ es) of (r, es') \<Rightarrow> (r, es @ es')))"

section \<open>What a computation adds\<close>

named_theorems io_simps \<open>the runs of the sequencing operators\<close>

lemma liftI_run [io_simps]: "liftI x t = (r, es) \<longleftrightarrow> r = x \<and> es = []"
  by (auto simp: liftI_def)

lemma ask_run [io_simps]:
  "ask f ok c t = (r, es) \<longleftrightarrow> f t = r \<and> es = [(c, case r of Inl e \<Rightarrow> Failed e | Inr x \<Rightarrow> ok x)]"
  by (auto simp: ask_def)

lemma do_call_run [io_simps]:
  "do_call env c t = (r, es) \<longleftrightarrow>
     env_unit env t c = r \<and> es = [(c, case r of Inl e \<Rightarrow> Failed e | Inr _ \<Rightarrow> OkUnit)]"
  by (auto simp: do_call_def ask_def)

lemma bindI_run [io_simps]:
  "bindI m f t = (r, es) \<longleftrightarrow>
     (\<exists>e. m t = (Inl e, es) \<and> r = Inl e) \<or>
     (\<exists>x es1 es2. m t = (Inr x, es1) \<and> f x (t @ es1) = (r, es2) \<and> es = es1 @ es2)"
  by (auto simp: bindI_def split: prod.splits sum.splits)

lemma catchI_run [io_simps]:
  "catchI m h t = (r, es) \<longleftrightarrow>
     (\<exists>x. m t = (Inr x, es) \<and> r = Inr x) \<or>
     (\<exists>e es1 es2. m t = (Inl e, es1) \<and> h e (t @ es1) = (r, es2) \<and> es = es1 @ es2)"
  by (auto simp: catchI_def split: prod.splits sum.splits)

lemma ignoreI_run [io_simps]: "ignoreI m t = (r, es) \<longleftrightarrow> (\<exists>x. m t = (x, es)) \<and> r = Inr ()"
  by (auto simp: ignoreI_def catchI_run liftI_run) (metis sum.exhaust old.unit.exhaust)

lemma finallyI_run [io_simps]:
  "finallyI m c t = (r, es) \<longleftrightarrow>
     (\<exists>r1 es1 r2 es2. m t = (r1, es1) \<and> c (t @ es1) = (r2, es2) \<and> es = es1 @ es2 \<and>
        r = (case r2 of Inl e \<Rightarrow> Inl e | Inr _ \<Rightarrow> r1))"
  by (auto simp: finallyI_def split: prod.splits sum.splits)

text \<open>A loop whose every step swallows its exceptions runs them all.\<close>

lemma forI_total:
  assumes "\<And>x t r es. x \<in> set xs \<Longrightarrow> f x t = (r, es) \<Longrightarrow> r = Inr () \<and> map fst es = g x"
    and "forI f xs t = (r, es)"
  shows "r = Inr () \<and> map fst es = concat (map g xs)"
  using assms
proof (induction xs arbitrary: t es)
  case Nil
  then show ?case by (simp add: io_simps)
next
  case (Cons x xs)
  obtain r1 es1 where f: "f x t = (r1, es1)" by (cases "f x t")
  with Cons.prems(1) [of x t] have r1: "r1 = Inr ()" "map fst es1 = g x" by auto
  with Cons.prems(2) f obtain es2 where "forI f xs (t @ es1) = (r, es2)" "es = es1 @ es2"
    by (auto simp: bindI_run)
  moreover have "r = Inr () \<and> map fst es2 = concat (map g xs)"
    by (rule Cons.IH [OF Cons.prems(1) calculation(1)]) simp_all
  ultimately show ?case using r1 by simp
qed

lemma gatherI_run:
  "gatherI f (x # xs) acc t = (r, es) \<longleftrightarrow>
     (\<exists>e. f x t = (Inl e, es) \<and> r = (Some e, acc)) \<or>
     (\<exists>y es1 es2. f x t = (Inr y, es1) \<and> gatherI f xs (acc @ [y]) (t @ es1) = (r, es2) \<and> es = es1 @ es2)"
  by (auto split: prod.splits sum.splits)

text \<open>A property of events that every step of a loop keeps.\<close>

lemma forI_events:
  assumes "\<And>x t r es. x \<in> set xs \<Longrightarrow> f x t = (r, es) \<Longrightarrow> list_all P es"
    and "forI f xs t = (r, es)"
  shows "list_all P es"
  using assms
proof (induction xs arbitrary: t es)
  case Nil
  then show ?case by (simp add: io_simps)
next
  case (Cons x xs)
  obtain r1 es1 where f: "f x t = (r1, es1)" by (cases "f x t")
  from Cons.prems(1) [OF _ f] have p: "list_all P es1" by simp
  from Cons.prems(2) f consider "es = es1"
    | es2 where "forI f xs (t @ es1) = (r, es2)" "es = es1 @ es2"
    by (auto simp: bindI_run)
  then show ?case
  proof cases
    case 1
    with p show ?thesis by simp
  next
    case 2
    have "list_all P es2" by (rule Cons.IH [OF _ 2(1)]) (use Cons.prems(1) in auto)
    with p 2(2) show ?thesis by simp
  qed
qed

text \<open>All the events a computation can add satisfy a predicate.\<close>

definition emits :: "(event \<Rightarrow> bool) \<Rightarrow> 'a io \<Rightarrow> bool" where
  "emits P m \<longleftrightarrow> (\<forall>t. list_all P (snd (m t)))"

named_theorems emits_intros \<open>what the sequencing operators can add\<close>

lemma emitsD: "emits P m \<Longrightarrow> m t = (r, es) \<Longrightarrow> list_all P es"
  unfolding emits_def by (metis snd_conv)

lemma emits_liftI [emits_intros]: "emits P (liftI r)"
  by (simp add: emits_def liftI_def)

lemma emits_ask [emits_intros]: "(\<And>out. P (c, out)) \<Longrightarrow> emits P (ask f ok c)"
  by (simp add: emits_def ask_def)

lemma emits_do_call [emits_intros]: "(\<And>out. P (c, out)) \<Longrightarrow> emits P (do_call env c)"
  unfolding do_call_def by (rule emits_ask)

lemma emits_bindI [emits_intros]: "emits P m \<Longrightarrow> (\<And>x. emits P (f x)) \<Longrightarrow> emits P (bindI m f)"
  by (auto simp: emits_def bindI_def split: prod.splits sum.splits) (metis snd_conv)+

lemma emits_catchI [emits_intros]: "emits P m \<Longrightarrow> (\<And>e. emits P (h e)) \<Longrightarrow> emits P (catchI m h)"
  by (auto simp: emits_def catchI_def split: prod.splits sum.splits) (metis snd_conv)+

lemma emits_if [emits_intros]: "(b \<Longrightarrow> emits P m) \<Longrightarrow> (\<not> b \<Longrightarrow> emits P n) \<Longrightarrow> emits P (if b then m else n)"
  by simp

lemma emits_option [emits_intros]:
  "(x = None \<Longrightarrow> emits P m) \<Longrightarrow> (\<And>y. x = Some y \<Longrightarrow> emits P (f y)) \<Longrightarrow>
     emits P (case x of None \<Rightarrow> m | Some y \<Rightarrow> f y)"
  by (cases x) auto

lemma emits_list [emits_intros]:
  "(xs = [] \<Longrightarrow> emits P m) \<Longrightarrow> (\<And>y ys. xs = y # ys \<Longrightarrow> emits P (f y ys)) \<Longrightarrow>
     emits P (case xs of [] \<Rightarrow> m | y # ys \<Rightarrow> f y ys)"
  by (cases xs) auto

section \<open>Actors in a trace\<close>

text \<open>The actors CARLA answered a spawn with, in order; the actors a destroy was attempted on,
  whatever came of it.\<close>

fun created_by :: "event \<Rightarrow> nat option" where
  "created_by (SpawnActor bp pose parent, OkId a) = Some a"
| "created_by _ = None"

fun destroyed_by :: "event \<Rightarrow> nat option" where
  "destroyed_by (Destroy a, _) = Some a"
| "destroyed_by _ = None"

definition created :: "trace \<Rightarrow> nat list" where
  "created es = List.map_filter created_by es"

definition destroyed :: "trace \<Rightarrow> nat list" where
  "destroyed es = List.map_filter destroyed_by es"

lemma map_filter_append: "List.map_filter f (xs @ ys) = List.map_filter f xs @ List.map_filter f ys"
  by (simp add: List.map_filter_def)

lemma created_simps [simp]:
  "created [] = []" "created (es @ es') = created es @ created es'"
  "created (e # es) = (case created_by e of None \<Rightarrow> created es | Some a \<Rightarrow> a # created es)"
  by (auto simp: created_def map_filter_append List.map_filter_simps split: option.split)

lemma destroyed_simps [simp]:
  "destroyed [] = []" "destroyed (es @ es') = destroyed es @ destroyed es'"
  "destroyed (e # es) = (case destroyed_by e of None \<Rightarrow> destroyed es | Some a \<Rightarrow> a # destroyed es)"
  by (auto simp: destroyed_def map_filter_append List.map_filter_simps split: option.split)

definition no_actor :: "event \<Rightarrow> bool" where
  "no_actor e \<longleftrightarrow> created_by e = None \<and> destroyed_by e = None"

lemma no_actors: "list_all no_actor es \<Longrightarrow> created es = [] \<and> destroyed es = []"
  by (induction es) (auto simp: no_actor_def)

lemma destroy_events: "map fst es = map Destroy as \<Longrightarrow> created es = [] \<and> destroyed es = as"
proof (induction es arbitrary: as)
  case Nil
  then show ?case by simp
next
  case (Cons e es)
  then obtain a as' where as: "as = a # as'" "fst e = Destroy a" "map fst es = map Destroy as'" by auto
  obtain o1 where "e = (Destroy a, o1)" using as(2) by (cases e) auto
  with Cons.IH [OF as(3)] as(1) show ?case by simp
qed

section \<open>A sample environment\<close>

text \<open>An environment in which every call succeeds: the flag says twice to go on, a clock that
  stands still, actors numbered in order.\<close>

definition ticks :: "trace \<Rightarrow> nat" where
  "ticks es = length (filter (\<lambda>e. fst e \<in> {Tick, WaitForTick}) es)"

text \<open>How often the stop flag was read and said to go on.\<close>

definition continues :: "trace \<Rightarrow> nat" where
  "continues es = length (filter (\<lambda>e. e = (ShouldContinue, OkBool True)) es)"

lemma count_simps [simp]:
  "ticks [] = 0" "ticks (es @ es') = ticks es + ticks es'"
  "ticks (e # es) = (if fst e \<in> {Tick, WaitForTick} then Suc (ticks es) else ticks es)"
  "continues [] = 0" "continues (es @ es') = continues es + continues es'"
  "continues (e # es) = (if e = (ShouldContinue, OkBool True) then Suc (continues es) else continues es)"
  by (auto simp: ticks_def continues_def)

definition sample_settings :: settings where
  "sample_settings =
     \<lparr>synchronous_mode = False, fixed_delta_seconds = None, max_substep_delta_time = Fin (1 / 100),
      max_substeps = 10, other_settings = 0\<rparr>"

definition sample_env :: env where
  "sample_env =
     \<lparr>env_find = (\<lambda>t b. Inr 10), env_has = (\<lambda>t bp k. Inr True),
      env_spawn = (\<lambda>t bp pose parent. Inr (length (created t))),
      env_settings = (\<lambda>t. Inr sample_settings), env_time = (\<lambda>t. Inr (Fin 0)),
      env_go = (\<lambda>t. Inr (continues t < 2)), env_map_name = (\<lambda>t. Inr ''Town10''), env_points = (\<lambda>t. Inr [7]),
      env_isfile = (\<lambda>t p. Inr True),
      env_yaml = (\<lambda>t p. if p = ''kit'' then Inr (kit_doc_of sample_kit) else Inr (sensors_doc_of sample_kit)),
      env_nm = (\<lambda>t p. Inr ''''), env_unit = (\<lambda>t c. Inr ())\<rparr>"

lemma sample_env_simps [simp]:
  "env_find sample_env t b = Inr 10" "env_has sample_env t bp k = Inr True"
  "env_spawn sample_env t bp pose parent = Inr (length (created t))"
  "env_settings sample_env t = Inr sample_settings" "env_time sample_env t = Inr (Fin 0)"
  "env_go sample_env t = Inr (continues t < 2)" "env_map_name sample_env t = Inr ''Town10''"
  "env_points sample_env t = Inr [7]" "env_isfile sample_env t p = Inr True"
  "env_unit sample_env t c = Inr ()"
  by (simp_all add: sample_env_def)

text \<open>Rules to evaluate a computation on a concrete environment.\<close>

lemmas io_eval = bindI_def ask_def do_call_def liftI_def catchI_def ignoreI_def finallyI_def

end
