(* ===== verification/Spawn.thy ===== *)
theory Spawn
  imports Carla_World
begin

text \<open>
  \<^verbatim>\<open>runner/spawn.py\<close>: the attribute dictionaries of the ego, the top LiDAR, the IMU and the cameras,
  the policy by which they are applied to a blueprint, and the spawn of the rig. An attribute
  dictionary is an association list in insertion order. A rig or a camera fan-out is spawned one
  actor at a time; if one fails, those already spawned in the call are destroyed and the failure is
  re-raised (\<open>partial_spawn\<close>, interpreted for both).
\<close>

section \<open>Attributes\<close>

definition EGO_BLUEPRINT :: string where "EGO_BLUEPRINT = ''vehicle.lincoln.mkz''"
definition TOP_LIDAR_BLUEPRINT :: string where "TOP_LIDAR_BLUEPRINT = ''sensor.lidar.ray_cast''"
definition IMU_BLUEPRINT :: string where "IMU_BLUEPRINT = ''sensor.other.imu''"
definition TOP_LIDAR_TOPIC :: string where "TOP_LIDAR_TOPIC = ''/sensing/lidar/top/pointcloud_raw_ex''"
definition IMU_TOPIC :: string where "IMU_TOPIC = ''/sensing/imu/tamagawa/imu_raw''"
definition TOP_LIDAR_ROS_NAME :: string where "TOP_LIDAR_ROS_NAME = ''velodyne_top''"
definition IMU_ROS_NAME :: string where "IMU_ROS_NAME = IMU_FRAME"
definition QOS_RELIABILITY :: string where "QOS_RELIABILITY = ''best_effort''"
definition QOS_DURABILITY :: string where "QOS_DURABILITY = ''volatile''"
definition QOS_HISTORY_DEPTH :: string where "QOS_HISTORY_DEPTH = ''5''"
definition TOP_LIDAR_CHANNELS :: string where "TOP_LIDAR_CHANNELS = ''128''"
definition TOP_LIDAR_ROTATION_FREQUENCY :: string where "TOP_LIDAR_ROTATION_FREQUENCY = ''10''"
definition TOP_LIDAR_RANGE :: string where "TOP_LIDAR_RANGE = ''120.0''"
definition TOP_LIDAR_POINTS_PER_SECOND :: string where "TOP_LIDAR_POINTS_PER_SECOND = ''600000''"
definition SENSOR_TICK :: string where "SENSOR_TICK = ''0.05''"

type_synonym attrs = "(string \<times> string) list"

definition with_overrides :: "attrs \<Rightarrow> attrs option \<Rightarrow> attrs" where
  "with_overrides as overrides =
     (case overrides of None \<Rightarrow> as | Some ov \<Rightarrow> if ov = [] then as else dict_merge as ov)"

definition ego_attributes :: attrs where
  "ego_attributes = [(''role_name'', ''ego''), (''ros2_ackermann_control'', ''true'')]"

definition top_lidar_defaults :: attrs where
  "top_lidar_defaults =
     [(''ros_topic_name'', TOP_LIDAR_TOPIC),
      (''ros2_extended_lidar'', ''true''),
      (''ros_name'', TOP_LIDAR_ROS_NAME),
      (''ros2_qos_reliability'', QOS_RELIABILITY),
      (''ros2_qos_durability'', QOS_DURABILITY),
      (''ros2_qos_history_depth'', QOS_HISTORY_DEPTH),
      (''channels'', TOP_LIDAR_CHANNELS),
      (''rotation_frequency'', TOP_LIDAR_ROTATION_FREQUENCY),
      (''range'', TOP_LIDAR_RANGE),
      (''points_per_second'', TOP_LIDAR_POINTS_PER_SECOND),
      (''sensor_tick'', SENSOR_TICK)]"

definition top_lidar_attributes :: "attrs option \<Rightarrow> attrs" where
  "top_lidar_attributes overrides = with_overrides top_lidar_defaults overrides"

definition imu_attributes :: attrs where
  "imu_attributes =
     [(''ros_topic_name'', IMU_TOPIC), (''ros_name'', IMU_ROS_NAME), (''sensor_tick'', SENSOR_TICK)]"

definition REQUIRED_NATIVE_ATTRS :: "string list" where
  "REQUIRED_NATIVE_ATTRS = [''ros_topic_name'', ''ros2_extended_lidar'']"

definition OPTIONAL_ATTRS :: "string list" where
  "OPTIONAL_ATTRS = [''ros2_ackermann_control'']"

definition CAMERA_REQUIRED_ATTRS :: "string list" where
  "CAMERA_REQUIRED_ATTRS = [''ros_topic_name'']"

definition CAMERA_OPTIONAL_ATTRS :: "string list" where
  "CAMERA_OPTIONAL_ATTRS = [''ros2_qos_reliability'', ''ros2_qos_durability'', ''ros2_qos_history_depth'']"

definition CAMERA_BLUEPRINT :: string where "CAMERA_BLUEPRINT = ''sensor.camera.rgb''"
definition CAMERA_DEFAULT_WIDTH :: int where "CAMERA_DEFAULT_WIDTH = 1600"
definition CAMERA_DEFAULT_HEIGHT :: int where "CAMERA_DEFAULT_HEIGHT = 900"
definition CAMERA_DEFAULT_SENSOR_TICK :: string where "CAMERA_DEFAULT_SENSOR_TICK = ''0.05''"
definition CAMERA_LOCATION :: vec3 where "CAMERA_LOCATION = (0, 0, 0)"
definition CAMERA_ROTATION :: "real \<times> real \<times> real" where "CAMERA_ROTATION = (0, 0, 0)"

definition camera_topic :: "int \<Rightarrow> string" where
  "camera_topic index = ''/sensing/camera/camera'' @ show_int index @ ''/image_raw''"

text \<open>\<open>sensor_tick\<close> is a float or a string; \<open>str\<close> prints either.\<close>

definition camera_attributes :: "int \<Rightarrow> int \<Rightarrow> int \<Rightarrow> pyval \<Rightarrow> attrs option \<Rightarrow> attrs" where
  "camera_attributes index width height sensor_tick overrides =
     (let topic = camera_topic index
      in with_overrides
        [(''ros_topic_name'', topic),
         (''ros_name'', topic),
         (''ros2_qos_reliability'', QOS_RELIABILITY),
         (''ros2_qos_durability'', QOS_DURABILITY),
         (''ros2_qos_history_depth'', QOS_HISTORY_DEPTH),
         (''image_size_x'', show_int width),
         (''image_size_y'', show_int height),
         (''sensor_tick'', py_str sensor_tick)] overrides)"

section \<open>Spawning\<close>

definition has_attribute :: "env \<Rightarrow> nat \<Rightarrow> string \<Rightarrow> bool io" where
  "has_attribute env bp key = ask (\<lambda>t. env_has env t bp key) OkBool (HasAttribute bp key)"

text \<open>One pass of the loop body: the \<open>required\<close> guard, the \<open>optional\<close> guard, the assignment. The
  second guard asks the blueprint again, as the code does.\<close>

definition apply_attribute ::
  "env \<Rightarrow> nat \<Rightarrow> string list \<Rightarrow> string list \<Rightarrow> string \<times> string \<Rightarrow> unit io" where
  "apply_attribute env bp required optional_keys kv =
     (case kv of (key, value) \<Rightarrow>
        bindI (if key \<in> set required then has_attribute env bp key else retI True) (\<lambda>declared.
          if \<not> declared
          then liftI (Raise RuntimeError ''blueprint does not declare the required native ROS 2 attribute'')
          else bindI (if key \<in> set optional_keys then has_attribute env bp key else retI True) (\<lambda>present.
            if \<not> present then retI () else do_call env (SetAttribute bp key value))))"

definition apply_attributes ::
  "env \<Rightarrow> nat \<Rightarrow> attrs \<Rightarrow> string list \<Rightarrow> string list \<Rightarrow> unit io" where
  "apply_attributes env bp as required optional_keys =
     forI (apply_attribute env bp required optional_keys) as"

definition find_blueprint :: "env \<Rightarrow> string \<Rightarrow> nat io" where
  "find_blueprint env bid = ask (\<lambda>t. env_find env t bid) OkId (Find bid)"

definition spawn_actor :: "env \<Rightarrow> nat \<Rightarrow> transform \<Rightarrow> nat option \<Rightarrow> nat io" where
  "spawn_actor env bp pose parent =
     ask (\<lambda>t. env_spawn env t bp pose parent) OkId (SpawnActor bp pose parent)"

definition spawn_ego :: "env \<Rightarrow> transform \<Rightarrow> nat io" where
  "spawn_ego env spawn_transform =
     bindI (find_blueprint env EGO_BLUEPRINT) (\<lambda>bp.
     bindI (apply_attributes env bp ego_attributes REQUIRED_NATIVE_ATTRS OPTIONAL_ATTRS) (\<lambda>_.
       spawn_actor env bp spawn_transform None))"

text \<open>The lazy \<open>import carla\<close> here finds the module \<open>main\<close> already loaded.\<close>

definition spawn_sensor ::
  "env \<Rightarrow> nat \<Rightarrow> string \<Rightarrow> attrs \<Rightarrow> vec3 \<Rightarrow> vec3 \<Rightarrow> string list \<Rightarrow> string list \<Rightarrow> nat io" where
  "spawn_sensor env ego blueprint_id as location rotation required optional_keys =
     bindI (find_blueprint env blueprint_id) (\<lambda>bp.
     bindI (apply_attributes env bp as required optional_keys) (\<lambda>_.
       spawn_actor env bp (KitPose location rotation) (Some ego)))"

definition spawn_top_lidar :: "env \<Rightarrow> nat \<Rightarrow> kit_config \<Rightarrow> attrs option \<Rightarrow> nat io" where
  "spawn_top_lidar env ego kit overrides =
     bindI (liftI (carla_attach_location kit TOP_LIDAR_FRAME)) (\<lambda>location.
     bindI (liftI (carla_attach_rotation kit TOP_LIDAR_FRAME)) (\<lambda>rotation.
       spawn_sensor env ego TOP_LIDAR_BLUEPRINT (top_lidar_attributes overrides) location rotation
         REQUIRED_NATIVE_ATTRS OPTIONAL_ATTRS))"

definition spawn_imu :: "env \<Rightarrow> nat \<Rightarrow> kit_config \<Rightarrow> nat io" where
  "spawn_imu env ego kit =
     bindI (liftI (carla_attach_location kit IMU_FRAME)) (\<lambda>location.
     bindI (liftI (carla_attach_rotation kit IMU_FRAME)) (\<lambda>rotation.
       spawn_sensor env ego IMU_BLUEPRINT imu_attributes location rotation
         REQUIRED_NATIVE_ATTRS OPTIONAL_ATTRS))"

definition destroy_quietly :: "env \<Rightarrow> nat \<Rightarrow> unit io" where
  "destroy_quietly env actor = ignoreI (do_call env (Destroy actor))"

text \<open>The \<open>try\<close>/\<open>except\<close> the two fan-outs share: \<open>spawned\<close> grows one actor at a time; an exception
  destroys what it holds and is re-raised unchanged.\<close>

definition spawn_all :: "env \<Rightarrow> ('a \<Rightarrow> nat io) \<Rightarrow> 'a list \<Rightarrow> nat list io" where
  "spawn_all env spawn_one xs t =
     (case gatherI spawn_one xs [] t of
        ((None, spawned), es) \<Rightarrow> (Inr spawned, es)
      | ((Some e, spawned), es) \<Rightarrow>
          (case forI (destroy_quietly env) spawned (t @ es) of (_, es') \<Rightarrow> (Inl e, es @ es')))"

datatype rig_sensor = TopLidar | Imu

definition spawn_rig :: "env \<Rightarrow> nat \<Rightarrow> kit_config \<Rightarrow> attrs option \<Rightarrow> rig_sensor \<Rightarrow> nat io" where
  "spawn_rig env ego kit lidar_overrides sensor =
     (case sensor of
        TopLidar \<Rightarrow> spawn_top_lidar env ego kit lidar_overrides
      | Imu \<Rightarrow> spawn_imu env ego kit)"

definition spawn_sensors :: "env \<Rightarrow> nat \<Rightarrow> kit_config \<Rightarrow> attrs option \<Rightarrow> nat list io" where
  "spawn_sensors env ego kit lidar_overrides = spawn_all env (spawn_rig env ego kit lidar_overrides) [TopLidar, Imu]"

definition spawn_camera :: "env \<Rightarrow> nat \<Rightarrow> int \<Rightarrow> int \<Rightarrow> pyval \<Rightarrow> int \<Rightarrow> nat io" where
  "spawn_camera env ego width height sensor_tick index =
     spawn_sensor env ego CAMERA_BLUEPRINT (camera_attributes index width height sensor_tick None)
       CAMERA_LOCATION CAMERA_ROTATION CAMERA_REQUIRED_ATTRS CAMERA_OPTIONAL_ATTRS"

text \<open>\<open>range(count)\<close> is empty for a negative count.\<close>

definition spawn_cameras :: "env \<Rightarrow> nat \<Rightarrow> int \<Rightarrow> int \<Rightarrow> int \<Rightarrow> pyval \<Rightarrow> nat list io" where
  "spawn_cameras env ego count width height sensor_tick =
     spawn_all env (spawn_camera env ego width height sensor_tick) (map int [0..<nat count])"

section \<open>The actors a spawn creates\<close>

lemma apply_attributes_events:
  assumes "apply_attributes env bp as rq op t = (r, es)"
  shows "list_all no_actor es"
proof (rule forI_events [OF _ assms [unfolded apply_attributes_def]])
  fix kv t r es
  assume "apply_attribute env bp rq op kv t = (r, es)"
  then show "list_all no_actor es"
    by (cases kv)
      (auto simp: apply_attribute_def has_attribute_def io_simps no_actor_def split: if_split_asm)
qed

lemma spawn_sensor_run:
  assumes "spawn_sensor env ego bid as loc rot rq op t = (r, es)"
  shows "destroyed es = [] \<and> (case r of Inl e \<Rightarrow> created es = [] | Inr a \<Rightarrow> created es = [a])"
proof -
  obtain rf ef where f: "find_blueprint env bid t = (rf, ef)" by (cases "find_blueprint env bid t")
  then have qf: "created ef = []" "destroyed ef = []"
    by (auto simp: find_blueprint_def io_simps)
  show ?thesis
  proof (cases rf)
    case (Inl e)
    with f qf assms show ?thesis by (auto simp: spawn_sensor_def bindI_run)
  next
    case (Inr bp)
    obtain ra ea where a: "apply_attributes env bp as rq op (t @ ef) = (ra, ea)"
      by (cases "apply_attributes env bp as rq op (t @ ef)")
    note qa = no_actors [OF apply_attributes_events [OF a]]
    show ?thesis
    proof (cases ra)
      case (Inl e)
      with f a qf qa Inr assms show ?thesis by (auto simp: spawn_sensor_def bindI_run)
    next
      case (Inr u)
      with f a qf qa \<open>rf = Inr bp\<close> assms show ?thesis
        by (auto simp: spawn_sensor_def bindI_run spawn_actor_def ask_run split: sum.splits)
    qed
  qed
qed

text \<open>What a fan-out relies on: spawning one actor creates that actor and destroys none; failing
  creates none.\<close>

locale partial_spawn =
  fixes spawn_one :: "'a \<Rightarrow> nat io"
  assumes one_actor:
    "spawn_one x t = (r, es) \<Longrightarrow>
       destroyed es = [] \<and> (case r of Inl e \<Rightarrow> created es = [] | Inr a \<Rightarrow> created es = [a])"
begin

lemma gather_spawned:
  "gatherI spawn_one xs acc t = ((eo, ys), es) \<Longrightarrow>
     ys = acc @ created es \<and> destroyed es = [] \<and>
     (case eo of None \<Rightarrow> length ys = length acc + length xs
      | Some e \<Rightarrow> \<exists>x \<in> set xs. \<exists>t' es'. spawn_one x t' = (Inl e, es'))"
proof (induction xs arbitrary: acc t es)
  case Nil
  then show ?case by simp
next
  case (Cons x xs)
  from Cons.prems consider
      e where "spawn_one x t = (Inl e, es)" "eo = Some e" "ys = acc"
    | y es1 es2 where "spawn_one x t = (Inr y, es1)"
        "gatherI spawn_one xs (acc @ [y]) (t @ es1) = ((eo, ys), es2)" "es = es1 @ es2"
    unfolding gatherI_run prod.inject by blast
  then show ?case
  proof cases
    case 1
    with one_actor [OF 1(1)] show ?thesis by auto
  next
    case 2
    from Cons.IH [OF 2(2)] one_actor [OF 2(1)] 2(3) show ?thesis by (auto split: option.splits)
  qed
qed

lemma all_returned:
  assumes "spawn_all env spawn_one xs t = (Inr as, es)"
  shows "created es = as \<and> destroyed es = [] \<and> length as = length xs"
proof -
  from assms have "gatherI spawn_one xs [] t = ((None, as), es)"
    by (auto simp: spawn_all_def split: prod.split_asm option.split_asm)
  from gather_spawned [OF this] show ?thesis by auto
qed

lemma all_failed:
  assumes "spawn_all env spawn_one xs t = (Inl e, es)"
  shows "\<exists>es1 es2. es = es1 @ es2 \<and> destroyed es1 = [] \<and> created es2 = [] \<and> destroyed es2 = created es1 \<and>
    (\<exists>x \<in> set xs. \<exists>t' es'. spawn_one x t' = (Inl e, es'))"
proof -
  from assms obtain as es1 u es2 where
    g: "gatherI spawn_one xs [] t = ((Some e, as), es1)" and
    d: "forI (destroy_quietly env) as (t @ es1) = (u, es2)" and es: "es = es1 @ es2"
    by (auto simp: spawn_all_def split: prod.split_asm option.split_asm)
  have "u = Inr () \<and> map fst es2 = concat (map (\<lambda>a. [Destroy a]) as)"
    by (rule forI_total [OF _ d]) (auto simp: destroy_quietly_def io_simps)
  then have "map fst es2 = map Destroy as" by (simp add: concat_map_singleton)
  from destroy_events [OF this] gather_spawned [OF g] es show ?thesis by auto
qed

end

lemma spawn_rig_one:
  assumes "spawn_rig env ego kit ov s t = (r, es)"
  shows "destroyed es = [] \<and> (case r of Inl e \<Rightarrow> created es = [] | Inr a \<Rightarrow> created es = [a])"
  using assms
  by (cases s)
    (auto simp: spawn_rig_def spawn_top_lidar_def spawn_imu_def bindI_run liftI_run dest: spawn_sensor_run)

interpretation rig: partial_spawn "spawn_rig env ego kit lidar_overrides" for env ego kit lidar_overrides
  by unfold_locales (rule spawn_rig_one)

interpretation cameras: partial_spawn "spawn_camera env ego width height sensor_tick"
  for env ego width height sensor_tick
  by unfold_locales (simp only: spawn_camera_def, rule spawn_sensor_run)

section \<open>The rig and the cameras\<close>

text \<open>C3: Spawning the rig is all or nothing. On success the two actors CARLA created are exactly
  the ones returned. On failure every actor created in the call has been handed to \<open>destroy\<close> after
  the failure, none is destroyed twice or earlier, and the exception is the one the failing spawn
  raised, whatever the destroys raise.\<close>

theorem spawn_sensors_all_or_nothing:
  assumes "spawn_sensors env ego kit lidar_overrides t = (r, es)"
  shows "case r of
      Inr as \<Rightarrow> created es = as \<and> destroyed es = [] \<and> length as = 2
    | Inl e \<Rightarrow> \<exists>es1 es2. es = es1 @ es2 \<and> destroyed es1 = [] \<and> created es2 = [] \<and>
        destroyed es2 = created es1 \<and>
        (\<exists>s t' es'. spawn_rig env ego kit lidar_overrides s t' = (Inl e, es'))"
proof (cases r)
  case (Inl e)
  from rig.all_failed [OF assms [unfolded spawn_sensors_def Inl]] show ?thesis
    unfolding Inl sum.case by blast
next
  case (Inr as)
  from rig.all_returned [OF assms [unfolded spawn_sensors_def Inr]] Inr show ?thesis by simp
qed

text \<open>The camera fan-out is all or nothing in the same way, and on success there are exactly
  \<open>count\<close> cameras, none for a count that is zero or negative.\<close>

theorem spawn_cameras_all_or_nothing:
  assumes "spawn_cameras env ego count width height sensor_tick t = (r, es)"
  shows "case r of
      Inr as \<Rightarrow> created es = as \<and> destroyed es = [] \<and> int (length as) = max 0 count
    | Inl e \<Rightarrow> 0 < count \<and> (\<exists>es1 es2. es = es1 @ es2 \<and> destroyed es1 = [] \<and> created es2 = [] \<and>
        destroyed es2 = created es1 \<and>
        (\<exists>i t' es'. 0 \<le> i \<and> i < count \<and> spawn_camera env ego width height sensor_tick i t' = (Inl e, es')))"
proof (cases r)
  case (Inl e)
  have range: "0 \<le> x \<and> x < count" if "x \<in> set (map int [0..<nat count])" for x
    using that by auto
  from cameras.all_failed [OF assms [unfolded spawn_cameras_def Inl]] obtain es1 es2 x t' es' where
    f: "es = es1 @ es2" "destroyed es1 = []" "created es2 = []" "destroyed es2 = created es1"
      "x \<in> set (map int [0..<nat count])" "spawn_camera env ego width height sensor_tick x t' = (Inl e, es')"
    by blast
  with range [OF f(5)] have "0 < count" by linarith
  with f range [OF f(5)] show ?thesis unfolding Inl sum.case by blast
next
  case (Inr as)
  from cameras.all_returned [OF assms [unfolded spawn_cameras_def Inr]] Inr show ?thesis by simp
qed

text \<open>The camera topics of one fan-out are pairwise distinct.\<close>

lemma show_nat_inj: "show_nat m = show_nat n \<Longrightarrow> m = n"
  using scan_show_nat by (metis option.inject)

lemma camera_topics_distinct: "distinct (map (camera_topic \<circ> int) [0..<n])"
  by (auto simp: distinct_map inj_on_def camera_topic_def show_int_def dest: show_nat_inj)

section \<open>The configuration of a spawned sensor\<close>

fun assigned_by :: "event \<Rightarrow> (string \<times> string) option" where
  "assigned_by (SetAttribute bp k v, OkUnit) = Some (k, v)"
| "assigned_by _ = None"

definition assigned :: "trace \<Rightarrow> attrs" where
  "assigned es = List.map_filter assigned_by es"

lemma assigned_simps [simp]:
  "assigned [] = []" "assigned (es @ es') = assigned es @ assigned es'"
  "assigned (e # es) = (case assigned_by e of None \<Rightarrow> assigned es | Some a \<Rightarrow> a # assigned es)"
  by (auto simp: assigned_def map_filter_append List.map_filter_simps split: option.split)

text \<open>The events of one attribute: only its own key is asked about, and on success it was assigned
  exactly when the blueprint was not found to lack it.\<close>

lemma apply_attribute_run:
  assumes "apply_attribute env bp rq op (k, v) t = (Inr u, es)"
  shows "assigned es = (if (HasAttribute bp k, OkBool False) \<in> set es then [] else [(k, v)])"
    and "k \<in> set rq \<Longrightarrow> (HasAttribute bp k, OkBool True) \<in> set es"
    and "(HasAttribute bp j, b) \<in> set es \<Longrightarrow> j = k"
    and "k \<notin> set op \<Longrightarrow> (HasAttribute bp k, OkBool False) \<notin> set es"
  using assms
  by (auto simp: apply_attribute_def has_attribute_def io_simps split: if_split_asm)

lemma apply_attributes_run:
  assumes "apply_attributes env bp as rq op t = (Inr u, es)" "distinct (map fst as)"
  shows "assigned es = filter (\<lambda>kv. (HasAttribute bp (fst kv), OkBool False) \<notin> set es) as \<and>
    (\<forall>k \<in> set rq \<inter> set (map fst as). (HasAttribute bp k, OkBool True) \<in> set es) \<and>
    (\<forall>j b. (HasAttribute bp j, b) \<in> set es \<longrightarrow> j \<in> set (map fst as)) \<and>
    (\<forall>k. k \<notin> set op \<longrightarrow> (HasAttribute bp k, OkBool False) \<notin> set es)"
  using assms unfolding apply_attributes_def
proof (induction as arbitrary: t es)
  case Nil
  then show ?case by (simp add: io_simps)
next
  case (Cons kv as)
  obtain k v where kv: "kv = (k, v)" by (cases kv)
  from Cons.prems(1) obtain u1 es1 es2 where
    h: "apply_attribute env bp rq op (k, v) t = (Inr u1, es1)" and
    tl: "forI (apply_attribute env bp rq op) as (t @ es1) = (Inr u, es2)" and es: "es = es1 @ es2"
    by (auto simp: bindI_run kv)
  note one = apply_attribute_run [OF h]
  from Cons.IH [OF tl] Cons.prems(2) kv
  have ih: "assigned es2 = filter (\<lambda>kv. (HasAttribute bp (fst kv), OkBool False) \<notin> set es2) as"
    "\<forall>k \<in> set rq \<inter> set (map fst as). (HasAttribute bp k, OkBool True) \<in> set es2"
    "\<forall>j b. (HasAttribute bp j, b) \<in> set es2 \<longrightarrow> j \<in> set (map fst as)"
    "\<forall>k. k \<notin> set op \<longrightarrow> (HasAttribute bp k, OkBool False) \<notin> set es2"
    and k: "k \<notin> set (map fst as)" by auto
  have "filter (\<lambda>kv. (HasAttribute bp (fst kv), OkBool False) \<notin> set es) as =
      filter (\<lambda>kv. (HasAttribute bp (fst kv), OkBool False) \<notin> set es2) as"
    using k one(3) by (intro filter_cong) (auto simp: es)
  moreover have "(HasAttribute bp k, OkBool False) \<in> set es \<longleftrightarrow> (HasAttribute bp k, OkBool False) \<in> set es1"
    using k ih(3) by (auto simp: es)
  ultimately have "assigned es = filter (\<lambda>kv. (HasAttribute bp (fst kv), OkBool False) \<notin> set es) (kv # as)"
    using ih(1) one(1) by (simp add: es kv)
  moreover have "\<forall>j \<in> set rq \<inter> set (map fst (kv # as)). (HasAttribute bp j, OkBool True) \<in> set es"
    using ih(2) one(2) by (auto simp: es kv)
  moreover have "\<forall>j b. (HasAttribute bp j, b) \<in> set es \<longrightarrow> j \<in> set (map fst (kv # as))"
    using ih(3) one(3) by (auto simp: es kv)
  moreover have "\<forall>j. j \<notin> set op \<longrightarrow> (HasAttribute bp j, OkBool False) \<notin> set es"
    using ih(4) one(3,4) by (auto simp: es)
  ultimately show ?case by blast
qed

text \<open>C10: A sensor that was spawned was fully configured: the spawn is the last call, at the given
  location and rotation, attached to the ego; the assignments before it are exactly the attributes
  of the dictionary, in order, minus optional ones the blueprint was found to lack; every required
  attribute of the dictionary was found to be declared.\<close>

theorem spawned_sensor_configured:
  assumes "spawn_sensor env ego bid as loc rot rq op t = (Inr a, es)" "distinct (map fst as)"
  shows "\<exists>bp pre. es = pre @ [(SpawnActor bp (KitPose loc rot) (Some ego), OkId a)] \<and>
    assigned pre = filter (\<lambda>kv. (HasAttribute bp (fst kv), OkBool False) \<notin> set pre) as \<and>
    (\<forall>k. k \<notin> set op \<longrightarrow> (HasAttribute bp k, OkBool False) \<notin> set pre) \<and>
    (\<forall>k \<in> set rq \<inter> set (map fst as). (HasAttribute bp k, OkBool True) \<in> set pre)"
proof -
  from assms(1) obtain bp es1 u es2 where
    f: "find_blueprint env bid t = (Inr bp, es1)" and
    a: "apply_attributes env bp as rq op (t @ es1) = (Inr u, es2)" and
    es: "es = (es1 @ es2) @ [(SpawnActor bp (KitPose loc rot) (Some ego), OkId a)]"
    by (auto simp: spawn_sensor_def spawn_actor_def bindI_run ask_run)
  have pre: "assigned es1 = []" "(HasAttribute bp k, b) \<notin> set es1" for k b
    using f by (auto simp: find_blueprint_def ask_run)
  note run = apply_attributes_run [OF a assms(2)]
  have "assigned (es1 @ es2) = filter (\<lambda>kv. (HasAttribute bp (fst kv), OkBool False) \<notin> set (es1 @ es2)) as"
    using run pre by simp
  moreover have "\<forall>k. k \<notin> set op \<longrightarrow> (HasAttribute bp k, OkBool False) \<notin> set (es1 @ es2)"
    using run pre by simp
  moreover have "\<forall>k \<in> set rq \<inter> set (map fst as). (HasAttribute bp k, OkBool True) \<in> set (es1 @ es2)"
    using run by auto
  ultimately show ?thesis using es by blast
qed

lemma apply_attributes_refused:
  assumes "\<forall>t. env_has env t bp k = Inr False" "k \<in> set rq" "k \<in> set (map fst as)"
    and "apply_attributes env bp as rq op t = (r, es)"
  shows "\<exists>e. r = Inl e"
  using assms(3,4) unfolding apply_attributes_def
proof (induction as arbitrary: t es)
  case Nil
  then show ?case by simp
next
  case (Cons kv as)
  obtain j v where kv: "kv = (j, v)" by (cases kv)
  show ?case
  proof (cases "j = k")
    case True
    with assms(1,2) Cons.prems(2) show ?thesis
      by (auto simp: kv bindI_run apply_attribute_def has_attribute_def ask_run liftI_run split: if_split_asm)
  next
    case False
    with Cons.prems(1) kv have "k \<in> set (map fst as)" by auto
    with Cons.IH Cons.prems(2) show ?thesis by (auto simp: bindI_run)
  qed
qed

text \<open>A build without the native publisher patches is refused: if the blueprint lacks one
  required attribute of the dictionary, no actor is created and an exception is raised.\<close>

theorem missing_native_attribute_refused:
  assumes "\<forall>t bp. env_has env t bp k = Inr False" "k \<in> set rq" "k \<in> set (map fst as)"
    and "spawn_sensor env ego bid as loc rot rq op t = (r, es)"
  shows "created es = [] \<and> (\<exists>e. r = Inl e)"
proof -
  have "\<exists>e. r = Inl e"
    using assms(4) apply_attributes_refused [OF _ assms(2,3)] assms(1)
    by (fastforce simp: spawn_sensor_def bindI_run)
  with spawn_sensor_run [OF assms(4)] show ?thesis by auto
qed

text \<open>The lidar overrides win key by key and touch nothing else, and with none given the
  dictionary is the default one.\<close>

theorem lidar_overrides_win:
  assumes "distinct (map fst ov)"
  shows "map_of (top_lidar_attributes (Some ov)) = map_of top_lidar_defaults ++ map_of ov \<and>
    top_lidar_attributes None = top_lidar_defaults \<and> top_lidar_attributes (Some []) = top_lidar_defaults"
  using assms map_of_dict_merge [of ov top_lidar_defaults]
  by (simp add: top_lidar_attributes_def with_overrides_def dict_keys_def)

theorem lidar_overrides_win_witness:
  "map_of (top_lidar_attributes (Some [(''channels'', ''16'')])) ''channels'' = Some ''16'' \<and>
   map_of (top_lidar_attributes (Some [(''channels'', ''16'')])) ''range'' = Some ''120.0''"
  using lidar_overrides_win [of "[(''channels'', ''16'')]"]
  by (simp add: top_lidar_defaults_def TOP_LIDAR_RANGE_def)

section \<open>Witnesses\<close>

lemma sample_attach:
  "carla_attach_location sample_kit TOP_LIDAR_FRAME = Inr (1, 0, 2)"
  "carla_attach_location sample_kit IMU_FRAME = Inr (1, 3, 6)"
  "\<exists>rot. carla_attach_rotation sample_kit TOP_LIDAR_FRAME = Inr rot"
  "\<exists>rot. carla_attach_rotation sample_kit IMU_FRAME = Inr rot"
proof -
  have o: "offset_of (snd (hd (kit_to_sensor sample_kit))) = Inr (0, 0, 0)"
    "mount_of (snd (last (kit_to_sensor sample_kit))) = Inr (rotation_matrix 0 0 0)"
    by (simp_all add: sample_kit_def offset_of_def mount_of_def finite_f64_def)
  show "carla_attach_location sample_kit TOP_LIDAR_FRAME = Inr (1, 0, 2)"
    "carla_attach_location sample_kit IMU_FRAME = Inr (1, 3, 6)"
    by (simp_all add: carla_attach_location_def sensor_in_base_link_def sample_mounts o mat_apply_def tuple3_def)
  show "\<exists>rot. carla_attach_rotation sample_kit TOP_LIDAR_FRAME = Inr rot"
    "\<exists>rot. carla_attach_rotation sample_kit IMU_FRAME = Inr rot"
    by (simp_all add: carla_attach_rotation_def sensor_rotation_in_base_link_def sample_mounts o
        ros_rpy_to_carla_rotation_def case_nth3)
qed

lemmas spawn_eval = io_eval spawn_all_def spawn_rig_def spawn_top_lidar_def spawn_imu_def spawn_sensor_def
  spawn_camera_def find_blueprint_def spawn_actor_def has_attribute_def apply_attributes_def
  apply_attribute_def destroy_quietly_def top_lidar_attributes_def with_overrides_def
  REQUIRED_NATIVE_ATTRS_def OPTIONAL_ATTRS_def CAMERA_REQUIRED_ATTRS_def CAMERA_OPTIONAL_ATTRS_def
  top_lidar_defaults_def imu_attributes_def

text \<open>The second spawn of the rig fails: the LiDAR (actor 7) is destroyed.\<close>

definition one_spawn_env :: env where
  "one_spawn_env = sample_env\<lparr>env_spawn := \<lambda>t bp pose parent.
     if created t = [] then Inr 7 else Raise RuntimeError ''spawn failed''\<rparr>"

theorem spawn_sensors_all_or_nothing_witness:
  "\<exists>e es. spawn_sensors one_spawn_env 1 sample_kit None [] = (Inl e, es) \<and> destroyed es = [7]"
proof -
  obtain r1 r2 where r: "carla_attach_rotation sample_kit TOP_LIDAR_FRAME = Inr r1"
    "carla_attach_rotation sample_kit IMU_FRAME = Inr r2" using sample_attach(3,4) by blast
  have "fst (spawn_sensors one_spawn_env 1 sample_kit None []) = Raise RuntimeError ''spawn failed'' \<and>
      created (snd (spawn_sensors one_spawn_env 1 sample_kit None [])) = [7]"
    by (simp add: spawn_sensors_def spawn_eval sample_attach(1,2) r one_spawn_env_def sample_env_def)
  then obtain es where es: "spawn_sensors one_spawn_env 1 sample_kit None [] =
      (Raise RuntimeError ''spawn failed'', es)" "created es = [7]"
    by (cases "spawn_sensors one_spawn_env 1 sample_kit None []") auto
  from spawn_sensors_all_or_nothing [OF es(1)] es(2) have "destroyed es = [7]"
    by auto
  with es(1) show ?thesis by blast
qed

theorem spawn_cameras_all_or_nothing_witness:
  "\<exists>as es. spawn_cameras sample_env 1 2 1600 900 (PStr ''0.05'') [] = (Inr as, es) \<and> length as = 2 \<and>
     created es = as"
proof -
  have "fst (spawn_cameras sample_env 1 2 1600 900 (PStr ''0.05'') []) = Inr [0, 1]"
    by (simp add: spawn_cameras_def numeral_2_eq_2 spawn_eval camera_attributes_def Let_def sample_env_def)
  then obtain es where es: "spawn_cameras sample_env 1 2 1600 900 (PStr ''0.05'') [] = (Inr [0, 1], es)"
    by (cases "spawn_cameras sample_env 1 2 1600 900 (PStr ''0.05'') []") auto
  from spawn_cameras_all_or_nothing [OF es] es show ?thesis by auto
qed

theorem spawned_sensor_configured_witness:
  "\<exists>a es bp pre. spawn_sensor sample_env 1 IMU_BLUEPRINT imu_attributes (1, 3, 6) (0, 0, 0)
       REQUIRED_NATIVE_ATTRS OPTIONAL_ATTRS [] = (Inr a, es) \<and>
     es = pre @ [(SpawnActor bp (KitPose (1, 3, 6) (0, 0, 0)) (Some 1), OkId a)] \<and>
     (HasAttribute bp ''ros_topic_name'', OkBool True) \<in> set pre"
proof -
  have "fst (spawn_sensor sample_env 1 IMU_BLUEPRINT imu_attributes (1, 3, 6) (0, 0, 0)
       REQUIRED_NATIVE_ATTRS OPTIONAL_ATTRS []) = Inr 0"
    by (simp add: spawn_eval sample_env_def)
  then obtain es where es: "spawn_sensor sample_env 1 IMU_BLUEPRINT imu_attributes (1, 3, 6) (0, 0, 0)
       REQUIRED_NATIVE_ATTRS OPTIONAL_ATTRS [] = (Inr 0, es)"
    by (cases "spawn_sensor sample_env 1 IMU_BLUEPRINT imu_attributes (1, 3, 6) (0, 0, 0)
       REQUIRED_NATIVE_ATTRS OPTIONAL_ATTRS []") auto
  have k: "distinct (map fst imu_attributes)"
    "''ros_topic_name'' \<in> set REQUIRED_NATIVE_ATTRS \<inter> set (map fst imu_attributes)"
    by (simp_all add: imu_attributes_def REQUIRED_NATIVE_ATTRS_def)
  from spawned_sensor_configured [OF es k(1)] k(2) es show ?thesis by blast
qed

text \<open>A stock build: it declares nothing native.\<close>

definition stock_env :: env where
  "stock_env = sample_env\<lparr>env_has := \<lambda>t bp k. Inr (k \<notin> set REQUIRED_NATIVE_ATTRS)\<rparr>"

theorem missing_native_attribute_refused_witness:
  "\<exists>e es. spawn_sensor stock_env 1 TOP_LIDAR_BLUEPRINT (top_lidar_attributes None) (1, 0, 2) (0, 0, 0)
     REQUIRED_NATIVE_ATTRS OPTIONAL_ATTRS [] = (Inl e, es) \<and> created es = []"
proof -
  obtain r es where run: "spawn_sensor stock_env 1 TOP_LIDAR_BLUEPRINT (top_lidar_attributes None) (1, 0, 2)
      (0, 0, 0) REQUIRED_NATIVE_ATTRS OPTIONAL_ATTRS [] = (r, es)" by (rule prod.exhaust)
  have "\<forall>t bp. env_has stock_env t bp ''ros_topic_name'' = Inr False"
    "''ros_topic_name'' \<in> set REQUIRED_NATIVE_ATTRS"
    "''ros_topic_name'' \<in> set (map fst (top_lidar_attributes None))"
    by (simp_all add: stock_env_def REQUIRED_NATIVE_ATTRS_def top_lidar_attributes_def with_overrides_def
        top_lidar_defaults_def)
  from missing_native_attribute_refused [OF this run] run show ?thesis by auto
qed

text \<open>The refusal does not come before every assignment: a build that declares the topic attribute
  and not the extended-lidar one gets the topic assigned before it is refused.\<close>

theorem half_configured_before_refusal:
  "let env = sample_env\<lparr>env_has := \<lambda>t bp k. Inr (k = ''ros_topic_name'')\<rparr>;
       run = spawn_sensor env 1 TOP_LIDAR_BLUEPRINT (top_lidar_attributes None) (1, 0, 2) (0, 0, 0)
         REQUIRED_NATIVE_ATTRS OPTIONAL_ATTRS []
   in assigned (snd run) = [(''ros_topic_name'', TOP_LIDAR_TOPIC)] \<and>
      (\<exists>m. fst run = Raise RuntimeError m)"
  by (simp add: Let_def spawn_eval sample_env_def)

end
