(* ===== verification/Tick_Loop.thy ===== *)
theory Tick_Loop
  imports Carla_World
begin

text \<open>
  \<^verbatim>\<open>runner/loop.py\<close>: the extension preflight, the synchronous and asynchronous tick loops and the
  physics substepping configuration. A \<open>while\<close> loop may never end, so it is a partial function into
  \<open>option\<close> (\<open>None\<close>: it does not return); the step relation \<open>loop_run\<close> says when it returns with what, and
  its rule induction carries the invariants of the trace.
\<close>

section \<open>The loop\<close>

text \<open>\<open>while go(): body()\<close>.\<close>

partial_function (option) whileI :: "bool io \<Rightarrow> unit io \<Rightarrow> trace \<Rightarrow> (unit res \<times> trace) option" where
  "whileI go body t =
     (case go t of
        (Inl e, es) \<Rightarrow> Some (Inl e, es)
      | (Inr on, es) \<Rightarrow>
          if \<not> on then Some (Inr (), es)
          else (case body (t @ es) of
                  (Inl e, es') \<Rightarrow> Some (Inl e, es @ es')
                | (Inr _, es') \<Rightarrow>
                    Option.bind (whileI go body (t @ es @ es')) (\<lambda>p. Some (fst p, es @ es' @ snd p))))"

inductive loop_run :: "bool io \<Rightarrow> unit io \<Rightarrow> trace \<Rightarrow> unit res \<Rightarrow> trace \<Rightarrow> bool" for go body where
  stop: "go t = (Inr False, es) \<Longrightarrow> loop_run go body t (Inr ()) es"
| go_raises: "go t = (Inl e, es) \<Longrightarrow> loop_run go body t (Inl e) es"
| body_raises:
    "go t = (Inr True, es1) \<Longrightarrow> body (t @ es1) = (Inl e, es2) \<Longrightarrow> loop_run go body t (Inl e) (es1 @ es2)"
| again:
    "go t = (Inr True, es1) \<Longrightarrow> body (t @ es1) = (Inr (), es2) \<Longrightarrow> loop_run go body (t @ es1 @ es2) r es3 \<Longrightarrow>
       loop_run go body t r (es1 @ es2 @ es3)"

inductive_cases loop_run_elim: "loop_run go body t r es"

text \<open>The function and the relation agree: the loop returns exactly what a finite run of it gives.\<close>

lemma whileI_loop_run: "whileI go body t = Some p \<Longrightarrow> loop_run go body t (fst p) (snd p)"
proof (erule whileI.raw_induct [where P = "\<lambda>go body t p. loop_run go body t (fst p) (snd p)", rotated])
  fix w :: "bool io \<Rightarrow> unit io \<Rightarrow> trace \<Rightarrow> (unit res \<times> trace) option"
    and go :: "bool io" and body :: "unit io" and t :: trace and p :: "unit res \<times> trace"
  assume 1: "\<And>go body t p. w go body t = Some p \<Longrightarrow> loop_run go body t (fst p) (snd p)"
    "(case go t of
        (Inl e, es) \<Rightarrow> Some (Inl e, es)
      | (Inr on, es) \<Rightarrow>
          if \<not> on then Some (Inr (), es)
          else (case body (t @ es) of
                  (Inl e, es') \<Rightarrow> Some (Inl e, es @ es')
                | (Inr _, es') \<Rightarrow>
                    Option.bind (w go body (t @ es @ es')) (\<lambda>p. Some (fst p, es @ es' @ snd p)))) = Some p"
  show "loop_run go body t (fst p) (snd p)"
  proof (cases "go t")
    case (Pair r es)
    show ?thesis
    proof (cases r)
      case (Inl e)
      with Pair 1 show ?thesis by (auto intro: loop_run.go_raises)
    next
      case (Inr on)
      obtain r2 es2 where b: "body (t @ es) = (r2, es2)" by (cases "body (t @ es)")
      show ?thesis
      proof (cases on)
        case False
        with Pair Inr 1 show ?thesis by (auto intro: loop_run.stop)
      next
        case True
        show ?thesis
        proof (cases r2)
          case (Inl e)
          with Pair Inr True b 1 show ?thesis by (auto intro: loop_run.body_raises)
        next
          case (Inr u)
          with Pair \<open>r = Inr on\<close> True b 1 show ?thesis
            by (fastforce simp: bind_eq_Some_conv intro!: loop_run.again)
        qed
      qed
    qed
  qed
qed

lemma loop_run_whileI: "loop_run go body t r es \<Longrightarrow> whileI go body t = Some (r, es)"
  by (induction rule: loop_run.induct) (simp_all add: whileI.simps [of go body])

lemma whileI_iff: "whileI go body t = Some (r, es) \<longleftrightarrow> loop_run go body t r es"
  using whileI_loop_run [of go body t "(r, es)"] loop_run_whileI by auto

text \<open>A property of events that the condition and the body keep holds of all the loop does.\<close>

lemma loop_run_events:
  assumes "loop_run go body t r es"
    and "\<And>t r es. go t = (r, es) \<Longrightarrow> list_all P es" "\<And>t r es. body t = (r, es) \<Longrightarrow> list_all P es"
  shows "list_all P es"
  using assms(1) by (induction rule: loop_run.induct) (use assms(2,3) in \<open>auto simp: list_all_append\<close>)

section \<open>The preflight\<close>

definition extension_exports_init :: "env \<Rightarrow> string \<Rightarrow> bool io" where
  "extension_exports_init env so_path t =
     (case ask (\<lambda>t. env_nm env t so_path) OkStr (RunNm so_path) t of
        (Inl e, es) \<Rightarrow>
          (if exc_isa (exc_of e) CalledProcessError \<or> exc_isa (exc_of e) FileNotFoundError then Inr False
           else Inl e, es)
      | (Inr out, es) \<Rightarrow>
          (Inr (list_ex (\<lambda>l. has_infix l ''carla_ros2_extension_init'' \<and> has_infix l '' T '') (splitlines out)), es))"

section \<open>The tick loops\<close>

definition default_should_continue :: "bool io" where
  "default_should_continue = retI True"

definition DEFAULT_FIXED_DELTA :: f64 where
  "DEFAULT_FIXED_DELTA = of_lit (5 / 100)"

definition get_settings :: "env \<Rightarrow> settings io" where
  "get_settings env = ask (env_settings env) OkSettings GetSettings"

definition apply_settings :: "env \<Rightarrow> settings \<Rightarrow> unit io" where
  "apply_settings env s = do_call env (ApplySettings s)"

definition perf_counter :: "env \<Rightarrow> f64 io" where
  "perf_counter env = ask (env_time env) OkTime PerfCounter"

text \<open>The body shared by the two loops: \<open>advance\<close> is \<open>world.tick()\<close> or \<open>world.wait_for_tick()\<close>.\<close>

definition tick_body :: "env \<Rightarrow> call \<Rightarrow> f64 \<Rightarrow> unit io option \<Rightarrow> bool \<Rightarrow> unit io" where
  "tick_body env advance fixed_delta on_tick paced =
     bindI (perf_counter env) (\<lambda>t0.
     bindI (do_call env advance) (\<lambda>_.
     bindI (case on_tick of None \<Rightarrow> retI () | Some f \<Rightarrow> f) (\<lambda>_.
       if paced
       then bindI (perf_counter env) (\<lambda>t1.
              let dt = t1 - t0
              in if dt < fixed_delta then do_call env (Sleep (fixed_delta - dt)) else retI ())
       else retI ())))"

definition continue_or_default :: "bool io option \<Rightarrow> bool io" where
  "continue_or_default should_continue =
     (case should_continue of None \<Rightarrow> default_should_continue | Some f \<Rightarrow> f)"

definition enter_sync :: "env \<Rightarrow> f64 \<Rightarrow> settings io" where
  "enter_sync env fixed_delta =
     bindI (get_settings env) (\<lambda>s.
     bindI (apply_settings env (s\<lparr>synchronous_mode := True, fixed_delta_seconds := Some fixed_delta\<rparr>)) (\<lambda>_.
       retI s))"

text \<open>The \<open>finally\<close> writes the two prior values back into the same settings object.\<close>

definition restore_sync :: "env \<Rightarrow> f64 \<Rightarrow> settings \<Rightarrow> unit io" where
  "restore_sync env fixed_delta s =
     (let held = s\<lparr>synchronous_mode := True, fixed_delta_seconds := Some fixed_delta\<rparr>
      in apply_settings env
           (held\<lparr>synchronous_mode := synchronous_mode s, fixed_delta_seconds := fixed_delta_seconds s\<rparr>))"

definition run_sync_loop ::
  "env \<Rightarrow> f64 \<Rightarrow> unit io option \<Rightarrow> bool io option \<Rightarrow> bool \<Rightarrow> trace \<Rightarrow> (unit res \<times> trace) option" where
  "run_sync_loop env fixed_delta on_tick should_continue paced t =
     (case enter_sync env fixed_delta t of
        (Inl e, es) \<Rightarrow> Some (Inl e, es)
      | (Inr s, es) \<Rightarrow>
          Option.bind
            (whileI (continue_or_default should_continue) (tick_body env Tick fixed_delta on_tick paced) (t @ es))
            (\<lambda>(r, es1).
              case restore_sync env fixed_delta s (t @ es @ es1) of
                (Inl e, es2) \<Rightarrow> Some (Inl e, es @ es1 @ es2)
              | (Inr _, es2) \<Rightarrow> Some (r, es @ es1 @ es2)))"

definition run_async_loop ::
  "env \<Rightarrow> f64 \<Rightarrow> unit io option \<Rightarrow> bool io option \<Rightarrow> bool \<Rightarrow> trace \<Rightarrow> (unit res \<times> trace) option" where
  "run_async_loop env fixed_delta on_tick should_continue paced t =
     (case bindI (get_settings env) (\<lambda>s. apply_settings env (s\<lparr>synchronous_mode := False\<rparr>)) t of
        (Inl e, es) \<Rightarrow> Some (Inl e, es)
      | (Inr _, es) \<Rightarrow>
          Option.bind
            (whileI (continue_or_default should_continue) (tick_body env WaitForTick fixed_delta on_tick paced)
              (t @ es))
            (\<lambda>(r, es1). Some (r, es @ es1)))"

section \<open>Substepping\<close>

definition physics_value :: "pyval \<Rightarrow> string \<Rightarrow> (pyval \<Rightarrow> 'a res) \<Rightarrow> 'a res" where
  "physics_value doc key cast =
     bindE (get_or doc key PNone) (\<lambda>value.
       if value = PNone then Raise ValueError ''does not set the key to a number''
       else catchE [TypeError, ValueError] (\<lambda>_. Raise ValueError ''malformed value'') (cast value))"

definition load_physics_config :: "env \<Rightarrow> string \<Rightarrow> (f64 \<times> int) io" where
  "load_physics_config env path =
     bindI (ask (\<lambda>t. env_yaml env t path) OkDoc (OpenYaml path)) (\<lambda>loaded.
       liftI (let doc = (if truthy loaded then loaded else PDict [])
         in bindE (physics_value doc ''max_substep_delta_time'' py_float) (\<lambda>delta.
            bindE (physics_value doc ''max_substeps'' py_int) (\<lambda>steps. Ret (delta, steps)))))"

definition apply_substep_config :: "env \<Rightarrow> f64 \<times> int \<Rightarrow> unit io" where
  "apply_substep_config env config =
     bindI (get_settings env) (\<lambda>s.
       apply_settings env (s\<lparr>max_substep_delta_time := fst config, max_substeps := snd config\<rparr>))"

section \<open>What the loops do\<close>

lemma f64_diff_nonneg: "x < y \<Longrightarrow> (0::f64) \<le> y - x"
proof (cases "(x, y)" rule: less_f64.cases)
  case (1 a b)
  assume "x < y"
  with 1 have "rnd 0 \<le> rnd (b - a)" by (intro rnd_mono) simp
  with 1 show ?thesis by (simp add: zero_f64_def)
qed (auto simp: zero_f64_def minus_f64_def)

text \<open>Events of one pass with no \<open>on_tick\<close>: no reading of the flag, no settings, at most one tick, and
  exactly one when the pass completes; a sleep only when paced, never for a negative time.\<close>

definition pass_event :: "call \<Rightarrow> bool \<Rightarrow> event \<Rightarrow> bool" where
  "pass_event advance paced e \<longleftrightarrow>
     fst e \<in> {PerfCounter, advance} \<or> (\<exists>d. fst e = Sleep d \<and> paced \<and> 0 \<le> d)"

lemma tick_body_run:
  assumes "tick_body env advance fixed_delta None paced t = (r, es)" "advance \<in> {Tick, WaitForTick}"
  shows "list_all (pass_event advance paced) es \<and> continues es = 0 \<and> ticks es \<le> 1 \<and>
    (r = Inr () \<longrightarrow> ticks es = 1)"
  using assms
  by (auto simp: tick_body_def perf_counter_def io_simps Let_def pass_event_def f64_diff_nonneg split: if_split_asm)

definition flag :: "env \<Rightarrow> bool io" where
  "flag env = ask (env_go env) OkBool ShouldContinue"

lemma flag_run:
  assumes "flag env t = (r, es)"
  shows "ticks es = 0 \<and> continues es = (if r = Inr True then 1 else 0)"
  using assms by (auto simp: flag_def ask_run split: sum.splits)

lemma flag_loop_counts:
  assumes "loop_run (flag env) (tick_body env advance fixed_delta None paced) t r es"
    "advance \<in> {Tick, WaitForTick}"
  shows "ticks es \<le> continues es \<and> continues es \<le> Suc (ticks es) \<and> (r = Inr () \<longrightarrow> ticks es = continues es)"
  using assms(1)
  by (induction rule: loop_run.induct) (auto dest!: flag_run tick_body_run [OF _ assms(2)] split: if_split_asm)

lemma flag_event: "flag env t = (r, es) \<Longrightarrow> list_all (\<lambda>e. fst e = ShouldContinue) es"
  by (auto simp: flag_def ask_run)

lemma flag_loop_events:
  assumes "loop_run (flag env) (tick_body env advance fixed_delta None paced) t r es"
    and "advance \<in> {Tick, WaitForTick}"
  shows "list_all (\<lambda>e. fst e = ShouldContinue \<or> pass_event advance paced e) es"
proof (rule loop_run_events [OF assms(1)])
  show "list_all (\<lambda>e. fst e = ShouldContinue \<or> pass_event advance paced e) es"
    if "flag env t = (r, es)" for t r es
    using flag_event [OF that] by (simp add: list_all_iff)
  show "list_all (\<lambda>e. fst e = ShouldContinue \<or> pass_event advance paced e) es"
    if "tick_body env advance fixed_delta None paced t = (r, es)" for t r es
    using tick_body_run [OF that assms(2)] by (simp add: list_all_iff)
qed

text \<open>The loop returns once the flag goes down: if the flag reads down whenever it has already said
  \<open>n\<close> times to go on, the loop ends, whatever the calls of its body answer.\<close>

lemma flag_loop_returns:
  assumes "\<And>t. n \<le> continues t \<Longrightarrow> env_go env t = Inr False" "advance \<in> {Tick, WaitForTick}"
  shows "\<exists>r es. loop_run (flag env) (tick_body env advance fixed_delta None paced) t r es"
proof (induction "n - continues t" arbitrary: t rule: less_induct)
  case less
  let ?body = "tick_body env advance fixed_delta None paced"
  obtain r1 es1 where f: "flag env t = (r1, es1)" by (cases "flag env t")
  obtain r2 es2 where b: "?body (t @ es1) = (r2, es2)" by (cases "?body (t @ es1)")
  consider e where "r1 = Inl e" | "r1 = Inr False" | e where "r1 = Inr True" "r2 = Inl e"
    | "r1 = Inr True" "r2 = Inr ()"
    by (cases r1; cases r2) auto
  then show ?case
  proof cases
    case 4
    with flag_run [OF f] tick_body_run [OF b assms(2)] have "continues (t @ es1 @ es2) = Suc (continues t)"
      by simp
    moreover from f 4 have "env_go env t = Inr True" by (simp add: flag_def ask_run)
    with assms(1) [of t] have "continues t < n" by (rule_tac ccontr) auto
    ultimately have "n - continues (t @ es1 @ es2) < n - continues t" by linarith
    from less [OF this] obtain r es where
      "loop_run (flag env) ?body (t @ es1 @ es2) r es" by blast
    with f b 4 show ?thesis by (auto intro: loop_run.again)
  qed (use f b in \<open>auto intro: loop_run.intros\<close>)
qed

lemma enter_sync_run:
  "enter_sync env fd t = (Inr s, es) \<longleftrightarrow>
     es = [(GetSettings, OkSettings s),
       (ApplySettings (s\<lparr>synchronous_mode := True, fixed_delta_seconds := Some fd\<rparr>), OkUnit)] \<and>
     env_settings env t = Inr s \<and>
     env_unit env (t @ [(GetSettings, OkSettings s)])
       (ApplySettings (s\<lparr>synchronous_mode := True, fixed_delta_seconds := Some fd\<rparr>)) = Inr ()"
  by (auto simp: enter_sync_def get_settings_def apply_settings_def io_simps)

lemma enter_sync_failed: "enter_sync env fd t = (Inl e, es) \<Longrightarrow> ticks es = 0 \<and> continues es = 0"
  by (auto simp: enter_sync_def get_settings_def apply_settings_def io_simps)

lemma enter_sync_not_applied: "enter_sync env fd t = (Inl e, es) \<Longrightarrow> (ApplySettings s, OkUnit) \<notin> set es"
  by (auto simp: enter_sync_def get_settings_def apply_settings_def io_simps)

lemma restore_sync_run:
  "restore_sync env fd s t = (r, es) \<longleftrightarrow>
     env_unit env t (ApplySettings s) = r \<and> es = [(ApplySettings s, case r of Inl e \<Rightarrow> Failed e | Inr _ \<Rightarrow> OkUnit)]"
  by (simp add: restore_sync_def apply_settings_def do_call_run)

lemma run_sync_loop_cases:
  assumes "run_sync_loop env fd on_tick go paced t = Some (r, es)"
  obtains (not_entered) e where "enter_sync env fd t = (Inl e, es)" "r = Inl e"
    | (entered) s es0 r1 mid and r2 :: "unit res" where "enter_sync env fd t = (Inr s, es0)"
        "loop_run (continue_or_default go) (tick_body env Tick fd on_tick paced) (t @ es0) r1 mid"
        "es = es0 @ mid @ [(ApplySettings s, case r2 of Inl e \<Rightarrow> Failed e | Inr _ \<Rightarrow> OkUnit)]"
        "r = (case r2 of Inl e \<Rightarrow> Inl e | Inr _ \<Rightarrow> r1)"
proof (cases "enter_sync env fd t")
  case (Pair a es0)
  show thesis
  proof (cases a)
    case (Inl e)
    with Pair assms show ?thesis by (auto simp: run_sync_loop_def intro: not_entered)
  next
    case (Inr s)
    with Pair assms obtain r1 mid where
      w: "whileI (continue_or_default go) (tick_body env Tick fd on_tick paced) (t @ es0) = Some (r1, mid)" and
      f: "(case restore_sync env fd s (t @ es0 @ mid) of
            (Inl e, es2) \<Rightarrow> Some (Inl e, es0 @ mid @ es2)
          | (Inr _, es2) \<Rightarrow> Some (r1, es0 @ mid @ es2)) = Some (r, es)"
      by (auto simp: run_sync_loop_def bind_eq_Some_conv)
    obtain r2 es2 where r2: "restore_sync env fd s (t @ es0 @ mid) = (r2, es2)"
      by (cases "restore_sync env fd s (t @ es0 @ mid)")
    show ?thesis
    proof (rule entered)
      show "enter_sync env fd t = (Inr s, es0)" using Pair Inr by simp
      show "loop_run (continue_or_default go) (tick_body env Tick fd on_tick paced) (t @ es0) r1 mid"
        using w by (simp add: whileI_iff)
      show "es = es0 @ mid @ [(ApplySettings s, case r2 of Inl e \<Rightarrow> Failed e | Inr _ \<Rightarrow> OkUnit)]"
        using f r2 by (auto simp: restore_sync_run split: sum.splits)
      show "r = (case r2 of Inl e \<Rightarrow> Inl e | Inr _ \<Rightarrow> r1)"
        using f r2 by (auto split: sum.splits)
    qed
  qed
qed

text \<open>C2: However the synchronous loop ends, by the flag, by an exception of the tick, of the
  callback or of the flag itself, its last call writes back the very settings the world had before:
  all of them, both modes restored. Only if no settings were ever written is there nothing to
  restore, and then no tick has happened either.\<close>

theorem sync_loop_restores:
  assumes "run_sync_loop env fd on_tick should_continue paced t = Some (r, es)"
  shows "(\<exists>s mid out.
      es = [(GetSettings, OkSettings s),
            (ApplySettings (s\<lparr>synchronous_mode := True, fixed_delta_seconds := Some fd\<rparr>), OkUnit)] @
           mid @ [(ApplySettings s, out)]) \<or>
    ((\<exists>e. r = Inl e) \<and> ticks es = 0 \<and> (\<forall>s. (ApplySettings s, OkUnit) \<notin> set es))"
  using assms
proof (cases rule: run_sync_loop_cases)
  case (not_entered e)
  with enter_sync_failed enter_sync_not_applied show ?thesis by blast
next
  case (entered s es0 r1 mid r2)
  then show ?thesis by (auto simp: enter_sync_run)
qed

text \<open>C11: One tick per time the flag says to go on: a synchronous loop that returns normally ticked
  the world exactly that often, and one that ends by an exception at most once less.\<close>

theorem sync_loop_ticks:
  assumes "run_sync_loop env fd None (Some (flag env)) paced t = Some (r, es)"
  shows "ticks es \<le> continues es \<and> continues es \<le> Suc (ticks es) \<and> (r = Inr () \<longrightarrow> ticks es = continues es)"
  using assms
proof (cases rule: run_sync_loop_cases)
  case (not_entered e)
  with enter_sync_failed show ?thesis by auto
next
  case (entered s es0 r1 mid r2)
  have "ticks es = ticks mid" "continues es = continues mid"
    using entered(1,3) by (auto simp: enter_sync_run)
  with flag_loop_counts [of env Tick fd paced "t @ es0" r1 mid] entered show ?thesis
    by (auto simp: continue_or_default_def split: sum.splits)
qed

text \<open>Pacing: the synchronous loop sleeps only when paced, and never for a negative time, which
  \<open>time.sleep\<close> would refuse.\<close>

theorem sync_loop_sleeps:
  assumes "run_sync_loop env fd None (Some (flag env)) paced t = Some (r, es)" "(Sleep d, out) \<in> set es"
  shows "paced \<and> 0 \<le> d"
  using assms(1)
proof (cases rule: run_sync_loop_cases)
  case (not_entered e)
  with assms(2) show ?thesis
    by (auto simp: enter_sync_def get_settings_def apply_settings_def io_simps)
next
  case (entered s es0 r1 mid r2)
  have "list_all (\<lambda>e. fst e = ShouldContinue \<or> pass_event Tick paced e) mid"
    by (rule flag_loop_events) (use entered(2) in \<open>simp_all add: continue_or_default_def\<close>)
  moreover have "(Sleep d, out) \<in> set mid"
    using assms(2) entered(1,3) by (auto simp: enter_sync_run)
  ultimately show ?thesis by (auto simp: list_all_iff pass_event_def)
qed

lemma both_loops_return:
  assumes "\<forall>t. n \<le> continues t \<longrightarrow> env_go env t = Inr False"
  shows "(\<exists>p. run_sync_loop env fd None (Some (flag env)) paced t = Some p) \<and>
    (\<exists>p. run_async_loop env fd None (Some (flag env)) paced t = Some p)"
proof -
  have w: "\<exists>r es. whileI (flag env) (tick_body env adv fd None paced) u = Some (r, es)"
    if "adv \<in> {Tick, WaitForTick}" for adv u
    using flag_loop_returns [of n env adv fd paced u] assms that by (simp add: whileI_iff)
  obtain a es0 where a: "enter_sync env fd t = (a, es0)" by (cases "enter_sync env fd t")
  obtain b es1 where b: "bindI (get_settings env) (\<lambda>s. apply_settings env (s\<lparr>synchronous_mode := False\<rparr>)) t = (b, es1)"
    by (rule prod.exhaust)
  from w [of Tick "t @ es0"] w [of WaitForTick "t @ es1"] obtain r2 es2 r3 es3 where
    "whileI (flag env) (tick_body env Tick fd None paced) (t @ es0) = Some (r2, es2)"
    "whileI (flag env) (tick_body env WaitForTick fd None paced) (t @ es1) = Some (r3, es3)" by auto
  with a b show ?thesis
    by (cases a; cases b)
      (auto simp: run_sync_loop_def run_async_loop_def continue_or_default_def split: prod.splits sum.splits)
qed

text \<open>The loops return once the stop flag is down: if the flag says at most \<open>n\<close> times to go on,
  both loops return, whatever the calls answer and whether or not they raise.\<close>

theorem loops_return:
  assumes "\<forall>t. n \<le> continues t \<longrightarrow> env_go env t = Inr False"
  shows "(\<exists>p. run_sync_loop env fd None (Some (flag env)) paced t = Some p) \<and>
    (\<exists>p. run_async_loop env fd None (Some (flag env)) paced t = Some p)"
  using assms by (rule both_loops_return)

text \<open>The asynchronous loop applies settings once, before the first pass, turning only the
  synchronous mode off, and never restores; it waits for the server's tick and never asks for one.\<close>

theorem async_loop_settings:
  assumes "run_async_loop env fd None (Some (flag env)) paced t = Some (r, es)"
  shows "(\<exists>s out rest. es = [(GetSettings, OkSettings s), (ApplySettings (s\<lparr>synchronous_mode := False\<rparr>), out)] @ rest \<and>
      (\<forall>e \<in> set rest. \<forall>s'. fst e \<noteq> ApplySettings s' \<and> fst e \<noteq> Tick)) \<or>
    (\<exists>e. es = [(GetSettings, Failed e)] \<and> r = Inl e)"
proof -
  let ?m = "bindI (get_settings env) (\<lambda>s. apply_settings env (s\<lparr>synchronous_mode := False\<rparr>))"
  obtain a es0 where a: "?m t = (a, es0)" by (cases "?m t")
  show ?thesis
  proof (cases a)
    case (Inl e)
    then have "r = Inl e" "es = es0" using assms a by (auto simp: run_async_loop_def)
    with a Inl show ?thesis by (auto simp: get_settings_def apply_settings_def io_simps)
  next
    case (Inr u)
    with a obtain s where es0: "es0 = [(GetSettings, OkSettings s), (ApplySettings (s\<lparr>synchronous_mode := False\<rparr>), OkUnit)]"
      by (auto simp: get_settings_def apply_settings_def io_simps)
    from Inr a assms obtain mid where
      w: "whileI (flag env) (tick_body env WaitForTick fd None paced) (t @ es0) = Some (r, mid)" and
      es: "es = es0 @ mid"
      by (auto simp: run_async_loop_def continue_or_default_def bind_eq_Some_conv)
    have "list_all (\<lambda>e. fst e = ShouldContinue \<or> pass_event WaitForTick paced e) mid"
      by (rule flag_loop_events [OF w [unfolded whileI_iff]]) simp
    then have "\<forall>e \<in> set mid. \<forall>s'. fst e \<noteq> ApplySettings s' \<and> fst e \<noteq> Tick"
      by (auto simp: list_all_iff pass_event_def)
    with es es0 show ?thesis by auto
  qed
qed

text \<open>A pass none of whose calls raises.\<close>

lemma calm_body:
  assumes "\<forall>t c. env_unit env t c = Inr ()" "\<forall>t. \<exists>x. env_time env t = Inr x"
  shows "\<exists>es. tick_body env advance fd None paced t = (Inr (), es)"
proof -
  have time: "\<exists>x. perf_counter env t = (Inr x, [(PerfCounter, OkTime x)])" for t
    using assms(2) [rule_format, of t] by (auto simp: perf_counter_def ask_def)
  have call: "do_call env c t = (Inr (), [(c, OkUnit)])" for c t
    using assms(1) by (simp add: do_call_def ask_def)
  obtain x where x: "perf_counter env t = (Inr x, [(PerfCounter, OkTime x)])" using time by blast
  obtain y where "perf_counter env (t @ [(PerfCounter, OkTime x), (advance, OkUnit)]) = (Inr y, [(PerfCounter, OkTime y)])"
    using time by blast
  with x call show ?thesis by (auto simp: tick_body_def bindI_def liftI_def Let_def)
qed

text \<open>With the default flag the loop ends only by an exception: where no call raises, it never
  returns.\<close>

theorem default_loop_never_returns:
  assumes "\<forall>t c. env_unit env t c = Inr ()" "\<forall>t. \<exists>x. env_time env t = Inr x" "env_settings env t = Inr s"
  shows "run_sync_loop env fd None None paced t = None"
proof (rule ccontr)
  assume "run_sync_loop env fd None None paced t \<noteq> None"
  then obtain r es where "run_sync_loop env fd None None paced t = Some (r, es)" by auto
  then show False
  proof (cases rule: run_sync_loop_cases)
    case (not_entered e)
    with assms(1,3) show ?thesis
      by (auto simp: enter_sync_def get_settings_def apply_settings_def io_simps)
  next
    case (entered s es0 r1 mid r2)
    have "False" if "loop_run (retI True) (tick_body env Tick fd None paced) u r' es'" for u r' es'
      using that
    proof (induction rule: loop_run.induct)
      case (body_raises t es1 e es2)
      with calm_body [OF assms(1,2), of Tick fd paced "t @ es1"] show ?case by simp
    qed (auto simp: liftI_run)
    with entered(2) show ?thesis by (simp add: continue_or_default_def default_should_continue_def)
  qed
qed

section \<open>The substepping configuration\<close>

lemma py_float_errors: "py_float v = Inl e \<Longrightarrow> exc_of e \<in> {TypeError, ValueError, OverflowError}"
  by (cases v) (auto simp: py_float_def float_of_int_def split: option.split_asm f64.split_asm)

lemma py_int_errors: "py_int v = Inl e \<Longrightarrow> exc_of e \<in> {TypeError, ValueError, OverflowError}"
  by (cases v) (auto simp: py_int_def split: option.split_asm f64.split_asm)

lemma physics_value_run:
  assumes "\<And>v e. cast v = Inl e \<Longrightarrow> exc_of e \<in> {TypeError, ValueError, OverflowError}"
    and "\<exists>e. cast PNone = Inl e"
  shows "physics_value (PDict d) k cast = Inr x \<longleftrightarrow> (\<exists>v. map_of d k = Some v \<and> cast v = Inr x)"
    and "physics_value (PDict d) k cast = Inl e \<Longrightarrow> exc_of e \<in> {ValueError, OverflowError}"
proof -
  have isa: "list_ex (exc_isa TypeError) [TypeError, ValueError]" "list_ex (exc_isa ValueError) [TypeError, ValueError]"
    "\<not> list_ex (exc_isa OverflowError) [TypeError, ValueError]"
    by (simp_all add: exc_isa_def)
  show "physics_value (PDict d) k cast = Inr x \<longleftrightarrow> (\<exists>v. map_of d k = Some v \<and> cast v = Inr x)"
    using assms(2) by (auto simp: physics_value_def get_or_def catchE_def split: option.splits sum.splits if_splits)
  show "physics_value (PDict d) k cast = Inl e \<Longrightarrow> exc_of e \<in> {ValueError, OverflowError}"
    using assms(1) isa
    by (fastforce simp: physics_value_def get_or_def catchE_def split: option.splits sum.splits if_splits)
qed

lemma physics_float:
  "physics_value (PDict d) k py_float = Inr x \<longleftrightarrow> (\<exists>v. map_of d k = Some v \<and> py_float v = Inr x)"
  "physics_value (PDict d) k py_float = Inl e \<Longrightarrow> exc_of e \<in> {ValueError, OverflowError}"
  by (rule physics_value_run; use py_float_errors in \<open>auto simp: py_float_def\<close>)+

lemma physics_int:
  "physics_value (PDict d) k py_int = Inr x \<longleftrightarrow> (\<exists>v. map_of d k = Some v \<and> py_int v = Inr x)"
  "physics_value (PDict d) k py_int = Inl e \<Longrightarrow> exc_of e \<in> {ValueError, OverflowError}"
  by (rule physics_value_run; use py_int_errors in \<open>auto simp: py_int_def\<close>)+

text \<open>C15: Loading a physics file that holds a mapping returns the two values exactly when both keys
  are present and convert (a null does not), and otherwise raises ValueError, with one exception: a
  number that has no conversion of its size (an infinite \<open>max_substeps\<close>) escapes as OverflowError.\<close>

theorem load_physics_config_correct:
  assumes "load_physics_config env path t = (r, es)" "env_yaml env t path = Inr (PDict d)"
  shows "(\<forall>delta steps. r = Inr (delta, steps) \<longleftrightarrow>
      (\<exists>v w. map_of d ''max_substep_delta_time'' = Some v \<and> py_float v = Inr delta \<and>
             map_of d ''max_substeps'' = Some w \<and> py_int w = Inr steps)) \<and>
    (case r of Inl e \<Rightarrow> exc_of e = ValueError \<or> exc_of e = OverflowError | Inr _ \<Rightarrow> True)"
proof -
  have "(if truthy (PDict d) then PDict d else PDict []) = PDict d" by simp
  then have r: "r = bindE (physics_value (PDict d) ''max_substep_delta_time'' py_float) (\<lambda>delta.
        bindE (physics_value (PDict d) ''max_substeps'' py_int) (\<lambda>steps. Ret (delta, steps)))"
    using assms by (simp only: load_physics_config_def bindI_run ask_run liftI_run Let_def) auto
  have "\<forall>delta steps. r = Inr (delta, steps) \<longleftrightarrow>
      (\<exists>v w. map_of d ''max_substep_delta_time'' = Some v \<and> py_float v = Inr delta \<and>
             map_of d ''max_substeps'' = Some w \<and> py_int w = Inr steps)"
    unfolding r bindE_Inr_iff physics_float(1) physics_int(1) by auto
  moreover have "exc_of e \<in> {ValueError, OverflowError}" if "r = Inl e" for e
    using that unfolding r bindE_Inl_iff by (blast dest: physics_float(2) physics_int(2))
  ultimately show ?thesis by (auto split: sum.split)
qed

text \<open>Applying the substepping changes those two settings and no other.\<close>

theorem apply_substep_config_only:
  assumes "apply_substep_config env config t = (Inr u, es)"
  shows "\<exists>s s'. es = [(GetSettings, OkSettings s), (ApplySettings s', OkUnit)] \<and>
    max_substep_delta_time s' = fst config \<and> max_substeps s' = snd config \<and>
    synchronous_mode s' = synchronous_mode s \<and> fixed_delta_seconds s' = fixed_delta_seconds s \<and>
    other_settings s' = other_settings s"
  using assms by (auto simp: apply_substep_config_def get_settings_def apply_settings_def io_simps)

section \<open>Witnesses\<close>

lemma sample_flag: "\<forall>t. 2 \<le> continues t \<longrightarrow> env_go sample_env t = Inr False"
  by (simp add: sample_env_def)

lemmas loop_eval = io_eval run_sync_loop_def run_async_loop_def enter_sync_def restore_sync_def get_settings_def
  apply_settings_def tick_body_def perf_counter_def flag_def continue_or_default_def Let_def whileI.simps zero_f64_def

lemma sample_sync_run:
  obtains es where "run_sync_loop sample_env (Fin 1) None (Some (flag sample_env)) True [] = Some (Inr (), es)"
    "(Sleep (Fin 1), OkUnit) \<in> set es"
  by (simp add: loop_eval)

theorem sync_loop_restores_witness:
  "\<exists>es mid out. run_sync_loop sample_env (Fin 1) None (Some (flag sample_env)) True [] = Some (Inr (), es) \<and>
     es = [(GetSettings, OkSettings sample_settings),
           (ApplySettings (sample_settings\<lparr>synchronous_mode := True, fixed_delta_seconds := Some (Fin 1)\<rparr>), OkUnit)] @
          mid @ [(ApplySettings sample_settings, out)]"
proof -
  obtain es where es: "run_sync_loop sample_env (Fin 1) None (Some (flag sample_env)) True [] = Some (Inr (), es)"
    "hd es = (GetSettings, OkSettings sample_settings)"
    by (simp add: loop_eval)
  from sync_loop_restores [OF es(1)] es(2) obtain mid out where
    "es = [(GetSettings, OkSettings sample_settings),
           (ApplySettings (sample_settings\<lparr>synchronous_mode := True, fixed_delta_seconds := Some (Fin 1)\<rparr>), OkUnit)] @
          mid @ [(ApplySettings sample_settings, out)]"
    by (auto simp del: append_Cons)
  with es(1) show ?thesis by blast
qed

theorem sync_loop_ticks_witness:
  "\<exists>es. run_sync_loop sample_env (Fin 1) None (Some (flag sample_env)) True [] = Some (Inr (), es) \<and>
     ticks es = continues es"
proof -
  obtain es where es: "run_sync_loop sample_env (Fin 1) None (Some (flag sample_env)) True [] = Some (Inr (), es)"
    by (rule sample_sync_run)
  with sync_loop_ticks [OF es] show ?thesis by blast
qed

theorem sync_loop_sleeps_witness:
  "\<exists>es. run_sync_loop sample_env (Fin 1) None (Some (flag sample_env)) True [] = Some (Inr (), es) \<and>
     (Sleep (Fin 1), OkUnit) \<in> set es \<and> 0 \<le> Fin 1"
proof -
  obtain es where es: "run_sync_loop sample_env (Fin 1) None (Some (flag sample_env)) True [] = Some (Inr (), es)"
    "(Sleep (Fin 1), OkUnit) \<in> set es"
    by (rule sample_sync_run)
  with sync_loop_sleeps [OF es] show ?thesis by blast
qed

theorem loops_return_witness:
  "\<exists>p. run_async_loop sample_env (Fin 1) None (Some (flag sample_env)) True [] = Some p"
proof -
  have "\<forall>t. 2 \<le> continues t \<longrightarrow> env_go sample_env t = Inr False" by simp
  from loops_return [OF this] show ?thesis by blast
qed

theorem async_loop_settings_witness:
  "\<exists>es s out rest. run_async_loop sample_env (Fin 1) None (Some (flag sample_env)) False [] = Some (Inr (), es) \<and>
     es = [(GetSettings, OkSettings s), (ApplySettings (s\<lparr>synchronous_mode := False\<rparr>), out)] @ rest \<and>
     (\<forall>e \<in> set rest. fst e \<noteq> Tick)"
proof -
  obtain es where es: "run_async_loop sample_env (Fin 1) None (Some (flag sample_env)) False [] = Some (Inr (), es)"
    by (simp add: loop_eval)
  from async_loop_settings [OF es] es show ?thesis by blast
qed

theorem default_loop_never_returns_witness:
  "run_sync_loop sample_env DEFAULT_FIXED_DELTA None None True [] = None"
  by (rule default_loop_never_returns [where s = sample_settings]) auto

definition physics_env :: env where
  "physics_env = sample_env\<lparr>env_yaml := \<lambda>t p.
     if p = ''good'' then Inr (PDict [(''max_substep_delta_time'', PFloat (Fin (1 / 128))), (''max_substeps'', PInt 16)])
     else if p = ''null'' then Inr (PDict [(''max_substep_delta_time'', PNone), (''max_substeps'', PNone)])
     else Inr (PDict [(''max_substep_delta_time'', PFloat 1), (''max_substeps'', PFloat PInf)])\<rparr>"

theorem load_physics_config_correct_witness:
  "\<exists>es. load_physics_config physics_env ''good'' [] = (Inr (Fin (1 / 128), 16), es)"
proof -
  obtain r es where run: "load_physics_config physics_env ''good'' [] = (r, es)" by (rule prod.exhaust)
  have "env_yaml physics_env [] ''good'' =
      Inr (PDict [(''max_substep_delta_time'', PFloat (Fin (1 / 128))), (''max_substeps'', PInt 16)])"
    by (simp add: physics_env_def)
  from load_physics_config_correct [OF run this] have "r = Inr (Fin (1 / 128), 16)" by simp
  with run show ?thesis by blast
qed

text \<open>The one escape: an infinite \<open>max_substeps\<close> leaves as an OverflowError, not as the documented
  ValueError.\<close>

theorem infinite_substeps_escape:
  assumes "env_yaml env t path = Inr (PDict d)" "map_of d ''max_substep_delta_time'' = Some v" "py_float v = Inr delta"
    and "map_of d ''max_substeps'' = Some (PFloat PInf)"
  shows "\<exists>m. fst (load_physics_config env path t) = Raise OverflowError m"
proof -
  have "v \<noteq> PNone" "d \<noteq> []" using assms(2,3) by (auto simp: py_float_def)
  with assms show ?thesis
    by (simp add: load_physics_config_def bindI_def ask_def liftI_def physics_value_def get_or_def py_int_def
        catchE_def exc_isa_def)
qed

theorem infinite_substeps_escape_witness:
  "\<exists>m. fst (load_physics_config physics_env ''inf'' []) = Raise OverflowError m"
  by (rule infinite_substeps_escape [where delta = 1 and v = "PFloat 1"
        and d = "[(''max_substep_delta_time'', PFloat 1), (''max_substeps'', PFloat PInf)]"])
    (simp_all add: physics_env_def)

theorem apply_substep_config_only_witness:
  "\<exists>es s s'. apply_substep_config sample_env (Fin (1 / 128), 16) [] = (Inr (), es) \<and>
     es = [(GetSettings, OkSettings s), (ApplySettings s', OkUnit)] \<and> max_substeps s' = 16"
proof -
  obtain es where es: "apply_substep_config sample_env (Fin (1 / 128), 16) [] = (Inr (), es)"
    by (simp add: apply_substep_config_def loop_eval)
  from apply_substep_config_only [OF es] es show ?thesis by auto
qed

end
