(* ===== verification/Runner_Args.thy ===== *)
theory Runner_Args
  imports Spawn Tick_Loop
begin

text \<open>
  The command line of \<^verbatim>\<open>runner/__main__.py\<close>: the table of options \<open>build_arg_parser\<close> declares, and what
  \<open>argparse\<close> makes of an argument list with it: exact and abbreviated long flags, \<open>--flag=value\<close>,
  values that look like negative numbers, the type conversions, the defaults (a string default is
  converted too), \<open>-h\<close>, and exit status 2 on any error. A bare \<open>--\<close> among the arguments is counted as
  an unrecognised one.
\<close>

section \<open>The options\<close>

datatype opt_kind = StrOpt | IntOpt | FloatOpt | SixFloats | SwitchOn | ChoiceList "string list"

record opt_spec =
  opt_flag :: string
  opt_dest :: string
  opt_kind_of :: opt_kind
  opt_default :: pyval

abbreviation opt :: "string \<Rightarrow> string \<Rightarrow> opt_kind \<Rightarrow> pyval \<Rightarrow> opt_spec" where
  "opt f d k v \<equiv> \<lparr>opt_flag = f, opt_dest = d, opt_kind_of = k, opt_default = v\<rparr>"

text \<open>The two default calibration paths are absolute paths of the checkout, parameters here.\<close>

definition build_arg_parser :: "string \<Rightarrow> string \<Rightarrow> opt_spec list" where
  "build_arg_parser kit_path sensors_path =
     [opt ''--host'' ''host'' StrOpt (PStr ''localhost''),
      opt ''--port'' ''port'' IntOpt (PInt 2000),
      opt ''--map'' ''map'' StrOpt (PStr ''NishishinjukuMap''),
      opt ''--sensor-kit-calibration'' ''sensor_kit_calibration'' StrOpt (PStr kit_path),
      opt ''--sensors-calibration'' ''sensors_calibration'' StrOpt (PStr sensors_path),
      opt ''--extension-so'' ''extension_so'' StrOpt (PStr ''''),
      opt ''--extension-check'' ''extension_check'' SwitchOn (PBool False),
      opt ''--initial-pose'' ''initial_pose'' SixFloats PNone,
      opt ''--spawn-index'' ''spawn_index'' IntOpt (PInt 0),
      opt ''--async'' ''async_mode'' SwitchOn (PBool False),
      opt ''--lidar-channels'' ''lidar_channels'' IntOpt PNone,
      opt ''--lidar-pps'' ''lidar_pps'' IntOpt PNone,
      opt ''--lidar-rotation-hz'' ''lidar_rotation_hz'' FloatOpt PNone,
      opt ''--lidar-range'' ''lidar_range'' FloatOpt PNone,
      opt ''--cameras'' ''cameras'' IntOpt (PInt 0),
      opt ''--camera-width'' ''camera_width'' IntOpt (PInt CAMERA_DEFAULT_WIDTH),
      opt ''--camera-height'' ''camera_height'' IntOpt (PInt CAMERA_DEFAULT_HEIGHT),
      opt ''--camera-tick'' ''camera_tick'' FloatOpt (PStr CAMERA_DEFAULT_SENSOR_TICK),
      opt ''--fixed-delta'' ''fixed_delta'' FloatOpt (PFloat DEFAULT_FIXED_DELTA),
      opt ''--unpaced'' ''unpaced'' SwitchOn (PBool False),
      opt ''--substep-config'' ''substep_config'' StrOpt PNone]"

section \<open>Reading an argument list\<close>

datatype tok = TArg | TUnknown | TAmbiguous | THelp (explicit: "string option") | TOpt opt_spec "string option"

text \<open>The digits of a negative number: \<open>^-\d+$|^-\d*\.\d+$\<close>.\<close>

definition all_digits :: "string \<Rightarrow> bool" where
  "all_digits s \<longleftrightarrow> s \<noteq> [] \<and> list_all (\<lambda>c. digit_of c \<noteq> None) s"

definition negative_number :: "string \<Rightarrow> bool" where
  "negative_number s \<longleftrightarrow>
     (case s of
        [] \<Rightarrow> False
      | c # r \<Rightarrow> c = CHR ''-'' \<and>
          (all_digits r \<or>
           (let fp = dropWhile (\<lambda>c. c \<noteq> CHR ''.'') r; ip = takeWhile (\<lambda>c. c \<noteq> CHR ''.'') r
            in list_all (\<lambda>c. digit_of c \<noteq> None) ip \<and> fp \<noteq> [] \<and> all_digits (tl fp))))"

text \<open>An option string before \<open>=\<close> and the explicit argument after it.\<close>

definition split_eq :: "string \<Rightarrow> string \<times> string option" where
  "split_eq s =
     (let r = dropWhile (\<lambda>c. c \<noteq> CHR ''='') s
      in (takeWhile (\<lambda>c. c \<noteq> CHR ''='') s, if r = [] then None else Some (tl r)))"

definition help_flags :: "string list" where
  "help_flags = [''-h'', ''--help'']"

definition classify :: "opt_spec list \<Rightarrow> string \<Rightarrow> tok" where
  "classify specs s =
     (if s = [] \<or> hd s \<noteq> CHR ''-'' then TArg
      else case find (\<lambda>o1. opt_flag o1 = s) specs of
        Some o1 \<Rightarrow> TOpt o1 None
      | None \<Rightarrow>
          if s \<in> set help_flags then THelp None
          else if length s = 1 then TArg
          else
            let (name, arg) = split_eq s;
                hits = filter (\<lambda>o1. opt_flag o1 = name) specs;
                abbrevs = filter (\<lambda>o1. starts_with (opt_flag o1) name) specs;
                helps = filter (\<lambda>f. starts_with f name) [''--help'']
            in if arg \<noteq> None \<and> hits \<noteq> [] then TOpt (hd hits) arg
               else if arg \<noteq> None \<and> name \<in> set help_flags then THelp arg
               else if starts_with s ''--'' \<and> 1 < length abbrevs + length helps then TAmbiguous
               else if starts_with s ''--'' \<and> abbrevs \<noteq> [] then TOpt (hd abbrevs) arg
               else if starts_with s ''--'' \<and> helps \<noteq> [] then THelp arg
               else if starts_with s ''-h'' then THelp (Some (drop 2 s))
               else if negative_number s \<or> CHR '' '' \<in> set s then TArg
               else TUnknown)"

type_synonym namespace = "(string \<times> pyval) list"

text \<open>The \<open>type=\<close> conversion; \<open>argparse\<close> turns ValueError into exit status 2.\<close>

definition convert_opt :: "opt_kind \<Rightarrow> string \<Rightarrow> pyval option" where
  "convert_opt k s =
     (case k of
        IntOpt \<Rightarrow> map_option PInt (parse_int s)
      | FloatOpt \<Rightarrow> map_option PFloat (parse_float s)
      | SixFloats \<Rightarrow> map_option PFloat (parse_float s)
      | ChoiceList cs \<Rightarrow> if s \<in> set cs then Some (PStr s) else None
      | _ \<Rightarrow> Some (PStr s))"

fun convert_all :: "opt_kind \<Rightarrow> string list \<Rightarrow> pyval list option" where
  "convert_all k [] = Some []"
| "convert_all k (s # ss) =
     (case (convert_opt k s, convert_all k ss) of (Some v, Some vs) \<Rightarrow> Some (v # vs) | _ \<Rightarrow> None)"

text \<open>The value an option takes and how many of the following tokens it consumes.\<close>

definition take_value :: "opt_spec list \<Rightarrow> opt_spec \<Rightarrow> string option \<Rightarrow> string list \<Rightarrow> (pyval \<times> nat) option" where
  "take_value specs o1 arg rest =
     (case opt_kind_of o1 of
        SwitchOn \<Rightarrow> if arg = None then Some (PBool True, 0) else None
      | SixFloats \<Rightarrow>
          if arg = None \<and> 6 \<le> length rest \<and> list_all (\<lambda>s. classify specs s = TArg) (take 6 rest)
          then map_option (\<lambda>vs. (PList vs, 6)) (convert_all SixFloats (take 6 rest)) else None
      | k \<Rightarrow>
          (case arg of
             Some s \<Rightarrow> map_option (\<lambda>v. (v, 0)) (convert_opt k s)
           | None \<Rightarrow>
               (case rest of
                  [] \<Rightarrow> None
                | s # _ \<Rightarrow> if classify specs s = TArg then map_option (\<lambda>v. (v, 1)) (convert_opt k s) else None)))"

text \<open>What an option does with its value: \<open>action="append"\<close> adds it to the list so far, every other action
  replaces the value.\<close>

definition store :: "opt_spec \<Rightarrow> pyval \<Rightarrow> namespace \<Rightarrow> namespace" where
  "store o1 v ns =
     (case opt_kind_of o1 of
        ChoiceList _ \<Rightarrow>
          let so_far = (case map_of ns (opt_dest o1) of Some (PList vs) \<Rightarrow> vs | _ \<Rightarrow> [])
          in dict_set (opt_dest o1) (PList (so_far @ [v])) ns
      | _ \<Rightarrow> dict_set (opt_dest o1) v ns)"

text \<open>\<open>Inl n\<close>: the process exits with status \<open>n\<close>.\<close>

function parse_tokens :: "opt_spec list \<Rightarrow> namespace \<Rightarrow> bool \<Rightarrow> string list \<Rightarrow> int + namespace" where
  "parse_tokens specs ns extras [] = (if extras then Inl 2 else Inr ns)"
| "parse_tokens specs ns extras (s # rest) =
     (case classify specs s of
        THelp None \<Rightarrow> Inl 0
      | THelp (Some _) \<Rightarrow> Inl 2
      | TAmbiguous \<Rightarrow> Inl 2
      | TOpt o1 arg \<Rightarrow>
          (case take_value specs o1 arg rest of
             None \<Rightarrow> Inl 2
           | Some (v, n) \<Rightarrow> parse_tokens specs (store o1 v ns) extras (drop n rest))
      | _ \<Rightarrow> parse_tokens specs ns True rest)"
  by pat_completeness auto
termination
  by (relation "measure (\<lambda>(specs, ns, extras, ss). length ss)") auto

text \<open>A string default goes through the conversion as well.\<close>

definition default_of :: "opt_spec \<Rightarrow> pyval" where
  "default_of o1 =
     (case opt_default o1 of
        PStr s \<Rightarrow> (case convert_opt (opt_kind_of o1) s of None \<Rightarrow> PStr s | Some v \<Rightarrow> v)
      | v \<Rightarrow> v)"

definition defaults :: "opt_spec list \<Rightarrow> namespace" where
  "defaults specs = map (\<lambda>o1. (opt_dest o1, default_of o1)) specs"

text \<open>All tokens are classified, and an ambiguous one refused, before any action runs.\<close>

definition parse_args :: "opt_spec list \<Rightarrow> string list \<Rightarrow> int + namespace" where
  "parse_args specs argv =
     (if list_ex (\<lambda>s. classify specs s = TAmbiguous) argv then Inl 2
      else parse_tokens specs (defaults specs) False argv)"

section \<open>What parsing guarantees\<close>

text \<open>The values an option can leave in the namespace: its default, or a value of its kind.\<close>

definition kind_value :: "opt_kind \<Rightarrow> pyval \<Rightarrow> bool" where
  "kind_value k v =
     (case k of
        StrOpt \<Rightarrow> is_str v
      | IntOpt \<Rightarrow> (\<exists>n. v = PInt n)
      | FloatOpt \<Rightarrow> (\<exists>x. v = PFloat x)
      | SixFloats \<Rightarrow> (\<exists>xs. v = PList (map PFloat xs) \<and> length xs = 6)
      | ChoiceList cs \<Rightarrow> (\<exists>ss. v = PList (map PStr ss) \<and> ss \<noteq> [] \<and> set ss \<subseteq> set cs)
      | SwitchOn \<Rightarrow> v = PBool True)"

definition typed_ns :: "opt_spec list \<Rightarrow> namespace \<Rightarrow> bool" where
  "typed_ns specs ns \<longleftrightarrow>
     map fst ns = map opt_dest specs \<and>
     (\<forall>o1 \<in> set specs. \<exists>v. map_of ns (opt_dest o1) = Some v \<and> (v = default_of o1 \<or> kind_value (opt_kind_of o1) v))"

lemma classify_spec: "classify specs s = TOpt o1 arg \<Longrightarrow> o1 \<in> set specs"
proof -
  assume c: "classify specs s = TOpt o1 arg"
  have f: "find P specs = Some x \<Longrightarrow> x \<in> set specs" for P x by (auto simp: find_Some_iff)
  have h: "filter P specs \<noteq> [] \<Longrightarrow> hd (filter P specs) \<in> set specs" for P
    using hd_in_set [of "filter P specs"] by auto
  show ?thesis
    using c f h by (auto simp: classify_def Let_def split: if_split_asm option.split_asm prod.split_asm)
qed

lemma convert_all_floats:
  "convert_all SixFloats ss = Some vs \<Longrightarrow> \<exists>xs. vs = map PFloat xs \<and> length xs = length ss"
proof (induction ss arbitrary: vs)
  case Nil
  then show ?case by simp
next
  case (Cons s ss)
  then obtain x vs' where x: "parse_float s = Some x" "convert_all SixFloats ss = Some vs'" "vs = PFloat x # vs'"
    by (auto simp: convert_opt_def split: option.split_asm)
  with Cons.IH obtain xs where "vs' = map PFloat xs" "length xs = length ss" by blast
  with x show ?case by (intro exI [of _ "x # xs"]) simp
qed

text \<open>A choice is one of the list; a value of any other kind is stored as it is.\<close>

lemma take_choice:
  "take_value specs o1 arg rest = Some (v, n) \<Longrightarrow> opt_kind_of o1 = ChoiceList cs \<Longrightarrow> \<exists>s \<in> set cs. v = PStr s"
  by (auto simp: take_value_def convert_opt_def split: option.split_asm list.split_asm if_split_asm)

lemma take_value_kind:
  "take_value specs o1 arg rest = Some (v, n) \<Longrightarrow> \<nexists>cs. opt_kind_of o1 = ChoiceList cs \<Longrightarrow> kind_value (opt_kind_of o1) v"
  by (cases "opt_kind_of o1")
    (auto simp: take_value_def kind_value_def convert_opt_def
      split: option.split_asm list.split_asm if_split_asm dest!: convert_all_floats)

lemma store_other [simp]: "d \<noteq> opt_dest o1 \<Longrightarrow> map_of (store o1 v ns) d = map_of ns d"
  by (auto simp: store_def Let_def split: opt_kind.split)

lemma store_keys: "opt_dest o1 \<in> fst ` set ns \<Longrightarrow> map fst (store o1 v ns) = map fst ns"
  using dict_set_keys [of "opt_dest o1" _ ns] by (auto simp: store_def Let_def dict_keys_def split: opt_kind.split)

text \<open>An appending option starts from nothing.\<close>

definition append_from_none :: "opt_spec list \<Rightarrow> bool" where
  "append_from_none specs \<longleftrightarrow>
     (\<forall>o1 \<in> set specs. case opt_kind_of o1 of ChoiceList _ \<Rightarrow> opt_default o1 = PNone | _ \<Rightarrow> True)"

lemma store_kind:
  assumes "typed_ns specs ns" "o1 \<in> set specs" "append_from_none specs" "take_value specs' o1 arg rest = Some (v, n)"
  shows "\<exists>w. map_of (store o1 v ns) (opt_dest o1) = Some w \<and> kind_value (opt_kind_of o1) w"
proof (cases "\<exists>cs. opt_kind_of o1 = ChoiceList cs")
  case True
  then obtain cs where cs: "opt_kind_of o1 = ChoiceList cs" by blast
  then obtain s where s: "s \<in> set cs" "v = PStr s" using take_choice [OF assms(4)] by blast
  from assms(2,3) cs have "default_of o1 = PNone" by (force simp: append_from_none_def default_of_def)
  with assms(1,2) cs obtain old where "map_of ns (opt_dest o1) = Some old"
    "old = PNone \<or> (\<exists>ss. old = PList (map PStr ss) \<and> ss \<noteq> [] \<and> set ss \<subseteq> set cs)"
    by (fastforce simp: typed_ns_def kind_value_def)
  then obtain ss where "set ss \<subseteq> set cs"
    "map_of (store o1 v ns) (opt_dest o1) = Some (PList (map PStr ss @ [PStr s]))"
    by (auto simp: store_def cs s(2) intro: that [of "[]"])
  with s(1) cs show ?thesis by (auto simp: kind_value_def intro!: exI [of _ "ss @ [s]"])
next
  case False
  then have "map_of (store o1 v ns) (opt_dest o1) = Some v" by (auto simp: store_def split: opt_kind.split)
  with take_value_kind [OF assms(4) False] show ?thesis by blast
qed

lemma typed_ns_store:
  assumes "typed_ns specs ns" "o1 \<in> set specs" "append_from_none specs" "distinct (map opt_dest specs)"
    and "take_value specs' o1 arg rest = Some (v, n)"
  shows "typed_ns specs (store o1 v ns)"
  unfolding typed_ns_def
proof (intro conjI ballI)
  have k: "map fst ns = map opt_dest specs" using assms(1) by (simp add: typed_ns_def)
  then have "opt_dest o1 \<in> fst ` set ns" using assms(2) by (metis image_eqI list.set_map)
  from store_keys [OF this] k show "map fst (store o1 v ns) = map opt_dest specs" by simp
  fix o2 assume o2: "o2 \<in> set specs"
  show "\<exists>w. map_of (store o1 v ns) (opt_dest o2) = Some w \<and>
      (w = default_of o2 \<or> kind_value (opt_kind_of o2) w)"
  proof (cases "opt_dest o2 = opt_dest o1")
    case True
    with assms(2,4) o2 have "o2 = o1" by (auto simp: distinct_map inj_on_def)
    with store_kind [OF assms(1-3,5)] show ?thesis by blast
  next
    case False
    with assms(1) o2 show ?thesis by (simp add: typed_ns_def)
  qed
qed

lemma parse_tokens_typed:
  "parse_tokens specs ns extras ss = Inr ns' \<Longrightarrow> typed_ns specs ns \<Longrightarrow> distinct (map opt_dest specs) \<Longrightarrow>
     append_from_none specs \<Longrightarrow> typed_ns specs ns'"
proof (induction specs ns extras ss rule: parse_tokens.induct)
  case (1 specs ns extras)
  then show ?case by (simp split: if_split_asm)
next
  case (2 specs ns extras s rest)
  show ?case
  proof (cases "classify specs s")
    case (TOpt o1 arg)
    with "2.prems"(1) obtain v n where v: "take_value specs o1 arg rest = Some (v, n)"
      and p: "parse_tokens specs (store o1 v ns) extras (drop n rest) = Inr ns'"
      by (auto split: option.split_asm prod.split_asm)
    have "typed_ns specs (store o1 v ns)"
      by (rule typed_ns_store [OF "2.prems"(2) classify_spec [OF TOpt] "2.prems"(4,3) v])
    from "2.IH"(3) [OF TOpt v refl p this "2.prems"(3,4)] show ?thesis .
  qed (use 2 in \<open>auto split: option.split_asm\<close>)
qed

lemma defaults_typed: "distinct (map opt_dest specs) \<Longrightarrow> typed_ns specs (defaults specs)"
  by (auto simp: typed_ns_def defaults_def o_def map_of_eq_Some_iff)

lemma parse_tokens_exit: "parse_tokens specs ns extras ss = Inl n \<Longrightarrow> n = 0 \<or> n = 2"
  by (induction specs ns extras ss rule: parse_tokens.induct)
    (auto split: tok.split_asm option.split_asm if_split_asm prod.split_asm)

lemma parse_args_exit: "parse_args specs argv = Inl n \<Longrightarrow> n = 0 \<or> n = 2"
  by (auto simp: parse_args_def dest: parse_tokens_exit split: if_split_asm)


text \<open>A destination no token names keeps its default.\<close>

lemma parse_tokens_untouched:
  assumes "parse_tokens specs ns extras ss = Inr ns'"
    and "\<forall>s \<in> set ss. \<forall>o1 arg. classify specs s = TOpt o1 arg \<longrightarrow> opt_dest o1 \<noteq> d"
  shows "map_of ns' d = map_of ns d"
  using assms
proof (induction specs ns extras ss rule: parse_tokens.induct)
  case (1 specs ns extras)
  then show ?case by (simp split: if_split_asm)
next
  case (2 specs ns extras s rest)
  have sub: "\<forall>s \<in> set (drop n rest). \<forall>o1 arg. classify specs s = TOpt o1 arg \<longrightarrow> opt_dest o1 \<noteq> d" for n
    using "2.prems"(2) by (meson in_set_dropD list.set_intros(2))
  show ?case
  proof (cases "classify specs s")
    case (TOpt o1 arg)
    with "2.prems"(1) obtain v n where v: "take_value specs o1 arg rest = Some (v, n)"
      and p: "parse_tokens specs (store o1 v ns) extras (drop n rest) = Inr ns'"
      by (auto split: option.split_asm prod.split_asm)
    from "2.IH"(3) [OF TOpt v refl p sub] have "map_of ns' d = map_of (store o1 v ns) d" .
    with TOpt "2.prems"(2) show ?thesis by auto
  qed (use 2 in \<open>auto split: option.split_asm\<close>)
qed

text \<open>An option that no argument names keeps its declared default, whatever else is passed.\<close>

theorem omitted_option_default:
  assumes "parse_args specs argv = Inr ns"
    and "\<forall>s \<in> set argv. \<forall>o1 arg. classify specs s = TOpt o1 arg \<longrightarrow> opt_dest o1 \<noteq> d"
  shows "map_of ns d = map_of (defaults specs) d"
proof -
  from assms(1) have "parse_tokens specs (defaults specs) False argv = Inr ns"
    by (simp add: parse_args_def split: if_split_asm)
  then show ?thesis using assms(2) by (rule parse_tokens_untouched)
qed

section \<open>The arguments the runner reads\<close>

record runner_args =
  a_host :: string
  a_port :: int
  a_map :: string
  a_sensor_kit_calibration :: string
  a_sensors_calibration :: string
  a_extension_so :: string
  a_extension_check :: bool
  a_initial_pose :: "f64 list option"
  a_spawn_index :: int
  a_async_mode :: bool
  a_lidar_channels :: "int option"
  a_lidar_pps :: "int option"
  a_lidar_rotation_hz :: "f64 option"
  a_lidar_range :: "f64 option"
  a_cameras :: int
  a_camera_width :: int
  a_camera_height :: int
  a_camera_tick :: f64
  a_fixed_delta :: f64
  a_unpaced :: bool
  a_substep_config :: "string option"

text \<open>Reading a destination at its type; on a namespace that \<open>parse_args\<close> returned the fallbacks are
  never reached.\<close>

fun as_int :: "pyval option \<Rightarrow> int option" where
  "as_int (Some (PInt n)) = Some n" | "as_int _ = None"

fun as_float :: "pyval option \<Rightarrow> f64 option" where
  "as_float (Some (PFloat x)) = Some x" | "as_float _ = None"

fun as_str :: "pyval option \<Rightarrow> string option" where
  "as_str (Some (PStr s)) = Some s" | "as_str _ = None"

fun as_floats :: "pyval option \<Rightarrow> f64 list option" where
  "as_floats (Some (PList vs)) = Some (map (\<lambda>v. case v of PFloat x \<Rightarrow> x | _ \<Rightarrow> NaN) vs)" | "as_floats _ = None"

definition args_of :: "namespace \<Rightarrow> runner_args" where
  "args_of ns =
     (let str = (\<lambda>d. case as_str (map_of ns d) of None \<Rightarrow> [] | Some s \<Rightarrow> s);
          num = (\<lambda>d. case as_int (map_of ns d) of None \<Rightarrow> 0 | Some n \<Rightarrow> n);
          flo = (\<lambda>d. case as_float (map_of ns d) of None \<Rightarrow> NaN | Some x \<Rightarrow> x);
          on = (\<lambda>d. map_of ns d = Some (PBool True))
      in \<lparr>a_host = str ''host'', a_port = num ''port'', a_map = str ''map'',
          a_sensor_kit_calibration = str ''sensor_kit_calibration'',
          a_sensors_calibration = str ''sensors_calibration'', a_extension_so = str ''extension_so'',
          a_extension_check = on ''extension_check'', a_initial_pose = as_floats (map_of ns ''initial_pose''),
          a_spawn_index = num ''spawn_index'', a_async_mode = on ''async_mode'',
          a_lidar_channels = as_int (map_of ns ''lidar_channels''),
          a_lidar_pps = as_int (map_of ns ''lidar_pps''),
          a_lidar_rotation_hz = as_float (map_of ns ''lidar_rotation_hz''),
          a_lidar_range = as_float (map_of ns ''lidar_range''), a_cameras = num ''cameras'',
          a_camera_width = num ''camera_width'', a_camera_height = num ''camera_height'',
          a_camera_tick = flo ''camera_tick'', a_fixed_delta = flo ''fixed_delta'',
          a_unpaced = on ''unpaced'', a_substep_config = as_str (map_of ns ''substep_config'')\<rparr>)"

text \<open>\<open>if v is not None: overrides[k] = str(v)\<close>, with \<open>v\<close> already printed.\<close>

definition put_override :: "string \<Rightarrow> string option \<Rightarrow> attrs \<Rightarrow> attrs" where
  "put_override k v ov = (case v of None \<Rightarrow> ov | Some s \<Rightarrow> dict_set k s ov)"

definition build_lidar_overrides :: "runner_args \<Rightarrow> attrs" where
  "build_lidar_overrides args =
     put_override ''range'' (map_option repr_f64 (a_lidar_range args))
       (put_override ''rotation_frequency'' (map_option repr_f64 (a_lidar_rotation_hz args))
         (put_override ''points_per_second'' (map_option show_int (a_lidar_pps args))
           (put_override ''channels'' (map_option show_int (a_lidar_channels args)) [])))"

lemma put_override_lookup:
  "map_of (put_override k v ov) j = (if j = k \<and> v \<noteq> None then v else map_of ov j)"
  by (auto simp: put_override_def split: option.split)

lemma put_override_distinct: "distinct (map fst ov) \<Longrightarrow> distinct (map fst (put_override k v ov))"
  using distinct_dict_set by (auto simp: put_override_def dict_keys_def split: option.split)

lemma overrides_distinct: "distinct (map fst (build_lidar_overrides args))"
  unfolding build_lidar_overrides_def by (intro put_override_distinct) simp

lemma lidar_attributes_lookup:
  "map_of (top_lidar_attributes (Some (build_lidar_overrides args))) =
     map_of top_lidar_defaults ++ map_of (build_lidar_overrides args)"
  using map_of_dict_merge [of "build_lidar_overrides args" top_lidar_defaults] overrides_distinct [of args]
  by (simp add: top_lidar_attributes_def with_overrides_def dict_keys_def)

text \<open>The LiDAR flags drive exactly their four attributes: each given flag sets its own, every
  other attribute is the default one, and with no flag given the dictionary is the default rig's.\<close>

theorem lidar_flags_drive:
  "let final = map_of (top_lidar_attributes (Some (build_lidar_overrides args)));
       want = (\<lambda>k v. final k = (case v of None \<Rightarrow> map_of top_lidar_defaults k | Some s \<Rightarrow> Some s))
   in want ''channels'' (map_option show_int (a_lidar_channels args)) \<and>
      want ''points_per_second'' (map_option show_int (a_lidar_pps args)) \<and>
      want ''rotation_frequency'' (map_option repr_f64 (a_lidar_rotation_hz args)) \<and>
      want ''range'' (map_option repr_f64 (a_lidar_range args)) \<and>
      (\<forall>k \<in> - {''channels'', ''points_per_second'', ''rotation_frequency'', ''range''}.
         final k = map_of top_lidar_defaults k)"
proof -
  have f: "map_of (top_lidar_attributes (Some (build_lidar_overrides args))) k =
      (case map_of (build_lidar_overrides args) k of None \<Rightarrow> map_of top_lidar_defaults k | Some s \<Rightarrow> Some s)" for k
    by (simp add: lidar_attributes_lookup map_add_def)
  show ?thesis
    unfolding Let_def f by (simp add: build_lidar_overrides_def put_override_lookup split: option.split)
qed

text \<open>The defaults of the command line.\<close>

lemma default_tick: "parse_float ''0.05'' = Some (of_lit (5 / 100))"
  by (simp add: parse_float_def parse_mantissa_def strip_def is_space_def digit_of_def lower_def Let_def
      power2_eq_square)

lemma default_namespace:
  "defaults (build_arg_parser kp sp) =
     [(''host'', PStr ''localhost''), (''port'', PInt 2000), (''map'', PStr ''NishishinjukuMap''),
      (''sensor_kit_calibration'', PStr kp), (''sensors_calibration'', PStr sp), (''extension_so'', PStr []),
      (''extension_check'', PBool False), (''initial_pose'', PNone), (''spawn_index'', PInt 0),
      (''async_mode'', PBool False), (''lidar_channels'', PNone), (''lidar_pps'', PNone),
      (''lidar_rotation_hz'', PNone), (''lidar_range'', PNone), (''cameras'', PInt 0),
      (''camera_width'', PInt 1600), (''camera_height'', PInt 900),
      (''camera_tick'', PFloat (of_lit (5 / 100))), (''fixed_delta'', PFloat DEFAULT_FIXED_DELTA),
      (''unpaced'', PBool False), (''substep_config'', PNone)]"
  by (simp add: defaults_def build_arg_parser_def default_of_def convert_opt_def CAMERA_DEFAULT_SENSOR_TICK_def
      default_tick CAMERA_DEFAULT_WIDTH_def CAMERA_DEFAULT_HEIGHT_def)

text \<open>With no argument the run is the default one: no LiDAR override, no camera, the 20 Hz fixed
  delta, paced, synchronous, no substepping change, the first spawn point, the committed kit.\<close>

theorem default_arguments:
  "\<exists>ns. parse_args (build_arg_parser kp sp) [] = Inr ns \<and>
     build_lidar_overrides (args_of ns) = [] \<and> a_cameras (args_of ns) = 0 \<and>
     a_fixed_delta (args_of ns) = DEFAULT_FIXED_DELTA \<and> a_unpaced (args_of ns) = False \<and>
     a_async_mode (args_of ns) = False \<and> a_substep_config (args_of ns) = None \<and>
     a_spawn_index (args_of ns) = 0 \<and> a_initial_pose (args_of ns) = None \<and>
     a_sensor_kit_calibration (args_of ns) = kp \<and> a_sensors_calibration (args_of ns) = sp"
  by (simp add: parse_args_def default_namespace args_of_def Let_def build_lidar_overrides_def put_override_def)

theorem omitted_option_default_witness:
  "\<exists>ns. parse_args (build_arg_parser ''k'' ''s'') [''--port'', ''2001''] = Inr ns \<and>
     map_of ns ''spawn_index'' = Some (PInt 0)"
proof -
  let ?P = "build_arg_parser ''k'' ''s''"
  have c: "classify ?P ''--port'' = TOpt (opt ''--port'' ''port'' IntOpt (PInt 2000)) None"
    "classify ?P ''2001'' = TArg"
    by (simp_all add: classify_def build_arg_parser_def)
  have "take_value ?P (opt ''--port'' ''port'' IntOpt (PInt 2000)) None [''2001''] = Some (PInt 2001, 1)"
    by (simp add: take_value_def c convert_opt_def parse_int_def strip_def is_space_def Let_def digit_of_def)
  then have p: "parse_args ?P [''--port'', ''2001''] = Inr (dict_set ''port'' (PInt 2001) (defaults ?P))"
    by (simp add: parse_args_def c store_def)
  have n: "\<forall>s \<in> set [''--port'', ''2001'']. \<forall>o1 arg. classify ?P s = TOpt o1 arg \<longrightarrow> opt_dest o1 \<noteq> ''spawn_index''"
    by (simp add: c)
  have "map_of (defaults ?P) ''spawn_index'' = Some (PInt 0)"
    by (simp add: defaults_def build_arg_parser_def default_of_def)
  with omitted_option_default [OF p n] p show ?thesis by simp
qed


theorem lidar_flags_drive_witness:
  "map_of (top_lidar_attributes (Some (build_lidar_overrides
     (args_of (dict_set ''lidar_channels'' (PInt 64) (defaults (build_arg_parser ''k'' ''s''))))))) ''channels'' = Some ''64''"
proof -
  let ?a = "args_of (dict_set ''lidar_channels'' (PInt 64) (defaults (build_arg_parser ''k'' ''s'')))"
  have c: "a_lidar_channels ?a = Some 64" by (simp add: default_namespace args_of_def)
  have n: "show_int 64 = ''64''" by code_simp
  from lidar_flags_drive [of ?a] c n show ?thesis by (simp add: Let_def)
qed

end
