(* ===== verification/Runner_Main.thy ===== *)
theory Runner_Main
  imports Runner_Args "HOL-Library.Multiset"
begin

text \<open>
  \<^verbatim>\<open>runner/__main__.py\<close>: \<open>main\<close> from the parsed arguments to the exit status. The preflights run
  without CARLA; then the client, the map and the settings; then the session, a \<open>try\<close> whose
  \<open>finally\<close> brakes the ego and destroys the sensors and the ego. A run that never returns is
  \<open>None\<close>.

  The lemmas: every actor created is destroyed, in the teardown's order, whatever fails; nothing of
  CARLA is touched before the preflights pass; the TF suppression precedes every spawn.
\<close>

section \<open>Preflight\<close>

text \<open>A step of \<open>main\<close> goes on with a value or returns an exit status.\<close>

datatype 'a step = Go 'a | Exit int

definition bindS :: "'a step io \<Rightarrow> ('a \<Rightarrow> 'b step io) \<Rightarrow> 'b step io" where
  "bindS m f = bindI m (\<lambda>s. case s of Go x \<Rightarrow> f x | Exit n \<Rightarrow> retI (Exit n))"

lemma bindS_run [io_simps]:
  "bindS m f t = (r, es) \<longleftrightarrow>
     (\<exists>e. m t = (Inl e, es) \<and> r = Inl e) \<or> (\<exists>n. m t = (Inr (Exit n), es) \<and> r = Inr (Exit n)) \<or>
     (\<exists>x es1 es2. m t = (Inr (Go x), es1) \<and> f x (t @ es1) = (r, es2) \<and> es = es1 @ es2)"
  by (auto simp: bindS_def bindI_def liftI_def split: prod.splits sum.splits step.splits)

definition extension_check :: "env \<Rightarrow> string \<Rightarrow> int io" where
  "extension_check env so =
     bindI (if so = [] then retI False else extension_exports_init env so) (\<lambda>ok.
       if \<not> ok
       then bindI (do_call env (PrintErr ''PREFLIGHT FAIL: extension .so missing or does not export carla_ros2_extension_init''))
              (\<lambda>_. retI 1)
       else bindI (do_call env (PrintOut ''OK'')) (\<lambda>_. retI 0))"

definition is_file :: "env \<Rightarrow> string \<Rightarrow> bool io" where
  "is_file env path = ask (\<lambda>t. env_isfile env t path) OkBool (IsFile path)"

fun preflight_files :: "env \<Rightarrow> string list \<Rightarrow> unit step io" where
  "preflight_files env [] = retI (Go ())"
| "preflight_files env (path # paths) =
     bindI (is_file env path) (\<lambda>exists.
       if \<not> exists
       then bindI (do_call env (PrintErr ''PREFLIGHT FAIL: calibration file does not exist'')) (\<lambda>_. retI (Exit 1))
       else preflight_files env paths)"

definition open_yaml :: "env \<Rightarrow> string \<Rightarrow> pyval io" where
  "open_yaml env path = ask (\<lambda>t. env_yaml env t path) OkDoc (OpenYaml path)"

text \<open>\<open>load_kit\<close> reading its two files through the environment.\<close>

definition load_kit_io :: "env \<Rightarrow> string \<Rightarrow> string \<Rightarrow> kit_config io" where
  "load_kit_io env kit_path sensors_path =
     bindI (open_yaml env sensors_path) (\<lambda>sensors_doc.
     bindI (open_yaml env kit_path) (\<lambda>kit_doc. liftI (kit_of_docs sensors_doc kit_doc)))"

definition preflight :: "env \<Rightarrow> runner_args \<Rightarrow> kit_config step io" where
  "preflight env args =
     bindS (preflight_files env [a_sensor_kit_calibration args, a_sensors_calibration args]) (\<lambda>_.
       bindI (load_kit_io env (a_sensor_kit_calibration args) (a_sensors_calibration args)) (\<lambda>kit. retI (Go kit)))"

section \<open>The world\<close>

definition connect :: "env \<Rightarrow> runner_args \<Rightarrow> unit io" where
  "connect env args =
     bindI (do_call env ImportCarla) (\<lambda>_.
     bindI (do_call env (NewClient (a_host args) (a_port args))) (\<lambda>_.
     bindI (do_call env (SetTimeout (of_lit 30))) (\<lambda>_.
     bindI (do_call env GetWorld) (\<lambda>_.
     bindI (ask (env_map_name env) OkStr MapName) (\<lambda>name.
     bindI (if has_infix name (a_map args) then retI () else do_call env (LoadWorld (a_map args))) (\<lambda>_.
     do_call env (SetPublishTf False)))))))"

text \<open>\<open>if args.substep_config:\<close> skips an empty path too.\<close>

definition apply_substeps :: "env \<Rightarrow> runner_args \<Rightarrow> unit io" where
  "apply_substeps env args =
     (case a_substep_config args of
        None \<Rightarrow> retI ()
      | Some path \<Rightarrow>
          if path = [] then retI ()
          else bindI (load_physics_config env path) (\<lambda>config. apply_substep_config env config))"

definition select_spawn_point :: "nat list \<Rightarrow> int \<Rightarrow> nat res" where
  "select_spawn_point spawn_points index =
     (if \<not> (0 \<le> index \<and> index < int (length spawn_points)) then Raise IndexError ''--spawn-index out of range''
      else Ret (spawn_points ! nat index))"

definition choose_pose :: "env \<Rightarrow> runner_args \<Rightarrow> transform step io" where
  "choose_pose env args =
     (case a_initial_pose args of
        Some (p # ps) \<Rightarrow> retI (Go (GivenPose (p # ps)))
      | _ \<Rightarrow>
          catchI
            (bindI (ask (env_points env) OkIds GetSpawnPoints) (\<lambda>points.
             bindI (liftI (select_spawn_point points (a_spawn_index args))) (\<lambda>i. retI (Go (MapPose i)))))
            (\<lambda>e. if exc_isa (exc_of e) IndexError
                  then bindI (do_call env (PrintErr ''PREFLIGHT FAIL: --spawn-index out of range'')) (\<lambda>_. retI (Exit 1))
                  else liftI (Inl e)))"

definition set_up :: "env \<Rightarrow> runner_args \<Rightarrow> transform step io" where
  "set_up env args =
     bindI (connect env args) (\<lambda>_.
     bindI (apply_substeps env args) (\<lambda>_.
     bindI (do_call env GetBlueprintLibrary) (\<lambda>_.
     bindS (choose_pose env args) (\<lambda>pose.
       bindI (do_call env InstallSigint) (\<lambda>_. retI (Go pose))))))"

section \<open>The session\<close>

definition brake_to_stop :: "env \<Rightarrow> nat \<Rightarrow> unit io" where
  "brake_to_stop env ego = ignoreI (do_call env (ApplyControl ego (Fin 0) (Fin 1) (Fin 0)))"

definition teardown :: "env \<Rightarrow> nat option \<Rightarrow> nat list \<Rightarrow> unit io" where
  "teardown env ego sensors =
     bindI (case ego of None \<Rightarrow> retI () | Some a \<Rightarrow> brake_to_stop env a) (\<lambda>_.
     bindI (forI (destroy_quietly env) sensors) (\<lambda>_.
       case ego of None \<Rightarrow> retI () | Some a \<Rightarrow> destroy_quietly env a))"

text \<open>The end of the \<open>try\<close> with result \<open>r\<close> after the events \<open>es\<close>: the \<open>finally\<close>.\<close>

definition leave ::
  "env \<Rightarrow> trace \<Rightarrow> nat option \<Rightarrow> nat list \<Rightarrow> int res \<Rightarrow> trace \<Rightarrow> (int res \<times> trace) option" where
  "leave env t ego sensors r es = Some (finallyI (\<lambda>_. (r, es)) (teardown env ego sensors) t)"

definition run_loop :: "env \<Rightarrow> runner_args \<Rightarrow> trace \<Rightarrow> (unit res \<times> trace) option" where
  "run_loop env args =
     (if a_async_mode args then run_async_loop else run_sync_loop)
       env (a_fixed_delta args) None (Some (flag env)) (\<not> a_unpaced args)"

definition session :: "env \<Rightarrow> runner_args \<Rightarrow> kit_config \<Rightarrow> transform \<Rightarrow> trace \<Rightarrow> (int res \<times> trace) option" where
  "session env args kit pose t =
     (case spawn_ego env pose t of
        (Inl e, es1) \<Rightarrow> leave env t None [] (Inl e) es1
      | (Inr ego, es1) \<Rightarrow>
     (case spawn_sensors env ego kit (Some (build_lidar_overrides args)) (t @ es1) of
        (Inl e, es2) \<Rightarrow> leave env t (Some ego) [] (Inl e) (es1 @ es2)
      | (Inr sensors, es2) \<Rightarrow>
     (case spawn_cameras env ego (a_cameras args) (a_camera_width args) (a_camera_height args)
             (PFloat (a_camera_tick args)) (t @ es1 @ es2) of
        (Inl e, es3) \<Rightarrow> leave env t (Some ego) sensors (Inl e) (es1 @ es2 @ es3)
      | (Inr cams, es3) \<Rightarrow>
          Option.bind (run_loop env args (t @ es1 @ es2 @ es3)) (\<lambda>(r, es4).
            leave env t (Some ego) (sensors @ cams) (case r of Inl e \<Rightarrow> Inl e | Inr _ \<Rightarrow> Inr 0)
              (es1 @ es2 @ es3 @ es4)))))"

definition main_of :: "env \<Rightarrow> runner_args \<Rightarrow> trace \<Rightarrow> (int res \<times> trace) option" where
  "main_of env args t =
     (if a_extension_check args then Some (extension_check env (a_extension_so args) t)
      else case preflight env args t of
        (Inl e, es) \<Rightarrow> Some (Inl e, es)
      | (Inr (Exit n), es) \<Rightarrow> Some (Inr n, es)
      | (Inr (Go kit), es) \<Rightarrow>
     (case set_up env args (t @ es) of
        (Inl e, es') \<Rightarrow> Some (Inl e, es @ es')
      | (Inr (Exit n), es') \<Rightarrow> Some (Inr n, es @ es')
      | (Inr (Go pose), es') \<Rightarrow>
          map_option (\<lambda>(r, es''). (r, es @ es' @ es'')) (session env args kit pose (t @ es @ es'))))"

text \<open>\<open>raise SystemExit(main())\<close>: a command line that does not parse exits with argparse's status.\<close>

definition main :: "env \<Rightarrow> string \<Rightarrow> string \<Rightarrow> string list \<Rightarrow> trace \<Rightarrow> (int res \<times> trace) option" where
  "main env kit_path sensors_path argv t =
     (case parse_args (build_arg_parser kit_path sensors_path) argv of
        Inl status \<Rightarrow> Some (Inr status, [])
      | Inr ns \<Rightarrow> main_of env (args_of ns) t)"

section \<open>No actor is leaked\<close>

lemma teardown_run:
  assumes "teardown env ego sensors t = (r, es)"
  shows "r = Inr () \<and> map fst es =
    (case ego of None \<Rightarrow> map Destroy sensors
     | Some a \<Rightarrow> [ApplyControl a (Fin 0) (Fin 1) (Fin 0)] @ map Destroy sensors @ [Destroy a])"
proof -
  have d: "r' = Inr () \<and> map fst es' = map Destroy sensors"
    if "forI (destroy_quietly env) sensors t' = (r', es')" for t' r' es'
    using forI_total [OF _ that, of "\<lambda>a. [Destroy a]"]
    by (auto simp: destroy_quietly_def io_simps concat_map_singleton)
  show ?thesis
    using assms
    by (auto simp: teardown_def brake_to_stop_def destroy_quietly_def bindI_run ignoreI_run do_call_run liftI_run
        dest: d split: option.splits)
qed

definition teardown_calls :: "nat option \<Rightarrow> nat list \<Rightarrow> call list" where
  "teardown_calls ego sensors =
     (case ego of None \<Rightarrow> map Destroy sensors
      | Some a \<Rightarrow> [ApplyControl a (Fin 0) (Fin 1) (Fin 0)] @ map Destroy sensors @ [Destroy a])"

lemma teardown_actors:
  assumes "map fst es = teardown_calls ego sensors"
  shows "created es = [] \<and> destroyed es = sensors @ (case ego of None \<Rightarrow> [] | Some a \<Rightarrow> [a])"
proof (cases ego)
  case None
  with assms destroy_events [of es sensors] show ?thesis by (simp add: teardown_calls_def)
next
  case (Some a)
  with assms obtain out rest where es: "es = (ApplyControl a (Fin 0) (Fin 1) (Fin 0), out) # rest"
    and r: "map fst rest = map Destroy (sensors @ [a])"
    by (auto simp: teardown_calls_def)
  from destroy_events [OF r] Some es show ?thesis by simp
qed

lemma leave_run:
  assumes "leave env t ego sensors r0 es0 = Some (r, es)"
  shows "r = r0 \<and> (\<exists>es1. es = es0 @ es1 \<and> map fst es1 = teardown_calls ego sensors)"
proof -
  obtain r1 es1 where td: "teardown env ego sensors (t @ es0) = (r1, es1)"
    by (cases "teardown env ego sensors (t @ es0)")
  from teardown_run [OF td] have "r1 = Inr ()" "map fst es1 = teardown_calls ego sensors"
    by (simp_all add: teardown_calls_def)
  with assms td show ?thesis by (auto simp: leave_def finallyI_def)
qed

lemma leave_total: "\<exists>p. leave env t ego sensors r es = Some p"
  by (simp add: leave_def)

lemma spawn_ego_run:
  assumes "spawn_ego env pose t = (r, es)"
  shows "destroyed es = [] \<and> (case r of Inl e \<Rightarrow> created es = [] | Inr a \<Rightarrow> created es = [a])"
  using assms apply_attributes_events no_actors
  by (auto simp: spawn_ego_def find_blueprint_def spawn_actor_def bindI_run ask_run split: sum.splits)

lemma pass_event_no_actor: "pass_event advance paced e \<Longrightarrow> advance \<in> {Tick, WaitForTick} \<Longrightarrow> no_actor e"
  by (cases e) (auto simp: pass_event_def no_actor_def)

lemma loop_no_actor:
  assumes "run_loop env args t = Some (r, es)"
  shows "list_all no_actor es"
proof -
  have mid: "list_all no_actor mid"
    if "loop_run (flag env) (tick_body env adv fd None paced) u r' mid" "adv \<in> {Tick, WaitForTick}" for adv fd paced u r' mid
    using flag_loop_events [OF that] pass_event_no_actor that(2)
    by (auto simp: list_all_iff no_actor_def)
  show ?thesis
  proof (cases "a_async_mode args")
    case False
    with assms have "run_sync_loop env (a_fixed_delta args) None (Some (flag env)) (\<not> a_unpaced args) t = Some (r, es)"
      by (simp add: run_loop_def)
    then show ?thesis
    proof (cases rule: run_sync_loop_cases)
      case (not_entered e)
      then show ?thesis by (auto simp: enter_sync_def get_settings_def apply_settings_def io_simps no_actor_def)
    next
      case (entered s es0 r1 mid' r2)
      with mid [of Tick] show ?thesis
        by (auto simp: enter_sync_run continue_or_default_def no_actor_def)
    qed
  next
    case True
    with assms have run: "run_async_loop env (a_fixed_delta args) None (Some (flag env)) (\<not> a_unpaced args) t = Some (r, es)"
      by (simp add: run_loop_def)
    let ?m = "bindI (get_settings env) (\<lambda>s. apply_settings env (s\<lparr>synchronous_mode := False\<rparr>))"
    obtain a es0 where a: "?m t = (a, es0)" by (cases "?m t")
    then have n0: "list_all no_actor es0"
      by (auto simp: get_settings_def apply_settings_def io_simps no_actor_def)
    show ?thesis
    proof (cases a)
      case (Inl e)
      with a run n0 show ?thesis by (simp add: run_async_loop_def)
    next
      case (Inr u)
      with a run obtain mid' where
        "whileI (flag env) (tick_body env WaitForTick (a_fixed_delta args) None (\<not> a_unpaced args)) (t @ es0) = Some (r, mid')"
        "es = es0 @ mid'"
        by (auto simp: run_async_loop_def continue_or_default_def bind_eq_Some_conv)
      with mid [of WaitForTick] n0 show ?thesis by (auto simp: whileI_iff)
    qed
  qed
qed

text \<open>The four ways a session ends, each with its teardown.\<close>

lemma session_cases:
  assumes "session env args kit pose t = Some (r, es)"
  obtains (no_ego) e where "r = Inl e" "created es = []" "destroyed es = []"
    | (torn_down) ego sensors es0 es1 where "es = es0 @ es1" "map fst es1 = teardown_calls (Some ego) sensors"
        "mset (created es0) = add_mset ego (mset (destroyed es0 @ sensors))"
        "r = Inr 0 \<or> (\<exists>e. r = Inl e)"
proof -
  obtain r1 es1 where ego: "spawn_ego env pose t = (r1, es1)" by (cases "spawn_ego env pose t")
  note e = spawn_ego_run [OF ego]
  show thesis
  proof (cases r1)
    case (Inl x)
    with assms ego have "leave env t None [] (Inl x) es1 = Some (r, es)" by (simp add: session_def)
    from leave_run [OF this] obtain es2 where r: "r = Inl x" "es = es1 @ es2" "map fst es2 = teardown_calls None []"
      by blast
    from teardown_actors [OF r(3)] e Inl r show ?thesis by (auto intro: no_ego)
  next
    case (Inr a)
    obtain r2 es2 where rig: "spawn_sensors env a kit (Some (build_lidar_overrides args)) (t @ es1) = (r2, es2)"
      by (rule prod.exhaust)
    show ?thesis
    proof (cases r2)
      case (Inl x)
      with assms ego Inr rig have "leave env t (Some a) [] (Inl x) (es1 @ es2) = Some (r, es)"
        by (simp add: session_def)
      from leave_run [OF this] obtain es' where l: "es = (es1 @ es2) @ es'" "map fst es' = teardown_calls (Some a) []"
        and r: "r = Inl x" by auto
      from rig.all_failed [OF rig [unfolded spawn_sensors_def Inl]] have "destroyed es2 = created es2" by auto
      with e Inr r show ?thesis by (intro torn_down [OF l]) auto
    next
      case (Inr ss)
      note ss = this
      obtain r3 es3 where cams: "spawn_cameras env a (a_cameras args) (a_camera_width args)
          (a_camera_height args) (PFloat (a_camera_tick args)) (t @ es1 @ es2) = (r3, es3)"
        by (rule prod.exhaust)
      from rig.all_returned [OF rig [unfolded spawn_sensors_def Inr]] have s: "created es2 = ss" "destroyed es2 = []"
        by auto
      show ?thesis
      proof (cases r3)
        case (Inl x)
        with assms ego \<open>r1 = Inr a\<close> rig ss cams
        have "leave env t (Some a) ss (Inl x) (es1 @ es2 @ es3) = Some (r, es)" by (simp add: session_def)
        from leave_run [OF this] obtain es' where l: "es = (es1 @ es2 @ es3) @ es'"
          "map fst es' = teardown_calls (Some a) ss" and r: "r = Inl x" by auto
        from cameras.all_failed [OF cams [unfolded spawn_cameras_def Inl]] have "destroyed es3 = created es3" by auto
        with e \<open>r1 = Inr a\<close> s r show ?thesis by (intro torn_down [OF l]) auto
      next
        case (Inr cs)
        from cameras.all_returned [OF cams [unfolded spawn_cameras_def Inr]]
        have c: "created es3 = cs" "destroyed es3 = []" by auto
        from assms ego \<open>r1 = Inr a\<close> rig ss cams Inr obtain r4 es4 where
          loop: "run_loop env args (t @ es1 @ es2 @ es3) = Some (r4, es4)" and
          "leave env t (Some a) (ss @ cs) (case r4 of Inl e \<Rightarrow> Inl e | Inr _ \<Rightarrow> Inr 0) (es1 @ es2 @ es3 @ es4) = Some (r, es)"
          by (auto simp: session_def bind_eq_Some_conv)
        from leave_run [OF this(2)] obtain es' where l: "es = (es1 @ es2 @ es3 @ es4) @ es'"
          "map fst es' = teardown_calls (Some a) (ss @ cs)"
          and r: "r = (case r4 of Inl e \<Rightarrow> Inl e | Inr _ \<Rightarrow> Inr 0)" by auto
        from no_actors [OF loop_no_actor [OF loop]] have "created es4 = []" "destroyed es4 = []" by auto
        with e \<open>r1 = Inr a\<close> s c r show ?thesis by (intro torn_down [OF l]) (auto split: sum.split)
      qed
    qed
  qed
qed

section \<open>The phases of a run\<close>

definition offline :: "event \<Rightarrow> bool" where
  "offline e \<longleftrightarrow>
     (case fst e of IsFile p \<Rightarrow> True | OpenYaml p \<Rightarrow> True | RunNm p \<Rightarrow> True | PrintOut m \<Rightarrow> True
      | PrintErr m \<Rightarrow> True | _ \<Rightarrow> False)"

lemma offline_no_actor: "offline e \<Longrightarrow> no_actor e"
  by (cases e; cases "fst e") (auto simp: offline_def no_actor_def)

lemma preflight_files_run:
  "preflight_files env paths t = (r, es) \<Longrightarrow>
     list_all offline es \<and> (r = Inr (Go ()) \<longrightarrow> (\<forall>p \<in> set paths. (IsFile p, OkBool True) \<in> set es)) \<and>
     (\<forall>n. r = Inr (Exit n) \<longrightarrow> n = 1)"
proof (induction paths arbitrary: t es)
  case Nil
  then show ?case by (simp add: liftI_run)
next
  case (Cons p ps)
  from Cons.prems consider
      "list_all offline es \<and> (r = Inr (Exit 1) \<or> (\<exists>e. r = Inl e))"
    | es2 where "preflight_files env ps (t @ [(IsFile p, OkBool True)]) = (r, es2)"
        "es = (IsFile p, OkBool True) # es2"
    by (auto simp: is_file_def io_simps offline_def split: if_split_asm)
  then show ?case
  proof cases
    case 1
    then show ?thesis by auto
  next
    case 2
    with Cons.IH [OF 2(1)] show ?thesis by (auto simp: offline_def)
  qed
qed

declare preflight_files.simps [simp del]

lemma load_kit_io_run:
  "load_kit_io env kp sp t = (r, es) \<Longrightarrow> list_all offline es"
  by (auto simp: load_kit_io_def open_yaml_def io_simps offline_def)

text \<open>Where the files answer the same all along, this is \<open>load_kit\<close>.\<close>

lemma load_kit_io_load_kit:
  assumes "\<And>t p. env_yaml env t p = files p"
  shows "fst (load_kit_io env kp sp t) = load_kit files kp sp"
  using assms
  by (auto simp: load_kit_io_def load_kit_def open_yaml_def bindI_def ask_def liftI_def bindE_def split: sum.split)

lemma preflight_run:
  assumes "preflight env args t = (r, es)"
  shows "list_all offline es \<and>
    (\<forall>kit. r = Inr (Go kit) \<longrightarrow> (IsFile (a_sensor_kit_calibration args), OkBool True) \<in> set es \<and>
       (IsFile (a_sensors_calibration args), OkBool True) \<in> set es) \<and>
    (\<forall>n. r = Inr (Exit n) \<longrightarrow> n = 1)"
  using assms unfolding preflight_def bindS_run
proof (elim disjE exE conjE)
  fix x es1 es2
  assume f: "preflight_files env [a_sensor_kit_calibration args, a_sensors_calibration args] t = (Inr (Go x), es1)"
    and k: "bindI (load_kit_io env (a_sensor_kit_calibration args) (a_sensors_calibration args))
      (\<lambda>kit. retI (Go kit)) (t @ es1) = (r, es2)" and es: "es = es1 @ es2"
  from k have "list_all offline es2" "\<forall>n. r \<noteq> Inr (Exit n)"
    by (auto simp: bindI_run liftI_run dest: load_kit_io_run)
  with preflight_files_run [OF f] es show ?thesis by auto
qed (auto dest!: preflight_files_run)

lemma connect_run:
  assumes "connect env args t = (r, es)"
  shows "list_all no_actor es \<and> (r = Inr () \<longrightarrow> (SetPublishTf False, OkUnit) \<in> set es)"
  using assms by (auto simp: connect_def io_simps no_actor_def split: if_split_asm)

lemma apply_substeps_emits: "emits no_actor (apply_substeps env args)"
  unfolding apply_substeps_def load_physics_config_def apply_substep_config_def get_settings_def apply_settings_def
  by (intro emits_intros) (simp_all add: no_actor_def)

lemma choose_pose_emits: "emits no_actor (choose_pose env args)"
  unfolding choose_pose_def by (intro emits_intros) (simp_all add: no_actor_def)

lemma choose_pose_exit: "fst (choose_pose env args t) = Inr (Exit n) \<Longrightarrow> n = 1"
  by (auto simp: choose_pose_def bindI_def catchI_def liftI_def ask_def do_call_def
      split: option.split_asm list.split_asm prod.split_asm sum.split_asm if_split_asm)

lemma set_up_run:
  assumes "set_up env args t = (r, es)"
  shows "list_all no_actor es \<and> (\<forall>pose. r = Inr (Go pose) \<longrightarrow> (SetPublishTf False, OkUnit) \<in> set es) \<and>
    (\<forall>n. r = Inr (Exit n) \<longrightarrow> n = 1)"
proof -
  obtain r1 es1 where c: "connect env args t = (r1, es1)" by (rule prod.exhaust)
  note cr = connect_run [OF c]
  show ?thesis
  proof (cases r1)
    case (Inl e)
    with c cr assms show ?thesis by (auto simp: set_up_def bindI_def)
  next
    case (Inr u)
    let ?rest = "bindI (apply_substeps env args) (\<lambda>_. bindI (do_call env GetBlueprintLibrary) (\<lambda>_.
        bindS (choose_pose env args) (\<lambda>pose. bindI (do_call env InstallSigint) (\<lambda>_. retI (Go pose)))))"
    from Inr assms c obtain es2 where es: "es = es1 @ es2" and rest: "?rest (t @ es1) = (r, es2)"
      by (auto simp: set_up_def bindI_run)
    have "emits no_actor (bindS (choose_pose env args) (\<lambda>pose. bindI (do_call env InstallSigint) (\<lambda>_. retI (Go pose))))"
      unfolding bindS_def
      by (intro emits_bindI choose_pose_emits, case_tac x; simp; intro emits_intros; simp add: no_actor_def)
    then have "emits no_actor ?rest"
      by (intro emits_bindI apply_substeps_emits emits_do_call) (simp_all add: no_actor_def)
    from emitsD [OF this rest] have "list_all no_actor es2" .
    moreover have "n = 1" if "r = Inr (Exit n)" for n
    proof -
      from rest that obtain u where "fst (choose_pose env args u) = Inr (Exit n)"
        by (auto simp: bindI_run bindS_run liftI_run) (metis fst_conv)
      then show ?thesis by (rule choose_pose_exit)
    qed
    ultimately show ?thesis using cr Inr es by auto
  qed
qed

lemma main_of_cases:
  assumes "main_of env args t = Some (r, es)"
  obtains (check) "a_extension_check args" "extension_check env (a_extension_so args) t = (r, es)"
    | (refused) "\<not> a_extension_check args" "list_all offline es" "r = Inr 1 \<or> (\<exists>e. r = Inl e)"
    | (no_session) kit es1 es2 where "\<not> a_extension_check args" "preflight env args t = (Inr (Go kit), es1)"
        "es = es1 @ es2" "list_all no_actor es2" "r = Inr 1 \<or> (\<exists>e. r = Inl e)"
    | (run) kit pose es1 es2 es3 where "\<not> a_extension_check args" "preflight env args t = (Inr (Go kit), es1)"
        "es = es1 @ es2 @ es3" "list_all no_actor es2" "(SetPublishTf False, OkUnit) \<in> set es2"
        "session env args kit pose (t @ es1 @ es2) = Some (r, es3)"
proof (cases "a_extension_check args")
  case True
  with assms show ?thesis by (intro check) (simp_all add: main_of_def)
next
  case False
  obtain q es1 where p: "preflight env args t = (q, es1)" by (rule prod.exhaust)
  note pr = preflight_run [OF p]
  consider e where "q = Inl e" | n where "q = Inr (Exit n)" | kit where "q = Inr (Go kit)"
    by (cases q) (auto intro: step.exhaust)
  then show ?thesis
  proof cases
    case 1
    with assms False p pr show ?thesis by (intro refused) (auto simp: main_of_def)
  next
    case 2
    with assms False p pr show ?thesis by (intro refused) (auto simp: main_of_def)
  next
    case (3 kit)
    obtain s es2 where u: "set_up env args (t @ es1) = (s, es2)" by (rule prod.exhaust)
    note ur = set_up_run [OF u]
    consider e where "s = Inl e" | n where "s = Inr (Exit n)" | pose where "s = Inr (Go pose)"
      by (cases s) (auto intro: step.exhaust)
    then show ?thesis
    proof cases
      case 1
      with assms False p 3 u ur show ?thesis by (intro no_session [of kit es1 es2]) (auto simp: main_of_def)
    next
      case 2
      with assms False p 3 u ur show ?thesis by (intro no_session [of kit es1 es2]) (auto simp: main_of_def)
    next
      case (3 pose)
      with assms False p \<open>q = Inr (Go kit)\<close> u obtain es3 where
        "session env args kit pose (t @ es1 @ es2) = Some (r, es3)" "es = es1 @ es2 @ es3"
        by (auto simp: main_of_def)
      with False p \<open>q = Inr (Go kit)\<close> ur 3 show ?thesis by (intro run [of kit es1 es2 es3 pose]) auto
    qed
  qed
qed

lemma extension_check_run:
  assumes "extension_check env so t = (r, es)"
  shows "list_all offline es \<and> (\<forall>n. r = Inr n \<longrightarrow> n = 0 \<or> n = 1)"
  using assms
  by (auto simp: extension_check_def extension_exports_init_def io_simps ask_def offline_def
      split: if_split_asm prod.split_asm sum.split_asm)

lemma offline_actors: "list_all offline es \<Longrightarrow> created es = [] \<and> destroyed es = []"
  by (rule no_actors) (auto simp: list_all_iff intro: offline_no_actor)


lemma split_at_event:
  assumes "pre @ rest = xs @ e # ys" "e \<notin> set pre"
  shows "\<exists>zs. xs = pre @ zs"
  using assms by (auto simp: append_eq_append_conv2) (case_tac us; auto)

text \<open>C9: CARLA's own TF is suppressed before any actor exists: the call that turns it off has
  succeeded earlier in the run than every spawn that created an actor.\<close>

theorem tf_suppressed_before_spawn:
  assumes "main env kp sp argv t = Some (r, es)" "es = xs @ (SpawnActor bp pose parent, OkId a) # ys"
  shows "(SetPublishTf False, OkUnit) \<in> set xs"
proof (cases "parse_args (build_arg_parser kp sp) argv")
  case (Inl n)
  with assms show ?thesis by (simp add: main_def)
next
  case (Inr ns)
  let ?e = "(SpawnActor bp pose parent, OkId a)"
  have quiet: "?e \<notin> set zs" if "list_all no_actor zs" for zs
    using that by (auto simp: list_all_iff no_actor_def)
  have off: "?e \<notin> set zs" if "list_all offline zs" for zs
    using that by (auto simp: list_all_iff offline_def)
  have e: "?e \<in> set es" using assms(2) by simp
  from Inr assms(1) have "main_of env (args_of ns) t = Some (r, es)" by (simp add: main_def)
  then show ?thesis
  proof (cases rule: main_of_cases)
    case check
    with off extension_check_run e show ?thesis by blast
  next
    case refused
    with off e show ?thesis by blast
  next
    case (no_session kit es1 es2)
    with off [of es1] quiet [of es2] preflight_run [OF no_session(2)] e show ?thesis by simp
  next
    case (run kit pose' es1 es2 es3)
    with off [of es1] quiet [of es2] preflight_run [OF run(2)] have "?e \<notin> set (es1 @ es2)" by simp
    with split_at_event [of "es1 @ es2" es3 xs ?e ys] assms(2) run(3) obtain zs where "xs = es1 @ es2 @ zs"
      by auto
    with run(5) show ?thesis by simp
  qed
qed

text \<open>C4: CARLA is contacted only after the preflights: if any call of a run goes beyond the files, \<open>nm\<close>
  and printing, then the run is not a check, both calibration files were found, the kit parsed, and
  all that came before is offline.\<close>

theorem carla_after_preflight:
  assumes "main env kp sp argv t = Some (r, es)" "e \<in> set es" "\<not> offline e"
  shows "\<exists>ns kit pre post. parse_args (build_arg_parser kp sp) argv = Inr ns \<and> \<not> a_extension_check (args_of ns) \<and>
    preflight env (args_of ns) t = (Inr (Go kit), pre) \<and> es = pre @ post \<and> list_all offline pre \<and>
    (IsFile (a_sensor_kit_calibration (args_of ns)), OkBool True) \<in> set pre \<and>
    (IsFile (a_sensors_calibration (args_of ns)), OkBool True) \<in> set pre"
proof (cases "parse_args (build_arg_parser kp sp) argv")
  case (Inl n)
  with assms show ?thesis by (simp add: main_def)
next
  case (Inr ns)
  with assms(1) have "main_of env (args_of ns) t = Some (r, es)" by (simp add: main_def)
  then show ?thesis
  proof (cases rule: main_of_cases)
    case check
    with extension_check_run assms(2,3) show ?thesis by (metis list_all_iff)
  next
    case refused
    with assms(2,3) show ?thesis by (simp add: list_all_iff)
  next
    case (no_session kit es1 es2)
    with preflight_run [OF no_session(2)] Inr show ?thesis by blast
  next
    case (run kit pose es1 es2 es3)
    with preflight_run [OF run(2)] Inr show ?thesis by blast
  qed
qed

lemma session_returns:
  assumes "\<forall>t. n \<le> continues t \<longrightarrow> env_go env t = Inr False"
  shows "\<exists>p. session env args kit pose t = Some p"
proof -
  have l: "\<exists>p. run_loop env args u = Some p" for u
    using both_loops_return [OF assms] by (simp add: run_loop_def)
  have "\<exists>p. Option.bind (run_loop env args u) (\<lambda>(r, es4). leave env t (Some a) ss (f r) (g es4)) = Some p" for u a ss f g
    using l [of u] leave_total by (auto split: prod.split)
  then show ?thesis using leave_total by (auto simp: session_def split: prod.split sum.split)
qed

lemma main_ends:
  assumes "\<forall>t. n \<le> continues t \<longrightarrow> env_go env t = Inr False"
  shows "\<exists>p. main env kp sp argv t = Some p"
  using session_returns [OF assms]
  by (fastforce simp: main_def main_of_def split: sum.split prod.split step.split)

text \<open>C8: A run ends: once the stop flag says at most \<open>n\<close> times to go on (SIGINT flips it for good),
  \<open>main\<close> returns on every command line, whatever the calls answer.\<close>

theorem main_returns:
  assumes "\<forall>t. n \<le> continues t \<longrightarrow> env_go env t = Inr False"
  shows "\<exists>p. main env kp sp argv t = Some p"
  using assms by (rule main_ends)

text \<open>The extension preflight passes exactly when a path is given, \<open>nm\<close> succeeds on it and one line
  of its output names the init symbol as a defined text symbol; a failure of \<open>nm\<close> is a failed check.\<close>

theorem extension_check_verdict:
  assumes "extension_check env so t = (Inr n, es)"
  shows "(n = 0 \<or> n = 1) \<and>
    (n = 0 \<longleftrightarrow> so \<noteq> [] \<and> (\<exists>out. env_nm env t so = Inr out \<and>
      (\<exists>l \<in> set (splitlines out). has_infix l ''carla_ros2_extension_init'' \<and> has_infix l '' T '')))"
  using assms
  by (auto simp: extension_check_def extension_exports_init_def io_simps ask_def list_ex_iff
      split: if_split_asm prod.split_asm sum.split_asm)

text \<open>The spawn index: a point is returned exactly for the indices the map has, and it is the one
  at that index; any other index, a negative one included, is an IndexError.\<close>

theorem select_spawn_point_range:
  "(\<forall>p. select_spawn_point points i = Inr p \<longleftrightarrow> 0 \<le> i \<and> nat i < length points \<and> p = points ! nat i) \<and>
   (\<forall>e. select_spawn_point points i = Inl e \<longrightarrow> exc_of e = IndexError \<and> (i < 0 \<or> int (length points) \<le> i))"
  by (auto simp: select_spawn_point_def)

section \<open>Witnesses\<close>

abbreviation default_args :: runner_args where
  "default_args \<equiv> args_of (defaults (build_arg_parser ''kit'' ''sensors''))"

lemmas default_args_simps = default_namespace args_of_def Let_def build_lidar_overrides_def put_override_def

lemma sample_preflight:
  "preflight sample_env default_args t =
     (Inr (Go sample_kit), [(IsFile ''kit'', OkBool True), (IsFile ''sensors'', OkBool True),
       (OpenYaml ''sensors'', OkDoc (sensors_doc_of sample_kit)), (OpenYaml ''kit'', OkDoc (kit_doc_of sample_kit))])"
proof -
  have "env_yaml sample_env t' ''kit'' = Inr (kit_doc_of sample_kit)"
    "env_yaml sample_env t' ''sensors'' = Inr (sensors_doc_of sample_kit)" for t'
    by (simp_all add: sample_env_def)
  then show ?thesis
    by (simp add: preflight_def bindS_def preflight_files.simps is_file_def load_kit_io_def open_yaml_def io_eval
        default_args_simps kit_of_docs_roundtrip)
qed

lemma sample_set_up:
  "\<exists>es. set_up sample_env default_args t = (Inr (Go (MapPose 7)), es) \<and> created es = [] \<and> continues es = 0"
  by (simp add: set_up_def bindS_def connect_def apply_substeps_def choose_pose_def select_spawn_point_def io_eval
      default_args_simps)

lemma sample_ego:
  "created t = [] \<Longrightarrow> \<exists>es. spawn_ego sample_env pose t = (Inr 0, es) \<and> created es = [0]"
  by (simp add: spawn_ego_def spawn_eval ego_attributes_def)

lemma sample_rig:
  assumes "length (created t) = 1"
  shows "\<exists>es. spawn_sensors sample_env 0 sample_kit (Some []) t = (Inr [1, 2], es) \<and> created es = [1, 2]"
proof -
  obtain r1 r2 where r: "carla_attach_rotation sample_kit TOP_LIDAR_FRAME = Inr r1"
    "carla_attach_rotation sample_kit IMU_FRAME = Inr r2" using sample_attach(3,4) by blast
  have "fst (spawn_sensors sample_env 0 sample_kit (Some []) t) = Inr [1, 2]"
    using assms by (simp add: spawn_sensors_def spawn_eval sample_attach(1,2) r)
  then obtain es where es: "spawn_sensors sample_env 0 sample_kit (Some []) t = (Inr [1, 2], es)"
    by (cases "spawn_sensors sample_env 0 sample_kit (Some []) t") auto
  from rig.all_returned [OF this [unfolded spawn_sensors_def]] es show ?thesis by blast
qed

lemma sample_session:
  assumes "created t = []"
  shows "\<exists>r es. session sample_env default_args sample_kit (MapPose 7) t = Some (r, es) \<and> created es = [0, 1, 2]"
proof -
  obtain es1 where e: "spawn_ego sample_env (MapPose 7) t = (Inr 0, es1)" "created es1 = [0]"
    using sample_ego [OF assms] by blast
  obtain es2 where s: "spawn_sensors sample_env 0 sample_kit (Some []) (t @ es1) = (Inr [1, 2], es2)" "created es2 = [1, 2]"
    using sample_rig [of "t @ es1"] assms e(2) by auto
  have a: "build_lidar_overrides default_args = []" "a_cameras default_args = 0"
    by (simp_all add: default_args_simps)
  have c: "spawn_cameras sample_env 0 0 w h k t' = (Inr [], [])" for w h k t'
    by (simp add: spawn_cameras_def spawn_all_def)
  obtain r4 es4 where l: "run_loop sample_env default_args (t @ es1 @ es2) = Some (r4, es4)"
    using both_loops_return [of 2 sample_env] by (fastforce simp: run_loop_def)
  obtain r es where v: "leave sample_env t (Some 0) [1, 2] (case r4 of Inl e \<Rightarrow> Inl e | Inr _ \<Rightarrow> Inr 0) (es1 @ es2 @ es4) = Some (r, es)"
    using leave_total by (metis prod.exhaust)
  from leave_run [OF v] obtain es5 where "es = (es1 @ es2 @ es4) @ es5" "created es5 = []"
    using teardown_actors by blast
  with no_actors [OF loop_no_actor [OF l]] e s have "created es = [0, 1, 2]" by simp
  moreover have "session sample_env default_args sample_kit (MapPose 7) t = Some (r, es)"
    using e s c l v a by (simp add: session_def)
  ultimately show ?thesis by blast
qed

lemma sample_main:
  "\<exists>r es. main sample_env ''kit'' ''sensors'' [] [] = Some (r, es) \<and> created es = [0, 1, 2]"
proof -
  let ?pre = "[(IsFile ''kit'', OkBool True), (IsFile ''sensors'', OkBool True),
       (OpenYaml ''sensors'', OkDoc (sensors_doc_of sample_kit)), (OpenYaml ''kit'', OkDoc (kit_doc_of sample_kit))]"
  obtain es2 where u: "set_up sample_env default_args ?pre = (Inr (Go (MapPose 7)), es2)" "created es2 = []"
    using sample_set_up by blast
  obtain r es where "session sample_env default_args sample_kit (MapPose 7) (?pre @ es2) = Some (r, es)" "created es = [0, 1, 2]"
    using sample_session [of "?pre @ es2"] u(2) by auto
  moreover have "\<not> a_extension_check default_args" by (simp add: default_args_simps)
  ultimately show ?thesis
    using u by (simp add: main_def main_of_def parse_args_def sample_preflight)
qed


lemma created_split: "created es = a # as \<Longrightarrow> \<exists>xs bp pose parent ys. es = xs @ (SpawnActor bp pose parent, OkId a) # ys"
proof (induction es)
  case Nil
  then show ?case by simp
next
  case (Cons e es)
  show ?case
  proof (cases "created_by e")
    case None
    with Cons obtain xs bp pose parent ys where "e # es = (e # xs) @ (SpawnActor bp pose parent, OkId a) # ys" by auto
    then show ?thesis by blast
  next
    case (Some b)
    with Cons.prems have "b = a" by simp
    with Some obtain bp pose parent where "e = (SpawnActor bp pose parent, OkId a)"
      by (cases e rule: created_by.cases) auto
    then have "e # es = [] @ (SpawnActor bp pose parent, OkId a) # es" by simp
    then show ?thesis by blast
  qed
qed

theorem tf_suppressed_before_spawn_witness:
  "\<exists>r es. main sample_env ''kit'' ''sensors'' [] [] = Some (r, es) \<and> (SetPublishTf False, OkUnit) \<in> set es"
proof -
  obtain r es where m: "main sample_env ''kit'' ''sensors'' [] [] = Some (r, es)" "created es = [0, 1, 2]"
    using sample_main by blast
  from created_split [OF m(2)] obtain xs bp pose parent ys where
    es: "es = xs @ (SpawnActor bp pose parent, OkId 0) # ys" by blast
  from tf_suppressed_before_spawn [OF m(1) es] es m(1) show ?thesis by auto
qed

theorem carla_after_preflight_witness:
  "\<exists>r es. main sample_env ''kit'' ''sensors'' [] [] = Some (r, es) \<and> (IsFile ''kit'', OkBool True) \<in> set es"
proof -
  obtain r es where m: "main sample_env ''kit'' ''sensors'' [] [] = Some (r, es)" "created es = [0, 1, 2]"
    using sample_main by blast
  from created_split [OF m(2)] obtain xs bp pose parent ys where
    es: "es = xs @ (SpawnActor bp pose parent, OkId 0) # ys" by blast
  have e: "(SpawnActor bp pose parent, OkId 0) \<in> set es" "\<not> offline (SpawnActor bp pose parent, OkId 0)"
    by (simp_all add: es offline_def)
  have "parse_args (build_arg_parser ''kit'' ''sensors'') [] = Inr (defaults (build_arg_parser ''kit'' ''sensors''))"
    "a_sensor_kit_calibration default_args = ''kit''"
    by (simp_all add: parse_args_def default_args_simps)
  with carla_after_preflight [OF m(1) e] m(1) show ?thesis by auto
qed

theorem main_returns_witness:
  "\<exists>p. main sample_env ''kit'' ''sensors'' [''--async''] [] = Some p"
proof -
  have "\<forall>t. 2 \<le> continues t \<longrightarrow> env_go sample_env t = Inr False" by simp
  then show ?thesis by (rule main_returns)
qed

theorem extension_check_verdict_witness:
  "\<exists>n es. extension_check (sample_env\<lparr>env_nm := \<lambda>t p. Inr ''00 T carla_ros2_extension_init''\<rparr>) ''lib.so'' [] = (Inr n, es) \<and> n = 0"
proof -
  let ?env = "sample_env\<lparr>env_nm := \<lambda>t p. Inr ''00 T carla_ros2_extension_init''\<rparr>"
  have l: "splitlines ''00 T carla_ros2_extension_init'' = [''00 T carla_ros2_extension_init'']"
    by (simp add: splitlines_def is_linebreak_def)
  have h: "has_infix ''00 T carla_ros2_extension_init'' ''carla_ros2_extension_init''"
    "has_infix ''00 T carla_ros2_extension_init'' '' T ''" by simp_all
  have "fst (extension_check ?env ''lib.so'' []) = Inr 0"
    by (simp add: extension_check_def extension_exports_init_def io_eval l h)
  then obtain es where es: "extension_check ?env ''lib.so'' [] = (Inr 0, es)"
    by (cases "extension_check ?env ''lib.so'' []") auto
  from extension_check_verdict [OF this] es show ?thesis by blast
qed

theorem select_spawn_point_range_witness:
  "select_spawn_point [4, 5] 1 = Inr 5 \<and> (\<exists>e. select_spawn_point [4, 5] (- 1) = Inl e \<and> exc_of e = IndexError)"
  using select_spawn_point_range [of "[4, 5]" 1] select_spawn_point_range [of "[4, 5]" "- 1"]
  by (cases "select_spawn_point [4, 5] (- 1)") auto

end
