(* ===== verification/Interop.thy ===== *)
theory Interop
  imports Py_Values "HOL-Library.Sublist"
begin

text \<open>
  \<^verbatim>\<open>scripts/interop_lib.py\<close> and \<^verbatim>\<open>scripts/interop_check.py\<close>: the verdict of the native-DDS interop gate.
  A topic specification is a YAML mapping; the command runner is a parameter that answers a command
  and a timeout. The regular expressions are a literal, white space and a run of characters of a
  class, matched at the start, at a line start or anywhere. Case conversion covers ASCII letters.

  The lemmas: the QoS reader agrees with its block-wise reference; a topic passes exactly when every
  pinned condition holds, and exactly when no check of it is a failure; the exit status.
\<close>

section \<open>Text\<close>

text \<open>Output of a command: text, or the bytes \<open>subprocess\<close> hands over on a timeout whatever
  \<open>text=True\<close> says.\<close>

datatype out_text = Text string | Raw string

definition upper :: "char \<Rightarrow> char" where
  "upper c = (let n = of_char c :: nat in if 97 \<le> n \<and> n \<le> 122 then char_of (n - 32) else c)"

definition last_line :: "string \<Rightarrow> string" where
  "last_line text = (let lines = splitlines (strip text) in if lines = [] then [] else last lines)"

text \<open>\<open>re.match(lit \s* ([class]+))\<close>: the class holds no white space, so the greedy reading is the
  only one.\<close>

definition match_field :: "string \<Rightarrow> (char \<Rightarrow> bool) \<Rightarrow> string \<Rightarrow> string option" where
  "match_field lit cls s =
     (if starts_with s lit
      then let g = takeWhile cls (dropWhile is_space (drop (length lit) s)) in if g = [] then None else Some g
      else None)"

fun search_field :: "string \<Rightarrow> (char \<Rightarrow> bool) \<Rightarrow> string \<Rightarrow> string option" where
  "search_field lit cls [] = match_field lit cls []"
| "search_field lit cls (c # s) =
     (case match_field lit cls (c # s) of Some g \<Rightarrow> Some g | None \<Rightarrow> search_field lit cls s)"

text \<open>\<open>re.search("^...", re.MULTILINE)\<close>: at the start and after each line feed.\<close>

fun search_line_field :: "bool \<Rightarrow> string \<Rightarrow> (char \<Rightarrow> bool) \<Rightarrow> string \<Rightarrow> string option" where
  "search_line_field bol lit cls [] = (if bol then match_field lit cls [] else None)"
| "search_line_field bol lit cls (c # s) =
     (case (if bol then match_field lit cls (c # s) else None) of
        Some g \<Rightarrow> Some g
      | None \<Rightarrow> search_line_field (c = CHR 0x0A) lit cls s)"

definition not_space :: "char \<Rightarrow> bool" where
  "not_space c \<longleftrightarrow> \<not> is_space c"

definition is_digit :: "char \<Rightarrow> bool" where
  "is_digit c \<longleftrightarrow> digit_of c \<noteq> None"

definition is_rate :: "char \<Rightarrow> bool" where
  "is_rate c \<longleftrightarrow> is_digit c \<or> c = CHR ''.''"

section \<open>The publisher's QoS\<close>

record qos_state =
  q_reliability :: "string option"
  q_durability :: "string option"
  q_endpoint :: "string option"

definition qos_line :: "qos_state \<Rightarrow> string \<Rightarrow> qos_state" where
  "qos_line st line =
     (let stripped = strip line
      in case match_field ''Endpoint type:'' not_space stripped of
           Some g \<Rightarrow> st\<lparr>q_endpoint := Some (map upper g)\<rparr>
         | None \<Rightarrow>
             if q_endpoint st = Some ''PUBLISHER''
             then
               let st1 = (case match_field ''Reliability:'' not_space stripped of
                            Some g \<Rightarrow> if q_reliability st = None then st\<lparr>q_reliability := Some (map upper g)\<rparr> else st
                          | None \<Rightarrow> st)
               in (case match_field ''Durability:'' not_space stripped of
                     Some g \<Rightarrow> if q_durability st1 = None then st1\<lparr>q_durability := Some (map upper g)\<rparr> else st1
                   | None \<Rightarrow> st1)
             else st)"

definition parse_publisher_qos :: "string \<Rightarrow> string option \<times> string option" where
  "parse_publisher_qos out =
     (let st = foldl qos_line \<lparr>q_reliability = None, q_durability = None, q_endpoint = None\<rparr> (splitlines out)
      in (q_reliability st, q_durability st))"

section \<open>The verdict of a topic\<close>

definition CHECK_COLUMNS :: "string list" where
  "CHECK_COLUMNS = [''presence'', ''type'', ''durability'', ''reliability'', ''echo'', ''rate'']"

record topic_result =
  r_name :: pyval
  r_checks :: "(string \<times> string) list"
  r_ok :: bool

definition check_fail :: "string \<Rightarrow> string \<Rightarrow> topic_result \<Rightarrow> topic_result" where
  "check_fail key msg r = r\<lparr>r_checks := dict_set key (''FAIL: '' @ msg) (r_checks r), r_ok := False\<rparr>"

definition check_ok :: "string \<Rightarrow> string \<Rightarrow> topic_result \<Rightarrow> topic_result" where
  "check_ok key msg r = r\<lparr>r_checks := dict_set key msg (r_checks r)\<rparr>"

type_synonym runner = "string \<Rightarrow> int \<Rightarrow> (int \<times> out_text) res"

text \<open>A pattern of \<open>str\<close> on bytes raises.\<close>

definition text_of :: "out_text \<Rightarrow> string res" where
  "text_of out = (case out of Text s \<Rightarrow> Ret s | Raw _ \<Rightarrow> Raise TypeError ''cannot use a string pattern on a bytes-like object'')"

definition or_none :: "string option \<Rightarrow> string" where
  "or_none v = (case v of None \<Rightarrow> ''none'' | Some s \<Rightarrow> if s = [] then ''none'' else s)"

text \<open>\<open>spec[key].upper()\<close>.\<close>

definition upper_value :: "pyval \<Rightarrow> string \<Rightarrow> string res" where
  "upper_value spec key =
     bindE (getitem spec key) (\<lambda>v. case v of PStr s \<Rightarrow> Ret (map upper s) | _ \<Rightarrow> Raise AttributeError ''upper'')"

text \<open>A QoS policy, checked only when the specification pins it.\<close>

definition check_qos :: "string \<Rightarrow> pyval \<Rightarrow> string option \<Rightarrow> topic_result \<Rightarrow> topic_result res" where
  "check_qos key spec offered r =
     bindE (str_in key spec) (\<lambda>pinned.
       if \<not> pinned then Ret r
       else bindE (upper_value spec key) (\<lambda>want.
         if offered = Some want then Ret (check_ok key want r)
         else Ret (check_fail key (''publisher offers '' @ or_none offered @ '', want '' @ want) r)))"

definition check_echo :: "runner \<Rightarrow> pyval \<Rightarrow> string \<Rightarrow> string \<Rightarrow> topic_result \<Rightarrow> topic_result res" where
  "check_echo runner spec name want_type r =
     bindE (get_or spec ''echo'' PNone) (\<lambda>echo.
       if \<not> truthy echo then Ret r
       else bindE (runner (''timeout 20 ros2 topic echo --once '' @ name @ '' '' @ want_type) 25) (\<lambda>(rc, out).
         if rc = 0 then Ret (check_ok ''echo'' ''ok'' r)
         else if rc = 124 then Ret (check_fail ''echo'' ''timeout (no data or deserialization failure)'' r)
         else bindE (text_of out) (\<lambda>text. Ret (check_fail ''echo'' (last_line text) r))))"

text \<open>\<open>x >= v\<close> for a float and a value of the specification.\<close>

definition float_ge :: "f64 \<Rightarrow> pyval \<Rightarrow> bool res" where
  "float_ge x v =
     (case num_value v of Some y \<Rightarrow> Ret (y \<le> x) | None \<Rightarrow> Raise TypeError ''>= not supported'')"

definition check_rate :: "runner \<Rightarrow> pyval \<Rightarrow> string \<Rightarrow> topic_result \<Rightarrow> topic_result res" where
  "check_rate runner spec name r =
     bindE (str_in ''min_hz'' spec) (\<lambda>wanted.
       if \<not> wanted then Ret r
       else bindE (runner (''timeout 15 ros2 topic hz --window 50 '' @ name) 20) (\<lambda>(rc, out).
         bindE (text_of out) (\<lambda>text.
         bindE (getitem spec ''min_hz'') (\<lambda>min_hz.
           case search_field ''average rate:'' is_rate text of
             None \<Rightarrow> Ret (check_fail ''rate'' (''got none, want >= '' @ py_str min_hz) r)
           | Some g \<Rightarrow>
               bindE (py_float (PStr g)) (\<lambda>x. bindE (float_ge x min_hz) (\<lambda>enough.
                 if enough then Ret (check_ok ''rate'' (g @ '' Hz'') r)
                 else Ret (check_fail ''rate'' (''got '' @ g @ '', want >= '' @ py_str min_hz) r)))))))"

text \<open>The presence check: the type line's value when the topic is published.\<close>

definition presence :: "int \<Rightarrow> string \<Rightarrow> string + string" where
  "presence rc out =
     (let type_match = search_line_field True ''Type:'' not_space out;
          pub_count = (case search_field ''Publisher count:'' is_digit out of
                         None \<Rightarrow> 0 | Some ds \<Rightarrow> (case parse_int ds of None \<Rightarrow> 0 | Some n \<Rightarrow> n))
      in if rc \<noteq> 0 \<or> type_match = None
         then Inl (if last_line out = [] then ''topic not found'' else last_line out)
         else if pub_count < 1 then Inl ''publisher count 0 (topic not published)''
         else Inr (the type_match))"

definition evaluate_topic :: "pyval \<Rightarrow> runner \<Rightarrow> topic_result res" where
  "evaluate_topic spec runner =
     bindE (getitem spec ''name'') (\<lambda>name. bindE (getitem spec ''type'') (\<lambda>want_type.
     let result = \<lparr>r_name = name, r_checks = [], r_ok = True\<rparr>
     in bindE (runner (''ros2 topic info --verbose '' @ py_str name) 20) (\<lambda>(rc, raw).
        bindE (text_of raw) (\<lambda>out.
          case presence rc out of
            Inl msg \<Rightarrow> Ret (check_fail ''presence'' msg result)
          | Inr got_type \<Rightarrow>
              let r1 = check_ok ''presence'' ''ok'' result;
                  r2 = (if py_eq (PStr got_type) want_type then check_ok ''type'' ''ok'' r1
                        else check_fail ''type'' (''got '' @ got_type @ '' want '' @ py_str want_type) r1);
                  qos = parse_publisher_qos out
              in bindE (check_qos ''durability'' spec (snd qos) r2) (\<lambda>r3.
                 bindE (check_qos ''reliability'' spec (fst qos) r3) (\<lambda>r4.
                 bindE (check_echo runner spec (py_str name) (py_str want_type) r4) (\<lambda>r5.
                   check_rate runner spec (py_str name) r5)))))))"

section \<open>The report\<close>

definition render_table :: "topic_result list \<Rightarrow> string" where
  "render_table results =
     (let header = ''| topic | '' @ join '' | '' CHECK_COLUMNS @ '' |'';
          separator = ''|'' @ concat (replicate (length CHECK_COLUMNS + 1) ''---|'');
          row = (\<lambda>r. ''| '' @ py_str (r_name r) @ '' | '' @
            join '' | '' (map (\<lambda>k. case map_of (r_checks r) k of None \<Rightarrow> ''-'' | Some v \<Rightarrow> v) CHECK_COLUMNS) @ '' |'')
      in join [CHR 0x0A] (header # separator # map row results))"

definition summarize :: "topic_result list \<Rightarrow> string" where
  "summarize results =
     (let n_bad = length (filter (\<lambda>r. \<not> r_ok r) results)
      in show_int (int (length results) - int n_bad) @ ''/'' @ show_nat (length results) @ '' topics passed'')"

section \<open>The command line\<close>

text \<open>\<open>subprocess.run(..., text=True, timeout=...)\<close>: it completes, or \<open>TimeoutExpired\<close> carries the
  captured bytes, \<open>None\<close> where nothing was captured.\<close>

datatype run_outcome = Completed int string string | TimedOut "string option" "string option"

definition sh :: "(string \<Rightarrow> int \<Rightarrow> run_outcome) \<Rightarrow> runner" where
  "sh run cmd timeout =
     (case run cmd timeout of
        Completed rc out err \<Rightarrow> Ret (rc, Text (out @ err))
      | TimedOut out err \<Rightarrow>
          (let part = (\<lambda>b. case b of None \<Rightarrow> Text [] | Some s \<Rightarrow> if s = [] then Text [] else Raw s)
           in case (part out, part err) of
                (Text a, Text b) \<Rightarrow> Ret (124, Text (a @ b))
              | (Raw a, Raw b) \<Rightarrow> Ret (124, Raw (a @ b))
              | _ \<Rightarrow> Raise TypeError ''can only concatenate str to str''))"

datatype report_event = PrintText string | WriteResults "topic_result list" | WriteReport string

text \<open>\<open>runners i\<close> runs the commands of the \<open>i\<close>-th topic. The result is the exit status and what was
  printed and written; the output directory is assumed writable.\<close>

definition interop_main ::
  "bool \<Rightarrow> pyval res \<Rightarrow> runner \<Rightarrow> (nat \<Rightarrow> runner) \<Rightarrow> (int \<times> report_event list) res" where
  "interop_main discover topics_doc list_runner runners =
     (if discover
      then bindE (list_runner ''ros2 topic list -t'' 30) (\<lambda>(rc, out).
             Ret (0, [PrintText (case out of Text s \<Rightarrow> s | Raw s \<Rightarrow> ''b'' @ repr_str s)]))
      else
        bindE topics_doc (\<lambda>doc. bindE (getitem doc ''topics'') (\<lambda>topics. bindE (py_iter topics) (\<lambda>specs.
        bindE (mapE (\<lambda>(i, s). evaluate_topic s (runners i)) (zip [0..<length specs] specs)) (\<lambda>results.
          let table = render_table results; summary = summarize results; nl = [CHR 0x0A]
          in Ret (if list_ex (\<lambda>r. \<not> r_ok r) results then 1 else 0,
                  [WriteResults results, WriteReport (table @ nl @ nl @ summary @ nl),
                   PrintText table, PrintText (nl @ summary)]))))))"

section \<open>The QoS reader against its blocks\<close>

text \<open>The reference: a block starts at an endpoint line; the lines of the publisher blocks are read for
  the first value of a field.\<close>

definition endpoint_of :: "string \<Rightarrow> string option" where
  "endpoint_of line = map_option (map upper) (match_field ''Endpoint type:'' not_space (strip line))"

definition plain :: "string \<Rightarrow> bool" where
  "plain line \<longleftrightarrow> endpoint_of line = None"

function publisher_lines :: "string list \<Rightarrow> string list" where
  "publisher_lines [] = []"
| "publisher_lines (l # ls) =
     (if endpoint_of l = Some ''PUBLISHER''
      then takeWhile plain ls @ publisher_lines (dropWhile plain ls)
      else publisher_lines (dropWhile plain ls))"
  by pat_completeness auto
termination
  by (relation "measure length") (auto simp: less_Suc_eq_le length_dropWhile_le)

definition field_of :: "string \<Rightarrow> string \<Rightarrow> string option" where
  "field_of lit line = map_option (map upper) (match_field lit not_space (strip line))"

fun first_field :: "string \<Rightarrow> string list \<Rightarrow> string option" where
  "first_field lit [] = None"
| "first_field lit (l # ls) = (case field_of lit l of Some g \<Rightarrow> Some g | None \<Rightarrow> first_field lit ls)"

fun or_else :: "'a option \<Rightarrow> 'a option \<Rightarrow> 'a option" where
  "or_else (Some x) y = Some x"
| "or_else None y = y"

fun under :: "string option \<Rightarrow> string list \<Rightarrow> string list" where
  "under ep [] = []"
| "under ep (l # ls) =
     (case endpoint_of l of
        Some g \<Rightarrow> under (Some g) ls
      | None \<Rightarrow> if ep = Some ''PUBLISHER'' then l # under ep ls else under ep ls)"

lemma under_blocks:
  "under ep ls = (if ep = Some ''PUBLISHER'' then takeWhile plain ls else []) @ publisher_lines (dropWhile plain ls)"
proof (induction ep ls rule: under.induct)
  case (1 ep)
  then show ?case by simp
next
  case (2 ep l ls)
  show ?case
  proof (cases "endpoint_of l")
    case None
    with 2 show ?thesis by (simp add: plain_def)
  next
    case (Some g)
    then have "\<not> plain l" by (simp add: plain_def)
    with 2 Some show ?thesis by simp
  qed
qed

lemma qos_line_fields:
  "q_endpoint (qos_line st l) = or_else (endpoint_of l) (q_endpoint st)"
  "q_reliability (qos_line st l) =
     (if endpoint_of l = None \<and> q_endpoint st = Some ''PUBLISHER''
      then or_else (q_reliability st) (field_of ''Reliability:'' l) else q_reliability st)"
  "q_durability (qos_line st l) =
     (if endpoint_of l = None \<and> q_endpoint st = Some ''PUBLISHER''
      then or_else (q_durability st) (field_of ''Durability:'' l) else q_durability st)"
  by (cases "q_reliability st"; cases "q_durability st";
      simp add: qos_line_def endpoint_of_def field_of_def Let_def split: option.split)+

lemma foldl_qos:
  "q_reliability (foldl qos_line st ls) = or_else (q_reliability st) (first_field ''Reliability:'' (under (q_endpoint st) ls)) \<and>
   q_durability (foldl qos_line st ls) = or_else (q_durability st) (first_field ''Durability:'' (under (q_endpoint st) ls))"
proof (induction ls arbitrary: st)
  case Nil
  then show ?case by (cases "q_reliability st"; cases "q_durability st") simp_all
next
  case (Cons l ls)
  from Cons [of "qos_line st l"] show ?case
    by (cases "endpoint_of l"; cases "q_reliability st"; cases "q_durability st")
      (auto simp: qos_line_fields split: option.split)
qed

text \<open>C14: The QoS read for a topic is that of its publisher blocks alone: the first reliability and
  the first durability among the lines of blocks whose endpoint line says PUBLISHER, whatever the
  subscription blocks around them say.\<close>

theorem parse_publisher_qos_blocks:
  "parse_publisher_qos out =
     (first_field ''Reliability:'' (publisher_lines (dropWhile plain (splitlines out))),
      first_field ''Durability:'' (publisher_lines (dropWhile plain (splitlines out))))"
  using foldl_qos [of "\<lparr>q_reliability = None, q_durability = None, q_endpoint = None\<rparr>" "splitlines out"]
  by (simp add: parse_publisher_qos_def under_blocks Let_def)

section \<open>What a pass means\<close>

lemma check_simps [simp]:
  "r_ok (check_ok k m r) = r_ok r" "\<not> r_ok (check_fail k m r)"
  "r_checks (check_ok k m r) = dict_set k m (r_checks r)"
  "r_checks (check_fail k m r) = dict_set k (''FAIL: '' @ m) (r_checks r)"
  by (simp_all add: check_ok_def check_fail_def)

lemma check_qos_run:
  assumes "check_qos key (PDict d) offered r = Inr r'"
  shows "r_ok r' \<longleftrightarrow> r_ok r \<and> (\<forall>v. map_of d key = Some v \<longrightarrow> (\<exists>s. v = PStr s \<and> offered = Some (map upper s)))"
proof (cases "map_of d key")
  case None
  then have "key \<notin> fst ` set d" by (simp add: map_of_eq_None_iff)
  with assms None show ?thesis by (simp add: check_qos_def str_in_def)
next
  case (Some v)
  then have "key \<in> fst ` set d" by (metis map_of_eq_None_iff option.distinct(1))
  with assms Some show ?thesis
    by (cases v) (auto simp: check_qos_def str_in_def upper_value_def getitem_def split: if_split_asm)
qed

lemma check_echo_run:
  assumes "check_echo runner (PDict d) name want r = Inr r'"
  shows "r_ok r' \<longleftrightarrow> r_ok r \<and> (\<forall>v. map_of d ''echo'' = Some v \<and> truthy v \<longrightarrow>
    (\<exists>out. runner (''timeout 20 ros2 topic echo --once '' @ name @ '' '' @ want) 25 = Inr (0, out)))"
proof (cases "case map_of d ''echo'' of None \<Rightarrow> False | Some v \<Rightarrow> truthy v")
  case False
  with assms show ?thesis by (auto simp: check_echo_def get_or_def split: option.splits)
next
  case True
  then obtain v where v: "map_of d ''echo'' = Some v" "truthy v" by (auto split: option.splits)
  let ?run = "runner (''timeout 20 ros2 topic echo --once '' @ name @ '' '' @ want) 25"
  from assms v have e: "bindE ?run (\<lambda>(rc, out).
         if rc = 0 then Ret (check_ok ''echo'' ''ok'' r)
         else if rc = 124 then Ret (check_fail ''echo'' ''timeout (no data or deserialization failure)'' r)
         else bindE (text_of out) (\<lambda>text. Ret (check_fail ''echo'' (last_line text) r))) = Inr r'"
    by (simp add: check_echo_def get_or_def)
  then obtain rc out where run: "?run = Inr (rc, out)" by (cases ?run) auto
  show ?thesis
  proof (cases "rc = 0")
    case True
    with e run v show ?thesis by auto
  next
    case False
    with e run have "\<not> r_ok r'" by (cases out; auto simp: text_of_def split: if_split_asm)
    with False run v show ?thesis by simp
  qed
qed

lemma check_rate_run:
  assumes "check_rate runner (PDict d) name r = Inr r'"
  shows "r_ok r' \<longleftrightarrow> r_ok r \<and> (\<forall>v. map_of d ''min_hz'' = Some v \<longrightarrow>
    (\<exists>rc text g x y. runner (''timeout 15 ros2 topic hz --window 50 '' @ name) 20 = Inr (rc, Text text) \<and>
       search_field ''average rate:'' is_rate text = Some g \<and> parse_float g = Some x \<and>
       num_value v = Some y \<and> y \<le> x))"
proof (cases "map_of d ''min_hz''")
  case None
  then have "''min_hz'' \<notin> fst ` set d" by (simp add: map_of_eq_None_iff)
  with assms None show ?thesis by (simp add: check_rate_def str_in_def)
next
  case (Some v)
  then have key: "''min_hz'' \<in> fst ` set d" by (metis map_of_eq_None_iff option.distinct(1))
  let ?run = "runner (''timeout 15 ros2 topic hz --window 50 '' @ name) 20"
  from assms Some key obtain rc body where run: "?run = Inr (rc, Text body)"
    by (cases ?run) (auto simp: check_rate_def str_in_def text_of_def split: out_text.splits)
  show ?thesis
  proof (cases "search_field ''average rate:'' is_rate body")
    case None
    with assms Some key run show ?thesis by (auto simp: check_rate_def str_in_def text_of_def getitem_def)
  next
    case found: (Some g)
    with assms Some key run obtain x y where xy: "parse_float g = Some x" "num_value v = Some y"
      by (auto simp: check_rate_def str_in_def text_of_def getitem_def py_float_def float_ge_def
          split: option.splits)
    with assms Some key run found show ?thesis
      by (auto simp: check_rate_def str_in_def text_of_def getitem_def py_float_def float_ge_def
          split: if_splits)
  qed
qed

lemma presence_Inr_iff:
  "presence rc out = Inr got \<longleftrightarrow>
     rc = 0 \<and> search_line_field True ''Type:'' not_space out = Some got \<and>
     (\<exists>ds n. search_field ''Publisher count:'' is_digit out = Some ds \<and> parse_int ds = Some n \<and> 1 \<le> n)"
  by (auto simp: presence_def Let_def split: option.splits)

definition qos_met :: "(string \<times> pyval) list \<Rightarrow> string \<Rightarrow> string option \<Rightarrow> bool" where
  "qos_met d key offered \<longleftrightarrow>
     (case map_of d key of None \<Rightarrow> True | Some (PStr s) \<Rightarrow> offered = Some (map upper s) | Some _ \<Rightarrow> False)"

lemma qos_met_iff:
  "qos_met d key offered \<longleftrightarrow>
     (\<forall>v. map_of d key = Some v \<longrightarrow> (\<exists>s. v = PStr s \<and> offered = Some (map upper s)))"
  by (auto simp: qos_met_def split: option.splits pyval.splits)

definition echo_met :: "(string \<times> pyval) list \<Rightarrow> runner \<Rightarrow> string \<Rightarrow> string \<Rightarrow> bool" where
  "echo_met d runner name want \<longleftrightarrow>
     (case map_of d ''echo'' of
        None \<Rightarrow> True
      | Some v \<Rightarrow> \<not> truthy v \<or>
          (case runner (''timeout 20 ros2 topic echo --once '' @ name @ '' '' @ want) 25 of
             Inr (rc, out) \<Rightarrow> rc = 0 | Inl _ \<Rightarrow> False))"

lemma echo_met_iff:
  "echo_met d runner name want \<longleftrightarrow> (\<forall>v. map_of d ''echo'' = Some v \<and> truthy v \<longrightarrow>
     (\<exists>out. runner (''timeout 20 ros2 topic echo --once '' @ name @ '' '' @ want) 25 = Inr (0, out)))"
  by (auto simp: echo_met_def split: option.splits sum.splits)

definition rate_met :: "(string \<times> pyval) list \<Rightarrow> runner \<Rightarrow> string \<Rightarrow> bool" where
  "rate_met d runner name \<longleftrightarrow>
     (case map_of d ''min_hz'' of
        None \<Rightarrow> True
      | Some v \<Rightarrow>
          (case runner (''timeout 15 ros2 topic hz --window 50 '' @ name) 20 of
             Inr (rc, Text body) \<Rightarrow>
               (case (Option.bind (search_field ''average rate:'' is_rate body) parse_float, num_value v) of
                  (Some x, Some y) \<Rightarrow> y \<le> x | _ \<Rightarrow> False)
           | _ \<Rightarrow> False))"

lemma rate_met_iff:
  "rate_met d runner name \<longleftrightarrow> (\<forall>v. map_of d ''min_hz'' = Some v \<longrightarrow>
    (\<exists>rc text g x y. runner (''timeout 15 ros2 topic hz --window 50 '' @ name) 20 = Inr (rc, Text text) \<and>
       search_field ''average rate:'' is_rate text = Some g \<and> parse_float g = Some x \<and>
       num_value v = Some y \<and> y \<le> x))"
proof (cases "map_of d ''min_hz''")
  case (Some v)
  show ?thesis
  proof (cases "runner (''timeout 15 ros2 topic hz --window 50 '' @ name) 20")
    case run: (Inr p)
    then show ?thesis
    proof (cases p)
      case (Pair rc out)
      with Some run show ?thesis
        by (cases out; cases "num_value v") (auto simp: rate_met_def split: option.splits Option.bind_splits)
    qed
  qed (simp add: rate_met_def Some)
qed (simp add: rate_met_def)

lemma evaluate_topic_run:
  assumes "evaluate_topic (PDict d) runner = Inr r"
  obtains name want rc out where "map_of d ''name'' = Some name" "map_of d ''type'' = Some want"
    "runner (''ros2 topic info --verbose '' @ py_str name) 20 = Inr (rc, Text out)"
proof -
  from assms obtain name want where nw: "map_of d ''name'' = Some name" "map_of d ''type'' = Some want"
    by (auto simp: evaluate_topic_def getitem_def split: option.splits)
  let ?run = "runner (''ros2 topic info --verbose '' @ py_str name) 20"
  from assms nw obtain rc out where "?run = Inr (rc, Text out)"
    by (cases ?run) (auto simp: evaluate_topic_def getitem_def text_of_def split: out_text.splits)
  with nw that show thesis by blast
qed

lemma evaluate_topic_after:
  assumes "map_of d ''name'' = Some name" and "map_of d ''type'' = Some want"
    and "runner (''ros2 topic info --verbose '' @ py_str name) 20 = Inr (rc, Text out)"
  shows "evaluate_topic (PDict d) runner =
    (let result = \<lparr>r_name = name, r_checks = [], r_ok = True\<rparr> in
     case presence rc out of
       Inl msg \<Rightarrow> Ret (check_fail ''presence'' msg result)
     | Inr got \<Rightarrow>
         bindE (check_qos ''durability'' (PDict d) (snd (parse_publisher_qos out))
           (if py_eq (PStr got) want then check_ok ''type'' ''ok'' (check_ok ''presence'' ''ok'' result)
            else check_fail ''type'' (''got '' @ got @ '' want '' @ py_str want) (check_ok ''presence'' ''ok'' result)))
         (\<lambda>r3. bindE (check_qos ''reliability'' (PDict d) (fst (parse_publisher_qos out)) r3)
         (\<lambda>r4. bindE (check_echo runner (PDict d) (py_str name) (py_str want) r4)
         (\<lambda>r5. check_rate runner (PDict d) (py_str name) r5))))"
  using assms by (cases "presence rc out") (simp_all add: evaluate_topic_def getitem_def text_of_def Let_def)

lemma topic_verdict:
  assumes "evaluate_topic (PDict d) runner = Inr r"
    and nw: "map_of d ''name'' = Some name" "map_of d ''type'' = Some want"
    and run: "runner (''ros2 topic info --verbose '' @ py_str name) 20 = Inr (rc, Text out)"
  shows "r_ok r \<longleftrightarrow> (\<exists>got. presence rc out = Inr got \<and> want = PStr got) \<and>
    qos_met d ''durability'' (snd (parse_publisher_qos out)) \<and>
    qos_met d ''reliability'' (fst (parse_publisher_qos out)) \<and>
    echo_met d runner (py_str name) (py_str want) \<and> rate_met d runner (py_str name)"
proof (cases "presence rc out")
  case (Inl m)
  with assms(1) evaluate_topic_after [where d = d and runner = runner, OF nw run] show ?thesis by (auto simp: Let_def)
next
  case (Inr got)
  let ?r0 = "\<lparr>r_name = name, r_checks = [], r_ok = True\<rparr>"
  let ?r1 = "check_ok ''presence'' ''ok'' ?r0"
  let ?r2 = "if py_eq (PStr got) want then check_ok ''type'' ''ok'' ?r1
    else check_fail ''type'' (''got '' @ got @ '' want '' @ py_str want) ?r1"
  from assms(1) evaluate_topic_after [where d = d and runner = runner, OF nw run] Inr
  obtain r3 r4 r5 where steps: "check_qos ''durability'' (PDict d) (snd (parse_publisher_qos out)) ?r2 = Inr r3"
    "check_qos ''reliability'' (PDict d) (fst (parse_publisher_qos out)) r3 = Inr r4"
    "check_echo runner (PDict d) (py_str name) (py_str want) r4 = Inr r5"
    "check_rate runner (PDict d) (py_str name) r5 = Inr r"
    by (auto simp: Let_def bindE_Inr_iff)
  have "r_ok ?r2 \<longleftrightarrow> want = PStr got" by simp
  with Inr show ?thesis
    unfolding check_rate_run [OF steps(4), folded rate_met_iff] check_echo_run [OF steps(3), folded echo_met_iff]
      check_qos_run [OF steps(2), folded qos_met_iff] check_qos_run [OF steps(1), folded qos_met_iff]
    by auto
qed

text \<open>C6: A topic of the interop gate passes exactly when all of its contract holds: the topic
  information command exits 0 and shows a type line and a publisher count of at least one, the type
  is the specified one, each pinned QoS policy is what the publisher offers, the echo succeeds when
  asked for, and the measured rate reaches the minimum when one is given.\<close>

theorem topic_passes_iff:
  assumes "evaluate_topic (PDict d) runner = Inr r"
  shows "\<exists>name want rc out.
    map_of d ''name'' = Some name \<and> map_of d ''type'' = Some want \<and>
    runner (''ros2 topic info --verbose '' @ py_str name) 20 = Inr (rc, Text out) \<and>
    (r_ok r \<longleftrightarrow>
       rc = 0 \<and>
       (\<exists>got. search_line_field True ''Type:'' not_space out = Some got \<and> want = PStr got) \<and>
       (\<exists>ds n. search_field ''Publisher count:'' is_digit out = Some ds \<and> parse_int ds = Some n \<and> 1 \<le> n) \<and>
       qos_met d ''durability'' (snd (parse_publisher_qos out)) \<and>
       qos_met d ''reliability'' (fst (parse_publisher_qos out)) \<and>
       echo_met d runner (py_str name) (py_str want) \<and> rate_met d runner (py_str name))"
proof -
  obtain name want rc out where nw: "map_of d ''name'' = Some name" "map_of d ''type'' = Some want"
    and run: "runner (''ros2 topic info --verbose '' @ py_str name) 20 = Inr (rc, Text out)"
    using evaluate_topic_run [OF assms] by blast
  from topic_verdict [OF assms nw run] nw run show ?thesis
    unfolding presence_Inr_iff by blast
qed

section \<open>What the report shows\<close>

text \<open>The recorded checks are columns of the table, in its order, and the verdict is the absence of a
  failure among them.\<close>

definition failing :: "string \<times> string \<Rightarrow> bool" where
  "failing p \<longleftrightarrow> starts_with (snd p) ''FAIL: ''"

definition recorded :: "string list \<Rightarrow> topic_result \<Rightarrow> bool" where
  "recorded cols r \<longleftrightarrow> subseq (map fst (r_checks r)) cols \<and> (r_ok r \<longleftrightarrow> \<not> list_ex failing (r_checks r))"

lemma dict_set_fresh: "k \<notin> fst ` set d \<Longrightarrow> dict_set k v d = d @ [(k, v)]"
  by (induction d) auto

lemma recorded_fresh:
  assumes "recorded cols r" and "k \<notin> set cols"
  shows "k \<notin> fst ` set (r_checks r)"
  using assms subseq_order.order_trans
  by (metis recorded_def list.set_map list_emb_set subseq_singleton_left)

lemma recorded_fail:
  assumes "recorded cols r" and "k \<notin> set cols"
  shows "recorded (cols @ [k]) (check_fail k m r)"
  using assms recorded_fresh [OF assms]
  by (auto simp: recorded_def dict_set_fresh failing_def starts_with_iff intro: list_emb_append_mono)

lemma recorded_ok:
  assumes "recorded cols r" and "k \<notin> set cols" and "\<not> starts_with m ''FAIL: ''"
  shows "recorded (cols @ [k]) (check_ok k m r)"
  using assms recorded_fresh [OF assms(1,2)]
  by (auto simp: recorded_def dict_set_fresh failing_def intro: list_emb_append_mono)

lemma recorded_skip: "recorded cols r \<Longrightarrow> recorded (cols @ [k]) r"
  by (auto simp: recorded_def intro: list_emb_prefix subseq_order.order_trans)

lemmas recorded_intros = recorded_fail recorded_ok recorded_skip

lemma match_field_class: "match_field lit cls s = Some g \<Longrightarrow> g \<noteq> [] \<and> (\<forall>c \<in> set g. cls c)"
  by (auto simp: match_field_def Let_def split: if_split_asm dest: set_takeWhileD)

lemma search_field_class: "search_field lit cls s = Some g \<Longrightarrow> g \<noteq> [] \<and> (\<forall>c \<in> set g. cls c)"
  by (induction lit cls s rule: search_field.induct) (auto dest: match_field_class split: option.split_asm)

lemma upper_space: "upper c = CHR '' '' \<Longrightarrow> c = CHR '' ''"
proof (rule ccontr)
  assume u: "upper c = CHR '' ''" and c: "c \<noteq> CHR '' ''"
  then have "97 \<le> (of_char c :: nat)" "(of_char c :: nat) \<le> 122" and e: "char_of (of_char c - 32 :: nat) = CHR '' ''"
    by (auto simp: upper_def Let_def split: if_split_asm)
  from e have "of_char (char_of (of_char c - 32 :: nat)) = (of_char (CHR '' '') :: nat)" by simp
  with \<open>97 \<le> (of_char c :: nat)\<close> \<open>(of_char c :: nat) \<le> 122\<close> show False by simp
qed

lemma upper_word: "\<forall>c \<in> set g. not_space c \<Longrightarrow> CHR '' '' \<notin> set (map upper g)"
proof
  assume word: "\<forall>c \<in> set g. not_space c" and "CHR '' '' \<in> set (map upper g)"
  from this(2) obtain c where u: "CHR '' '' = upper c" and c: "c \<in> set g" unfolding set_map by (rule imageE)
  from upper_space [OF u [symmetric]] have "c = CHR '' ''" .
  with word c have "not_space (CHR '' '')" by simp
  then show False by (simp add: not_space_def is_space_def)
qed

lemma field_of_word:
  assumes "field_of lit l = Some g"
  shows "CHR '' '' \<notin> set g"
proof -
  from assms obtain w where w: "match_field lit not_space (strip l) = Some w" "g = map upper w"
    by (auto simp: field_of_def)
  have "\<forall>c \<in> set w. not_space c" using match_field_class [OF w(1)] by simp
  with w(2) show ?thesis by (simp only: upper_word not_False_eq_True)
qed

lemma first_field_word: "first_field lit ls = Some g \<Longrightarrow> CHR '' '' \<notin> set g"
  by (induction lit ls rule: first_field.induct) (auto dest: field_of_word split: option.split_asm)

lemma offered_word:
  "fst (parse_publisher_qos out) = Some g \<Longrightarrow> \<not> starts_with g ''FAIL: ''"
  "snd (parse_publisher_qos out) = Some g \<Longrightarrow> \<not> starts_with g ''FAIL: ''"
  using foldl_qos [of "\<lparr>q_reliability = None, q_durability = None, q_endpoint = None\<rparr>" "splitlines out"]
  by (auto simp: parse_publisher_qos_def Let_def starts_with_iff dest: first_field_word)

lemma recorded_qos:
  assumes "check_qos key (PDict d) offered r = Inr r'" and "recorded cols r" and "key \<notin> set cols"
    and "\<And>g. offered = Some g \<Longrightarrow> \<not> starts_with g ''FAIL: ''"
  shows "recorded (cols @ [key]) r'"
proof -
  consider "r' = r" | want where "offered = Some want" "r' = check_ok key want r" | m where "r' = check_fail key m r"
    using assms(1) by (auto simp: check_qos_def str_in_def bindE_Inr_iff split: if_split_asm)
  then show ?thesis using assms(2-4) by cases (auto intro: recorded_intros)
qed

lemma recorded_echo:
  assumes "check_echo runner (PDict d) name want r = Inr r'" and "recorded cols r" and "''echo'' \<notin> set cols"
  shows "recorded (cols @ [''echo'']) r'"
proof -
  consider "r' = r" | "r' = check_ok ''echo'' ''ok'' r" | m where "r' = check_fail ''echo'' m r"
    using assms(1) by (auto simp: check_echo_def get_or_def bindE_Inr_iff split: if_split_asm prod.split_asm)
  then show ?thesis using assms(2,3) by cases (auto intro: recorded_intros)
qed

lemma rate_message: "search_field lit is_rate s = Some g \<Longrightarrow> \<not> starts_with (g @ w) ''FAIL: ''"
  by (cases g) (auto dest!: search_field_class simp: is_rate_def is_digit_def digit_of_def)

lemma recorded_rate:
  assumes "check_rate runner (PDict d) name r = Inr r'" and "recorded cols r" and "''rate'' \<notin> set cols"
  shows "recorded (cols @ [''rate'']) r'"
proof -
  consider "r' = r" | m where "\<not> starts_with m ''FAIL: ''" "r' = check_ok ''rate'' m r"
    | m where "r' = check_fail ''rate'' m r"
    using assms(1)
    by (auto simp: check_rate_def str_in_def bindE_Inr_iff dest: rate_message
        split: if_split_asm prod.split_asm option.split_asm)
  then show ?thesis using assms(2,3) by cases (auto intro: recorded_intros)
qed

lemma evaluate_topic_recorded:
  assumes "evaluate_topic (PDict d) runner = Inr r"
  shows "recorded CHECK_COLUMNS r"
proof -
  obtain name want rc out where nw: "map_of d ''name'' = Some name" "map_of d ''type'' = Some want"
    and run: "runner (''ros2 topic info --verbose '' @ py_str name) 20 = Inr (rc, Text out)"
    using evaluate_topic_run [OF assms] by blast
  note after = evaluate_topic_after [where d = d and runner = runner, OF nw run]
  let ?r0 = "\<lparr>r_name = name, r_checks = [], r_ok = True\<rparr>"
  have r0: "recorded [] ?r0" by (simp add: recorded_def)
  show ?thesis
  proof (cases "presence rc out")
    case (Inl m)
    with after assms have r: "r = check_fail ''presence'' m ?r0" by simp
    from recorded_fail [OF r0, of "''presence''" m] have p: "recorded [''presence''] r" by (simp add: r)
    show ?thesis
      using recorded_skip [OF recorded_skip [OF recorded_skip [OF recorded_skip [OF recorded_skip [OF p]]]],
          of "''type''" "''durability''" "''reliability''" "''echo''" "''rate''"]
      by (simp add: CHECK_COLUMNS_def)
  next
    case (Inr got)
    let ?r1 = "check_ok ''presence'' ''ok'' ?r0"
    let ?r2 = "if py_eq (PStr got) want then check_ok ''type'' ''ok'' ?r1
      else check_fail ''type'' (''got '' @ got @ '' want '' @ py_str want) ?r1"
    from assms after Inr
    obtain r3 r4 r5 where steps: "check_qos ''durability'' (PDict d) (snd (parse_publisher_qos out)) ?r2 = Inr r3"
      "check_qos ''reliability'' (PDict d) (fst (parse_publisher_qos out)) r3 = Inr r4"
      "check_echo runner (PDict d) (py_str name) (py_str want) r4 = Inr r5"
      "check_rate runner (PDict d) (py_str name) r5 = Inr r"
      by (auto simp: Let_def bindE_Inr_iff)
    from recorded_ok [OF r0, of "''presence''" "''ok''"] have r1: "recorded [''presence''] ?r1" by simp
    have r2: "recorded [''presence'', ''type''] ?r2"
      using recorded_ok [OF r1, of "''type''" "''ok''"] recorded_fail [OF r1, of "''type''"] by simp
    from recorded_qos [OF steps(1) r2] offered_word(2)
    have r3: "recorded [''presence'', ''type'', ''durability''] r3" by simp
    from recorded_qos [OF steps(2) r3] offered_word(1)
    have r4: "recorded [''presence'', ''type'', ''durability'', ''reliability''] r4" by simp
    from recorded_echo [OF steps(3) r4]
    have r5: "recorded [''presence'', ''type'', ''durability'', ''reliability'', ''echo''] r5" by simp
    from recorded_rate [OF steps(4) r5] show ?thesis by (simp add: CHECK_COLUMNS_def)
  qed
qed

text \<open>The verdict of a topic is visible in its row: the recorded checks are columns of the table in
  the table's order, and the topic passes exactly when none of the recorded checks starts with FAIL,
  so that no value a publisher or a tool printed can pass for a failure or hide one.\<close>

theorem row_shows_verdict:
  assumes "evaluate_topic (PDict d) runner = Inr r"
  shows "subseq (map fst (r_checks r)) CHECK_COLUMNS \<and>
    (r_ok r \<longleftrightarrow> \<not> list_ex (\<lambda>(k, msg). starts_with msg ''FAIL: '') (r_checks r))"
proof -
  have "(\<lambda>(k, msg). starts_with msg ''FAIL: '') = failing" by (auto simp: failing_def fun_eq_iff)
  with evaluate_topic_recorded [OF assms] show ?thesis by (simp add: recorded_def)
qed

section \<open>The gate as a whole\<close>

lemma mapE_zip:
  assumes "mapE (\<lambda>(i, s). f i s) (zip [0..<length xs] xs) = Inr ys"
  shows "length ys = length xs \<and> (\<forall>i < length xs. f i (xs ! i) = Inr (ys ! i))"
proof -
  from mapE_Inr_length [OF assms] have len: "length ys = length xs" by simp
  moreover have "f i (xs ! i) = Inr (ys ! i)" if "i < length xs" for i
    using mapE_Inr_nth [OF assms, of i] that by simp
  ultimately show ?thesis by simp
qed

text \<open>C35: The gate's exit status is 0 exactly when every topic of the contract was evaluated and
  passed; the results written are one per topic in the order of the contract, each the evaluation of
  its specification, and the summary counts the passing ones.\<close>

theorem gate_exit_status:
  assumes "interop_main False doc list_runner runners = Inr (status, events)"
  shows "\<exists>d topics specs results.
    doc = Inr d \<and> getitem d ''topics'' = Inr topics \<and> py_iter topics = Inr specs \<and>
    length results = length specs \<and>
    (\<forall>i < length specs. evaluate_topic (specs ! i) (runners i) = Inr (results ! i)) \<and>
    status = (if list_all r_ok results then 0 else 1) \<and>
    hd events = WriteResults results \<and>
    last events = PrintText ([CHR 0x0A] @ show_int (int (length (filter r_ok results))) @ ''/'' @
      show_nat (length specs) @ '' topics passed'')"
proof -
  from assms obtain d topics specs results where steps: "doc = Inr d" "getitem d ''topics'' = Inr topics"
    "py_iter topics = Inr specs"
    "mapE (\<lambda>(i, s). evaluate_topic s (runners i)) (zip [0..<length specs] specs) = Inr results"
    by (auto simp: interop_main_def bindE_Inr_iff)
  from mapE_zip [of "\<lambda>i s. evaluate_topic s (runners i)", OF steps(4)]
  have each: "length results = length specs"
    "\<forall>i < length specs. evaluate_topic (specs ! i) (runners i) = Inr (results ! i)" by simp_all
  have count: "int (length results) - int (length (filter (\<lambda>r. \<not> r_ok r) results)) = int (length (filter r_ok results))"
    using sum_length_filter_compl [of r_ok results] by simp
  have "list_ex (\<lambda>r. \<not> r_ok r) results \<longleftrightarrow> \<not> list_all r_ok results"
    by (auto simp: list_ex_iff list_all_iff)
  with assms steps each count show ?thesis
    by (intro exI [of _ d] exI [of _ topics] exI [of _ specs] exI [of _ results])
      (auto simp: interop_main_def summarize_def Let_def)
qed

text \<open>C38: A command that times out after printing something breaks the gate instead of failing its
  topic: \<open>TimeoutExpired\<close> carries bytes, so the pattern search on the topic information raises
  \<open>TypeError\<close>, whatever the other stream captured, and the gate reports nothing.\<close>

theorem timeout_breaks_gate:
  assumes "map_of d ''name'' = Some name" and "map_of d ''type'' = Some want"
    and "run (''ros2 topic info --verbose '' @ py_str name) 20 = TimedOut (Some (c # s)) err"
  shows "(\<exists>m. evaluate_topic (PDict d) (sh run) = Raise TypeError m) \<and>
    (\<exists>m. interop_main False (Inr (PDict [(''topics'', PList (PDict d # more_topics))])) l (\<lambda>_. sh run) = Raise TypeError m)"
proof -
  have "evaluate_topic (PDict d) (sh run) = Raise TypeError ''cannot use a string pattern on a bytes-like object'' \<or>
      evaluate_topic (PDict d) (sh run) = Raise TypeError ''can only concatenate str to str''"
    using assms by (cases err)
      (auto simp: evaluate_topic_def getitem_def sh_def text_of_def Let_def split: list.splits)
  then show ?thesis
    by (auto simp: interop_main_def getitem_def py_iter_def upt_conv_Cons simp del: upt_Suc)
qed

text \<open>The reader does not stop at the first publisher: a policy the first block lacks is taken from a
  later one.\<close>

theorem qos_mixes_blocks:
  "parse_publisher_qos (join [CHR 0x0A] [''Endpoint type: PUBLISHER'', ''Reliability: RELIABLE'',
     ''Endpoint type: PUBLISHER'', ''Reliability: BEST_EFFORT'', ''Durability: VOLATILE''])
   = (Some ''RELIABLE'', Some ''VOLATILE'')"
  by code_simp

section \<open>A sample contract\<close>

definition sample_topic :: "(string \<times> pyval) list" where
  "sample_topic = [(''name'', PStr ''/imu''), (''type'', PStr ''Imu''), (''reliability'', PStr ''reliable''), (''echo'', PBool True)]"

definition sample_info :: string where
  "sample_info = join [CHR 0x0A] [''Type: Imu'', ''Publisher count: 1'', ''Endpoint type: SUBSCRIPTION'',
     ''  Reliability: BEST_EFFORT'', ''Endpoint type: PUBLISHER'', ''  Reliability: RELIABLE'']"

definition sample_run :: "string \<Rightarrow> int \<Rightarrow> run_outcome" where
  "sample_run cmd t = (if t = 20 then Completed 0 sample_info [] else Completed 0 ''data'' [])"

definition sample_result :: topic_result where
  "sample_result = \<lparr>r_name = PStr ''/imu'', r_checks = [(''presence'', ''ok''), (''type'', ''ok''),
     (''reliability'', ''RELIABLE''), (''echo'', ''ok'')], r_ok = True\<rparr>"

lemma sample_presence: "presence 0 sample_info = Inr ''Imu''"
  by code_simp

lemma sample_qos: "parse_publisher_qos sample_info = (Some ''RELIABLE'', None)"
  by code_simp

lemma upper_reliable: "map upper ''reliable'' = ''RELIABLE''"
  by code_simp

lemma sample_evaluates: "evaluate_topic (PDict sample_topic) (sh sample_run) = Inr sample_result"
  using upper_reliable
  by (simp add: evaluate_topic_def sample_topic_def sample_run_def sample_result_def sh_def getitem_def
      text_of_def sample_presence sample_qos check_qos_def str_in_def upper_value_def check_ok_def
      check_echo_def get_or_def check_rate_def Let_def)

theorem topic_passes_iff_witness:
  "r_ok sample_result \<and> qos_met sample_topic ''reliability'' (Some ''RELIABLE'') \<and>
   echo_met sample_topic (sh sample_run) ''/imu'' ''Imu''"
  using topic_passes_iff [OF sample_evaluates]
  by (simp add: sample_topic_def sample_result_def sample_run_def sh_def sample_qos)

theorem row_shows_verdict_witness:
  "subseq (map fst (r_checks sample_result)) CHECK_COLUMNS \<and> r_ok sample_result"
  using row_shows_verdict [OF sample_evaluates] by (simp add: sample_result_def)

lemma sample_gate:
  "interop_main False (Inr (PDict [(''topics'', PList [PDict sample_topic])])) (sh sample_run) (\<lambda>_. sh sample_run)
   = Inr (0, [WriteResults [sample_result],
       WriteReport (render_table [sample_result] @ [CHR 0x0A] @ [CHR 0x0A] @ summarize [sample_result] @ [CHR 0x0A]),
       PrintText (render_table [sample_result]), PrintText ([CHR 0x0A] @ summarize [sample_result])])"
  by (simp add: interop_main_def getitem_def py_iter_def sample_evaluates Let_def)
    (simp add: sample_result_def)

theorem gate_exit_status_witness: "list_all r_ok [sample_result] \<and> (0 :: int) = (if list_all r_ok [sample_result] then 0 else 1)"
proof -
  from gate_exit_status [OF sample_gate] obtain results where
    "hd [WriteResults [sample_result],
       WriteReport (render_table [sample_result] @ [CHR 0x0A] @ [CHR 0x0A] @ summarize [sample_result] @ [CHR 0x0A]),
       PrintText (render_table [sample_result]), PrintText ([CHR 0x0A] @ summarize [sample_result])] = WriteResults results"
    "(0 :: int) = (if list_all r_ok results then 0 else 1)" by blast
  then show ?thesis by (simp split: if_split_asm)
qed

theorem timeout_breaks_gate_witness:
  "\<exists>m. evaluate_topic (PDict sample_topic) (sh (\<lambda>cmd t. TimedOut (Some ''Type: Imu'') None)) = Raise TypeError m"
  using timeout_breaks_gate [of sample_topic "PStr ''/imu''" "PStr ''Imu''" "\<lambda>cmd t. TimedOut (Some ''Type: Imu'') None"]
  by (simp add: sample_topic_def)

end
