(* ===== verification/Interop_Cli.thy ===== *)
theory Interop_Cli
  imports Interop Runner_Args
begin

text \<open>
  \<^verbatim>\<open>scripts/interop_check.py\<close>, the command line around \<open>Interop.interop_main\<close>: its three options, of which \<open>--topics\<close>
  is required, and the exit status of the process. \<open>topics_at path\<close> is opening a file and loading it.

  The lemmas: a command line without \<open>--topics\<close> runs no command, even with \<open>--discover\<close>, and \<open>--discover\<close> writes
  no report.
\<close>

definition interop_parser :: "opt_spec list" where
  "interop_parser =
     [opt ''--topics'' ''topics'' StrOpt PNone, opt ''--report-dir'' ''report_dir'' StrOpt (PStr ''/work/reports''),
      opt ''--discover'' ''discover'' SwitchOn (PBool False)]"

text \<open>The exit status, the directory made for the reports, and what was printed and written into it.\<close>

record gate_run =
  gr_status :: int
  gr_report_dir :: "string option"
  gr_events :: "report_event list"

definition bad_usage :: "int \<Rightarrow> gate_run" where
  "bad_usage n = \<lparr>gr_status = n, gr_report_dir = None, gr_events = []\<rparr>"

definition interop_cli ::
  "string list \<Rightarrow> (string \<Rightarrow> pyval res) \<Rightarrow> runner \<Rightarrow> (nat \<Rightarrow> runner) \<Rightarrow> gate_run res" where
  "interop_cli argv topics_at list_runner runners =
     (case parse_args interop_parser argv of
        Inl n \<Rightarrow> Ret (bad_usage n)
      | Inr ns \<Rightarrow>
          (case as_str (map_of ns ''topics'') of
             None \<Rightarrow> Ret (bad_usage 2)
           | Some path \<Rightarrow>
               let discover = (map_of ns ''discover'' = Some (PBool True))
               in bindE (interop_main discover (topics_at path) list_runner runners) (\<lambda>(status, events).
                    Ret \<lparr>gr_status = status, gr_report_dir = (if discover then None else as_str (map_of ns ''report_dir'')),
                         gr_events = events\<rparr>)))"

lemma interop_main_discover:
  "interop_main True doc l rs = Inr (status, events) \<Longrightarrow> status = 0 \<and> (\<exists>s. events = [PrintText s])"
  by (auto simp: interop_main_def py_splits)

lemma interop_main_gate:
  "interop_main False doc l rs = Inr (status, events) \<Longrightarrow> status \<in> {0, 1} \<and>
     (\<exists>results table summary. events = [WriteResults results, WriteReport (table @ [CHR 0x0A, CHR 0x0A] @ summary @ [CHR 0x0A]),
        PrintText table, PrintText (CHR 0x0A # summary)])"
  by (auto simp: interop_main_def py_splits Let_def)

lemma parsed_topics:
  assumes "parse_args interop_parser argv = Inr ns"
  shows "(map_of ns ''topics'' = Some PNone \<or> (\<exists>s. map_of ns ''topics'' = Some (PStr s))) \<and>
    (\<exists>s. map_of ns ''report_dir'' = Some (PStr s))"
proof -
  have d: "distinct (map opt_dest interop_parser)" and c: "append_from_none interop_parser"
    by (simp_all add: interop_parser_def append_from_none_def)
  from assms have "parse_tokens interop_parser (defaults interop_parser) False argv = Inr ns"
    by (simp add: parse_args_def split: if_split_asm)
  from parse_tokens_typed [OF this defaults_typed [OF d] d c] show ?thesis
    by (auto simp: typed_ns_def interop_parser_def default_of_def convert_opt_def kind_value_def
        elim: is_str.elims)
qed

text \<open>The process exits 0, 1 or 2 when it returns. It touches nothing exactly when the command line is refused (or asks
  for help); a report directory is made exactly by a run of the gate, which writes both reports into it before it
  prints the table; \<open>--discover\<close> prints one text and exits 0.\<close>

theorem interop_cli_outcomes:
  assumes "interop_cli argv topics_at l rs = Inr g"
  shows "gr_status g \<in> {0, 1, 2} \<and>
    (gr_events g = [] \<and> gr_report_dir g = None \<longleftrightarrow>
       (\<forall>ns path. parse_args interop_parser argv = Inr ns \<longrightarrow> map_of ns ''topics'' \<noteq> Some (PStr path))) \<and>
    (gr_report_dir g \<noteq> None \<longrightarrow> (\<exists>results table summary. gr_events g = [WriteResults results,
       WriteReport (table @ [CHR 0x0A, CHR 0x0A] @ summary @ [CHR 0x0A]), PrintText table, PrintText (CHR 0x0A # summary)])) \<and>
    (gr_events g \<noteq> [] \<and> gr_report_dir g = None \<longrightarrow> gr_status g = 0 \<and> (\<exists>s. gr_events g = [PrintText s]))"
proof (cases "parse_args interop_parser argv")
  case (Inl n)
  with assms parse_args_exit [OF Inl] show ?thesis by (auto simp: interop_cli_def bad_usage_def)
next
  case (Inr ns)
  note p = parsed_topics [OF Inr]
  show ?thesis
  proof (cases "\<exists>path. map_of ns ''topics'' = Some (PStr path)")
    case False
    with p assms Inr show ?thesis by (auto simp: interop_cli_def bad_usage_def)
  next
    case True
    then obtain path where path: "map_of ns ''topics'' = Some (PStr path)" by blast
    from p obtain dir where dir: "map_of ns ''report_dir'' = Some (PStr dir)" by blast
    show ?thesis
    proof (cases "map_of ns ''discover'' = Some (PBool True)")
      case True
      with assms Inr path obtain status events where
        m: "interop_main True (topics_at path) l rs = Inr (status, events)"
        "g = \<lparr>gr_status = status, gr_report_dir = None, gr_events = events\<rparr>"
        by (auto simp: interop_cli_def py_splits)
      from interop_main_discover [OF m(1)] Inr path show ?thesis by (auto simp: m(2))
    next
      case False
      with assms Inr path dir obtain status events where
        m: "interop_main False (topics_at path) l rs = Inr (status, events)"
        "g = \<lparr>gr_status = status, gr_report_dir = Some dir, gr_events = events\<rparr>"
        by (auto simp: interop_cli_def py_splits)
      from interop_main_gate [OF m(1)] Inr path show ?thesis by (auto simp: m(2))
    qed
  qed
qed

end
