(* ===== verification/Publisher_Counts.thy ===== *)
theory Publisher_Counts
  imports Py_Values
begin

text \<open>
  \<^verbatim>\<open>benchmarks/analysis/publisher_counts.py\<close>: the publisher-side counts file, written as a document
  by \<open>publisher_counts_doc\<close> and read back by \<open>read_publisher_counts\<close>, which refuses by name any
  file it cannot vouch for. A \<open>PublisherCounts\<close> object is its one field, the stamps per topic.

  The lemmas: writing and reading round-trips; what is read is internally consistent with the file;
  window counts add up over adjacent windows and never exceed the whole-run count.
\<close>

type_synonym publisher_counts = "(string \<times> int list) list"

definition PUBLISHER_COUNTS_SCHEMA :: string where
  "PUBLISHER_COUNTS_SCHEMA = ''publisher_counts/2''"

definition pc_stamps :: "publisher_counts \<Rightarrow> string \<Rightarrow> int list res" where
  "pc_stamps pc topic =
     (case map_of pc topic of
        Some s \<Rightarrow> Ret s
      | None \<Rightarrow> Raise PublisherCountsFormatError (''no publisher-side count for topic '' @ repr_str topic))"

definition whole_run_count :: "publisher_counts \<Rightarrow> string \<Rightarrow> nat res" where
  "whole_run_count pc topic = bindE (pc_stamps pc topic) (\<lambda>s. Ret (length s))"

definition count_in_window :: "publisher_counts \<Rightarrow> string \<Rightarrow> int \<Rightarrow> int \<Rightarrow> nat res" where
  "count_in_window pc topic sim_lo sim_hi =
     bindE (pc_stamps pc topic) (\<lambda>ss. Ret (length (filter (\<lambda>s. sim_lo \<le> s \<and> s \<le> sim_hi) ss)))"

definition publisher_counts_doc :: "publisher_counts \<Rightarrow> pyval" where
  "publisher_counts_doc stamps = PDict
     [(''schema'', PStr PUBLISHER_COUNTS_SCHEMA),
      (''topics'', PDict (map (\<lambda>(topic, ss).
         (topic, PDict [(''count'', PInt (int (length ss))), (''sim_stamps_ns'', PList (map PInt ss))])) stamps))]"

text \<open>One entry of \<open>topics\<close>: the two conversions inside the \<open>try\<close>, then the agreement check.\<close>

definition read_topic :: "pyval \<Rightarrow> int list res" where
  "read_topic entry =
     bindE (catchE [KeyError, TypeError, ValueError]
              (\<lambda>_. Raise PublisherCountsFormatError ''topic must carry an integer count and stamps'')
              (bindE (getitem entry ''count'') (\<lambda>c.
               bindE (py_int c) (\<lambda>recorded.
               bindE (getitem entry ''sim_stamps_ns'') (\<lambda>l.
               bindE (py_iter l) (\<lambda>ss.
               bindE (mapE py_int ss) (\<lambda>series. Ret (recorded, series))))))))
       (\<lambda>(recorded, series).
          if recorded \<noteq> int (length series)
          then Raise PublisherCountsFormatError ''the file is inconsistent''
          else Ret series)"

definition read_step :: "publisher_counts \<Rightarrow> string \<times> pyval \<Rightarrow> publisher_counts res" where
  "read_step stamps p =
     (case p of (topic, entry) \<Rightarrow>
        bindE (read_topic entry) (\<lambda>series. Ret (dict_set topic series stamps)))"

definition read_publisher_counts :: "jfile \<Rightarrow> publisher_counts res" where
  "read_publisher_counts f =
     bindE (read_json f) (\<lambda>doc.
       if \<not> is_dict doc then Raise PublisherCountsFormatError ''expected a JSON object''
       else bindE (get_or doc ''schema'' PNone) (\<lambda>schema.
         if schema = PNone then Raise PublisherCountsFormatError ''no schema key''
         else if \<not> py_eq schema (PStr PUBLISHER_COUNTS_SCHEMA)
         then Raise PublisherCountsFormatError ''unexpected schema''
         else bindE (get_or doc ''topics'' PNone) (\<lambda>topics. case topics of
             PDict ts \<Rightarrow>
               foldE read_step
                 [] ts
           | _ \<Rightarrow> Raise PublisherCountsFormatError ''topics must be an object'')))"

lemma read_step_pair:
  "read_step stamps (topic, entry) =
     bindE (read_topic entry) (\<lambda>series. Ret (dict_set topic series stamps))"
  by (simp add: read_step_def)

section \<open>Reading what was written\<close>

lemma read_topic_doc:
  "read_topic (PDict [(''count'', PInt (int (length ss))), (''sim_stamps_ns'', PList (map PInt ss))]) = Inr ss"
proof -
  have "mapE py_int (map PInt ss) = Inr ss"
    by (induction ss) auto
  then show ?thesis by (simp add: read_topic_def getitem_def py_iter_def)
qed

lemma fold_topics_doc:
  "distinct (dict_keys acc @ dict_keys pc) \<Longrightarrow>
   foldE read_step
     acc (map (\<lambda>(topic, ss).
         (topic, PDict [(''count'', PInt (int (length ss))), (''sim_stamps_ns'', PList (map PInt ss))])) pc)
   = Inr (acc @ pc)"
proof (induction pc arbitrary: acc)
  case Nil
  then show ?case by simp
next
  case (Cons p pc)
  obtain t ss where p: "p = (t, ss)" by (cases p)
  have "t \<notin> set (dict_keys acc)" using Cons.prems p by (simp add: dict_keys_def)
  then have new: "dict_set t ss acc = acc @ [(t, ss)]"
    by (induction acc) (auto simp: dict_keys_def)
  show ?case
    using Cons.IH [of "acc @ [(t, ss)]"] Cons.prems p
    by (simp add: read_step_pair read_topic_doc new dict_keys_def)
qed

text \<open>The counts document round-trips: what the writer produces for a dictionary of stamps is
  read back as that dictionary.\<close>

theorem publisher_counts_roundtrip:
  assumes "distinct (dict_keys pc)"
  shows "read_publisher_counts (JDoc (publisher_counts_doc pc)) = Inr pc"
  using assms fold_topics_doc [of "[]" pc]
  by (simp add: read_publisher_counts_def read_json_def publisher_counts_doc_def get_or_def
      dict_keys_def)

theorem publisher_counts_roundtrip_witness:
  "read_publisher_counts (JDoc (publisher_counts_doc [(''/lidar'', [10, 20]), (''/x'', [])])) =
     Inr [(''/lidar'', [10, 20]), (''/x'', [])]"
  by (rule publisher_counts_roundtrip) (simp add: dict_keys_def)

section \<open>What is refused\<close>

lemma read_topic_Inr:
  assumes "read_topic entry = Inr ss"
  shows "\<exists>d c vs. entry = PDict d \<and> map_of d ''count'' = Some c \<and> py_int c = Inr (int (length ss)) \<and>
    (\<exists>l. map_of d ''sim_stamps_ns'' = Some l \<and> py_iter l = Inr vs) \<and> mapE py_int vs = Inr ss"
  using assms
  by (cases entry)
    (auto simp: read_topic_def py_splits catchE_def getitem_def
      split: if_split_asm sum.splits option.splits)

lemma read_topics_Inr:
  assumes "foldE read_step acc ts = Inr pc"
    and "distinct (map fst ts)"
  shows "\<forall>t. map_of pc t = (case map_of ts t of
      Some e \<Rightarrow> result_opt (read_topic e) | None \<Rightarrow> map_of acc t)"
    and "\<forall>(t, e) \<in> set ts. \<exists>ss. read_topic e = Inr ss"
  using assms
proof (induction ts arbitrary: acc)
  case Nil
  { case 1 then show ?case by simp next case 2 then show ?case by simp }
next
  case (Cons p ts)
  obtain t e where p: "p = (t, e)" by (cases p)
  { case 1
    then obtain ss where ss: "read_topic e = Inr ss"
      and rest: "foldE read_step
        (dict_set t ss acc) ts = Inr pc"
      using p by (auto simp: read_step_pair py_splits)
    have nt: "map_of ts t = None" using 1 p by (simp add: map_of_eq_None_iff)
    have d: "distinct (map fst ts)" using 1 by simp
    show ?case
    proof
      fix u
      show "map_of pc u = (case map_of (p # ts) u of
          Some e \<Rightarrow> result_opt (read_topic e) | None \<Rightarrow> map_of acc u)"
        using Cons.IH(1) [OF rest d, rule_format, of u] p ss nt by (auto split: option.splits)
    qed
  next
    case 2
    then obtain ss where ss: "read_topic e = Inr ss"
      and rest: "foldE read_step
        (dict_set t ss acc) ts = Inr pc"
      using p by (auto simp: read_step_pair py_splits)
    have d: "distinct (map fst ts)" using 2 by simp
    show ?case using Cons.IH(2) [OF rest d] p ss by auto
  }
qed

lemma read_publisher_counts_Inr:
  assumes "read_publisher_counts f = Inr pc"
  shows "\<exists>d ts. f = JDoc (PDict d) \<and> map_of d ''schema'' = Some (PStr PUBLISHER_COUNTS_SCHEMA) \<and>
    map_of d ''topics'' = Some (PDict ts) \<and>
    foldE read_step [] ts = Inr pc"
  using assms
  by (auto simp: read_publisher_counts_def read_json_def py_splits get_or_def
      split: jfile.splits if_split_asm option.splits pyval.splits)

text \<open>A parsed JSON object has each key once.\<close>

definition topics_distinct :: "pyval \<Rightarrow> bool" where
  "topics_distinct v =
     (case v of
        PDict d \<Rightarrow> (case map_of d ''topics'' of Some (PDict ts) \<Rightarrow> distinct (map fst ts) | _ \<Rightarrow> True)
      | _ \<Rightarrow> True)"

text \<open>A file is accepted only when it vouches for itself: it carries the version-2 tag (so the
  version-1 \<open>{topic: count}\<close> file, which has none, is refused), and every topic's declared count
  equals the number of its stamps; the accepted stamps are those of the file.\<close>

theorem read_publisher_counts_sound:
  assumes "read_publisher_counts (JDoc v) = Inr pc"
    and "topics_distinct v"
  shows "\<exists>d ts. v = PDict d \<and> map_of d ''schema'' = Some (PStr PUBLISHER_COUNTS_SCHEMA) \<and>
    map_of d ''topics'' = Some (PDict ts) \<and>
    (\<forall>t. t \<in> fst ` set ts \<longleftrightarrow> (\<exists>ss. pc_stamps pc t = Inr ss)) \<and>
    (\<forall>t e. map_of ts t = Some e \<longrightarrow>
       (\<exists>n c. whole_run_count pc t = Inr n \<and> getitem e ''count'' = Inr c \<and> py_int c = Inr (int n)))"
proof -
  from read_publisher_counts_Inr [OF assms(1)] obtain d ts where
    v: "v = PDict d" "map_of d ''schema'' = Some (PStr PUBLISHER_COUNTS_SCHEMA)"
      "map_of d ''topics'' = Some (PDict ts)"
    and f: "foldE read_step [] ts = Inr pc"
    by auto
  from assms(2) v have "distinct (map fst ts)" by (simp add: topics_distinct_def)
  note r = read_topics_Inr [OF f this]
  have one: "\<exists>ss. map_of pc t = Some ss \<and> read_topic e = Inr ss" if "map_of ts t = Some e" for t e
  proof -
    from that have "(t, e) \<in> set ts" by (rule map_of_SomeD)
    with r(2) obtain ss where "read_topic e = Inr ss" by auto
    with r(1) that show ?thesis by auto
  qed
  have "t \<in> fst ` set ts \<longleftrightarrow> (\<exists>ss. pc_stamps pc t = Inr ss)" for t
  proof (cases "map_of ts t")
    case None
    then have "map_of pc t = None" using r(1) by simp
    then have "\<not> (\<exists>ss. pc_stamps pc t = Inr ss)" by (simp add: pc_stamps_def)
    with None show ?thesis by (auto simp: pc_stamps_def map_of_eq_None_iff)
  next
    case (Some e)
    then have "t \<in> fst ` set ts" by (metis map_of_eq_None_iff option.distinct(1))
    with one [OF Some] show ?thesis by (auto simp: pc_stamps_def)
  qed
  moreover have "\<exists>n c. whole_run_count pc t = Inr n \<and> getitem e ''count'' = Inr c \<and>
      py_int c = Inr (int n)" if te: "map_of ts t = Some e" for t e
  proof -
    from one [OF te] obtain ss where "map_of pc t = Some ss" "read_topic e = Inr ss" by blast
    then show ?thesis
      using read_topic_Inr [of e ss] by (auto simp: whole_run_count_def pc_stamps_def getitem_def)
  qed
  ultimately show ?thesis using v by blast
qed

theorem read_publisher_counts_sound_witness:
  "\<exists>n c. whole_run_count [(''/lidar'', [10, 20])] ''/lidar'' = Inr n \<and>
     getitem (PDict [(''count'', PInt 2), (''sim_stamps_ns'', PList [PInt 10, PInt 20])]) ''count'' = Inr c \<and>
     py_int c = Inr (int n)"
proof -
  have r: "read_publisher_counts (JDoc (publisher_counts_doc [(''/lidar'', [10, 20])])) =
      Inr [(''/lidar'', [10, 20])]"
    by code_simp
  have "topics_distinct (publisher_counts_doc [(''/lidar'', [10, 20])])" by code_simp
  from read_publisher_counts_sound [OF r this] obtain ts where
    ts: "map_of (case publisher_counts_doc [(''/lidar'', [10, 20])] of PDict d \<Rightarrow> d | _ \<Rightarrow> []) ''topics'' =
      Some (PDict ts)"
    and one: "\<forall>t e. map_of ts t = Some e \<longrightarrow>
       (\<exists>n c. whole_run_count [(''/lidar'', [10, 20])] t = Inr n \<and> getitem e ''count'' = Inr c \<and>
         py_int c = Inr (int n))"
    by auto
  from ts have "map_of ts ''/lidar'' =
      Some (PDict [(''count'', PInt 2), (''sim_stamps_ns'', PList [PInt 10, PInt 20])])"
    by (auto simp: publisher_counts_doc_def)
  with one show ?thesis by blast
qed

section \<open>Windowed counts\<close>

lemma length_filter_split:
  assumes "\<And>x. P x \<longleftrightarrow> Q x \<or> R x" "\<And>x. \<not> (Q x \<and> R x)"
  shows "length (filter P xs) = length (filter Q xs) + length (filter R xs)"
  using assms by (induction xs) auto

text \<open>Window counts partition the run: a closed window splits at any instant into two windows
  that share no message, and no window holds more messages than the run.\<close>

theorem count_in_window_additive:
  assumes "lo \<le> mid" "mid < hi" "pc_stamps pc t = Inr ss"
  shows "\<exists>n a b w. count_in_window pc t lo hi = Inr n \<and> count_in_window pc t lo mid = Inr a \<and>
    count_in_window pc t (mid + 1) hi = Inr b \<and> n = a + b \<and>
    whole_run_count pc t = Inr w \<and> n \<le> w"
proof -
  have "length (filter (\<lambda>s. lo \<le> s \<and> s \<le> hi) ss) =
      length (filter (\<lambda>s. lo \<le> s \<and> s \<le> mid) ss) + length (filter (\<lambda>s. mid + 1 \<le> s \<and> s \<le> hi) ss)"
    using assms(1,2) by (intro length_filter_split) auto
  moreover have "length (filter (\<lambda>s. lo \<le> s \<and> s \<le> hi) ss) \<le> length ss"
    by (rule length_filter_le)
  ultimately show ?thesis using assms(3) by (simp add: count_in_window_def whole_run_count_def)
qed

theorem count_in_window_additive_witness:
  "\<exists>n a b w. count_in_window [(''/l'', [1, 5, 9])] ''/l'' 1 9 = Inr n \<and>
    count_in_window [(''/l'', [1, 5, 9])] ''/l'' 1 5 = Inr a \<and>
    count_in_window [(''/l'', [1, 5, 9])] ''/l'' (5 + 1) 9 = Inr b \<and> n = a + b \<and>
    whole_run_count [(''/l'', [1, 5, 9])] ''/l'' = Inr w \<and> n \<le> w"
  by (rule count_in_window_additive [of _ _ _ _ _ "[1, 5, 9]"]) (simp_all add: pc_stamps_def)

end
