(* ===== verification/Clock_Watchdog.thy ===== *)
theory Clock_Watchdog
  imports Py_Values
begin

text \<open>
  \<^verbatim>\<open>benchmarks/scripts/clock_watchdog.py\<close>: the file-polling stall watchdog. Each pass of the loop
  observes one \<open>poll\<close>: whether the caller asked it to stop, the clock.csv on disk, and the time;
  the watchdog is the function of the sequence of polls it makes (\<open>watch_loop\<close>), \<open>None\<close> while it
  is still polling at the end of the sequence. \<open>sleep\<close> is injected, as in the code.

  The lemmas: the loop implements the step relation \<open>watches\<close>; a stall is reported exactly at the
  first poll that shows one, unless a stop came first; a clock that keeps arriving is never
  reported, and a clock that stays frozen is.
\<close>

definition EXIT_STALLED :: int where "EXIT_STALLED = 3"

definition EXIT_TERMINATED :: int where "EXIT_TERMINATED = 0"

definition ARRIVAL_COLUMN :: string where "ARRIVAL_COLUMN = ''arrival_system_ns''"

text \<open>\<open>int(row[ARRIVAL_COLUMN])\<close> under \<open>except (KeyError, TypeError, ValueError)\<close>: an \<open>int\<close> of a
  text or of a missing cell raises no other exception.\<close>

definition row_arrival :: "csv_row \<Rightarrow> int option" where
  "row_arrival row = result_opt (bindE (cell_value row ARRIVAL_COLUMN) py_int)"

primrec first_some :: "('a \<Rightarrow> 'b option) \<Rightarrow> 'a list \<Rightarrow> 'b option" where
  "first_some f [] = None"
| "first_some f (x # xs) = (case f x of Some y \<Rightarrow> Some y | None \<Rightarrow> first_some f xs)"

definition newest_arrival_ns :: "csv_file \<Rightarrow> int option" where
  "newest_arrival_ns f =
     (case f of CAbsent \<Rightarrow> None | CRows rows \<Rightarrow> first_some row_arrival (rev rows))"

lemma row_arrival_exceptions:
  "bindE (cell_value row ARRIVAL_COLUMN) py_int = Inl e \<Longrightarrow> exc_of e \<in> {KeyError, TypeError, ValueError}"
  by (auto simp: cell_value_def py_int_def py_splits split: option.splits)

text \<open>The stall rule: a grace period, then no rows at all, then the age of the newest arrival. The
  first comparison is of an int with a float, exact; the age is a float division.\<close>

definition age_s :: "int \<Rightarrow> int \<Rightarrow> f64 res" where
  "age_s newest now = bindE (float_of_int (now - newest)) (\<lambda>a. float_div a (Fin 1000000000))"

definition stall_reason ::
  "int option \<Rightarrow> int \<Rightarrow> int \<Rightarrow> f64 \<Rightarrow> f64 \<Rightarrow> string option res" where
  "stall_reason newest_ns now_ns started_ns stall_s grace_s =
     (if Fin (of_int (now_ns - started_ns)) < grace_s * Fin 1000000000 then Ret None
      else case newest_ns of
        None \<Rightarrow> Ret (Some (''no /clock rows at all after '' @ fmt_fixed 0 grace_s @ '' s grace''))
      | Some newest \<Rightarrow>
          bindE (age_s newest now_ns) (\<lambda>age.
            if stall_s < age
            then Ret (Some (''newest /clock arrival is '' @ fmt_fixed 1 age @ '' s old (limit '' @
                            fmt_fixed 1 stall_s @ '' s)''))
            else Ret None))"

record poll =
  p_stop :: bool
  p_csv :: csv_file
  p_now :: int

record watch_cfg =
  w_stall_s :: f64
  w_grace_s :: f64
  w_poll_s :: f64
  w_max_polls :: "nat option"
  w_started :: int
  w_sleep :: "f64 \<Rightarrow> unit res"

text \<open>\<open>sleep(poll_s)\<close> of the injected \<open>sleep\<close>: always the same argument, and it may raise.\<close>

definition nap :: "watch_cfg \<Rightarrow> unit res" where
  "nap cfg = w_sleep cfg (w_poll_s cfg)"

definition poll_reason :: "watch_cfg \<Rightarrow> poll \<Rightarrow> string option res" where
  "poll_reason cfg p =
     stall_reason (newest_arrival_ns (p_csv p)) (p_now p) (w_started cfg) (w_stall_s cfg) (w_grace_s cfg)"

definition polls_done :: "watch_cfg \<Rightarrow> nat \<Rightarrow> bool" where
  "polls_done cfg k = (case w_max_polls cfg of None \<Rightarrow> False | Some m \<Rightarrow> m \<le> k)"

text \<open>The exit code and the marker file's text, when the loop returns.\<close>

fun watch_loop :: "watch_cfg \<Rightarrow> nat \<Rightarrow> poll list \<Rightarrow> (int \<times> string option) option res" where
  "watch_loop cfg k [] = Ret None"
| "watch_loop cfg k (p # ps) =
     (if p_stop p then Ret (Some (EXIT_TERMINATED, None))
      else bindE (poll_reason cfg p) (\<lambda>r. case r of
          Some detail \<Rightarrow> Ret (Some (EXIT_STALLED, Some (detail @ [CHR 0x0A])))
        | None \<Rightarrow>
            if polls_done cfg (Suc k) then Ret (Some (EXIT_TERMINATED, None))
            else bindE (nap cfg) (\<lambda>_. watch_loop cfg (Suc k) ps)))"

definition watch :: "watch_cfg \<Rightarrow> poll list \<Rightarrow> (int \<times> string option) option res" where
  "watch cfg ps = watch_loop cfg 0 ps"

section \<open>The loop as a step relation\<close>

inductive watches :: "watch_cfg \<Rightarrow> nat \<Rightarrow> poll list \<Rightarrow> int \<times> string option \<Rightarrow> bool"
  for cfg :: watch_cfg where
  stopped: "p_stop p \<Longrightarrow> watches cfg k (p # ps) (EXIT_TERMINATED, None)"
| stalled: "\<not> p_stop p \<Longrightarrow> poll_reason cfg p = Inr (Some detail) \<Longrightarrow>
    watches cfg k (p # ps) (EXIT_STALLED, Some (detail @ [CHR 0x0A]))"
| capped: "\<not> p_stop p \<Longrightarrow> poll_reason cfg p = Inr None \<Longrightarrow> polls_done cfg (Suc k) \<Longrightarrow>
    watches cfg k (p # ps) (EXIT_TERMINATED, None)"
| slept: "\<not> p_stop p \<Longrightarrow> poll_reason cfg p = Inr None \<Longrightarrow> \<not> polls_done cfg (Suc k) \<Longrightarrow>
    nap cfg = Inr () \<Longrightarrow> watches cfg (Suc k) ps out \<Longrightarrow> watches cfg k (p # ps) out"

inductive_cases watches_NilE [elim!]: "watches cfg k [] out"
inductive_cases watches_ConsE: "watches cfg k (p # ps) out"

lemma watches_imp_loop: "watches cfg k ps out \<Longrightarrow> watch_loop cfg k ps = Inr (Some out)"
  by (induction rule: watches.induct) simp_all

lemma loop_imp_watches: "watch_loop cfg k ps = Inr (Some out) \<Longrightarrow> watches cfg k ps out"
proof (induction ps arbitrary: k)
  case Nil
  then show ?case by simp
next
  case (Cons p ps)
  show ?case
  proof (cases "p_stop p")
    case True
    with Cons.prems show ?thesis by (auto intro: watches.stopped)
  next
    case False
    with Cons.prems obtain r where r: "poll_reason cfg p = Inr r" by (auto simp: py_splits)
    with Cons False show ?thesis
      by (cases r) (auto intro: watches.intros simp: py_splits split: if_split_asm)
  qed
qed

lemma watch_iff_watches: "watch_loop cfg k ps = Inr (Some out) \<longleftrightarrow> watches cfg k ps out"
  using watches_imp_loop loop_imp_watches by blast

lemma watches_stalled_prefix:
  "watches cfg k ps out \<Longrightarrow> fst out = EXIT_STALLED \<Longrightarrow>
   \<exists>pre p post detail. ps = pre @ p # post \<and> (pre = [] \<or> nap cfg = Inr ()) \<and> (\<forall>q \<in> set pre. \<not> p_stop q \<and> poll_reason cfg q = Inr None) \<and>
     \<not> p_stop p \<and> poll_reason cfg p = Inr (Some detail) \<and> snd out = Some (detail @ [CHR 0x0A])"
proof (induction rule: watches.induct)
  case (stopped p k ps)
  then show ?case by (simp add: EXIT_STALLED_def EXIT_TERMINATED_def)
next
  case (stalled p detail k ps)
  then have "p # ps = [] @ p # ps \<and> ([] = [] \<or> nap cfg = Inr ()) \<and> (\<forall>q \<in> set []. \<not> p_stop q \<and> poll_reason cfg q = Inr None) \<and>
    \<not> p_stop p \<and> poll_reason cfg p = Inr (Some detail) \<and>
    snd (EXIT_STALLED, Some (detail @ [CHR 0x0A])) = Some (detail @ [CHR 0x0A])" by simp
  then show ?case by blast
next
  case (capped p k ps)
  then show ?case by (simp add: EXIT_STALLED_def EXIT_TERMINATED_def)
next
  case (slept p k ps out)
  then obtain pre q post detail where "ps = pre @ q # post"
    "\<forall>q \<in> set pre. \<not> p_stop q \<and> poll_reason cfg q = Inr None"
    "\<not> p_stop q" "poll_reason cfg q = Inr (Some detail)" "snd out = Some (detail @ [CHR 0x0A])"
    by blast
  with slept.hyps show ?case
    by (intro exI [of _ "p # pre"] exI [of _ q] exI [of _ post] exI [of _ detail]) simp
qed

lemma quiet_prefix_watches:
  assumes "\<forall>q \<in> set pre. \<not> p_stop q \<and> poll_reason cfg q = Inr None"
    and "pre = [] \<or> nap cfg = Inr ()"
    and "\<And>j. j \<le> k + length pre \<Longrightarrow> \<not> polls_done cfg j"
    and "watches cfg (k + length pre) ps out"
  shows "watches cfg k (pre @ ps) out"
  using assms
proof (induction pre arbitrary: k)
  case Nil
  then show ?case by simp
next
  case (Cons q pre)
  have "watches cfg (Suc k) (pre @ ps) out" using Cons.prems by (intro Cons.IH) auto
  then show ?case using Cons.prems by (auto intro!: watches.slept)
qed

text \<open>C37: The watchdog exits as stalled exactly when some poll shows a stall, every earlier poll
  showed a live clock and was slept after, and no stop request or poll limit came first; the marker
  then holds the reason of that poll and nothing else is ever written.\<close>

theorem watch_reports_first_stall:
  assumes "w_max_polls cfg = None"
  shows "watch cfg ps = Inr (Some (EXIT_STALLED, m)) \<longleftrightarrow>
    (\<exists>pre p post detail. ps = pre @ p # post \<and> (pre = [] \<or> nap cfg = Inr ()) \<and>
       (\<forall>q \<in> set pre. \<not> p_stop q \<and> poll_reason cfg q = Inr None) \<and>
       \<not> p_stop p \<and> poll_reason cfg p = Inr (Some detail) \<and> m = Some (detail @ [CHR 0x0A]))"
    (is "?l \<longleftrightarrow> ?r")
proof
  assume ?l
  then have "watches cfg 0 ps (EXIT_STALLED, m)" by (simp add: watch_def watch_iff_watches)
  from watches_stalled_prefix [OF this] show ?r by auto
next
  assume ?r
  then obtain pre p post detail where *: "ps = pre @ p # post" "pre = [] \<or> nap cfg = Inr ()"
    "\<forall>q \<in> set pre. \<not> p_stop q \<and> poll_reason cfg q = Inr None"
    "\<not> p_stop p" "poll_reason cfg p = Inr (Some detail)" "m = Some (detail @ [CHR 0x0A])" by blast
  have "watches cfg 0 (pre @ p # post) (EXIT_STALLED, m)"
    using * assms by (intro quiet_prefix_watches) (auto simp: polls_done_def intro: watches.intros)
  with * show ?l by (simp add: watch_def watch_iff_watches)
qed

section \<open>Live and frozen clocks\<close>

lemma age_s_small: "\<bar>now - n\<bar> \<le> 2 ^ 53 \<Longrightarrow> age_s n now = Inr (Fin (rnd_rat (of_int (now - n) / 1000000000)))"
proof -
  assume a: "\<bar>now - n\<bar> \<le> 2 ^ 53"
  have "\<bar>rat_of_int (now - n)\<bar> \<le> 2 ^ 53"
    using a by (metis of_int_abs of_int_le_iff of_int_numeral of_int_power)
  then have "\<bar>rat_of_int (now - n) / 1000000000\<bar> \<le> 2 ^ 53" by (simp add: abs_divide)
  then show ?thesis
    by (simp only: age_s_def float_of_int_def rnd_int [OF a] f64.case bindE_simps float_div_def
        divide_f64.simps rnd_small f64.inject) simp
qed

lemma live_poll_quiet:
  assumes "newest_arrival_ns (p_csv p) = Some n" "\<bar>p_now p - n\<bar> \<le> 2 ^ 53"
    "w_stall_s cfg = Fin s" "rnd_rat s = s" "of_int (p_now p - n) \<le> s * 1000000000"
  shows "poll_reason cfg p = Inr None"
proof -
  have "rnd_rat (of_int (p_now p - n) / 1000000000) \<le> rnd_rat s"
    using assms(5) by (intro rnd_rat_mono) (simp add: field_simps)
  then have "\<not> w_stall_s cfg < Fin (rnd_rat (of_int (p_now p - n) / 1000000000))"
    using assms(3,4) by simp
  then show ?thesis
    by (simp add: poll_reason_def stall_reason_def assms(1) age_s_small [OF assms(2)])
qed

text \<open>No false alarm: while every poll finds an arrival no older than the limit, the watchdog
  never reports a stall (over ages of up to 104 days, where the age is an exact float).\<close>

theorem watch_live_clock:
  assumes "\<forall>p \<in> set ps. \<exists>n. newest_arrival_ns (p_csv p) = Some n \<and> \<bar>p_now p - n\<bar> \<le> 2 ^ 53 \<and>
      of_int (p_now p - n) \<le> s * 1000000000"
    and "w_stall_s cfg = Fin s" "rnd_rat s = s"
  shows "watch cfg ps \<noteq> Inr (Some (EXIT_STALLED, m))"
proof
  assume "watch cfg ps = Inr (Some (EXIT_STALLED, m))"
  then have "watches cfg 0 ps (EXIT_STALLED, m)" by (simp add: watch_def watch_iff_watches)
  from watches_stalled_prefix [OF this] obtain pre p post detail where
    "ps = pre @ p # post" and d: "poll_reason cfg p = Inr (Some detail)" by auto
  then have "p \<in> set ps" by simp
  with assms(1) obtain n where "newest_arrival_ns (p_csv p) = Some n" "\<bar>p_now p - n\<bar> \<le> 2 ^ 53"
    "of_int (p_now p - n) \<le> s * 1000000000" by blast
  from live_poll_quiet [OF this(1,2) assms(2,3) this(3)] d show False by simp
qed

lemma frozen_poll_stalls:
  assumes "newest_arrival_ns (p_csv p) = Some n" "\<bar>p_now p - n\<bar> \<le> 2 ^ 53"
    "w_stall_s cfg = Fin s" "s < of_int k" "0 \<le> k" "k * 1000000000 \<le> p_now p - n"
    "\<not> Fin (of_int (p_now p - w_started cfg)) < w_grace_s cfg * Fin 1000000000"
  shows "\<exists>detail. poll_reason cfg p = Inr (Some detail)"
proof -
  have k: "\<bar>k\<bar> \<le> 2 ^ 53" using assms(2,5,6) by linarith
  have "rnd_rat (of_int k) \<le> rnd_rat (of_int (p_now p - n) / 1000000000)"
  proof (rule rnd_rat_mono)
    have "rat_of_int (k * 1000000000) \<le> of_int (p_now p - n)"
      using assms(6) by (simp only: of_int_le_iff)
    then show "rat_of_int k \<le> of_int (p_now p - n) / 1000000000" by (simp add: pos_le_divide_eq)
  qed
  with rnd_rat_int [OF k] assms(4) have "s < rnd_rat (of_int (p_now p - n) / 1000000000)" by linarith
  then show ?thesis
    by (simp add: poll_reason_def stall_reason_def assms(1,3,7) age_s_small [OF assms(2)] del: of_int_diff)
qed

lemma poll_reason_total:
  assumes "\<And>n. newest_arrival_ns (p_csv p) = Some n \<Longrightarrow> \<bar>p_now p - n\<bar> \<le> 2 ^ 53"
  shows "\<exists>r. poll_reason cfg p = Inr r"
  using assms
  by (cases "newest_arrival_ns (p_csv p)")
    (auto simp: poll_reason_def stall_reason_def age_s_small)

lemma unstopped_stall_returns:
  assumes "\<forall>q \<in> set ps. \<not> p_stop q \<and> (\<exists>r. poll_reason cfg q = Inr r)" "w_max_polls cfg = None" "nap cfg = Inr ()"
    "p \<in> set ps" "poll_reason cfg p = Inr (Some detail)"
  shows "\<exists>m. watch_loop cfg k ps = Inr (Some (EXIT_STALLED, m))"
  using assms(1,4)
proof (induction ps arbitrary: k)
  case Nil
  then show ?case by simp
next
  case (Cons q ps)
  then obtain r where r: "poll_reason cfg q = Inr r" and q: "\<not> p_stop q" by auto
  show ?case
  proof (cases r)
    case (Some d)
    with r q show ?thesis by simp
  next
    case None
    with r assms(5) Cons.prems(2) have "p \<in> set ps" by auto
    with Cons.IH [of "Suc k"] Cons.prems(1) show ?thesis
      using r q None assms(2,3) by (simp add: polls_done_def)
  qed
qed

text \<open>A frozen clock is reported: if no one stops the watchdog and some poll past the grace
  period finds the newest arrival older than the limit rounded up to a whole second (or finds no
  arrival at all), the loop has returned as stalled by that poll.\<close>

theorem watch_frozen_clock:
  assumes "\<forall>q \<in> set ps. \<not> p_stop q \<and> (\<forall>n. newest_arrival_ns (p_csv q) = Some n \<longrightarrow> \<bar>p_now q - n\<bar> \<le> 2 ^ 53)"
    and "w_max_polls cfg = None" "nap cfg = Inr ()" "w_stall_s cfg = Fin s" "s < of_int k" "0 \<le> k"
    and "p \<in> set ps" "\<forall>n. newest_arrival_ns (p_csv p) = Some n \<longrightarrow> k * 1000000000 \<le> p_now p - n"
    and "\<not> Fin (of_int (p_now p - w_started cfg)) < w_grace_s cfg * Fin 1000000000"
  shows "\<exists>m. watch cfg ps = Inr (Some (EXIT_STALLED, m))"
proof -
  have "\<exists>detail. poll_reason cfg p = Inr (Some detail)"
  proof (cases "newest_arrival_ns (p_csv p)")
    case None
    with assms(9) show ?thesis by (simp add: poll_reason_def stall_reason_def)
  next
    case (Some n)
    with assms(1,7,8) frozen_poll_stalls [OF Some _ assms(4) assms(5) assms(6) _ assms(9)]
    show ?thesis by blast
  qed
  then obtain detail where d: "poll_reason cfg p = Inr (Some detail)" ..
  have "\<forall>q \<in> set ps. \<not> p_stop q \<and> (\<exists>r. poll_reason cfg q = Inr r)"
    using assms(1) poll_reason_total by blast
  from unstopped_stall_returns [OF this assms(2,3,7) d, of 0] show ?thesis
    by (simp add: watch_def)
qed

text \<open>Witnesses: a 5 s limit, a 1 s grace, one arrival at the start.\<close>

definition sample_cfg :: watch_cfg where
  "sample_cfg = \<lparr>w_stall_s = Fin 5, w_grace_s = Fin 1, w_poll_s = Fin 1, w_max_polls = None, w_started = 0,
     w_sleep = (\<lambda>_. Inr ())\<rparr>"

definition sample_poll :: "int \<Rightarrow> poll" where
  "sample_poll now =
     \<lparr>p_stop = False, p_csv = CRows [[(ARRIVAL_COLUMN, Some ''7'')], [(ARRIVAL_COLUMN, Some '''')]],
      p_now = now\<rparr>"

lemma sample_newest: "newest_arrival_ns (p_csv (sample_poll now)) = Some 7"
proof -
  have "newest_arrival_ns (p_csv (sample_poll 0)) = Some 7" by code_simp
  then show ?thesis by (simp add: sample_poll_def)
qed

theorem watch_reports_first_stall_witness:
  "watch sample_cfg [sample_poll 4000000007, sample_poll 9000000007] =
     Inr (Some (EXIT_STALLED, Some (''newest /clock arrival is 9.0 s old (limit 5.0 s)'' @ [CHR 0x0A])))"
proof -
  have q: "poll_reason sample_cfg (sample_poll 4000000007) = Inr None" by code_simp
  have s: "poll_reason sample_cfg (sample_poll 9000000007) =
      Inr (Some ''newest /clock arrival is 9.0 s old (limit 5.0 s)'')" by code_simp
  have m: "w_max_polls sample_cfg = None" by (simp add: sample_cfg_def)
  have n: "\<not> p_stop (sample_poll now)" for now by (simp add: sample_poll_def)
  show ?thesis
    unfolding watch_reports_first_stall [OF m]
    by (rule exI [of _ "[sample_poll 4000000007]"], rule exI [of _ "sample_poll 9000000007"],
        rule exI [of _ "[]"]) (use q s n in \<open>auto simp: nap_def sample_cfg_def\<close>)
qed

theorem watch_live_clock_witness:
  "\<forall>m. watch sample_cfg [sample_poll 4000000007, sample_poll 5000000007] \<noteq> Inr (Some (EXIT_STALLED, m))"
proof (intro allI, rule watch_live_clock [where s = 5])
  show "rnd_rat 5 = 5" using rnd_rat_int [of 5] by simp
qed (simp_all add: sample_newest sample_cfg_def, simp_all add: sample_poll_def)

theorem watch_frozen_clock_witness:
  "\<exists>m. watch sample_cfg [sample_poll 4000000007, sample_poll 9000000007] = Inr (Some (EXIT_STALLED, m))"
proof (rule watch_frozen_clock [where s = 5 and k = 6 and p = "sample_poll 9000000007"])
  show "\<not> Fin (of_int (p_now (sample_poll 9000000007) - w_started sample_cfg)) <
      w_grace_s sample_cfg * Fin 1000000000"
    by code_simp
qed (simp_all add: sample_newest sample_cfg_def nap_def, simp_all add: sample_poll_def)

end
