(* ===== verification/Watchdog_Cli.thy ===== *)
theory Watchdog_Cli
  imports Clock_Watchdog Runner_Args
begin

text \<open>
  \<^verbatim>\<open>benchmarks/scripts/clock_watchdog.py\<close>, the process around \<open>Clock_Watchdog.watch\<close>: its options, the real
  \<open>time.sleep\<close> and the exit status. \<open>polls csv\<close> is what the passes of the loop observe when it reads the file
  \<open>csv\<close>; \<open>p_stop\<close> of a poll is the flag the signal handlers raise.

  The lemmas: when the process returns, its exit status tells whether the marker was written and whether the command
  line was refused; a poll period \<open>time.sleep\<close> refuses passes the command line and ends the watchdog with a
  traceback after the first healthy poll.
\<close>

definition watchdog_parser :: "opt_spec list" where
  "watchdog_parser =
     [opt ''--clock-csv'' ''clock_csv'' StrOpt PNone, opt ''--marker'' ''marker'' StrOpt PNone,
      opt ''--stall-s'' ''stall_s'' FloatOpt (PFloat (Fin 5)), opt ''--grace-s'' ''grace_s'' FloatOpt (PFloat (Fin 30)),
      opt ''--poll-s'' ''poll_s'' FloatOpt (PFloat (Fin 1))]"

text \<open>\<open>time.sleep\<close>: the period is converted to nanoseconds in 64 bits, then must not be negative.\<close>

definition time_sleep :: "f64 \<Rightarrow> unit res" where
  "time_sleep secs =
     (if secs = NaN then Raise ValueError ''Invalid value NaN (not a number)''
      else case secs * Fin 1000000000 of
        Fin ns \<Rightarrow>
          if ns < - (2 ^ 63) \<or> 2 ^ 63 \<le> ns then Raise OverflowError ''timestamp too large''
          else if ns < 0 then Raise ValueError ''sleep length must be non-negative''
          else Ret ()
      | _ \<Rightarrow> Raise OverflowError ''timestamp too large'')"

text \<open>The exit status, and the marker's path and text when it was written.\<close>

record watchdog_run =
  wr_status :: int
  wr_marker :: "(string \<times> string) option"

definition watch_cfg_of :: "namespace \<Rightarrow> int \<Rightarrow> watch_cfg" where
  "watch_cfg_of ns started =
     (let num = (\<lambda>d. case as_float (map_of ns d) of None \<Rightarrow> NaN | Some x \<Rightarrow> x)
      in \<lparr>w_stall_s = num ''stall_s'', w_grace_s = num ''grace_s'', w_poll_s = num ''poll_s'', w_max_polls = None,
          w_started = started, w_sleep = time_sleep\<rparr>)"

definition watchdog_exit :: "string \<Rightarrow> int \<times> string option \<Rightarrow> watchdog_run" where
  "watchdog_exit marker out = \<lparr>wr_status = fst out, wr_marker = map_option (\<lambda>t. (marker, t)) (snd out)\<rparr>"

definition watchdog_main :: "string list \<Rightarrow> int \<Rightarrow> (string \<Rightarrow> poll list) \<Rightarrow> watchdog_run option res" where
  "watchdog_main argv started polls =
     (case parse_args watchdog_parser argv of
        Inl n \<Rightarrow> Ret (Some \<lparr>wr_status = n, wr_marker = None\<rparr>)
      | Inr ns \<Rightarrow>
          (case (as_str (map_of ns ''clock_csv''), as_str (map_of ns ''marker'')) of
             (Some csv, Some marker) \<Rightarrow>
               bindE (watch (watch_cfg_of ns started) (polls csv)) (\<lambda>out.
                 Ret (map_option (watchdog_exit marker) out))
           | _ \<Rightarrow> Ret (Some \<lparr>wr_status = 2, wr_marker = None\<rparr>)))"

lemma watches_exit:
  "watches cfg k ps out \<Longrightarrow> (fst out = 0 \<and> snd out = None) \<or> (fst out = 3 \<and> snd out \<noteq> None)"
  by (induction rule: watches.induct) (simp_all add: EXIT_STALLED_def EXIT_TERMINATED_def)

text \<open>The exit status says what happened: 3 exactly when the marker was written, and then it is the file the command
  line names; 2 only for a command line that was refused, which polls nothing.\<close>

theorem watchdog_exit_status:
  assumes "watchdog_main argv started polls = Inr (Some r)"
  shows "wr_status r \<in> {0, 2, 3} \<and> (wr_status r = 3 \<longleftrightarrow> wr_marker r \<noteq> None) \<and>
    (\<forall>path txt. wr_marker r = Some (path, txt) \<longrightarrow> (\<exists>ns csv. parse_args watchdog_parser argv = Inr ns \<and>
       map_of ns ''marker'' = Some (PStr path) \<and> map_of ns ''clock_csv'' = Some (PStr csv) \<and>
       watch (watch_cfg_of ns started) (polls csv) = Inr (Some (3, Some txt)))) \<and>
    (wr_status r = 2 \<longrightarrow> (\<forall>polls'. watchdog_main argv started polls' = Inr (Some r)))"
proof (cases "parse_args watchdog_parser argv")
  case (Inl n)
  with assms parse_args_exit [OF Inl] show ?thesis by (auto simp: watchdog_main_def)
next
  case (Inr ns)
  show ?thesis
  proof (cases "\<exists>csv marker. as_str (map_of ns ''clock_csv'') = Some csv \<and> as_str (map_of ns ''marker'') = Some marker")
    case False
    with assms Inr show ?thesis by (auto simp: watchdog_main_def split: option.splits)
  next
    case True
    then obtain csv marker where p: "as_str (map_of ns ''clock_csv'') = Some csv" "as_str (map_of ns ''marker'') = Some marker"
      by blast
    with assms Inr obtain out where w: "watch (watch_cfg_of ns started) (polls csv) = Inr (Some out)"
      and r: "r = watchdog_exit marker out"
      by (auto simp: watchdog_main_def py_splits)
    from w watches_exit have x: "(fst out = 0 \<and> snd out = None) \<or> (fst out = 3 \<and> snd out \<noteq> None)"
      by (simp add: watch_def watch_iff_watches)
    from p have "map_of ns ''marker'' = Some (PStr marker)" "map_of ns ''clock_csv'' = Some (PStr csv)"
      by (auto elim: as_str.elims)
    with x w Inr show ?thesis unfolding r by (cases out) (auto simp: watchdog_exit_def)
  qed
qed

text \<open>A negative poll period passes the command line; the watchdog then dies with ValueError after a first poll that
  shows a live clock, with no marker.\<close>

lemma negative_poll_escapes:
  assumes "parse_args watchdog_parser argv = Inr ns" "map_of ns ''clock_csv'' = Some (PStr csv)"
    and "map_of ns ''marker'' = Some (PStr marker)" "map_of ns ''poll_s'' = Some (PFloat (Fin (- 1)))"
    and "polls csv = p # ps" "\<not> p_stop p" "poll_reason (watch_cfg_of ns started) p = Inr None"
  shows "watchdog_main argv started polls = Raise ValueError ''sleep length must be non-negative''"
proof -
  have "time_sleep (Fin (- 1)) = Raise ValueError ''sleep length must be non-negative''" by code_simp
  with assms(4) have "nap (watch_cfg_of ns started) = Raise ValueError ''sleep length must be non-negative''"
    by (simp add: nap_def watch_cfg_of_def Let_def)
  with assms show ?thesis
    by (simp add: watchdog_main_def watch_def polls_done_def watch_cfg_of_def Let_def)
qed

end
