(* ===== verification/Manifest.thy ===== *)
theory Manifest
  imports Py_Values
begin

text \<open>
  \<^verbatim>\<open>benchmarks/analysis/manifest.py\<close>: the run manifest, its validator, and its file form.
  Python checks no field types when a manifest is loaded from JSON, so every field of the record
  holds a dynamically typed value, and \<open>manifest_validate\<close> is modelled on all of them, the
  exceptions of its membership tests included.

  The lemmas: the validator returns no errors exactly on the manifests \<open>manifest_ok\<close> describes;
  the exclusion vocabulary is closed (no free-form detail after \<^verbatim>\<open>crash:\<close>, \<^verbatim>\<open>gate:\<close>, \<^verbatim>\<open>stall:\<close>,
  \<^verbatim>\<open>warmup:\<close>); what \<open>manifest_save\<close> writes is valid and loads back as the same manifest.
\<close>

definition APPROACHES :: "string list" where
  "APPROACHES = [''extension'', ''python-bridge'', ''tier4-native'', ''calibration'']"

definition ARMS :: "string list" where
  "ARMS = [''static'', ''closed-loop'', ''ablation'', ''unpaced'', ''paced'']"

definition TRANSPORT_KEYS :: "string list" where
  "TRANSPORT_KEYS = [''rmw'', ''shm_enabled'', ''dds_profile_sha256'']"

definition PLACEMENT_KEYS :: "string list" where
  "PLACEMENT_KEYS = [''run_mode'', ''container_image'', ''observer_env'']"

definition UE_APPROACHES :: "string list" where
  "UE_APPROACHES = [''extension'', ''tier4-native'']"

definition EXCLUSION_REASONS :: "string list" where
  "EXCLUSION_REASONS =
     [''crash:cell-launch'', ''crash:observer'', ''gate:arm-failed'', ''gate:control_cmd-silent'',
      ''gate:injector-failed'', ''stall:clock'', ''warmup:nishi'', ''crash:sampler'',
      ''crash:collect_gt'', ''crash:clock_watchdog'', ''stall:unpaced-window-cap'']"

definition EXCLUSION_REASON_PREFIXES :: "string list" where
  "EXCLUSION_REASON_PREFIXES = [''harness:'', ''hostload:'', ''port:'', ''buildid:'']"

text \<open>\<open>reason in EXCLUSION_REASONS or reason.startswith(EXCLUSION_REASON_PREFIXES)\<close>.\<close>

definition known_exclusion_reason :: "pyval \<Rightarrow> bool res" where
  "known_exclusion_reason reason =
     bindE (in_strset reason EXCLUSION_REASONS) (\<lambda>known.
       if known then Ret True
       else case reason of
         PStr s \<Rightarrow> Ret (list_ex (starts_with s) EXCLUSION_REASON_PREFIXES)
       | _ \<Rightarrow> Raise AttributeError ''startswith'')"

text \<open>The ids declared in the parsed cells.yaml.\<close>

definition known_cell_ids :: "pyval \<Rightarrow> string list res" where
  "known_cell_ids doc =
     bindE (getitem doc ''cells'') (\<lambda>cells.
     bindE (py_iter cells) (\<lambda>cs.
     mapE (\<lambda>c. bindE (getitem c ''id'') (\<lambda>i. Ret (py_str i))) cs))"

record run_manifest =
  m_cell :: pyval
  m_approach :: pyval
  m_map_name :: pyval
  m_run_index :: pyval
  m_arm :: pyval
  m_harness_git_sha :: pyval
  m_patches_git_sha :: pyval
  m_transport :: pyval
  m_carla_version :: pyval
  m_autoware_image :: pyval
  m_started_at_ns :: pyval
  m_excluded :: pyval
  m_exclusion_reason :: pyval
  m_placement :: pyval
  m_duel_admissible :: pyval
  m_duel_id :: pyval
  m_class_id :: pyval

section \<open>Validation\<close>

definition repr_strs :: "string list \<Rightarrow> string" where
  "repr_strs ss = ''['' @ join '', '' (map repr_str ss) @ '']''"

definition repr_str_tuple :: "string list \<Rightarrow> string" where
  "repr_str_tuple ss = ''('' @ join '', '' (map repr_str ss) @ '')''"

fun type_name :: "pyval \<Rightarrow> string" where
  "type_name PNone = ''NoneType''"
| "type_name (PBool b) = ''bool''"
| "type_name (PInt n) = ''int''"
| "type_name (PFloat x) = ''float''"
| "type_name (PStr s) = ''str''"
| "type_name (PList xs) = ''list''"
| "type_name (PDict d) = ''dict''"

text \<open>\<open>[k for k in keys if k not in container]\<close>.\<close>

fun missing_keys :: "string list \<Rightarrow> pyval \<Rightarrow> string list res" where
  "missing_keys [] v = Ret []"
| "missing_keys (k # ks) v =
     bindE (str_in k v) (\<lambda>present. bindE (missing_keys ks v) (\<lambda>rest.
       Ret (if present then rest else k # rest)))"

definition exclusion_errors :: "run_manifest \<Rightarrow> string list res" where
  "exclusion_errors m =
     (if \<not> truthy (m_excluded m) then Ret []
      else if \<not> truthy (m_exclusion_reason m) then Ret [''excluded runs require exclusion_reason'']
      else bindE (known_exclusion_reason (m_exclusion_reason m)) (\<lambda>known.
        Ret (if known then []
             else [''exclusion_reason '' @ py_repr (m_exclusion_reason m) @
                   '' does not match any criterion in config/exclusions.md''])))"

definition type_errors :: "run_manifest \<Rightarrow> string list" where
  "type_errors m =
     (if is_bool (m_duel_admissible m) then []
      else [''duel_admissible must be a bool, got '' @ type_name (m_duel_admissible m) @ '' ('' @
            py_repr (m_duel_admissible m) @ '')'']) @
     (if is_str (m_duel_id m) then []
      else [''duel_id must be a str, got '' @ type_name (m_duel_id m) @ '' ('' @
            py_repr (m_duel_id m) @ '')'']) @
     (if is_str (m_class_id m) then []
      else [''class_id must be a str, got '' @ type_name (m_class_id m) @ '' ('' @
            py_repr (m_class_id m) @ '')''])"

definition manifest_validate :: "pyval \<Rightarrow> run_manifest \<Rightarrow> string list res" where
  "manifest_validate doc m =
     bindE (known_cell_ids doc) (\<lambda>ids.
     bindE (in_strset (m_cell m) ids) (\<lambda>cell_known.
     bindE (missing_keys TRANSPORT_KEYS (m_transport m)) (\<lambda>missing.
     bindE (exclusion_errors m) (\<lambda>excl.
     bindE (missing_keys PLACEMENT_KEYS (m_placement m)) (\<lambda>missing_p.
     bindE (if in_strs (m_approach m) UE_APPROACHES
            then bindE (str_in ''engine_build_id'' (m_placement m)) (\<lambda>b. Ret (\<not> b))
            else Ret False) (\<lambda>no_build_id.
     Ret ((if cell_known then [] else [''cell '' @ py_repr (m_cell m) @ '' is not registered in cells.yaml'']) @
          (if in_strs (m_approach m) APPROACHES then []
           else [''approach must be one of '' @ repr_str_tuple APPROACHES]) @
          (if in_strs (m_arm m) ARMS then [] else [''arm must be one of '' @ repr_str_tuple ARMS]) @
          (if missing = [] then [] else [''transport missing keys: '' @ repr_strs missing]) @
          excl @
          (if missing_p = [] then [] else [''placement missing keys: '' @ repr_strs missing_p]) @
          (if no_build_id
           then [''placement.engine_build_id required for UE-based approaches''] else []) @
          type_errors m)))))))"

section \<open>The file form\<close>

text \<open>\<open>dataclasses.asdict\<close>.\<close>

definition manifest_asdict :: "run_manifest \<Rightarrow> pyval" where
  "manifest_asdict m = PDict
     [(''cell'', m_cell m), (''approach'', m_approach m), (''map_name'', m_map_name m),
      (''run_index'', m_run_index m), (''arm'', m_arm m),
      (''harness_git_sha'', m_harness_git_sha m), (''patches_git_sha'', m_patches_git_sha m),
      (''transport'', m_transport m), (''carla_version'', m_carla_version m),
      (''autoware_image'', m_autoware_image m), (''started_at_ns'', m_started_at_ns m),
      (''excluded'', m_excluded m), (''exclusion_reason'', m_exclusion_reason m),
      (''placement'', m_placement m), (''duel_admissible'', m_duel_admissible m),
      (''duel_id'', m_duel_id m), (''class_id'', m_class_id m)]"

definition MANIFEST_REQUIRED :: "string list" where
  "MANIFEST_REQUIRED =
     [''cell'', ''approach'', ''map_name'', ''run_index'', ''arm'', ''harness_git_sha'',
      ''patches_git_sha'', ''transport'', ''carla_version'', ''autoware_image'', ''started_at_ns'']"

definition MANIFEST_FIELDS :: "string list" where
  "MANIFEST_FIELDS = MANIFEST_REQUIRED @
     [''excluded'', ''exclusion_reason'', ''placement'', ''duel_admissible'', ''duel_id'', ''class_id'']"

text \<open>\<open>RunManifest(**kwargs)\<close>: a missing required field or an unknown one is a TypeError, the
  other fields take the dataclass defaults.\<close>

definition manifest_init :: "(string \<times> pyval) list \<Rightarrow> run_manifest res" where
  "manifest_init kw =
     (let get = (\<lambda>k. case map_of kw k of Some v \<Rightarrow> v | None \<Rightarrow> PNone);
          opt = (\<lambda>k dflt. case map_of kw k of Some v \<Rightarrow> v | None \<Rightarrow> dflt)
      in if \<not> list_all (\<lambda>k. k \<in> set MANIFEST_FIELDS) (map fst kw)
         then Raise TypeError ''unexpected keyword argument''
         else if \<not> list_all (\<lambda>k. k \<in> set (map fst kw)) MANIFEST_REQUIRED
         then Raise TypeError ''missing required argument''
         else Ret
           \<lparr>m_cell = get ''cell'', m_approach = get ''approach'', m_map_name = get ''map_name'',
            m_run_index = get ''run_index'', m_arm = get ''arm'',
            m_harness_git_sha = get ''harness_git_sha'', m_patches_git_sha = get ''patches_git_sha'',
            m_transport = get ''transport'', m_carla_version = get ''carla_version'',
            m_autoware_image = get ''autoware_image'', m_started_at_ns = get ''started_at_ns'',
            m_excluded = opt ''excluded'' (PBool False),
            m_exclusion_reason = opt ''exclusion_reason'' (PStr ''''),
            m_placement = opt ''placement'' (PDict []),
            m_duel_admissible = opt ''duel_admissible'' (PBool False),
            m_duel_id = opt ''duel_id'' (PStr ''''), m_class_id = opt ''class_id'' (PStr '''')\<rparr>)"

definition load_manifest :: "jfile \<Rightarrow> run_manifest res" where
  "load_manifest f =
     bindE (read_json f) (\<lambda>v. case v of
       PDict kw \<Rightarrow> manifest_init kw
     | _ \<Rightarrow> Raise TypeError ''argument after ** must be a mapping'')"

text \<open>\<open>save\<close> returns the file it writes, or raises and writes nothing.\<close>

definition manifest_save :: "pyval \<Rightarrow> run_manifest \<Rightarrow> jfile res" where
  "manifest_save doc m =
     bindE (manifest_validate doc m) (\<lambda>errs.
       if errs \<noteq> [] then Raise ValueError (''invalid run manifest: '' @ join ''; '' errs)
       else Ret (JDoc (manifest_asdict m)))"

section \<open>What a valid manifest is\<close>

definition exclusion_registered :: "string \<Rightarrow> bool" where
  "exclusion_registered r \<longleftrightarrow>
     r \<in> set EXCLUSION_REASONS \<or> (\<exists>p \<in> set EXCLUSION_REASON_PREFIXES. \<exists>d. r = p @ d)"

definition manifest_ok :: "pyval \<Rightarrow> run_manifest \<Rightarrow> bool" where
  "manifest_ok doc m \<longleftrightarrow>
     (\<exists>ids. known_cell_ids doc = Inr ids \<and> (\<exists>c \<in> set ids. m_cell m = PStr c)) \<and>
     (\<exists>a \<in> set APPROACHES. m_approach m = PStr a) \<and>
     (\<exists>a \<in> set ARMS. m_arm m = PStr a) \<and>
     (\<forall>k \<in> set TRANSPORT_KEYS. str_in k (m_transport m) = Inr True) \<and>
     (truthy (m_excluded m) \<longrightarrow> (\<exists>r. m_exclusion_reason m = PStr r \<and> exclusion_registered r)) \<and>
     (\<forall>k \<in> set PLACEMENT_KEYS. str_in k (m_placement m) = Inr True) \<and>
     ((\<exists>a \<in> set UE_APPROACHES. m_approach m = PStr a) \<longrightarrow>
        str_in ''engine_build_id'' (m_placement m) = Inr True) \<and>
     is_bool (m_duel_admissible m) \<and> is_str (m_duel_id m) \<and> is_str (m_class_id m)"

lemma missing_keys_Nil_iff:
  "missing_keys ks v = Inr [] \<longleftrightarrow> (\<forall>k \<in> set ks. str_in k v = Inr True)"
proof (induction ks)
  case Nil
  then show ?case by simp
next
  case (Cons k ks)
  then show ?case by (cases "str_in k v") (auto simp: py_splits)
qed

lemma in_strset_True: "in_strset v ss = Inr True \<longleftrightarrow> (\<exists>s \<in> set ss. v = PStr s)"
  by (cases v) (auto simp: in_strset_def in_strs_iff)

lemma known_exclusion_reason_PStr:
  "known_exclusion_reason (PStr r) = Inr (exclusion_registered r)"
  by (auto simp: known_exclusion_reason_def in_strset_def in_strs_iff exclusion_registered_def
      starts_with_iff list_ex_iff)

lemma known_exclusion_reason_str:
  "known_exclusion_reason v = Inr True \<Longrightarrow> is_str v"
  by (cases v) (auto simp: known_exclusion_reason_def in_strset_def in_strs_iff split: if_splits)

lemma exclusion_errors_Nil_iff:
  "exclusion_errors m = Inr [] \<longleftrightarrow>
     (truthy (m_excluded m) \<longrightarrow> (\<exists>r. m_exclusion_reason m = PStr r \<and> exclusion_registered r))"
proof (cases "truthy (m_excluded m)")
  case True
  have "exclusion_registered [] = False"
    by (simp add: exclusion_registered_def EXCLUSION_REASONS_def EXCLUSION_REASON_PREFIXES_def)
  with True show ?thesis
    by (cases "m_exclusion_reason m")
      (auto simp: exclusion_errors_def known_exclusion_reason_PStr py_splits split: if_splits
        dest!: known_exclusion_reason_str)
next
  case False
  then show ?thesis by (simp add: exclusion_errors_def)
qed

lemma type_errors_Nil_iff:
  "type_errors m = [] \<longleftrightarrow>
     is_bool (m_duel_admissible m) \<and> is_str (m_duel_id m) \<and> is_str (m_class_id m)"
  by (simp add: type_errors_def)

lemma validate_iff_ok: "manifest_validate doc m = Inr [] \<longleftrightarrow> manifest_ok doc m"
proof -
  have ue: "(if in_strs (m_approach m) UE_APPROACHES
            then bindE (str_in ''engine_build_id'' (m_placement m)) (\<lambda>b. Ret (\<not> b))
            else Ret False) = Inr False \<longleftrightarrow>
      ((\<exists>a \<in> set UE_APPROACHES. m_approach m = PStr a) \<longrightarrow>
        str_in ''engine_build_id'' (m_placement m) = Inr True)"
    by (auto simp: in_strs_iff py_splits)
  have "manifest_validate doc m = Inr [] \<longleftrightarrow>
      (\<exists>ids. known_cell_ids doc = Inr ids \<and> in_strset (m_cell m) ids = Inr True) \<and>
      missing_keys TRANSPORT_KEYS (m_transport m) = Inr [] \<and> exclusion_errors m = Inr [] \<and>
      missing_keys PLACEMENT_KEYS (m_placement m) = Inr [] \<and>
      (if in_strs (m_approach m) UE_APPROACHES
            then bindE (str_in ''engine_build_id'' (m_placement m)) (\<lambda>b. Ret (\<not> b))
            else Ret False) = Inr False \<and>
      in_strs (m_approach m) APPROACHES \<and> in_strs (m_arm m) ARMS \<and> type_errors m = []"
    unfolding manifest_validate_def by (auto simp: bindE_Inr_iff split: if_split_asm)
  note iff = this [unfolded ue]
  show ?thesis
    using iff [unfolded missing_keys_Nil_iff exclusion_errors_Nil_iff type_errors_Nil_iff
      in_strset_True in_strs_iff] unfolding manifest_ok_def by (rule trans) blast
qed

text \<open>The validator accepts exactly the well-formed manifests: a registered cell, a known
  approach and arm, every transport and placement key, a registered exclusion reason on an
  excluded run, an engine build id on a UE approach, and correctly typed duel and class fields.\<close>

theorem manifest_validate_iff: "manifest_validate doc m = Inr [] \<longleftrightarrow> manifest_ok doc m"
  by (rule validate_iff_ok)

text \<open>The exclusion vocabulary is closed: a reason under the four fixed-string criteria is
  accepted only if it is listed verbatim, whatever detail follows the prefix.\<close>

theorem exclusion_vocabulary_closed:
  assumes "p \<in> {''crash:'', ''gate:'', ''stall:'', ''warmup:''}"
  shows "known_exclusion_reason (PStr (p @ d)) = Inr (p @ d \<in> set EXCLUSION_REASONS)"
proof -
  have "\<not> starts_with (p @ d) q" if "q \<in> set EXCLUSION_REASON_PREFIXES" for q
    using assms that by (auto simp: EXCLUSION_REASON_PREFIXES_def)
  then show ?thesis
    by (auto simp: known_exclusion_reason_PStr exclusion_registered_def starts_with_iff)
qed

theorem exclusion_vocabulary_closed_witness:
  "known_exclusion_reason (PStr ''stall:other'') = Inr False \<and>
   known_exclusion_reason (PStr ''stall:clock'') = Inr True"
  using exclusion_vocabulary_closed [of "''stall:''" "''other''"]
    exclusion_vocabulary_closed [of "''stall:''" "''clock''"]
  by (simp add: EXCLUSION_REASONS_def)

lemma load_asdict: "load_manifest (JDoc (manifest_asdict m)) = Inr m"
  by (simp add: load_manifest_def read_json_def manifest_asdict_def manifest_init_def
      MANIFEST_FIELDS_def MANIFEST_REQUIRED_def)

lemma manifest_save_Inr:
  "manifest_save doc m = Inr f \<longleftrightarrow>
     manifest_validate doc m = Inr [] \<and> f = JDoc (manifest_asdict m)"
  by (auto simp: manifest_save_def py_splits split: if_splits)

lemma manifest_save_valid: "manifest_save doc m = Inr f \<Longrightarrow> manifest_validate doc m = Inr []"
  by (simp add: manifest_save_Inr)

text \<open>A saved manifest passes validation and reads back as the manifest that was saved.\<close>

theorem manifest_save_load:
  assumes "manifest_save doc m = Inr f"
  shows "manifest_validate doc m = Inr [] \<and> load_manifest f = Inr m"
  using assms by (simp add: manifest_save_Inr load_asdict)

definition sample_doc :: pyval where
  "sample_doc = PDict [(''cells'', PList [PDict [(''id'', PStr ''A'')], PDict [(''id'', PStr ''B'')]])]"

definition sample_manifest :: run_manifest where
  "sample_manifest =
     \<lparr>m_cell = PStr ''A'', m_approach = PStr ''python-bridge'', m_map_name = PStr ''Town10'',
      m_run_index = PInt 1, m_arm = PStr ''paced'', m_harness_git_sha = PStr ''abc'',
      m_patches_git_sha = PStr '''',
      m_transport = PDict [(''rmw'', PStr ''cyclone''), (''shm_enabled'', PBool False),
        (''dds_profile_sha256'', PStr '''')],
      m_carla_version = PStr ''0.10'', m_autoware_image = PStr ''img'', m_started_at_ns = PInt 5,
      m_excluded = PBool False, m_exclusion_reason = PStr '''',
      m_placement = PDict [(''run_mode'', PStr ''x''), (''container_image'', PStr ''y''),
        (''observer_env'', PStr ''z'')],
      m_duel_admissible = PBool False, m_duel_id = PStr '''', m_class_id = PStr ''vlp16''\<rparr>"

lemma sample_save: "manifest_save sample_doc sample_manifest = Inr (JDoc (manifest_asdict sample_manifest))"
  by code_simp

theorem manifest_save_load_witness:
  "manifest_validate sample_doc sample_manifest = Inr [] \<and>
   load_manifest (JDoc (manifest_asdict sample_manifest)) = Inr sample_manifest"
  by (rule manifest_save_load [OF sample_save])

lemma manifest_init_optional:
  assumes "manifest_init kw = Inr m"
  shows "''duel_admissible'' \<notin> set (map fst kw) \<Longrightarrow> m_duel_admissible m = PBool False"
    and "''duel_id'' \<notin> set (map fst kw) \<Longrightarrow> m_duel_id m = PStr ''''"
    and "''class_id'' \<notin> set (map fst kw) \<Longrightarrow> m_class_id m = PStr ''''"
  using assms by (auto simp: manifest_init_def Let_def map_of_eq_None_iff [THEN iffD2]
      simp del: split_paired_Ex split: if_split_asm)

text \<open>The three fields later amendments added default to the fail-closed values on every
  manifest filed before they existed: not duel data, no duel pool, no sweep class.\<close>

theorem legacy_manifest_defaults:
  assumes "load_manifest (JDoc (PDict kw)) = Inr m"
    and "''duel_admissible'' \<notin> set (map fst kw)" "''duel_id'' \<notin> set (map fst kw)"
      "''class_id'' \<notin> set (map fst kw)"
  shows "m_duel_admissible m = PBool False \<and> m_duel_id m = PStr '''' \<and> m_class_id m = PStr ''''"
  using assms by (simp add: load_manifest_def read_json_def manifest_init_optional)

theorem legacy_manifest_defaults_witness:
  "\<exists>m. load_manifest (JDoc (PDict (map (\<lambda>k. (k, PNone)) MANIFEST_REQUIRED))) = Inr m \<and>
     m_duel_admissible m = PBool False \<and> m_duel_id m = PStr '''' \<and> m_class_id m = PStr ''''"
proof -
  have "\<not> isl (load_manifest (JDoc (PDict (map (\<lambda>k. (k, PNone)) MANIFEST_REQUIRED))))" by code_simp
  then obtain m where m: "load_manifest (JDoc (PDict (map (\<lambda>k. (k, PNone)) MANIFEST_REQUIRED))) = Inr m"
    by (cases "load_manifest (JDoc (PDict (map (\<lambda>k. (k, PNone)) MANIFEST_REQUIRED)))") auto
  have "''duel_admissible'' \<notin> set MANIFEST_REQUIRED" "''duel_id'' \<notin> set MANIFEST_REQUIRED"
    "''class_id'' \<notin> set MANIFEST_REQUIRED"
    by (simp_all add: MANIFEST_REQUIRED_def)
  then show ?thesis using m legacy_manifest_defaults [OF m] by (simp add: comp_def)
qed

end
