(* ===== verification/Cell_Info.thy ===== *)
theory Cell_Info
  imports Py_Values
begin

text \<open>
  \<^verbatim>\<open>benchmarks/scripts/cell_info.py\<close>: lookups in the pre-registered workload matrix
  (cells.yaml, a parsed document). \<open>cell_entry\<close> and \<open>class_entry\<close> are the typo guards, \<open>merge\<close>
  the cell with a class merged over it, \<open>metrics_for\<close> the accessor of the metric bindings.

  The lemmas: a lookup returns the first entry with that id and otherwise refuses by name;
  \<open>metrics_for\<close> never hands out an incomplete block; merging a class needs the class to list the
  cell, keeps the cell's own id, and lets the class override nothing but what it declares.
\<close>

definition CLASS_LISTS :: "string list" where
  "CLASS_LISTS = [''sweep_classes'', ''camera_classes'']"

definition CLASS_META_KEYS :: "string list" where
  "CLASS_META_KEYS = [''id'', ''applies_to'']"

definition METRIC_KEYS :: "string list" where
  "METRIC_KEYS =
     [''lidar_topic'', ''ndt_topic'', ''control_topic'', ''control_published_time_topic'',
      ''cpu_process_label'', ''tick_hz'', ''lidar_expected_hz'', ''ndt_expected_hz'',
      ''ladder_branch'', ''abs_pose_gate_m'']"

text \<open>\<open>for e in entries: if str(e["id"]) == wanted: return dict(e)\<close>, \<open>None\<close> when the loop runs
  out. A subscript by \<open>"id"\<close> succeeds only on a dictionary.\<close>

fun find_entry :: "string \<Rightarrow> pyval list \<Rightarrow> (string \<times> pyval) list option res" where
  "find_entry wanted [] = Ret None"
| "find_entry wanted (e # es) =
     bindE (getitem e ''id'') (\<lambda>i.
       if py_str i = wanted
       then (case e of PDict d \<Rightarrow> Ret (Some d) | _ \<Rightarrow> Ret None)
       else find_entry wanted es)"

definition cell_entry :: "pyval \<Rightarrow> string \<Rightarrow> (string \<times> pyval) list res" where
  "cell_entry doc cell_id =
     bindE (get_or doc ''cells'' (PList [])) (\<lambda>cells.
     bindE (py_iter cells) (\<lambda>cs.
     bindE (find_entry cell_id cs) (\<lambda>r. case r of
         Some d \<Rightarrow> Ret d
       | None \<Rightarrow> Raise UnknownIdError (''unknown cell '' @ repr_str cell_id))))"

text \<open>\<open>doc.get(name, []) or []\<close>, iterated.\<close>

definition list_or_empty :: "pyval \<Rightarrow> string \<Rightarrow> pyval list res" where
  "list_or_empty doc name =
     bindE (get_or doc name (PList [])) (\<lambda>v. if truthy v then py_iter v else Ret [])"

fun find_in_lists :: "pyval \<Rightarrow> string \<Rightarrow> string list \<Rightarrow> (string \<times> pyval) list option res" where
  "find_in_lists doc class_id [] = Ret None"
| "find_in_lists doc class_id (n # ns) =
     bindE (list_or_empty doc n) (\<lambda>es.
     bindE (find_entry class_id es) (\<lambda>r. case r of
         Some d \<Rightarrow> Ret (Some d)
       | None \<Rightarrow> find_in_lists doc class_id ns))"

definition class_entry :: "pyval \<Rightarrow> string \<Rightarrow> (string \<times> pyval) list res" where
  "class_entry doc class_id =
     bindE (find_in_lists doc class_id CLASS_LISTS) (\<lambda>r. case r of
         Some d \<Rightarrow> Ret d
       | None \<Rightarrow> Raise UnknownIdError (''unknown class '' @ repr_str class_id))"

definition metrics_for :: "pyval \<Rightarrow> string \<Rightarrow> (string \<times> pyval) list res" where
  "metrics_for doc cell_id =
     bindE (cell_entry doc cell_id) (\<lambda>entry.
       case map_of entry ''metrics'' of
         Some (PDict metrics) \<Rightarrow>
           (let missing = filter (\<lambda>k. k \<notin> set (map fst metrics)) METRIC_KEYS
            in if missing \<noteq> []
               then Raise UnknownIdError (''metrics block is missing '' @ join '', '' missing)
               else Ret metrics)
       | _ \<Rightarrow> Raise UnknownIdError ''no metrics block in cells.yaml'')"

text \<open>The \<open>carla\<close> field decides whether the cell has a simulation clock.\<close>

definition has_sim_clock :: "(string \<times> pyval) list \<Rightarrow> bool" where
  "has_sim_clock merged =
     (py_str (case map_of merged ''carla'' of None \<Rightarrow> PStr ''none'' | Some v \<Rightarrow> v) \<noteq> ''none'')"

definition class_fields :: "(string \<times> pyval) list \<Rightarrow> (string \<times> pyval) list" where
  "class_fields cls = filter (\<lambda>p. fst p \<notin> set CLASS_META_KEYS) cls"

text \<open>The class part of \<open>merge\<close>: refused unless \<open>applies_to\<close> lists the cell.\<close>

definition merge_class ::
  "(string \<times> pyval) list \<Rightarrow> string \<Rightarrow> (string \<times> pyval) list \<Rightarrow> (string \<times> pyval) list res" where
  "merge_class cls cell_id merged =
     bindE (py_iter (case map_of cls ''applies_to'' of None \<Rightarrow> PList [] | Some v \<Rightarrow> v)) (\<lambda>cs.
       let applies_to = map py_str cs
       in if cell_id \<notin> set applies_to
          then Raise UnknownIdError ''class is not registered for cell''
          else bindE (getitem (PDict cls) ''id'') (\<lambda>i.
            Ret (dict_merge (dict_set ''class_id'' (PStr (py_str i)) merged) (class_fields cls))))"

definition merge_cell ::
  "pyval \<Rightarrow> string \<Rightarrow> string option \<Rightarrow> (string \<times> pyval) list res" where
  "merge_cell doc cell_id class_id =
     bindE (cell_entry doc cell_id) (\<lambda>entry.
     bindE (list_or_empty doc ''sweep_arms'') (\<lambda>arms.
       let m1 = dict_set ''sweep_arms'' (PList arms) entry;
           m2 = dict_set ''has_sim_clock'' (PBool (has_sim_clock m1)) m1
       in case class_id of
            None \<Rightarrow> Ret m2
          | Some c \<Rightarrow>
              if c = [] then Ret m2
              else bindE (class_entry doc c) (\<lambda>cls. merge_class cls cell_id m2)))"

definition CELL_EXIT_UNKNOWN_ID :: int where "CELL_EXIT_UNKNOWN_ID = 2"

text \<open>\<open>main\<close> on the parsed arguments and what loading the matrix gives: the exit status and the object printed (its
  keys sorted, as JSON).\<close>

definition cell_info_main :: "pyval res \<Rightarrow> string \<Rightarrow> string option \<Rightarrow> (int \<times> pyval option) res" where
  "cell_info_main doc cell class_id =
     catchE [UnknownIdError] (\<lambda>_. Ret (CELL_EXIT_UNKNOWN_ID, None))
       (bindE doc (\<lambda>d. bindE (merge_cell d cell class_id) (\<lambda>merged. Ret (0, Some (PDict merged)))))"

section \<open>Lookups\<close>

lemma find_entry_Some:
  assumes "find_entry wanted es = Inr (Some d)"
  shows "PDict d \<in> set es \<and> (\<exists>i. map_of d ''id'' = Some i \<and> py_str i = wanted)"
  using assms
proof (induction es)
  case Nil
  then show ?case by simp
next
  case (Cons e es)
  then show ?case
    by (cases e) (auto simp: getitem_def split: option.splits if_splits)
qed

lemma find_entry_None:
  assumes "find_entry wanted es = Inr None"
  shows "\<forall>d i. PDict d \<in> set es \<and> map_of d ''id'' = Some i \<longrightarrow> py_str i \<noteq> wanted"
  using assms
proof (induction es)
  case Nil
  then show ?case by simp
next
  case (Cons e es)
  then show ?case
    by (cases e) (auto simp: getitem_def split: option.splits if_splits)
qed

lemma cell_entry_id: "cell_entry doc c = Inr d \<Longrightarrow> \<exists>i. map_of d ''id'' = Some i \<and> py_str i = c"
  by (auto simp: cell_entry_def py_splits split: option.splits dest!: find_entry_Some)

text \<open>Entries of a document whose ids are all present: what a well-formed cells.yaml is.\<close>

definition ids_present :: "pyval list \<Rightarrow> bool" where
  "ids_present es \<longleftrightarrow> (\<forall>e \<in> set es. \<exists>d i. e = PDict d \<and> map_of d ''id'' = Some i)"

lemma find_entry_total: "ids_present es \<Longrightarrow> \<exists>r. find_entry wanted es = Inr r"
  by (induction es) (auto simp: ids_present_def getitem_def)

lemma cell_entry_by_id:
  assumes "map_of d ''cells'' = Some (PList es)" "ids_present es"
  shows "if \<exists>e i. PDict e \<in> set es \<and> map_of e ''id'' = Some i \<and> py_str i = c
    then \<exists>e i. cell_entry (PDict d) c = Inr e \<and> PDict e \<in> set es \<and> map_of e ''id'' = Some i \<and> py_str i = c
    else \<exists>msg. cell_entry (PDict d) c = Raise UnknownIdError msg"
proof -
  obtain r where r: "find_entry c es = Inr r" using find_entry_total [OF assms(2)] by blast
  have eq: "cell_entry (PDict d) c = (case r of Some e \<Rightarrow> Ret e
      | None \<Rightarrow> Raise UnknownIdError (''unknown cell '' @ repr_str c))"
    using assms(1) r by (cases r) (simp_all add: cell_entry_def get_or_def py_iter_def)
  show ?thesis
  proof (cases r)
    case None
    with r have "find_entry c es = Inr None" by simp
    from find_entry_None [OF this] None eq show ?thesis by auto
  next
    case (Some e)
    with r have "find_entry c es = Inr (Some e)" by simp
    from find_entry_Some [OF this] Some eq show ?thesis by auto
  qed
qed

text \<open>On a well-formed cell list the lookup is decided by the ids alone: it returns an entry
  carrying the requested id when some cell has it, and refuses with UnknownIdError, nothing else,
  when none has.\<close>

theorem cell_entry_decides:
  assumes "map_of d ''cells'' = Some (PList es)" "ids_present es"
  shows "if \<exists>e i. PDict e \<in> set es \<and> map_of e ''id'' = Some i \<and> py_str i = c
    then \<exists>e i. cell_entry (PDict d) c = Inr e \<and> PDict e \<in> set es \<and> map_of e ''id'' = Some i \<and> py_str i = c
    else \<exists>msg. cell_entry (PDict d) c = Raise UnknownIdError msg"
  by (rule cell_entry_by_id [OF assms])

text \<open>The tool decides on a well-formed matrix: it prints the requested cell's entry and exits 0 when the cell is
  registered, and otherwise prints nothing and exits 2.\<close>

lemma cell_info_decides:
  assumes "map_of d ''cells'' = Some (PList es)" "ids_present es" "list_or_empty (PDict d) ''sweep_arms'' = Inr arms"
  shows "if \<exists>e i. PDict e \<in> set es \<and> map_of e ''id'' = Some i \<and> py_str i = c
    then \<exists>m i. cell_info_main (Ret (PDict d)) c None = Inr (0, Some (PDict m)) \<and> map_of m ''id'' = Some i \<and> py_str i = c
    else cell_info_main (Ret (PDict d)) c None = Inr (CELL_EXIT_UNKNOWN_ID, None)"
proof (cases "\<exists>e i. PDict e \<in> set es \<and> map_of e ''id'' = Some i \<and> py_str i = c")
  case True
  with cell_entry_by_id [OF assms(1,2), of c] obtain e i where
    "cell_entry (PDict d) c = Inr e" "map_of e ''id'' = Some i" "py_str i = c" by auto
  with True assms(3) show ?thesis by (simp add: cell_info_main_def merge_cell_def Let_def map_of_dict_set)
next
  case False
  from cell_entry_by_id [OF assms(1,2), of c] obtain msg where
    "cell_entry (PDict d) c = Raise UnknownIdError msg" unfolding if_not_P [OF False] by blast
  then have "cell_info_main (Ret (PDict d)) c None = Inr (CELL_EXIT_UNKNOWN_ID, None)"
    by (simp add: cell_info_main_def merge_cell_def catchE_def)
  then show ?thesis unfolding if_not_P [OF False] .
qed

definition sample_cells :: pyval where
  "sample_cells = PDict
     [(''sweep_arms'', PList [PStr ''static'']),
      (''cells'', PList [
         PDict [(''id'', PStr ''A''), (''carla'', PStr ''none''), (''metrics'', PDict [(''tick_hz'', PInt 20)])],
         PDict [(''id'', PStr ''S''), (''carla'', PStr ''0.9.16''),
                (''metrics'', PDict (map (\<lambda>k. (k, PNone)) METRIC_KEYS))]]),
      (''sweep_classes'', PList [
         PDict [(''id'', PStr ''32ch''), (''applies_to'', PList [PStr ''S'']), (''channels'', PInt 32)]])]"

lemma cell_entry_decides_witness:
  "(\<exists>e i. cell_entry sample_cells ''S'' = Inr e \<and> map_of e ''id'' = Some i \<and> py_str i = ''S'') \<and>
   (\<exists>msg. cell_entry sample_cells ''Q'' = Raise UnknownIdError msg)"
proof -
  define es where "es = (case map_of (case sample_cells of PDict d \<Rightarrow> d | _ \<Rightarrow> []) ''cells'' of
      Some (PList es) \<Rightarrow> es | _ \<Rightarrow> [])"
  have 1: "map_of (case sample_cells of PDict d \<Rightarrow> d | _ \<Rightarrow> []) ''cells'' = Some (PList es)"
    and 2: "ids_present es"
    by (simp_all add: es_def sample_cells_def ids_present_def)
  have 3: "\<exists>e i. PDict e \<in> set es \<and> map_of e ''id'' = Some i \<and> py_str i = ''S''"
    and 4: "\<not> (\<exists>e i. PDict e \<in> set es \<and> map_of e ''id'' = Some i \<and> py_str i = ''Q'')"
    by (auto simp: es_def sample_cells_def)
  have d: "PDict (case sample_cells of PDict d \<Rightarrow> d | _ \<Rightarrow> []) = sample_cells"
    by (simp add: sample_cells_def)
  from cell_entry_decides [OF 1 2, of "''S''"] cell_entry_decides [OF 1 2, of "''Q''"] 3 4
  show ?thesis unfolding d by auto
qed

section \<open>Metric bindings\<close>

text \<open>The metric accessor never hands out an incomplete block: when it returns, the cell is
  registered, its metrics block is the value returned, and every registered metric key is in it
  (a null binding counts as present); otherwise the cell either is unknown or is refused with
  UnknownIdError.\<close>

theorem metrics_for_complete:
  assumes "map_of d ''cells'' = Some (PList es)" "ids_present es"
  shows "case metrics_for (PDict d) c of
      Inr m \<Rightarrow> set METRIC_KEYS \<subseteq> fst ` set m \<and>
        (\<exists>e. cell_entry (PDict d) c = Inr e \<and> map_of e ''metrics'' = Some (PDict m))
    | Inl ex \<Rightarrow> exc_of ex = UnknownIdError"
proof (cases "cell_entry (PDict d) c")
  case (Inl ex)
  moreover from Inl cell_entry_by_id [OF assms, of c] have "exc_of ex = UnknownIdError"
    by (auto split: if_splits)
  ultimately show ?thesis by (simp add: metrics_for_def)
next
  case (Inr e)
  show ?thesis
  proof (cases "\<exists>m. map_of e ''metrics'' = Some (PDict m)")
    case True
    then obtain m where "map_of e ''metrics'' = Some (PDict m)" ..
    with Inr show ?thesis by (auto simp: metrics_for_def Let_def filter_empty_conv image_iff)
  next
    case False
    with Inr show ?thesis
      by (auto simp: metrics_for_def split: option.splits pyval.splits)
  qed
qed

lemma metrics_for_complete_witness:
  "(\<exists>m. metrics_for sample_cells ''S'' = Inr m \<and> set METRIC_KEYS \<subseteq> fst ` set m) \<and>
   (\<exists>ex. metrics_for sample_cells ''A'' = Inl ex \<and> exc_of ex = UnknownIdError)"
proof -
  define es where "es = (case map_of (case sample_cells of PDict d \<Rightarrow> d | _ \<Rightarrow> []) ''cells'' of
      Some (PList es) \<Rightarrow> es | _ \<Rightarrow> [])"
  have 1: "map_of (case sample_cells of PDict d \<Rightarrow> d | _ \<Rightarrow> []) ''cells'' = Some (PList es)"
    and 2: "ids_present es"
    by (simp_all add: es_def sample_cells_def ids_present_def)
  have d: "PDict (case sample_cells of PDict d \<Rightarrow> d | _ \<Rightarrow> []) = sample_cells"
    by (simp add: sample_cells_def)
  note c = metrics_for_complete [OF 1 2, unfolded d]
  have "result_opt (metrics_for sample_cells ''S'') \<noteq> None" by code_simp
  moreover have "result_opt (metrics_for sample_cells ''A'') = None" by code_simp
  ultimately show ?thesis using c [of "''S''"] c [of "''A''"]
    by (auto simp: result_opt_def split: sum.splits)
qed

section \<open>Merging a class\<close>

lemma merge_cell_no_class:
  assumes "merge_cell doc c None = Inr m"
  shows "\<exists>entry arms. cell_entry doc c = Inr entry \<and>
    map_of m = (map_of entry)(''sweep_arms'' \<mapsto> PList arms,
      ''has_sim_clock'' \<mapsto> PBool (has_sim_clock (dict_set ''sweep_arms'' (PList arms) entry)))"
  using assms by (auto simp: merge_cell_def py_splits Let_def)

lemma class_fields_distinct:
  "distinct (dict_keys cls) \<Longrightarrow> distinct (dict_keys (class_fields cls))"
  by (simp add: class_fields_def dict_keys_def distinct_map_filter)

lemma map_of_class_fields:
  "map_of (class_fields cls) k = (if k \<in> set CLASS_META_KEYS then None else map_of cls k)"
  by (induction cls) (auto simp: class_fields_def)

text \<open>Merging a class: it succeeds only when the class lists the cell in applies_to, and then
  the result keeps the cell's own id, carries the class id (unless the class itself declares a
  field of that name), takes every other field from the class where the class declares one, and
  from the plain cell otherwise.\<close>

theorem merge_cell_with_class:
  assumes merged: "merge_cell doc c (Some cid) = Inr m" and "cid \<noteq> []"
    and cls: "class_entry doc cid = Inr cls" and dist: "distinct (dict_keys cls)"
  shows "\<exists>plain cs. merge_cell doc c None = Inr plain \<and>
    (\<exists>v. map_of cls ''applies_to'' = Some v \<and> py_iter v = Inr cs) \<and> c \<in> py_str ` set cs \<and>
    map_of m ''id'' = map_of plain ''id'' \<and>
    (\<forall>k. k \<notin> {''id'', ''applies_to''} \<longrightarrow> map_of m k =
      (case map_of cls k of Some v \<Rightarrow> Some v
       | None \<Rightarrow> if k = ''class_id'' then map_option (\<lambda>i. PStr (py_str i)) (map_of cls ''id'')
                 else map_of plain k))"
proof -
  have "\<exists>plain. merge_cell doc c None = Inr plain \<and> merge_class cls c plain = Inr m"
    using merged cls \<open>cid \<noteq> []\<close> by (auto simp: merge_cell_def py_splits Let_def)
  then obtain plain where plain: "merge_cell doc c None = Inr plain"
    and mc: "merge_class cls c plain = Inr m" by blast
  from mc obtain cs i where cs: "py_iter (case map_of cls ''applies_to'' of None \<Rightarrow> PList [] | Some v \<Rightarrow> v) = Inr cs"
    and listed: "c \<in> py_str ` set cs" and i: "map_of cls ''id'' = Some i"
    and m: "m = dict_merge (dict_set ''class_id'' (PStr (py_str i)) plain) (class_fields cls)"
    by (auto simp: merge_class_def py_splits Let_def getitem_def split: if_splits option.splits)
  from cs listed have ap: "\<exists>v. map_of cls ''applies_to'' = Some v \<and> py_iter v = Inr cs"
    by (cases "map_of cls ''applies_to''") (auto simp: py_iter_def)
  have m': "map_of m = (map_of plain)(''class_id'' \<mapsto> PStr (py_str i)) ++ map_of (class_fields cls)"
    by (simp add: m map_of_dict_merge class_fields_distinct dist)
  have "map_of m ''id'' = map_of plain ''id''"
    by (simp add: m' map_add_def map_of_class_fields CLASS_META_KEYS_def)
  moreover have "\<forall>k. k \<notin> {''id'', ''applies_to''} \<longrightarrow> map_of m k =
      (case map_of cls k of Some v \<Rightarrow> Some v
       | None \<Rightarrow> if k = ''class_id'' then map_option (\<lambda>i. PStr (py_str i)) (map_of cls ''id'')
                 else map_of plain k)"
    using i by (auto simp: m' map_add_def map_of_class_fields CLASS_META_KEYS_def split: option.split)
  ultimately show ?thesis using plain ap listed by blast
qed

lemma merge_cell_with_class_witness:
  "\<exists>m. merge_cell sample_cells ''S'' (Some ''32ch'') = Inr m \<and>
     map_of m ''channels'' = Some (PInt 32) \<and> map_of m ''has_sim_clock'' = Some (PBool True)"
proof -
  have "result_opt (merge_cell sample_cells ''S'' (Some ''32ch'')) \<noteq> None" by code_simp
  then obtain m where m: "merge_cell sample_cells ''S'' (Some ''32ch'') = Inr m"
    by (auto simp: result_opt_def split: sum.splits)
  have "result_opt (class_entry sample_cells ''32ch'') = Some
      [(''id'', PStr ''32ch''), (''applies_to'', PList [PStr ''S'']), (''channels'', PInt 32)]"
    by code_simp
  then have cls: "class_entry sample_cells ''32ch'' = Inr
      [(''id'', PStr ''32ch''), (''applies_to'', PList [PStr ''S'']), (''channels'', PInt 32)]"
    by (auto simp: result_opt_def split: sum.splits)
  have plain: "map_option (\<lambda>p. map_of p ''has_sim_clock'')
      (result_opt (merge_cell sample_cells ''S'' None)) = Some (Some (PBool True))"
    by code_simp
  let ?cls = "[(''id'', PStr ''32ch''), (''applies_to'', PList [PStr ''S'']), (''channels'', PInt 32)]"
  have dist: "distinct (dict_keys ?cls)" by (simp add: dict_keys_def)
  from merge_cell_with_class [OF m _ cls dist] obtain plain' where
    p: "merge_cell sample_cells ''S'' None = Inr plain'" and
    k: "\<forall>k. k \<notin> {''id'', ''applies_to''} \<longrightarrow> map_of m k =
      (case map_of ?cls k of Some v \<Rightarrow> Some v
       | None \<Rightarrow> if k = ''class_id'' then map_option (\<lambda>i. PStr (py_str i)) (map_of ?cls ''id'')
                 else map_of plain' k)"
    by blast
  have "map_of m ''channels'' = Some (PInt 32)" using k [rule_format, of "''channels''"] by simp
  moreover have "map_of m ''has_sim_clock'' = Some (PBool True)"
    using k [rule_format, of "''has_sim_clock''"] plain p by simp
  ultimately show ?thesis using m by blast
qed

end
