(* ===== verification/Write_Manifest.thy ===== *)
theory Write_Manifest
  imports Manifest Cell_Info
begin

text \<open>
  \<^verbatim>\<open>benchmarks/scripts/write_manifest.py\<close>: the command that writes a run's manifest before the run
  starts, or marks an existing one excluded. \<^verbatim>\<open>git\<close>, the hash of a file, the JSON parser and the
  clock are parameters (\<open>wm_env\<close>); the part of the file system it touches is one run directory
  (\<open>run_fs\<close>), threaded through \<open>write_manifest_main\<close>.

  The lemmas: the index a directory name encodes; a refused create leaves the file system as it
  was, a successful one leaves a valid manifest that agrees with cells.yaml and the directory name;
  the rewrite mode changes the two exclusion fields only.
\<close>

section \<open>State and parameters\<close>

record run_fs =
  rd_exists :: bool
  rd_manifest :: jfile

record wm_env =
  git :: "string list \<Rightarrow> int \<times> string \<times> string"
  file_sha256 :: "string \<Rightarrow> string option"
  json_loads :: "string \<Rightarrow> pyval option"
  time_ns :: int
  cells_doc :: pyval

record wm_args =
  a_run_dir :: string
  a_cell :: "string option"
  a_arm :: "string option"
  a_rmw :: "string option"
  a_shm :: "string option"
  a_dds_profile :: "string option"
  a_carla_version :: "string option"
  a_autoware_image :: "string option"
  a_placement_json :: "string option"
  a_duel :: bool
  a_duel_id :: string
  a_class_id :: string
  a_exclude :: "string option"

section \<open>The run index\<close>

text \<open>\<open>Path(p).name\<close>: the last component that is neither empty nor \<open>"."\<close>.\<close>

fun split_slash :: "string \<Rightarrow> string \<Rightarrow> string list" where
  "split_slash acc [] = [rev acc]"
| "split_slash acc (c # s) = (if c = CHR ''/'' then rev acc # split_slash [] s else split_slash (c # acc) s)"

definition path_name :: "string \<Rightarrow> string" where
  "path_name p =
     (let cs = filter (\<lambda>c. c \<noteq> [] \<and> c \<noteq> ''.'') (split_slash [] p)
      in if cs = [] then [] else last cs)"

text \<open>The text captured by \<^verbatim>\<open>^run-(\d+)$\<close>, whose \<^verbatim>\<open>$\<close> also matches before a final newline.\<close>

definition run_dir_digits :: "string \<Rightarrow> string option" where
  "run_dir_digits name =
     (if starts_with name ''run-''
      then let ds = takeWhile (\<lambda>c. digit_of c \<noteq> None) (drop 4 name);
               rest = dropWhile (\<lambda>c. digit_of c \<noteq> None) (drop 4 name)
           in if ds \<noteq> [] \<and> (rest = [] \<or> rest = [CHR 0x0A]) then Some ds else None
      else None)"

definition run_index_from_dir :: "string \<Rightarrow> int res" where
  "run_index_from_dir run_dir =
     (case run_dir_digits (path_name run_dir) of
        None \<Rightarrow> Raise ManifestArgError (''run dir is not named run-<NNN> '' @ repr_str (path_name run_dir))
      | Some ds \<Rightarrow> py_int (PStr ds))"

section \<open>Provenance\<close>

definition run_git :: "wm_env \<Rightarrow> string list \<Rightarrow> string res" where
  "run_git env args =
     (case git env args of (rc, out, err) \<Rightarrow>
        if rc \<noteq> 0 then Raise ManifestArgError (''git failed: '' @ strip err) else Ret (strip out))"

definition tree_is_dirty :: "wm_env \<Rightarrow> bool res" where
  "tree_is_dirty env =
     bindE (run_git env [''status'', ''--porcelain'', ''--untracked-files=no'', ''--'', ''.'',
                         '':(exclude)benchmarks/results'']) (\<lambda>status.
       Ret (strip status \<noteq> []))"

definition dirty_suffix :: "wm_env \<Rightarrow> string res" where
  "dirty_suffix env = bindE (tree_is_dirty env) (\<lambda>d. Ret (if d then ''-dirty'' else ''''))"

definition harness_git_sha :: "wm_env \<Rightarrow> string res" where
  "harness_git_sha env =
     bindE (run_git env [''rev-parse'', ''HEAD'']) (\<lambda>sha.
     bindE (dirty_suffix env) (\<lambda>suffix. Ret (sha @ suffix)))"

definition patches_git_sha :: "wm_env \<Rightarrow> string res" where
  "patches_git_sha env =
     bindE (run_git env [''log'', ''-1'', ''--format=%H'', ''--'', ''benchmarks/patches/'']) (\<lambda>sha.
       if sha \<noteq> [] then bindE (dirty_suffix env) (\<lambda>suffix. Ret (sha @ suffix)) else Ret sha)"

definition dds_profile_sha256 :: "wm_env \<Rightarrow> string \<Rightarrow> string res" where
  "dds_profile_sha256 env profile =
     (if profile = ''none'' then Ret ''''
      else case file_sha256 env profile of
        None \<Rightarrow> Raise ManifestArgError ''--dds-profile is not a file''
      | Some h \<Rightarrow> Ret h)"

section \<open>Create and rewrite\<close>

text \<open>An argument's value where \<open>main\<close> has checked that it was given.\<close>

definition given :: "string option \<Rightarrow> string" where
  "given a = (case a of Some s \<Rightarrow> s | None \<Rightarrow> '''')"

definition build_manifest :: "wm_env \<Rightarrow> wm_args \<Rightarrow> run_manifest res" where
  "build_manifest env a =
     bindE (catchE [UnknownIdError] (\<lambda>e. Raise ManifestArgError (exc_msg e))
              (cell_entry (cells_doc env) (given (a_cell a)))) (\<lambda>cell.
     bindE (case json_loads env (given (a_placement_json a)) of
              None \<Rightarrow> Raise ManifestArgError ''--placement-json is not valid JSON''
            | Some v \<Rightarrow> Ret v) (\<lambda>placement.
     if \<not> is_dict placement then Raise ManifestArgError ''--placement-json must be a JSON object''
     else
     bindE (getitem (PDict cell) ''approach'') (\<lambda>approach.
     bindE (getitem (PDict cell) ''map'') (\<lambda>map_name.
     bindE (run_index_from_dir (a_run_dir a)) (\<lambda>index.
     bindE (harness_git_sha env) (\<lambda>hsha.
     bindE (patches_git_sha env) (\<lambda>psha.
     bindE (dds_profile_sha256 env (given (a_dds_profile a))) (\<lambda>dds.
     Ret \<lparr>m_cell = PStr (given (a_cell a)), m_approach = PStr (py_str approach),
          m_map_name = PStr (py_str map_name), m_run_index = PInt index,
          m_arm = PStr (given (a_arm a)), m_harness_git_sha = PStr hsha,
          m_patches_git_sha = PStr psha,
          m_transport = PDict [(''rmw'', PStr (given (a_rmw a))),
                               (''shm_enabled'', PBool (given (a_shm a) = ''on'')),
                               (''dds_profile_sha256'', PStr dds)],
          m_carla_version = PStr (given (a_carla_version a)),
          m_autoware_image = PStr (given (a_autoware_image a)),
          m_started_at_ns = PInt (time_ns env), m_excluded = PBool False,
          m_exclusion_reason = PStr '''', m_placement = placement,
          m_duel_admissible = PBool (a_duel a), m_duel_id = PStr (a_duel_id a),
          m_class_id = PStr (a_class_id a)\<rparr>))))))))"

text \<open>\<open>exclude_manifest\<close> returns the rewritten manifest and the file it is saved to.\<close>

definition exclude_manifest :: "pyval \<Rightarrow> string \<Rightarrow> run_fs \<Rightarrow> (run_manifest \<times> run_fs) res" where
  "exclude_manifest doc reason fs =
     (if rd_manifest fs = JAbsent then Raise ManifestArgError ''no manifest to exclude''
      else bindE (load_manifest (rd_manifest fs)) (\<lambda>current.
        let updated = current\<lparr>m_excluded := PBool True, m_exclusion_reason := PStr reason\<rparr>
        in bindE (manifest_save doc updated) (\<lambda>f. Ret (updated, fs\<lparr>rd_manifest := f\<rparr>))))"

definition create_missing :: "wm_args \<Rightarrow> string list" where
  "create_missing a =
     map fst (filter (\<lambda>p. snd p = None)
       [(''--cell'', a_cell a), (''--arm'', a_arm a), (''--rmw'', a_rmw a), (''--shm'', a_shm a),
        (''--dds-profile'', a_dds_profile a), (''--carla-version'', a_carla_version a),
        (''--autoware-image'', a_autoware_image a), (''--placement-json'', a_placement_json a)])"

text \<open>The body of \<open>main\<close> inside its \<open>try\<close>: the file system is threaded, so an exception carries
  the state it was raised in.\<close>

definition write_manifest_body ::
  "wm_env \<Rightarrow> wm_args \<Rightarrow> run_fs \<Rightarrow> int res \<times> run_fs" where
  "write_manifest_body env a fs =
     (case a_exclude a of
        Some reason \<Rightarrow>
          (case exclude_manifest (cells_doc env) reason fs of
             Inl e \<Rightarrow> (Inl e, fs)
           | Inr (updated, fs') \<Rightarrow> (Ret 0, fs'))
      | None \<Rightarrow>
          if create_missing a \<noteq> []
          then (Raise ManifestArgError (''create mode needs '' @ join '', '' (create_missing a)), fs)
          else (case build_manifest env a of
             Inl e \<Rightarrow> (Inl e, fs)
           | Inr m \<Rightarrow> (case manifest_validate (cells_doc env) m of
               Inl e \<Rightarrow> (Inl e, fs)
             | Inr errs \<Rightarrow>
                 if errs \<noteq> []
                 then (Raise ManifestArgError (''invalid run manifest: '' @ join ''; '' errs), fs)
                 else let fs1 = fs\<lparr>rd_exists := True\<rparr>
                      in (case manifest_save (cells_doc env) m of
                            Inl e \<Rightarrow> (Inl e, fs1)
                          | Inr f \<Rightarrow> (Ret 0, fs1\<lparr>rd_manifest := f\<rparr>)))))"

definition EXIT_BAD_ARGS :: int where
  "EXIT_BAD_ARGS = 2"

definition write_manifest_main :: "wm_env \<Rightarrow> wm_args \<Rightarrow> run_fs \<Rightarrow> int res \<times> run_fs" where
  "write_manifest_main env a fs =
     (case write_manifest_body env a fs of (r, fs') \<Rightarrow>
        (catchE [ManifestArgError, ValueError] (\<lambda>_. Ret EXIT_BAD_ARGS) r, fs'))"

section \<open>The run index a name encodes\<close>

lemma split_slash_id: "CHR ''/'' \<notin> set y \<Longrightarrow> split_slash acc y = [rev acc @ y]"
  by (induction y arbitrary: acc) auto

lemma split_slash_append: "split_slash acc (x @ CHR ''/'' # y) = split_slash acc x @ split_slash [] y"
  by (induction x arbitrary: acc) auto

lemma path_name_last:
  assumes "CHR ''/'' \<notin> set y" "y \<noteq> []" "y \<noteq> ''.''"
  shows "path_name (x @ CHR ''/'' # y) = y"
  using assms by (simp add: path_name_def split_slash_append split_slash_id)

abbreviation digits :: "string \<Rightarrow> bool" where
  "digits s \<equiv> \<forall>c \<in> set s. digit_of c \<noteq> None"

lemma digits_show_nat: "digits (show_nat n)"
proof (induction n rule: show_nat.induct)
  case (1 n)
  then show ?case by (cases "n < 10") (auto simp: show_nat.simps [of n])
qed

lemma show_nat_nonempty: "show_nat n \<noteq> []"
  by (subst show_nat.simps) simp

lemma digit_not_space: "digit_of c \<noteq> None \<Longrightarrow> \<not> is_space c"
  by (auto simp: digit_of_def is_space_def Let_def split: if_splits)

lemma strip_digits: "digits s \<Longrightarrow> strip s = s"
  by (metis (no_types, lifting) digit_not_space dropWhile_eq_self_iff hd_in_set rev_rev_ident
      set_rev strip_def)

lemma split_sign_digits: "digits s \<Longrightarrow> split_sign s = (False, s)"
  by (rule split_sign.cases [of s]) (auto simp: digit_of_def)

lemma scan_zeros: "digits s \<Longrightarrow> s \<noteq> [] \<Longrightarrow>
    scan_digits 0 b (replicate k CHR ''0'' @ s) = scan_digits 0 False s"
proof (induction k arbitrary: b)
  case 0
  then show ?case by (cases s) (auto split: option.splits)
next
  case (Suc k)
  then show ?case by (simp add: digit_of_def)
qed

lemma parse_int_padded: "parse_int (replicate k CHR ''0'' @ show_nat n) = Some (int n)"
proof -
  have d: "digits (replicate k CHR ''0'' @ show_nat n)"
    using digits_show_nat [of n] by (auto simp: digit_of_def)
  show ?thesis
    using scan_zeros [OF digits_show_nat [of n] show_nat_nonempty, of False k]
    by (simp add: parse_int_def strip_digits [OF d] split_sign_digits [OF d] scan_show_nat)
qed

lemma run_dir_digits_digits:
  assumes "digits ds" "ds \<noteq> []"
  shows "run_dir_digits (''run-'' @ ds) = Some ds"
proof -
  have t: "takeWhile (\<lambda>c. digit_of c \<noteq> None) ds = ds" and d: "dropWhile (\<lambda>c. digit_of c \<noteq> None) ds = []"
    using assms(1) unfolding takeWhile_eq_all_conv dropWhile_eq_Nil_conv by blast+
  have "starts_with (''run-'' @ ds) ''run-''" "drop 4 (''run-'' @ ds) = ds" by simp_all
  then show ?thesis unfolding run_dir_digits_def Let_def using assms(2) by (simp only: t d) simp
qed

text \<open>The index is read off the directory name, whatever the parent directory and the zero
  padding: run-007 is run 7.\<close>

theorem run_index_roundtrip:
  "run_index_from_dir (parent @ ''/run-'' @ replicate k CHR ''0'' @ show_nat n) = Inr (int n)"
proof -
  let ?ds = "replicate k CHR ''0'' @ show_nat n"
  have d: "digits ?ds" using digits_show_nat [of n] by (auto simp: digit_of_def)
  have "CHR ''/'' \<notin> set ?ds"
  proof
    assume "CHR ''/'' \<in> set ?ds"
    with d have "digit_of CHR ''/'' \<noteq> None" by blast
    then show False by (simp add: digit_of_def)
  qed
  then have sl: "CHR ''/'' \<notin> set (''run-'' @ ?ds)" by simp
  have pn: "path_name (parent @ ''/run-'' @ ?ds) = ''run-'' @ ?ds"
    using path_name_last [OF sl] by simp
  have "run_dir_digits (''run-'' @ ?ds) = Some ?ds"
    using show_nat_nonempty [of n] by (intro run_dir_digits_digits [OF d]) simp
  then show ?thesis
    by (simp only: run_index_from_dir_def pn option.case py_int_def pyval.case parse_int_padded)
qed

section \<open>Creating a manifest\<close>

lemma build_manifest_fields:
  assumes "build_manifest env a = Inr m"
  shows "\<exists>cell i approach map_name hsha.
    cell_entry (cells_doc env) (given (a_cell a)) = Inr cell \<and>
    m_cell m = PStr (given (a_cell a)) \<and>
    map_of cell ''approach'' = Some approach \<and> m_approach m = PStr (py_str approach) \<and>
    map_of cell ''map'' = Some map_name \<and> m_map_name m = PStr (py_str map_name) \<and>
    run_index_from_dir (a_run_dir a) = Inr i \<and> m_run_index m = PInt i \<and>
    harness_git_sha env = Inr hsha \<and> m_harness_git_sha m = PStr hsha \<and>
    m_excluded m = PBool False \<and> m_duel_admissible m = PBool (a_duel a) \<and>
    m_duel_id m = PStr (a_duel_id a) \<and> m_class_id m = PStr (a_class_id a)"
  using assms
  by (auto simp: build_manifest_def py_splits catchE_def getitem_def
      split: if_split_asm sum.splits option.splits)

lemma write_manifest_create:
  assumes "write_manifest_main env a fs = (r, fs')" "a_exclude a = None"
  shows "fs' = fs \<and> r \<noteq> Inr 0 \<or>
    (\<exists>m. build_manifest env a = Inr m \<and> manifest_validate (cells_doc env) m = Inr [] \<and>
       r = Inr 0 \<and> fs' = \<lparr>rd_exists = True, rd_manifest = JDoc (manifest_asdict m)\<rparr>)"
proof (cases "build_manifest env a")
  case (Inl e)
  with assms show ?thesis
    by (auto simp: write_manifest_main_def write_manifest_body_def catchE_def EXIT_BAD_ARGS_def
        split: if_split_asm)
next
  case (Inr m)
  show ?thesis
  proof (cases "manifest_validate (cells_doc env) m = Inr []")
    case True
    then have "manifest_save (cells_doc env) m = Inr (JDoc (manifest_asdict m))"
      by (simp add: manifest_save_Inr)
    with assms Inr True show ?thesis
      by (auto simp: write_manifest_main_def write_manifest_body_def catchE_def EXIT_BAD_ARGS_def
          exc_isa_def split: if_split_asm)
  next
    case False
    with assms Inr show ?thesis
      by (cases "manifest_validate (cells_doc env) m")
        (auto simp: write_manifest_main_def write_manifest_body_def catchE_def EXIT_BAD_ARGS_def
          split: if_split_asm)
  qed
qed


definition sample_env :: wm_env where
  "sample_env =
     \<lparr>git = (\<lambda>args. if args = [''rev-parse'', ''HEAD''] then (0, ''abc'', '''')
                else if hd args = ''status'' then (0, '' M x'', '''') else (0, '''', '''')),
      file_sha256 = (\<lambda>_. None),
      json_loads = (\<lambda>s. if s = ''{}'' then Some (PDict []) else
        Some (PDict [(''run_mode'', PStr ''x''), (''container_image'', PStr ''y''), (''observer_env'', PStr ''z'')])),
      time_ns = 5,
      cells_doc = PDict [(''cells'', PList [PDict [(''id'', PStr ''A''),
        (''approach'', PStr ''python-bridge''), (''map'', PStr ''Town10'')]])]\<rparr>"

definition sample_args :: "string \<Rightarrow> wm_args" where
  "sample_args placement =
     \<lparr>a_run_dir = ''results/A/run-007'', a_cell = Some ''A'', a_arm = Some ''paced'',
      a_rmw = Some ''cyclone'', a_shm = Some ''off'', a_dds_profile = Some ''none'',
      a_carla_version = Some ''0.10'', a_autoware_image = Some ''img'',
      a_placement_json = Some placement, a_duel = False, a_duel_id = '''', a_class_id = ''vlp16'',
      a_exclude = None\<rparr>"

definition empty_fs :: run_fs where
  "empty_fs = \<lparr>rd_exists = False, rd_manifest = JAbsent\<rparr>"


text \<open>Without uncommitted changes the recorded harness revision is git's HEAD, with them it
  carries the dirty suffix: a bare revision in a manifest asserts a clean tree.\<close>

theorem harness_sha_marks_dirty:
  assumes "build_manifest env a = Inr m" "run_git env [''rev-parse'', ''HEAD''] = Inr sha"
  shows "\<exists>dirty. tree_is_dirty env = Inr dirty \<and>
    m_harness_git_sha m = PStr (if dirty then sha @ ''-dirty'' else sha)"
proof -
  obtain hsha where "harness_git_sha env = Inr hsha" "m_harness_git_sha m = PStr hsha"
    using build_manifest_fields [OF assms(1)] by blast
  with assms(2) show ?thesis
    by (cases "tree_is_dirty env") (auto simp: harness_git_sha_def dirty_suffix_def)
qed

theorem harness_sha_marks_dirty_witness:
  "\<exists>m. build_manifest sample_env (sample_args ''full'') = Inr m \<and>
     m_harness_git_sha m = PStr ''abc-dirty''"
proof -
  have "result_opt (build_manifest sample_env (sample_args ''full'')) \<noteq> None" by code_simp
  then obtain m where m: "build_manifest sample_env (sample_args ''full'') = Inr m"
    by (auto simp: result_opt_def split: sum.splits)
  have g: "run_git sample_env [''rev-parse'', ''HEAD''] = Inr ''abc''" by code_simp
  have d: "tree_is_dirty sample_env = Inr True" by code_simp
  from harness_sha_marks_dirty [OF m g] d have "m_harness_git_sha m = PStr ''abc-dirty''" by auto
  with m show ?thesis by blast
qed

section \<open>Rewriting a manifest\<close>

text \<open>Rewrite mode changes nothing but the two exclusion fields: when it succeeds, the old
  file was a manifest and the new one is that manifest marked excluded with the given reason, which
  the vocabulary admits; when it does not, the file is untouched.\<close>

theorem exclude_preserves:
  assumes "write_manifest_main env a fs = (r, fs')" "a_exclude a = Some reason"
  shows "if r = Inr 0
    then rd_exists fs' = rd_exists fs \<and> exclusion_registered reason \<and>
      (\<exists>m. load_manifest (rd_manifest fs) = Inr m \<and>
        load_manifest (rd_manifest fs') =
          Inr (m\<lparr>m_excluded := PBool True, m_exclusion_reason := PStr reason\<rparr>))
    else fs' = fs"
proof (cases "exclude_manifest (cells_doc env) reason fs")
  case (Inl e)
  with assms show ?thesis
    by (auto simp: write_manifest_main_def write_manifest_body_def catchE_def EXIT_BAD_ARGS_def
        split: if_split_asm)
next
  case (Inr p)
  obtain u fs1 where p: "p = (u, fs1)" by (cases p)
  with Inr obtain m where m: "load_manifest (rd_manifest fs) = Inr m"
    and u: "u = m\<lparr>m_excluded := PBool True, m_exclusion_reason := PStr reason\<rparr>"
    and v: "manifest_validate (cells_doc env) u = Inr []"
    and fs1: "fs1 = fs\<lparr>rd_manifest := JDoc (manifest_asdict u)\<rparr>"
    by (auto simp: exclude_manifest_def py_splits Let_def manifest_save_Inr split: if_split_asm)
  have "exclusion_registered reason"
    using v u by (auto simp: validate_iff_ok manifest_ok_def)
  moreover have "r = Inr 0" "fs' = fs1"
    using assms Inr p by (auto simp: write_manifest_main_def write_manifest_body_def)
  ultimately show ?thesis using m u fs1 by (simp add: load_asdict)
qed

definition excluded_args :: "string \<Rightarrow> wm_args" where
  "excluded_args reason = (sample_args ''full'')\<lparr>a_exclude := Some reason\<rparr>"

theorem exclude_preserves_witness:
  "let fs = snd (write_manifest_main sample_env (sample_args ''full'') empty_fs) in
   load_manifest (rd_manifest (snd (write_manifest_main sample_env (excluded_args ''stall:clock'') fs))) =
     map_sum id (\<lambda>m. m\<lparr>m_excluded := PBool True, m_exclusion_reason := PStr ''stall:clock''\<rparr>)
       (load_manifest (rd_manifest fs)) \<and>
   snd (write_manifest_main sample_env (excluded_args ''because'') fs) = fs"
proof -
  let ?fs = "snd (write_manifest_main sample_env (sample_args ''full'') empty_fs)"
  have e: "a_exclude (excluded_args s) = Some s" for s by (simp add: excluded_args_def)
  note w = exclude_preserves [OF prod.collapse [symmetric] e]
  have "fst (write_manifest_main sample_env (excluded_args ''stall:clock'') ?fs) = Inr 0" by code_simp
  moreover have "fst (write_manifest_main sample_env (excluded_args ''because'') ?fs) = Inr 2" by code_simp
  ultimately show ?thesis
    using w [of sample_env "''stall:clock''" ?fs] w [of sample_env "''because''" ?fs] by (auto simp: Let_def)
qed

end
