(* ===== verification/Numpy_Ops.thy ===== *)
theory Numpy_Ops
  imports Py_Values
begin

text \<open>
  Arrays. A one-dimensional int64 or float64 array is a list; comparison, masking, sorting and
  differencing act elementwise on it. int64 subtraction wraps at 64 bits, and converting Python
  ints to int64 raises when one does not fit.

  The reductions whose rounding order is numpy's own (median, percentile, mean, dot product,
  Euclidean norm) and its random generator are parameters: the fields of the record \<open>np_ops\<close>,
  which every definition that needs one takes as an argument.
\<close>

section \<open>int64\<close>

definition in_i64 :: "int \<Rightarrow> bool" where
  "in_i64 n \<longleftrightarrow> - (2 ^ 63) \<le> n \<and> n < 2 ^ 63"

definition wrap64 :: "int \<Rightarrow> int" where
  "wrap64 n = (n + 2 ^ 63) mod 2 ^ 64 - 2 ^ 63"

lemma wrap64_in_i64: "in_i64 (wrap64 n)"
  by (simp add: in_i64_def wrap64_def)

lemma wrap64_id [simp]: "in_i64 n \<Longrightarrow> wrap64 n = n"
  by (simp add: in_i64_def wrap64_def)

definition i64_sub :: "int \<Rightarrow> int \<Rightarrow> int" where
  "i64_sub a b = wrap64 (a - b)"

lemma i64_sub_exact: "in_i64 (a - b) \<Longrightarrow> i64_sub a b = a - b"
  by (simp add: i64_sub_def)

text \<open>Two stamps that are both non-negative never wrap.\<close>

lemma i64_sub_stamps: "in_i64 a \<Longrightarrow> in_i64 b \<Longrightarrow> 0 \<le> a \<Longrightarrow> 0 \<le> b \<Longrightarrow> i64_sub a b = a - b"
  by (rule i64_sub_exact) (simp add: in_i64_def)

text \<open>\<open>np.asarray(ints, dtype=np.int64)\<close>.\<close>

definition as_i64 :: "int list \<Rightarrow> int list res" where
  "as_i64 ns =
     (if list_all in_i64 ns then Ret ns
      else Raise OverflowError ''Python int too large to convert to C long'')"

lemma as_i64_Inr: "as_i64 ns = Inr ms \<longleftrightarrow> ms = ns \<and> (\<forall>n \<in> set ns. in_i64 n)"
  by (auto simp: as_i64_def list_all_iff)

section \<open>Elementwise operations\<close>

text \<open>\<open>xs[mask]\<close>.\<close>

fun select :: "bool list \<Rightarrow> 'a list \<Rightarrow> 'a list" where
  "select (b # bs) (x # xs) = (if b then x # select bs xs else select bs xs)"
| "select bs xs = []"

lemma select_map [simp]: "select (map P xs) xs = filter P xs"
  by (induction xs) auto

lemma select_set: "set (select bs xs) \<subseteq> set xs"
  by (induction bs xs rule: select.induct) auto

lemma length_select_le: "length (select bs xs) \<le> length xs"
  by (induction bs xs rule: select.induct) auto

lemma length_select_mask:
  "length ys = length xs \<Longrightarrow> length (select (map P xs) ys) = length (filter P xs)"
  by (induction xs ys rule: list_induct2') auto

text \<open>\<open>np.diff\<close> of an int64 array.\<close>

fun np_diff :: "int list \<Rightarrow> int list" where
  "np_diff (a # b # xs) = i64_sub b a # np_diff (b # xs)"
| "np_diff xs = []"

lemma length_np_diff [simp]: "length (np_diff xs) = length xs - 1"
  by (induction xs rule: np_diff.induct) auto

lemma np_diff_nth: "Suc i < length xs \<Longrightarrow> np_diff xs ! i = i64_sub (xs ! Suc i) (xs ! i)"
proof (induction xs arbitrary: i rule: np_diff.induct)
  case (1 a b xs)
  then show ?case by (cases i) auto
qed auto

lemma np_diff_sorted_nonneg:
  assumes "sorted xs" "\<forall>x \<in> set xs. in_i64 x \<and> 0 \<le> x"
  shows "\<forall>d \<in> set (np_diff xs). 0 \<le> d"
  using assms by (induction xs rule: np_diff.induct) (auto simp: i64_sub_stamps)

section \<open>Library reductions\<close>

record 'g np_ops =
  np_median :: "f64 list \<Rightarrow> f64"
  np_percentile :: "f64 list \<Rightarrow> f64 \<Rightarrow> f64"
  np_quantile :: "f64 list \<Rightarrow> f64 \<Rightarrow> f64"
  np_mean :: "f64 list \<Rightarrow> f64"
  np_dot :: "f64 list \<Rightarrow> f64 list \<Rightarrow> f64"
  np_norm :: "f64 \<times> f64 \<Rightarrow> f64"
  np_default_rng :: "int \<Rightarrow> 'g"
  np_choice :: "'g \<Rightarrow> f64 list \<Rightarrow> nat \<Rightarrow> f64 list \<times> 'g"

text \<open>What the documentation of \<open>np.median\<close> promises and the verdict tools rely on: the median of
  a non-empty array without NaN lies between two of its elements.\<close>

definition median_between :: "(f64 list \<Rightarrow> f64) \<Rightarrow> bool" where
  "median_between med \<longleftrightarrow>
     (\<forall>xs. xs \<noteq> [] \<and> NaN \<notin> set xs \<longrightarrow> (\<exists>a \<in> set xs. \<exists>b \<in> set xs. a \<le> med xs \<and> med xs \<le> b))"

end
