(* ===== verification/Bench_IO.thy ===== *)
theory Bench_IO
  imports Numpy_Ops
begin

text \<open>
  \<^verbatim>\<open>benchmarks/analysis/bench_io.py\<close>: the readers of the recorder's CSV files. Each reader scans
  the rows once, keeps one group of columns per key (a \<open>defaultdict\<close>), and appends to it; the
  groups then become arrays. \<open>group_rows\<close> is that scan, for any key, initial group and append.

  The locale \<open>column_group\<close> states what a reader's group and append promise: one value per row and
  column, appended at the end. Its lemma says what every grouped read means: a group's column is
  the values of exactly that key's rows, in file order, so the columns of a group have equal
  lengths and no row is lost or filed twice. It is interpreted on the int columns of the observer
  and published-time files, and on the columns of odometry, pose and resource files.
\<close>

definition OBSERVER_COLS :: "string list" where
  "OBSERVER_COLS = [''header_stamp_ns'', ''arrival_system_ns'', ''arrival_steady_ns'', ''clock_ns'',
     ''size_bytes'']"

definition PUBLISHED_COLS :: "string list" where
  "PUBLISHED_COLS = [''source_header_ns'', ''published_ns'']"

definition RESOURCE_INT_COLS :: "string list" where
  "RESOURCE_INT_COLS = [''sample_system_ns'', ''rss_bytes'', ''vram_bytes'']"

definition RESOURCE_FLOAT_COLS :: "string list" where
  "RESOURCE_FLOAT_COLS = [''cpu_pct'', ''gpu_util_pct'', ''rtf'']"

definition RESOURCE_OPTIONAL_FLOAT_COLS :: "string list" where
  "RESOURCE_OPTIONAL_FLOAT_COLS = [''loadavg_1m'']"

definition ODOM_INT_COLS :: "string list" where
  "ODOM_INT_COLS = [''header_stamp_ns'']"

definition ODOM_FLOAT_COLS :: "string list" where
  "ODOM_FLOAT_COLS = [''x_m'', ''y_m'']"

definition GT_INT_COLS :: "string list" where
  "GT_INT_COLS = [''arrival_system_ns'', ''sim_ns'']"

definition GT_FLOAT_COLS :: "string list" where
  "GT_FLOAT_COLS = [''x_m'', ''y_m'', ''z_m'', ''yaw_rad'']"

section \<open>Cells, columns and groups\<close>

text \<open>A key is a cell: its text, or \<open>None\<close> in a row too short to have it.\<close>

type_synonym cell = "string option"

type_synonym 'v columns = "(string \<times> 'v list) list"

definition row_cell :: "csv_row \<Rightarrow> string \<Rightarrow> cell res" where
  "row_cell row c = (case map_of row c of None \<Rightarrow> Raise KeyError c | Some v \<Rightarrow> Ret v)"

definition int_cell :: "csv_row \<Rightarrow> string \<Rightarrow> int res" where
  "int_cell row c = bindE (cell_value row c) py_int"

definition float_cell :: "csv_row \<Rightarrow> string \<Rightarrow> f64 res" where
  "float_cell row c = bindE (cell_value row c) py_float"

definition empty_cols :: "string list \<Rightarrow> 'v columns" where
  "empty_cols cols = map (\<lambda>c. (c, [])) cols"

definition col :: "'v columns \<Rightarrow> string \<Rightarrow> 'v list" where
  "col g c = (case map_of g c of None \<Rightarrow> [] | Some vs \<Rightarrow> vs)"

text \<open>\<open>for c in cols: g[c].append(read(row, c))\<close>.\<close>

definition append_cols ::
  "(csv_row \<Rightarrow> string \<Rightarrow> 'v res) \<Rightarrow> string list \<Rightarrow> csv_row \<Rightarrow> 'v columns \<Rightarrow> 'v columns res" where
  "append_cols read cols row g =
     foldE (\<lambda>g c. bindE (read row c) (\<lambda>v. Ret (dict_set c (col g c @ [v]) g))) g cols"

text \<open>The scan: \<open>grouped[key(row)]\<close> is created on its first row, and every row is appended.\<close>

definition group_step ::
  "(csv_row \<Rightarrow> 'k res) \<Rightarrow> 'g \<Rightarrow> (csv_row \<Rightarrow> 'g \<Rightarrow> 'g res) \<Rightarrow> ('k \<times> 'g) list \<Rightarrow> csv_row \<Rightarrow> ('k \<times> 'g) list res" where
  "group_step key init add grouped row =
     bindE (key row) (\<lambda>k.
     bindE (add row (case map_of grouped k of None \<Rightarrow> init | Some g \<Rightarrow> g)) (\<lambda>g.
       Ret (dict_set k g grouped)))"

definition group_rows ::
  "(csv_row \<Rightarrow> 'k res) \<Rightarrow> 'g \<Rightarrow> (csv_row \<Rightarrow> 'g \<Rightarrow> 'g res) \<Rightarrow> csv_row list \<Rightarrow> ('k \<times> 'g) list res" where
  "group_rows key init add rows = foldE (group_step key init add) [] rows"

text \<open>The conversion of every group to arrays: only the int columns can fail.\<close>

definition i64_columns :: "int columns \<Rightarrow> int columns res" where
  "i64_columns g = mapE (\<lambda>(c, v). bindE (as_i64 v) (\<lambda>v'. Ret (c, v'))) g"

definition convert_groups :: "('g \<Rightarrow> 'h res) \<Rightarrow> ('k \<times> 'g) list \<Rightarrow> ('k \<times> 'h) list res" where
  "convert_groups conv grouped = mapE (\<lambda>(k, g). bindE (conv g) (\<lambda>h. Ret (k, h))) grouped"

section \<open>The readers\<close>

definition read_grouped :: "string list \<Rightarrow> csv_file \<Rightarrow> (cell \<times> int columns) list res" where
  "read_grouped cols f =
     bindE (read_rows f) (\<lambda>rows.
     bindE (group_rows (\<lambda>row. row_cell row ''topic'') (empty_cols cols) (append_cols int_cell cols) rows)
       (convert_groups i64_columns))"

definition read_observer_csv :: "csv_file \<Rightarrow> (cell \<times> int columns) list res" where
  "read_observer_csv f = read_grouped OBSERVER_COLS f"

definition read_published_time_csv :: "csv_file \<Rightarrow> (cell \<times> int columns) list res" where
  "read_published_time_csv f = read_grouped PUBLISHED_COLS f"

definition optional_float :: "pyval \<Rightarrow> f64 res" where
  "optional_float v = (if v = PNone \<or> strip (py_str v) = [] then Ret NaN else py_float v)"

text \<open>\<open>_optional_float(row.get(c))\<close>.\<close>

definition optional_cell :: "csv_row \<Rightarrow> string \<Rightarrow> f64 res" where
  "optional_cell row c =
     optional_float (case map_of row c of Some (Some s) \<Rightarrow> PStr s | _ \<Rightarrow> PNone)"

record typed_columns =
  tc_ints :: "int columns"
  tc_floats :: "f64 columns"

definition add_resource_row :: "csv_row \<Rightarrow> typed_columns \<Rightarrow> typed_columns res" where
  "add_resource_row row g =
     bindE (append_cols int_cell RESOURCE_INT_COLS row (tc_ints g)) (\<lambda>i.
     bindE (append_cols float_cell RESOURCE_FLOAT_COLS row (tc_floats g)) (\<lambda>f1.
     bindE (append_cols optional_cell RESOURCE_OPTIONAL_FLOAT_COLS row f1) (\<lambda>f2.
       Ret \<lparr>tc_ints = i, tc_floats = f2\<rparr>)))"

definition convert_typed :: "typed_columns \<Rightarrow> typed_columns res" where
  "convert_typed g = bindE (i64_columns (tc_ints g)) (\<lambda>i. Ret (g\<lparr>tc_ints := i\<rparr>))"

definition empty_resource :: typed_columns where
  "empty_resource =
     \<lparr>tc_ints = empty_cols RESOURCE_INT_COLS,
      tc_floats = empty_cols (RESOURCE_FLOAT_COLS @ RESOURCE_OPTIONAL_FLOAT_COLS)\<rparr>"

definition read_resources_csv :: "csv_file \<Rightarrow> (cell \<times> typed_columns) list res" where
  "read_resources_csv f =
     bindE (read_rows f) (\<lambda>rows.
     bindE (group_rows (\<lambda>row. row_cell row ''process'') empty_resource add_resource_row rows)
       (convert_groups convert_typed))"

definition add_xy_row :: "csv_row \<Rightarrow> typed_columns \<Rightarrow> typed_columns res" where
  "add_xy_row row g =
     bindE (append_cols int_cell ODOM_INT_COLS row (tc_ints g)) (\<lambda>i.
     bindE (append_cols float_cell ODOM_FLOAT_COLS row (tc_floats g)) (\<lambda>f.
       Ret \<lparr>tc_ints = i, tc_floats = f\<rparr>))"

definition empty_xy :: typed_columns where
  "empty_xy = \<lparr>tc_ints = empty_cols ODOM_INT_COLS, tc_floats = empty_cols ODOM_FLOAT_COLS\<rparr>"

definition read_xy_csv :: "csv_file \<Rightarrow> (cell \<times> typed_columns) list res" where
  "read_xy_csv f =
     bindE (read_rows f) (\<lambda>rows.
     bindE (group_rows (\<lambda>row. row_cell row ''topic'') empty_xy add_xy_row rows)
       (convert_groups convert_typed))"

definition read_odometry_csv :: "csv_file \<Rightarrow> (cell \<times> typed_columns) list res" where
  "read_odometry_csv f = read_xy_csv f"

definition read_pose_csv :: "csv_file \<Rightarrow> (cell \<times> typed_columns) list res" where
  "read_pose_csv f = read_xy_csv f"

text \<open>tf.csv: the stamps and the set of parent frames per (topic, child frame). Sorting a set that
  mixes a missing cell with texts raises.\<close>

definition add_tf_row :: "csv_row \<Rightarrow> int list \<times> cell list \<Rightarrow> (int list \<times> cell list) res" where
  "add_tf_row row g =
     bindE (int_cell row ''header_stamp_ns'') (\<lambda>n.
     bindE (row_cell row ''frame_id'') (\<lambda>p.
       Ret (fst g @ [n], if p \<in> set (snd g) then snd g else snd g @ [p])))"

definition sorted_cells :: "cell list \<Rightarrow> cell list res" where
  "sorted_cells cs =
     (if None \<in> set cs \<and> length cs > 1 then Raise TypeError ''not supported between instances''
      else if None \<in> set cs then Ret cs
      else Ret (map Some (sort (map the cs))))"

definition read_tf_csv :: "csv_file \<Rightarrow> ((cell \<times> cell) \<times> int list \<times> cell list) list res" where
  "read_tf_csv f =
     bindE (read_rows f) (\<lambda>rows.
     bindE (group_rows (\<lambda>row. bindE (row_cell row ''topic'') (\<lambda>t.
                              bindE (row_cell row ''child_frame_id'') (\<lambda>c. Ret (t, c))))
              ([], []) add_tf_row rows)
       (convert_groups (\<lambda>(ns, ps). bindE (as_i64 ns) (\<lambda>a. bindE (sorted_cells ps) (\<lambda>s. Ret (a, s))))))"

text \<open>gt.csv keeps the texts and converts whole columns; a missing cell converts to NaN in a float
  array and raises in an int one.\<close>

definition gt_column :: "csv_row list \<Rightarrow> string \<Rightarrow> cell list res" where
  "gt_column rows c = mapE (\<lambda>row. row_cell row c) rows"

definition cells_to_i64 :: "cell list \<Rightarrow> int list res" where
  "cells_to_i64 cs =
     bindE (mapE (\<lambda>v. py_int (case v of None \<Rightarrow> PNone | Some s \<Rightarrow> PStr s)) cs) as_i64"

definition cells_to_f64 :: "cell list \<Rightarrow> f64 list res" where
  "cells_to_f64 cs = mapE (\<lambda>v. case v of None \<Rightarrow> Ret NaN | Some s \<Rightarrow> py_float (PStr s)) cs"

definition read_gt_csv :: "csv_file \<Rightarrow> typed_columns res" where
  "read_gt_csv f =
     bindE (read_rows f) (\<lambda>rows.
     bindE (mapE (\<lambda>c. bindE (gt_column rows c) (\<lambda>v. Ret (c, v))) (GT_INT_COLS @ GT_FLOAT_COLS)) (\<lambda>cols.
     bindE (mapE (\<lambda>c. bindE (cells_to_i64 (col cols c)) (\<lambda>v. Ret (c, v))) GT_INT_COLS) (\<lambda>i.
     bindE (mapE (\<lambda>c. bindE (cells_to_f64 (col cols c)) (\<lambda>v. Ret (c, v))) GT_FLOAT_COLS) (\<lambda>fl.
       Ret \<lparr>tc_ints = i, tc_floats = fl\<rparr>))))"

definition read_clock_csv :: "csv_file \<Rightarrow> (int list \<times> int list) res" where
  "read_clock_csv f =
     bindE (read_rows f) (\<lambda>rows.
     bindE (mapE (\<lambda>row. bindE (int_cell row ''clock_ns'') (\<lambda>c.
              bindE (int_cell row ''arrival_system_ns'') (\<lambda>w. Ret (c, w)))) rows) (\<lambda>ps.
     bindE (as_i64 (map fst ps)) (\<lambda>clock. bindE (as_i64 (map snd ps)) (\<lambda>wall. Ret (clock, wall)))))"

section \<open>What a grouped read means\<close>

lemma mapE_append:
  "mapE f (xs @ ys) = bindE (mapE f xs) (\<lambda>a. bindE (mapE f ys) (\<lambda>b. Inr (a @ b)))"
proof (induction xs)
  case Nil
  then show ?case by (cases "mapE f ys") auto
next
  case (Cons x xs)
  then show ?case by (cases "f x"; cases "mapE f xs"; cases "mapE f ys") auto
qed

lemma group_rows_snoc:
  "group_rows key init add (rows @ [r]) =
     bindE (group_rows key init add rows) (\<lambda>s. group_step key init add s r)"
  by (simp add: group_rows_def foldE_append) (simp add: bindE_def split: sum.split)

lemma group_step_Inr:
  assumes "group_step key init add s r = Inr s'"
  shows "\<exists>k g. key r = Inr k \<and> add r (case map_of s k of None \<Rightarrow> init | Some g \<Rightarrow> g) = Inr g \<and>
    s' = dict_set k g s"
  using assms by (auto simp: group_step_def py_splits)

locale column_group =
  fixes init :: 'g
    and add :: "csv_row \<Rightarrow> 'g \<Rightarrow> 'g res"
    and cols :: "string list"
    and view :: "'g \<Rightarrow> string \<Rightarrow> 'v list"
    and read :: "csv_row \<Rightarrow> string \<Rightarrow> 'v res"
  assumes view_init: "c \<in> set cols \<Longrightarrow> view init c = []"
    and view_add: "add row g = Inr g' \<Longrightarrow> c \<in> set cols \<Longrightarrow>
      \<exists>v. read row c = Inr v \<and> view g' c = view g c @ [v]"
begin

lemma group_rows_column:
  assumes "group_rows key init add rows = Inr grouped" "c \<in> set cols"
  shows "case map_of grouped k of
      Some g \<Rightarrow> mapE (\<lambda>r. read r c) (filter (\<lambda>r. key r = Inr k) rows) = Inr (view g c)
    | None \<Rightarrow> filter (\<lambda>r. key r = Inr k) rows = []"
  using assms(1)
proof (induction rows arbitrary: grouped rule: rev_induct)
  case Nil
  then show ?case by (simp add: group_rows_def)
next
  case (snoc r rows)
  then obtain s where s: "group_rows key init add rows = Inr s"
    and step: "group_step key init add s r = Inr grouped"
    by (auto simp: group_rows_snoc py_splits)
  from group_step_Inr [OF step] obtain kr g where kr: "key r = Inr kr"
    and g: "add r (case map_of s kr of None \<Rightarrow> init | Some g \<Rightarrow> g) = Inr g"
    and grouped: "grouped = dict_set kr g s" by blast
  from view_add [OF g assms(2)] obtain v where v: "read r c = Inr v"
    and vg: "view g c = view (case map_of s kr of None \<Rightarrow> init | Some g \<Rightarrow> g) c @ [v]" by blast
  show ?case
    using snoc.IH [OF s] kr v vg view_init [OF assms(2)]
    by (cases "map_of s k") (auto simp: grouped mapE_append split: option.splits)
qed

lemma group_rows_length:
  assumes "group_rows key init add rows = Inr grouped" "map_of grouped k = Some g" "c \<in> set cols"
  shows "length (view g c) = length (filter (\<lambda>r. key r = Inr k) rows)"
  using group_rows_column [OF assms(1,3), of k] assms(2) mapE_Inr_length by fastforce

lemma group_rows_aligned:
  assumes "group_rows key init add rows = Inr grouped" "map_of grouped k = Some g"
    "c \<in> set cols" "d \<in> set cols"
  shows "length (view g c) = length (view g d)"
  using group_rows_length [OF assms(1,2)] assms(3,4) by simp

end

lemma append_cols_col:
  assumes "append_cols read cs row g = Inr g'" "distinct cs"
  shows "if c \<in> set cs then \<exists>v. read row c = Inr v \<and> col g' c = col g c @ [v] else col g' c = col g c"
  using assms
proof (induction cs arbitrary: g)
  case Nil
  then show ?case by (simp add: append_cols_def)
next
  case (Cons d cs)
  then obtain v where v: "read row d = Inr v"
    and rest: "append_cols read cs row (dict_set d (col g d @ [v]) g) = Inr g'"
    by (auto simp: append_cols_def py_splits)
  have c: "col (dict_set d (col g d @ [v]) g) e = (if e = d then col g d @ [v] else col g e)" for e
    by (simp add: col_def)
  show ?case using Cons.IH [OF rest] Cons.prems(2) v by (auto simp: c)
qed

lemmas append_cols_view = append_cols_col [THEN iffD1 [OF if_bool_eq_conj], THEN conjunct1, THEN mp]
lemmas append_cols_other = append_cols_col [THEN iffD1 [OF if_bool_eq_conj], THEN conjunct2, THEN mp]

lemma col_empty_cols [simp]: "col (empty_cols cs) c = []"
  by (auto simp: col_def empty_cols_def split: option.split dest!: map_of_SomeD)

interpretation observer_cols: column_group "empty_cols OBSERVER_COLS" "append_cols int_cell OBSERVER_COLS"
    OBSERVER_COLS col int_cell
  by unfold_locales (auto intro!: append_cols_view simp: OBSERVER_COLS_def)

interpretation published_cols: column_group "empty_cols PUBLISHED_COLS" "append_cols int_cell PUBLISHED_COLS"
    PUBLISHED_COLS col int_cell
  by unfold_locales (auto intro!: append_cols_view simp: PUBLISHED_COLS_def)

interpretation xy_ints: column_group empty_xy add_xy_row ODOM_INT_COLS "\<lambda>g. col (tc_ints g)" int_cell
  by unfold_locales
    (auto simp: add_xy_row_def empty_xy_def py_splits ODOM_INT_COLS_def intro!: append_cols_view)

interpretation xy_floats: column_group empty_xy add_xy_row ODOM_FLOAT_COLS "\<lambda>g. col (tc_floats g)" float_cell
  by unfold_locales
    (auto simp: add_xy_row_def empty_xy_def py_splits ODOM_FLOAT_COLS_def intro!: append_cols_view)

interpretation resource_ints: column_group empty_resource add_resource_row RESOURCE_INT_COLS
    "\<lambda>g. col (tc_ints g)" int_cell
  by unfold_locales
    (auto simp: add_resource_row_def empty_resource_def py_splits RESOURCE_INT_COLS_def
      intro!: append_cols_view)

lemma resource_float_view:
  assumes "add_resource_row row g = Inr g'"
  shows "c \<in> set RESOURCE_FLOAT_COLS \<Longrightarrow>
      \<exists>v. float_cell row c = Inr v \<and> col (tc_floats g') c = col (tc_floats g) c @ [v]"
    and "c \<in> set RESOURCE_OPTIONAL_FLOAT_COLS \<Longrightarrow>
      \<exists>v. optional_cell row c = Inr v \<and> col (tc_floats g') c = col (tc_floats g) c @ [v]"
proof -
  from assms obtain f1 where
    f1: "append_cols float_cell RESOURCE_FLOAT_COLS row (tc_floats g) = Inr f1" and
    f2: "append_cols optional_cell RESOURCE_OPTIONAL_FLOAT_COLS row f1 = Inr (tc_floats g')"
    by (auto simp: add_resource_row_def py_splits)
  note d = RESOURCE_FLOAT_COLS_def RESOURCE_OPTIONAL_FLOAT_COLS_def
  { assume c: "c \<in> set RESOURCE_FLOAT_COLS"
    then have "c \<notin> set RESOURCE_OPTIONAL_FLOAT_COLS" by (auto simp: d)
    then have "col (tc_floats g') c = col f1 c" by (intro append_cols_other [OF f2]) (simp_all add: d)
    then show "\<exists>v. float_cell row c = Inr v \<and> col (tc_floats g') c = col (tc_floats g) c @ [v]"
      using append_cols_view [OF f1 _ c] by (simp add: d) }
  { assume c: "c \<in> set RESOURCE_OPTIONAL_FLOAT_COLS"
    then have "c \<notin> set RESOURCE_FLOAT_COLS" by (auto simp: d)
    then have "col f1 c = col (tc_floats g) c" by (intro append_cols_other [OF f1]) (simp_all add: d)
    then show "\<exists>v. optional_cell row c = Inr v \<and> col (tc_floats g') c = col (tc_floats g) c @ [v]"
      using append_cols_view [OF f2 _ c] by (simp add: d) }
qed

interpretation resource_floats: column_group empty_resource add_resource_row RESOURCE_FLOAT_COLS
    "\<lambda>g. col (tc_floats g)" float_cell
  by unfold_locales (simp_all add: empty_resource_def resource_float_view(1))

interpretation resource_optional: column_group empty_resource add_resource_row
    RESOURCE_OPTIONAL_FLOAT_COLS "\<lambda>g. col (tc_floats g)" optional_cell
  by unfold_locales (simp_all add: empty_resource_def resource_float_view(2))

lemma convert_groups_Inr:
  assumes "convert_groups conv grouped = Inr hs"
  shows "map_of hs k = Some h \<Longrightarrow> \<exists>g. map_of grouped k = Some g \<and> conv g = Inr h"
    and "map_of hs k = None \<longleftrightarrow> map_of grouped k = None"
  using assms
  by (induction grouped arbitrary: hs)
    (auto simp: convert_groups_def py_splits split: if_split_asm)

lemma i64_columns_col: "i64_columns g = Inr h \<Longrightarrow> col h c = col g c \<and> (\<forall>n \<in> set (col h c). in_i64 n)"
  by (induction g arbitrary: h)
    (auto simp: i64_columns_def py_splits col_def as_i64_Inr split: if_split_asm option.split)

section \<open>Properties of the readers\<close>

text \<open>A grouped read of the observer file is lossless and aligned: the column of a topic is
  the values of exactly the rows of that topic, in file order, each an int64; every column of the
  topic therefore has one entry per row, and a topic has a group exactly when a row names it.\<close>

theorem read_observer_columns:
  assumes "read_observer_csv (CRows rows) = Inr groups" "c \<in> set OBSERVER_COLS"
  shows "case map_of groups k of
      Some g \<Rightarrow> mapE (\<lambda>r. int_cell r c) (filter (\<lambda>r. row_cell r ''topic'' = Inr k) rows) = Inr (col g c) \<and>
        length (col g c) = length (filter (\<lambda>r. row_cell r ''topic'' = Inr k) rows) \<and>
        (\<forall>n \<in> set (col g c). in_i64 n)
    | None \<Rightarrow> filter (\<lambda>r. row_cell r ''topic'' = Inr k) rows = []"
proof -
  from assms(1) obtain raw where
    raw: "group_rows (\<lambda>row. row_cell row ''topic'') (empty_cols OBSERVER_COLS)
      (append_cols int_cell OBSERVER_COLS) rows = Inr raw"
    and conv: "convert_groups i64_columns raw = Inr groups"
    by (auto simp: read_observer_csv_def read_grouped_def read_rows_def py_splits)
  note column = observer_cols.group_rows_column [OF raw assms(2), of k]
  show ?thesis
  proof (cases "map_of groups k")
    case None
    with column convert_groups_Inr(2) [OF conv, of k] show ?thesis by simp
  next
    case (Some h)
    from convert_groups_Inr(1) [OF conv Some] obtain g where
      g: "map_of raw k = Some g" "i64_columns g = Inr h" by blast
    with column have m: "mapE (\<lambda>r. int_cell r c) (filter (\<lambda>r. row_cell r ''topic'' = Inr k) rows) =
        Inr (col h c)"
      by (simp add: i64_columns_col)
    from mapE_Inr_length [OF m] m i64_columns_col [OF g(2), of c] Some show ?thesis by simp
  qed
qed

definition sample_observer_rows :: "csv_row list" where
  "sample_observer_rows =
     map (\<lambda>(t, n). (''topic'', Some t) # map (\<lambda>c. (c, Some n)) OBSERVER_COLS)
       [(''/a'', ''1''), (''/b'', ''2''), (''/a'', ''3'')]"

theorem read_observer_columns_witness:
  "\<exists>groups g. read_observer_csv (CRows sample_observer_rows) = Inr groups \<and>
     map_of groups (Some ''/a'') = Some g \<and> length (col g ''clock_ns'') = 2"
proof -
  have "\<exists>groups. read_observer_csv (CRows sample_observer_rows) = Inr groups \<and>
      map_of groups (Some ''/a'') \<noteq> None"
  proof -
    have "case read_observer_csv (CRows sample_observer_rows) of
        Inr groups \<Rightarrow> map_of groups (Some ''/a'') \<noteq> None | _ \<Rightarrow> False" by code_simp
    then show ?thesis by (auto split: sum.splits)
  qed
  then obtain groups g where r: "read_observer_csv (CRows sample_observer_rows) = Inr groups"
    and g: "map_of groups (Some ''/a'') = Some g" by auto
  have "''clock_ns'' \<in> set OBSERVER_COLS" by (simp add: OBSERVER_COLS_def)
  from read_observer_columns [OF r this, of "Some ''/a''"] g
  have "length (col g ''clock_ns'') =
      length (filter (\<lambda>r. row_cell r ''topic'' = Inr (Some ''/a'')) sample_observer_rows)"
    by simp
  also have "\<dots> = 2" by (simp add: sample_observer_rows_def row_cell_def)
  finally show ?thesis using r g by blast
qed

lemma mapE_const: "(\<And>r. r \<in> set rs \<Longrightarrow> f r = Inr v) \<Longrightarrow> mapE f rs = Inr (replicate (length rs) v)"
  by (induction rs) auto

text \<open>A resource file recorded before the load column existed still reads, and its load column
  is as long as the others and all NaN: neither zeros nor a missing key.\<close>

theorem read_resources_without_load:
  assumes "read_resources_csv (CRows rows) = Inr groups" "map_of groups k = Some g"
    and "\<forall>r \<in> set rows. ''loadavg_1m'' \<notin> fst ` set r"
  shows "col (tc_floats g) ''loadavg_1m'' = replicate (length (col (tc_ints g) ''sample_system_ns'')) NaN"
proof -
  let ?rows = "filter (\<lambda>r. row_cell r ''process'' = Inr k) rows"
  from assms(1) obtain raw where
    raw: "group_rows (\<lambda>row. row_cell row ''process'') empty_resource add_resource_row rows = Inr raw"
    and conv: "convert_groups convert_typed raw = Inr groups"
    by (auto simp: read_resources_csv_def read_rows_def py_splits)
  from convert_groups_Inr(1) [OF conv assms(2)] obtain g0 where
    g0: "map_of raw k = Some g0" "convert_typed g0 = Inr g" by blast
  then have f: "tc_floats g = tc_floats g0" and i: "i64_columns (tc_ints g0) = Inr (tc_ints g)"
    by (auto simp: convert_typed_def py_splits)
  have "mapE (\<lambda>r. optional_cell r ''loadavg_1m'') ?rows = Inr (replicate (length ?rows) NaN)"
  proof (rule mapE_const)
    fix r assume "r \<in> set ?rows"
    with assms(3) have "map_of r ''loadavg_1m'' = None" by (simp add: map_of_eq_None_iff)
    then show "optional_cell r ''loadavg_1m'' = Inr NaN"
      by (simp add: optional_cell_def optional_float_def)
  qed
  with resource_optional.group_rows_column [OF raw, of "''loadavg_1m''" k] g0(1)
  have "col (tc_floats g0) ''loadavg_1m'' = replicate (length ?rows) NaN"
    by (simp add: RESOURCE_OPTIONAL_FLOAT_COLS_def)
  moreover have "length (col (tc_ints g0) ''sample_system_ns'') = length ?rows"
    using resource_ints.group_rows_length [OF raw g0(1)] by (simp add: RESOURCE_INT_COLS_def)
  ultimately show ?thesis using i64_columns_col [OF i, of "''sample_system_ns''"] f by simp
qed

definition sample_resource_rows :: "csv_row list" where
  "sample_resource_rows =
     [(''process'', Some ''sim'') # map (\<lambda>c. (c, Some ''1'')) (RESOURCE_INT_COLS @ RESOURCE_FLOAT_COLS)]"

theorem read_resources_without_load_witness:
  "\<exists>groups g. read_resources_csv (CRows sample_resource_rows) = Inr groups \<and>
     map_of groups (Some ''sim'') = Some g \<and>
     col (tc_floats g) ''loadavg_1m'' = replicate (length (col (tc_ints g) ''sample_system_ns'')) NaN"
proof -
  have "case read_resources_csv (CRows sample_resource_rows) of
        Inr groups \<Rightarrow> map_of groups (Some ''sim'') \<noteq> None | _ \<Rightarrow> False" by code_simp
  then obtain groups g where r: "read_resources_csv (CRows sample_resource_rows) = Inr groups"
    and g: "map_of groups (Some ''sim'') = Some g" by (auto split: sum.splits)
  have "\<forall>r \<in> set sample_resource_rows. ''loadavg_1m'' \<notin> fst ` set r"
    by (simp add: sample_resource_rows_def RESOURCE_INT_COLS_def RESOURCE_FLOAT_COLS_def)
  from read_resources_without_load [OF r g this] r g show ?thesis by blast
qed

end
