(* ===== verification/Run_Dir.thy ===== *)
theory Run_Dir
  imports Manifest Bench_IO Publisher_Counts
begin

text \<open>
  A run directory as the analysis tools see it, the walk over a cell's \<^verbatim>\<open>run-*\<close> directories, and the
  two contracts the verdict tools share.

  The locale \<open>admission_pool\<close> is the pool rule of \<^verbatim>\<open>sweep_verdict._class_admits\<close> and of
  \<^verbatim>\<open>duel_verdict._walk_cell_runs\<close>: a run belongs to the pool its id names, and the legacy empty id
  belongs to one pool only. Its lemmas: pools are disjoint, and no run is in two.
  The locale \<open>counted_walk\<close> is the accounting of a walk: every step raises a measure by the weight
  of the run it consumes, so the final counts add up to the runs walked.
\<close>

record run_files =
  rf_name :: string
  rf_manifest :: jfile
  rf_clock :: csv_file
  rf_resources :: csv_file
  rf_observer :: csv_file
  rf_published_time :: csv_file
  rf_odometry :: csv_file
  rf_pose :: csv_file
  rf_gt :: csv_file
  rf_counts :: jfile
  rf_quality :: jfile

text \<open>\<open>sorted(cell_dir.glob("run-*"))\<close>: the entries of a directory have distinct names.\<close>

definition run_dirs :: "run_files list \<Rightarrow> run_files list" where
  "run_dirs cell_dir = sort_key rf_name (filter (\<lambda>r. starts_with (rf_name r) ''run-'') cell_dir)"

lemma length_run_dirs: "length (run_dirs d) = length (filter (\<lambda>r. starts_with (rf_name r) ''run-'') d)"
  by (simp add: run_dirs_def)

text \<open>A number read from YAML or the command line as a float operand.\<close>

definition num_operand :: "pyval \<Rightarrow> f64 res" where
  "num_operand v =
     (case v of
        PFloat x \<Rightarrow> Ret x
      | PInt n \<Rightarrow> float_of_int n
      | PBool b \<Rightarrow> Ret (Fin (if b then 1 else 0))
      | _ \<Rightarrow> Raise TypeError ''unsupported operand'')"

text \<open>A dictionary of columns by topic or process, looked up by a YAML value: only a text can match.\<close>

definition lookup_group :: "(cell \<times> 'g) list \<Rightarrow> pyval \<Rightarrow> 'g option res" where
  "lookup_group groups k =
     (case k of
        PStr s \<Rightarrow> Ret (map_of groups (Some s))
      | _ \<Rightarrow> if hashable k then Ret None else Raise TypeError ''unhashable type'')"

text \<open>The publisher-side counts of a topic given as a YAML value.\<close>

definition counts_of ::
  "(publisher_counts \<Rightarrow> string \<Rightarrow> nat res) \<Rightarrow> publisher_counts \<Rightarrow> pyval \<Rightarrow> nat res" where
  "counts_of f pc k =
     (case k of
        PStr s \<Rightarrow> f pc s
      | _ \<Rightarrow> if hashable k then Raise PublisherCountsFormatError ''no publisher-side count for topic''
             else Raise TypeError ''unhashable type'')"

text \<open>\<open>set(values)\<close> and membership in it.\<close>

definition set_of_values :: "pyval list \<Rightarrow> pyval list res" where
  "set_of_values vs = (if list_all hashable vs then Ret vs else Raise TypeError ''unhashable type'')"

definition in_values :: "pyval \<Rightarrow> pyval list \<Rightarrow> bool res" where
  "in_values v vs =
     (if hashable v then Ret (list_ex (py_eq v) vs) else Raise TypeError ''unhashable type'')"

section \<open>Admission pools\<close>

locale admission_pool =
  fixes admits :: "string \<Rightarrow> 'k \<Rightarrow> bool"
    and pool_name :: "'k \<Rightarrow> string"
    and legacy :: "'k \<Rightarrow> bool"
    and proper :: "'k \<Rightarrow> bool"
  assumes admits_iff: "admits i k \<longleftrightarrow> i = pool_name k \<or> (legacy k \<and> i = '''')"
    and proper_name: "proper k \<Longrightarrow> pool_name k \<noteq> ''''"
    and one_legacy: "legacy k \<Longrightarrow> legacy k' \<Longrightarrow> pool_name k = pool_name k'"
begin

lemma own_pool: "admits (pool_name k) k"
  by (simp add: admits_iff)

lemma pools_disjoint:
  assumes "proper k" "proper k'" "admits i k" "admits i k'"
  shows "pool_name k = pool_name k'"
  using assms(3,4) proper_name [OF assms(1)] proper_name [OF assms(2)] one_legacy [of k k']
  unfolding admits_iff by metis

lemma legacy_only: "proper k \<Longrightarrow> admits '''' k \<longleftrightarrow> legacy k"
  using proper_name [of k] unfolding admits_iff by auto

end

section \<open>Counted walks\<close>

locale counted_walk =
  fixes step :: "'t \<Rightarrow> 'r \<Rightarrow> 't res"
    and total :: "'t \<Rightarrow> nat"
    and weight :: "'r \<Rightarrow> nat"
  assumes step_total: "step t r = Inr t' \<Longrightarrow> total t' = total t + weight r"
begin

lemma walk_total: "foldE step t rs = Inr t' \<Longrightarrow> total t' = total t + sum_list (map weight rs)"
proof (induction rs arbitrary: t)
  case Nil
  then show ?case by simp
next
  case (Cons r rs)
  then obtain t1 where "step t r = Inr t1" "foldE step t1 rs = Inr t'" by (auto simp: py_splits)
  with Cons.IH [of t1] step_total [of t r t1] show ?case by simp
qed

end

end
