(* ===== verification/Cadence.thy ===== *)
theory Cadence
  imports Numpy_Ops
begin

text \<open>
  \<^verbatim>\<open>benchmarks/analysis/cadence.py\<close> (metric M2): achieved rate and inter-arrival percentiles,
  the three-way reconciliation of expected, published and observed message counts, and the
  expected count of a window.

  The lemmas: both reconciliation rates are rates (between 0 and 1), a publisher that dropped
  nothing reads 0, the observer term is NaN exactly when nothing was published, and the publisher
  term falls as the published count grows.
\<close>

record cadence_stats =
  cs_hz :: f64
  cs_p50_ms :: f64
  cs_p95_ms :: f64
  cs_p99_ms :: f64
  cs_n :: nat

record drop_stats =
  publisher_drop_rate :: f64
  observer_loss_rate :: f64

definition inter_arrival_stats :: "'g np_ops \<Rightarrow> int list \<Rightarrow> cadence_stats res" where
  "inter_arrival_stats np arrival_ns =
     (let a = sort arrival_ns
      in if length a < 2 then Raise ValueError ''need >= 2 arrivals''
         else
           let d_ms = map (\<lambda>d. of_i64 d div Fin 1000000) (np_diff a);
               span_s = of_i64 (i64_sub (last a) (hd a)) div Fin 1000000000
           in Ret \<lparr>cs_hz = of_i64 (int (length a) - 1) div span_s,
                   cs_p50_ms = np_percentile np d_ms (Fin 50),
                   cs_p95_ms = np_percentile np d_ms (Fin 95),
                   cs_p99_ms = np_percentile np d_ms (Fin 99),
                   cs_n = length a\<rparr>)"

definition reconcile_drops :: "int \<Rightarrow> int \<Rightarrow> int \<Rightarrow> drop_stats res" where
  "reconcile_drops expected_count published_count observed_count =
     (if expected_count \<le> 0 \<or> published_count < 0
      then Raise ValueError ''expected_count must be > 0 and published_count >= 0''
      else bindE (int_div published_count expected_count) (\<lambda>p.
        let pub_drop = py_max 0 (1 - p)
        in bindE (if published_count = 0 then Ret NaN
                  else bindE (int_div observed_count published_count) (\<lambda>o'.
                    Ret (py_max 0 (1 - o'))))
             (\<lambda>obs_loss. Ret \<lparr>publisher_drop_rate = pub_drop, observer_loss_rate = obs_loss\<rparr>)))"

definition expected_count :: "f64 \<Rightarrow> f64 \<Rightarrow> int res" where
  "expected_count window_s expected_hz =
     bindE (py_round (window_s * expected_hz)) (\<lambda>n. Ret (max 1 n))"

section \<open>Rates\<close>

text \<open>A float that is a rate.\<close>

definition is_rate :: "f64 \<Rightarrow> bool" where
  "is_rate x \<longleftrightarrow> Fin 0 \<le> x \<and> x \<le> Fin 1"

lemma is_rate_Fin [simp]: "is_rate (Fin q) \<longleftrightarrow> 0 \<le> q \<and> q \<le> 1"
  by (simp add: is_rate_def)

lemma is_rate_not_NaN: "is_rate x \<Longrightarrow> \<exists>q. x = Fin q"
  by (cases x) (auto simp: is_rate_def)

lemma is_rate_clamp: "x \<le> Fin 1 \<Longrightarrow> is_rate (py_max 0 x)"
  by (cases x) (auto simp: py_max_def zero_f64_def is_rate_def)

text \<open>\<open>max(0.0, 1.0 - a / b)\<close> for counts: the common shape of both terms.\<close>

definition shortfall :: "int \<Rightarrow> int \<Rightarrow> f64 res" where
  "shortfall a b = bindE (int_div a b) (\<lambda>q. Ret (py_max 0 (1 - q)))"

lemma int_div_Inr:
  "int_div a b = Inr x \<longleftrightarrow> b \<noteq> 0 \<and> (\<exists>q. x = Fin q \<and> rnd (of_int a / of_int b) = Fin q)"
  by (auto simp: int_div_def split: f64.splits)

lemma one_minus_ratio_le_one: "0 \<le> q \<Longrightarrow> 1 - Fin q \<le> Fin 1"
  using rnd_mono [of "1 - q" 1] by (simp add: one_f64_def)

lemma ratio_rnd_nonneg: "0 \<le> q \<Longrightarrow> rnd q = Fin x \<Longrightarrow> 0 \<le> x"
  using rnd_mono [of 0 q] by simp

lemma shortfall_rate:
  assumes "shortfall a b = Inr x" "0 \<le> a" "0 < b"
  shows "is_rate x"
  using assms by (auto simp: shortfall_def py_splits int_div_Inr
      intro!: is_rate_clamp one_minus_ratio_le_one elim!: ratio_rnd_nonneg [rotated])

lemma shortfall_zero:
  assumes "shortfall a b = Inr x" "b \<le> a" "0 < b"
  shows "x = Fin 0"
proof -
  from assms obtain q where q: "rnd (of_int a / of_int b) = Fin q" "x = py_max 0 (1 - Fin q)"
    by (auto simp: shortfall_def py_splits int_div_Inr)
  have "rnd 1 \<le> rnd (of_int a / of_int b)" using assms by (intro rnd_mono) simp
  with q have "1 \<le> q" by simp
  then have "1 - Fin q \<le> Fin 0" using rnd_mono [of "1 - q" 0] by (simp add: one_f64_def)
  then show ?thesis unfolding q(2) by (cases "1 - Fin q") (auto simp: py_max_def zero_f64_def)
qed

lemma shortfall_antimono:
  assumes "shortfall a b = Inr x" "shortfall a' b = Inr x'" "a \<le> a'" "0 < b"
  shows "x' \<le> x"
proof -
  from assms obtain q q' where q: "rnd (of_int a / of_int b) = Fin q" "x = py_max 0 (1 - Fin q)"
      "rnd (of_int a' / of_int b) = Fin q'" "x' = py_max 0 (1 - Fin q')"
    by (auto simp: shortfall_def py_splits int_div_Inr)
  have "rnd (of_int a / of_int b) \<le> rnd (of_int a' / of_int b)"
    using assms by (intro rnd_mono) (simp add: divide_right_mono)
  with q have "1 - Fin q' \<le> 1 - Fin q" by (simp add: one_f64_def rnd_mono)
  then show ?thesis unfolding q
    by (cases "1 - Fin q'"; cases "1 - Fin q") (auto simp: py_max_def zero_f64_def less_eq_f64_def)
qed

lemma reconcile_drops_alt:
  "0 < e \<Longrightarrow> 0 \<le> p \<Longrightarrow> reconcile_drops e p obs =
     bindE (shortfall p e) (\<lambda>d.
       bindE (if p = 0 then Ret NaN else shortfall obs p) (\<lambda>l.
         Ret \<lparr>publisher_drop_rate = d, observer_loss_rate = l\<rparr>))"
  by (auto simp: reconcile_drops_def shortfall_def Let_def bindE_assoc)

lemma reconcile_drops_guard: "reconcile_drops e p obs = Inr d \<Longrightarrow> 0 < e \<and> 0 \<le> p"
  by (auto simp: reconcile_drops_def split: if_splits)

text \<open>The M2 reconciliation yields rates. Whenever it returns for a non-negative observed
  count, the publisher drop is between 0 and 1, and the observer loss is NaN when nothing was
  published and between 0 and 1 otherwise. Rounding of the two divisions and subtractions
  included.\<close>

theorem reconcile_drops_rates:
  assumes "reconcile_drops e p obs = Inr d" "0 \<le> obs"
  shows "is_rate (publisher_drop_rate d) \<and>
    (if p = 0 then observer_loss_rate d = NaN else is_rate (observer_loss_rate d))"
  using assms reconcile_drops_guard [OF assms(1)]
  by (auto simp: reconcile_drops_alt py_splits shortfall_rate split: if_splits)

theorem reconcile_drops_rates_witness:
  "reconcile_drops 4 3 2 = Inr \<lparr>publisher_drop_rate = Fin (1/4),
      observer_loss_rate = Fin (6004799503160662 / 18014398509481984)\<rparr> \<and>
   is_rate (Fin (1/4)) \<and> is_rate (Fin (6004799503160662 / 18014398509481984))"
proof -
  have r: "reconcile_drops 4 3 2 = Inr \<lparr>publisher_drop_rate = Fin (1/4),
      observer_loss_rate = Fin (6004799503160662 / 18014398509481984)\<rparr>"
    by code_simp
  show ?thesis using reconcile_drops_rates [OF r] r by simp
qed

text \<open>A publisher that met the expected count shows no drop, and publishing more never raises
  the drop rate.\<close>

theorem reconcile_drops_publisher:
  assumes "reconcile_drops e p obs = Inr d" "reconcile_drops e p' obs' = Inr d'" "p \<le> p'"
  shows "publisher_drop_rate d' \<le> publisher_drop_rate d \<and>
    (e \<le> p' \<longrightarrow> publisher_drop_rate d' = Fin 0)"
  using assms reconcile_drops_guard [OF assms(1)] reconcile_drops_guard [OF assms(2)]
  by (auto simp: reconcile_drops_alt py_splits shortfall_antimono shortfall_zero split: if_splits)

theorem reconcile_drops_publisher_witness:
  "reconcile_drops 4 3 2 = Inr \<lparr>publisher_drop_rate = Fin (1/4),
      observer_loss_rate = Fin (6004799503160662 / 18014398509481984)\<rparr> \<and>
   reconcile_drops 4 4 4 = Inr \<lparr>publisher_drop_rate = Fin 0, observer_loss_rate = Fin 0\<rparr> \<and>
   Fin 0 \<le> Fin (1/4)"
proof -
  have r: "reconcile_drops 4 3 2 = Inr \<lparr>publisher_drop_rate = Fin (1/4),
      observer_loss_rate = Fin (6004799503160662 / 18014398509481984)\<rparr>"
    "reconcile_drops 4 4 4 = Inr \<lparr>publisher_drop_rate = Fin 0, observer_loss_rate = Fin 0\<rparr>"
    by code_simp+
  show ?thesis using reconcile_drops_publisher [OF r] r by simp
qed

section \<open>Expected counts\<close>

lemma expected_count_pos: "expected_count w hz = Inr n \<Longrightarrow> 1 \<le> n"
  by (auto simp: expected_count_def py_splits)

end
