(* ===== verification/Ceiling.thy ===== *)
theory Ceiling
  imports Numpy_Ops
begin

text \<open>
  \<^verbatim>\<open>benchmarks/analysis/ceiling.py\<close>: the M4 sustainable-load ceiling. \<open>sustained_below\<close> is the
  loop of \<^verbatim>\<open>_sustained_below\<close> over (timestamp, below?) pairs with its \<open>start\<close> variable as an
  option; \<open>evaluate_ceiling\<close> collects one reason per disjunct that fires.

  The lemmas: the loop answers exactly whether some maximal unbroken run of low samples lasts
  long enough (in sample time, whatever the grid), and the verdict is the disjunction of the four
  pre-registered criteria.
\<close>

record ceiling_verdict =
  reached :: bool
  reasons :: "string list"

text \<open>\<open>_as_series(t, values, name)\<close>.\<close>

definition as_series :: "int list \<Rightarrow> f64 list \<Rightarrow> string \<Rightarrow> f64 list res" where
  "as_series t values name =
     (if length t \<noteq> length values
      then Raise ValueError (''sample_system_ns and '' @ name @ '' length mismatch'')
      else Ret values)"

text \<open>\<open>(t[k] - start) / 1e9 >= sustain_s\<close> on int64 stamps.\<close>

definition long_enough :: "f64 \<Rightarrow> int \<Rightarrow> int \<Rightarrow> bool" where
  "long_enough sustain_s now start \<longleftrightarrow>
     sustain_s \<le> of_i64 (i64_sub now start) div Fin 1000000000"

fun sustained_loop :: "(int \<Rightarrow> int \<Rightarrow> bool) \<Rightarrow> int option \<Rightarrow> (int \<times> bool) list \<Rightarrow> bool" where
  "sustained_loop enough start [] = False"
| "sustained_loop enough start ((t, below) # rest) =
     (if below then
        (case start of
           None \<Rightarrow> sustained_loop enough (Some t) rest
         | Some s \<Rightarrow> if enough t s then True else sustained_loop enough start rest)
      else sustained_loop enough None rest)"

definition sustained_below :: "int list \<Rightarrow> f64 list \<Rightarrow> f64 \<Rightarrow> f64 \<Rightarrow> bool" where
  "sustained_below t values threshold sustain_s =
     sustained_loop (long_enough sustain_s) None (zip t (map (\<lambda>v. v < threshold) values))"

record ceiling_params =
  rtf_threshold :: f64
  sustain_s :: f64
  rate_threshold :: f64
  tick_rate_threshold :: f64

text \<open>The signature's default thresholds.\<close>

definition default_params :: ceiling_params where
  "default_params = \<lparr>rtf_threshold = of_lit (9/10), sustain_s = Fin 10,
     rate_threshold = of_lit (9/10), tick_rate_threshold = of_lit (9/10)\<rparr>"

definition rtf_reason :: "ceiling_params \<Rightarrow> string" where
  "rtf_reason p = ''rtf<'' @ repr_f64 (rtf_threshold p) @ '' sustained >= '' @
     repr_f64 (sustain_s p) @ ''s''"

definition tick_reason :: "ceiling_params \<Rightarrow> string" where
  "tick_reason p = ''unpaced tick rate ratio<'' @ repr_f64 (tick_rate_threshold p) @
     '' sustained >= '' @ repr_f64 (sustain_s p) @ ''s''"

definition rate_reason :: "ceiling_params \<Rightarrow> f64 \<Rightarrow> string" where
  "rate_reason p r = ''pointcloud publisher rate '' @ fmt_fixed 2 r @ '' < '' @
     repr_f64 (rate_threshold p)"

definition quality_reason :: string where
  "quality_reason = ''m5 quality gate failed''"

text \<open>One of the two optional series: its reason when the sustain rule fires on it.\<close>

definition series_reason ::
  "int list \<Rightarrow> f64 list option \<Rightarrow> string \<Rightarrow> f64 \<Rightarrow> f64 \<Rightarrow> string \<Rightarrow> string list res" where
  "series_reason t series name threshold sustain reason =
     (case series of
        None \<Rightarrow> Ret []
      | Some vs \<Rightarrow> bindE (as_series t vs name) (\<lambda>v.
          Ret (if sustained_below t v threshold sustain then [reason] else [])))"

definition evaluate_ceiling ::
  "ceiling_params \<Rightarrow> int list \<Rightarrow> f64 list option \<Rightarrow> f64 \<Rightarrow> bool \<Rightarrow> f64 list option
    \<Rightarrow> ceiling_verdict res" where
  "evaluate_ceiling p sample_system_ns rtf publisher_rate_ratio quality_ok tick_rate_ratio =
     bindE (as_i64 sample_system_ns) (\<lambda>t.
     if rtf = None \<and> tick_rate_ratio = None
     then Raise ValueError ''need rtf (paced arm) or tick_rate_ratio (unpaced arm), got neither''
     else
       bindE (series_reason t rtf ''rtf'' (rtf_threshold p) (sustain_s p) (rtf_reason p)) (\<lambda>r1.
       bindE (series_reason t tick_rate_ratio ''tick_rate_ratio'' (tick_rate_threshold p)
                (sustain_s p) (tick_reason p)) (\<lambda>r2.
       let r3 = (if publisher_rate_ratio < rate_threshold p
                 then [rate_reason p publisher_rate_ratio] else []);
           r4 = (if \<not> quality_ok then [quality_reason] else []);
           rs = r1 @ r2 @ r3 @ r4
       in Ret \<lparr>reached = (rs \<noteq> []), reasons = rs\<rparr>)))"

section \<open>The sustain rule\<close>

text \<open>
  The specification: samples \<open>i < k\<close>, every sample from \<open>i\<close> to \<open>k\<close> is low, \<open>i\<close> opens the run (it
  is the first sample or the one before it is not low), and the run has lasted long enough at
  \<open>k\<close>.
\<close>

definition run_holds :: "(int \<Rightarrow> int \<Rightarrow> bool) \<Rightarrow> (int \<times> bool) list \<Rightarrow> nat \<Rightarrow> nat \<Rightarrow> bool" where
  "run_holds enough xs i k \<longleftrightarrow>
     i < k \<and> k < length xs \<and> (\<forall>m. i \<le> m \<and> m \<le> k \<longrightarrow> snd (xs ! m)) \<and>
     (i = 0 \<or> \<not> snd (xs ! (i - 1))) \<and> enough (fst (xs ! k)) (fst (xs ! i))"

lemma all_between_Suc: "(\<forall>m. Suc i \<le> m \<and> m \<le> Suc k \<longrightarrow> P m) \<longleftrightarrow> (\<forall>m. i \<le> m \<and> m \<le> k \<longrightarrow> P (Suc m))"
  by (metis Suc_le_D Suc_le_mono)

lemma all_between_0_Suc: "(\<forall>m. m \<le> Suc k \<longrightarrow> P m) \<longleftrightarrow> P 0 \<and> (\<forall>m. m \<le> k \<longrightarrow> P (Suc m))"
  by (metis Suc_le_mono not0_implies_Suc zero_le)

lemma run_holds_Suc_Suc:
  "run_holds e (x # xs) (Suc i) (Suc k) \<longleftrightarrow>
     i < k \<and> k < length xs \<and> (\<forall>m. i \<le> m \<and> m \<le> k \<longrightarrow> snd (xs ! m)) \<and>
     \<not> snd ((x # xs) ! i) \<and> e (fst (xs ! k)) (fst (xs ! i))"
  unfolding run_holds_def all_between_Suc by simp

lemma run_holds_0_Suc:
  "run_holds e (x # xs) 0 (Suc k) \<longleftrightarrow>
     k < length xs \<and> snd x \<and> (\<forall>m. m \<le> k \<longrightarrow> snd (xs ! m)) \<and> e (fst (xs ! k)) (fst x)"
  unfolding run_holds_def by (simp add: all_between_0_Suc)

lemma run_holds_0: "\<not> run_holds e xs i 0"
  by (simp add: run_holds_def)

lemma ex_run_Cons:
  "(\<exists>i k. run_holds e (x # xs) i k) \<longleftrightarrow>
     (\<exists>k. run_holds e (x # xs) 0 (Suc k)) \<or> (\<exists>i k. run_holds e (x # xs) (Suc i) (Suc k))"
  by (metis run_holds_0 not0_implies_Suc)

lemma ex_run_high:
  assumes "\<not> snd x"
  shows "(\<exists>i k. run_holds e (x # xs) i k) \<longleftrightarrow> (\<exists>i k. run_holds e xs i k)"
proof -
  have "run_holds e (x # xs) (Suc i) (Suc k) \<longleftrightarrow> run_holds e xs i k" for i k
    using assms by (cases i) (simp_all add: run_holds_Suc_Suc, simp_all add: run_holds_def)
  with assms show ?thesis by (simp add: ex_run_Cons run_holds_0_Suc)
qed

lemma ex_run_low:
  assumes "snd x" "snd y" "\<not> e (fst y) (fst x)"
  shows "(\<exists>i k. run_holds e (x # y # ys) i k) \<longleftrightarrow> (\<exists>i k. run_holds e (x # ys) i k)"
proof -
  have a: "(\<exists>k. run_holds e (x # y # ys) 0 (Suc k)) \<longleftrightarrow> (\<exists>k. run_holds e (x # ys) 0 (Suc k))"
  proof
    assume "\<exists>k. run_holds e (x # y # ys) 0 (Suc k)"
    then obtain k where k: "run_holds e (x # y # ys) 0 (Suc k)" by blast
    with assms obtain k' where "k = Suc k'" by (cases k) (auto simp: run_holds_0_Suc)
    with k show "\<exists>k. run_holds e (x # ys) 0 (Suc k)"
      by (auto simp: run_holds_0_Suc all_between_0_Suc)
  next
    assume "\<exists>k. run_holds e (x # ys) 0 (Suc k)"
    then obtain k where "run_holds e (x # ys) 0 (Suc k)" by blast
    with assms have "run_holds e (x # y # ys) 0 (Suc (Suc k))"
      by (simp add: run_holds_0_Suc all_between_0_Suc)
    then show "\<exists>k. run_holds e (x # y # ys) 0 (Suc k)" by blast
  qed
  have b: "run_holds e (x # y # ys) (Suc (Suc i)) (Suc (Suc k)) \<longleftrightarrow> run_holds e (x # ys) (Suc i) (Suc k)"
    if "i \<noteq> 0" for i k
    using that by (cases i) (simp_all add: run_holds_Suc_Suc all_between_Suc)
  have c: "\<not> run_holds e (x # ys) (Suc 0) k" "\<not> run_holds e (x # y # ys) (Suc 0) k"
    "\<not> run_holds e (x # y # ys) (Suc (Suc 0)) k" for k
    using assms by (simp_all add: run_holds_def)
  have d: "\<exists>i k. run_holds e (x # ys) (Suc i) (Suc k)"
    if r: "run_holds e (x # y # ys) (Suc i) (Suc k)" for i k
  proof -
    from r c(2) have "i \<noteq> 0" by (cases i) auto
    then obtain i' where i: "i = Suc i'" by (cases i) auto
    from r i c(3) have i': "i' \<noteq> 0" by (cases i') auto
    from r have "i < k" by (simp add: run_holds_def)
    then obtain k' where "k = Suc k'" by (cases k) auto
    with r i b [OF i'] show ?thesis by blast
  qed
  have f: "\<exists>i k. run_holds e (x # y # ys) (Suc i) (Suc k)"
    if r: "run_holds e (x # ys) (Suc i) (Suc k)" for i k
  proof -
    from r c(1) have "i \<noteq> 0" by (cases i) auto
    with r b show ?thesis by blast
  qed
  show ?thesis unfolding ex_run_Cons a using d f by blast
qed

lemma sustained_loop_iff_aux:
  "(sustained_loop e None xs \<longleftrightarrow> (\<exists>i k. run_holds e xs i k)) \<and>
   (\<forall>s. sustained_loop e (Some s) xs \<longleftrightarrow> (\<exists>i k. run_holds e ((s, True) # xs) i k))"
proof (induction xs)
  case Nil
  show ?case by (auto simp: run_holds_def)
next
  case (Cons x xs)
  obtain t b where x: "x = (t, b)" by (cases x)
  have one: "sustained_loop e None (x # xs) \<longleftrightarrow> (\<exists>i k. run_holds e (x # xs) i k)"
    using Cons.IH ex_run_high [of x e xs] by (cases b) (simp_all add: x)
  have two: "sustained_loop e (Some s) (x # xs) \<longleftrightarrow> (\<exists>i k. run_holds e ((s, True) # x # xs) i k)" for s
  proof (cases b)
    case False
    have "\<not> run_holds e ((s, True) # x # xs) 0 (Suc k)" for k
      using False by (auto simp: run_holds_0_Suc x)
    moreover have "run_holds e ((s, True) # x # xs) (Suc i) (Suc k) \<longleftrightarrow>
        i \<noteq> 0 \<and> run_holds e (x # xs) i k" for i k
      using False by (cases i) (simp_all add: run_holds_Suc_Suc, simp_all add: run_holds_def x)
    moreover have "\<not> run_holds e (x # xs) 0 k" for k
      using False by (auto simp: run_holds_def x)
    ultimately have "(\<exists>i k. run_holds e ((s, True) # x # xs) i k) \<longleftrightarrow> (\<exists>i k. run_holds e (x # xs) i k)"
      unfolding ex_run_Cons [of e "(s, True)" "x # xs"] by metis
    with False Cons.IH ex_run_high [of x e xs] show ?thesis by (simp add: x)
  next
    case True
    show ?thesis
    proof (cases "e t s")
      case enough: True
      with True have "run_holds e ((s, True) # x # xs) 0 (Suc 0)" by (simp add: run_holds_0_Suc x)
      with True enough show ?thesis by (auto simp: x)
    next
      case False
      with True Cons.IH ex_run_low [of "(s, True)" x e xs] show ?thesis by (simp add: x)
    qed
  qed
  from one two show ?case by blast
qed

lemma sustained_loop_iff: "sustained_loop e None xs \<longleftrightarrow> (\<exists>i k. run_holds e xs i k)"
  using sustained_loop_iff_aux by blast


text \<open>C36: The sustain rule fires exactly when some unbroken run of samples below the threshold,
  opened at its first low sample, has lasted the sustain time by one of its later samples.\<close>

theorem sustained_below_iff:
  assumes "length t = length values"
  shows "sustained_below t values threshold sustain \<longleftrightarrow>
    (\<exists>i k. i < k \<and> k < length t \<and> (\<forall>m. i \<le> m \<and> m \<le> k \<longrightarrow> values ! m < threshold) \<and>
       (i = 0 \<or> \<not> values ! (i - 1) < threshold) \<and> long_enough sustain (t ! k) (t ! i))"
proof -
  let ?xs = "zip t (map (\<lambda>v. v < threshold) values)"
  have nth: "?xs ! m = (t ! m, values ! m < threshold)" if "m < length t" for m
    using that assms by simp
  have len: "length ?xs = length t" using assms by simp
  have key: "run_holds (long_enough sustain) ?xs i k \<longleftrightarrow>
      i < k \<and> k < length t \<and> (\<forall>m. i \<le> m \<and> m \<le> k \<longrightarrow> values ! m < threshold) \<and>
      (i = 0 \<or> \<not> values ! (i - 1) < threshold) \<and> long_enough sustain (t ! k) (t ! i)" for i k
    unfolding run_holds_def len by (cases "i < k \<and> k < length t") (auto simp: nth)
  show ?thesis unfolding sustained_below_def sustained_loop_iff
    by (rule iff_exI, rule iff_exI, rule key)
qed

theorem sustained_below_iff_witness:
  "sustained_below [0, 12000000000] [Fin (1/2), Fin (1/4)] (Fin (3/4)) (Fin 10) \<and>
   (\<exists>i k. i < k \<and> k < length [0::int, 12000000000] \<and>
      (\<forall>m. i \<le> m \<and> m \<le> k \<longrightarrow> [Fin (1/2), Fin (1/4)] ! m < Fin (3/4)) \<and>
      (i = 0 \<or> \<not> [Fin (1/2), Fin (1/4)] ! (i - 1) < Fin (3/4)) \<and>
      long_enough (Fin 10) ([0, 12000000000] ! k) ([0, 12000000000] ! i))"
proof -
  have l: "length [0::int, 12000000000] = length [Fin (1/2), Fin (1/4)]" by simp
  have s: "sustained_below [0, 12000000000] [Fin (1/2), Fin (1/4)] (Fin (3/4)) (Fin 10)"
    by code_simp
  show ?thesis using s sustained_below_iff [OF l, of "Fin (3/4)" "Fin 10"] by blast
qed

lemma f64_div_mono: "x \<le> y \<Longrightarrow> 0 < c \<Longrightarrow> x div Fin c \<le> y div Fin c"
  by (cases x; cases y) (auto intro!: rnd_mono divide_right_mono)

lemma long_enough_earlier:
  assumes "long_enough s now start" "i64_sub now start \<le> i64_sub now start'"
  shows "long_enough s now start'"
proof -
  have "of_i64 (i64_sub now start) \<le> of_i64 (i64_sub now start')"
    using assms(2) by (simp add: of_i64_def rnd_mono)
  then have "of_i64 (i64_sub now start) div Fin 1000000000 \<le> of_i64 (i64_sub now start') div Fin 1000000000"
    by (rule f64_div_mono) simp
  with assms(1) show ?thesis by (auto simp: long_enough_def intro: f64_le_trans)
qed

lemma run_start:
  fixes i k :: nat
  assumes "\<forall>m. i \<le> m \<and> m \<le> k \<longrightarrow> P m"
  shows "\<exists>j \<le> i. (\<forall>m. j \<le> m \<and> m \<le> k \<longrightarrow> P m) \<and> (j = 0 \<or> \<not> P (j - 1))"
  using assms
proof (induction i)
  case 0
  then show ?case by auto
next
  case (Suc i)
  show ?case
  proof (cases "P i")
    case True
    with Suc.prems have "\<forall>m. i \<le> m \<and> m \<le> k \<longrightarrow> P m"
      by (metis Suc_leI le_neq_implies_less)
    with Suc.IH show ?thesis by (meson le_SucI)
  next
    case False
    with Suc.prems show ?thesis by (intro exI [of _ "Suc i"]) simp
  qed
qed

text \<open>The sustain rule is monotone: on non-negative non-decreasing stamps, samples that are
  everywhere at most the old ones, against a threshold that is at least the old one, fire
  whenever the old ones did.\<close>

theorem sustained_below_mono:
  assumes "sustained_below t vs threshold sustain"
    and "length t = length vs" "length ws = length vs" "sorted t" "\<forall>x \<in> set t. in_i64 x \<and> 0 \<le> x"
    and "\<forall>m < length vs. vs ! m < threshold \<longrightarrow> ws ! m < threshold'"
  shows "sustained_below t ws threshold' sustain"
proof -
  from iffD1 [OF sustained_below_iff [OF assms(2)] assms(1)] obtain i k where ik: "i < k" "k < length t"
      "\<forall>m. i \<le> m \<and> m \<le> k \<longrightarrow> vs ! m < threshold" "long_enough sustain (t ! k) (t ! i)"
    by (elim exE conjE)
  have "\<forall>m. i \<le> m \<and> m \<le> k \<longrightarrow> ws ! m < threshold'"
  proof (intro allI impI)
    fix m assume m: "i \<le> m \<and> m \<le> k"
    with ik(2) assms(2) have "m < length vs" by linarith
    with m ik(3) assms(6) show "ws ! m < threshold'" by blast
  qed
  then obtain j where j: "j \<le> i" "\<forall>m. j \<le> m \<and> m \<le> k \<longrightarrow> ws ! m < threshold'"
      "j = 0 \<or> \<not> ws ! (j - 1) < threshold'"
    using run_start [of i k "\<lambda>m. ws ! m < threshold'"] by blast
  have "t ! j \<le> t ! i" using assms(4) j(1) ik by (simp add: sorted_nth_mono)
  moreover have "i64_sub (t ! k) (t ! i) = t ! k - t ! i" "i64_sub (t ! k) (t ! j) = t ! k - t ! j"
    using assms(5) ik j(1) by (auto intro!: i64_sub_stamps)
  ultimately have "long_enough sustain (t ! k) (t ! j)"
    using long_enough_earlier [OF ik(4), of "t ! j"] by linarith
  then have "j < k \<and> k < length t \<and> (\<forall>m. j \<le> m \<and> m \<le> k \<longrightarrow> ws ! m < threshold') \<and>
      (j = 0 \<or> \<not> ws ! (j - 1) < threshold') \<and> long_enough sustain (t ! k) (t ! j)"
    using ik(1,2) j by (intro conjI) auto
  moreover have "length t = length ws" using assms(2,3) by simp
  ultimately show ?thesis by (intro iffD2 [OF sustained_below_iff] exI)
qed

theorem sustained_below_mono_witness:
  "sustained_below [0, 12000000000] [Fin (1/4), Fin (1/8)] (Fin (3/4)) (Fin 10)"
proof -
  have "sustained_below [0, 12000000000] [Fin (1/2), Fin (1/4)] (Fin (3/4)) (Fin 10)" by code_simp
  then show ?thesis
    by (rule sustained_below_mono) (auto simp: in_i64_def less_Suc_eq)
qed

section \<open>The verdict\<close>

lemma series_reason_Inr:
  "series_reason t series name thr sus reason = Inr rs \<longleftrightarrow>
     (case series of
        None \<Rightarrow> rs = []
      | Some vs \<Rightarrow> length t = length vs \<and>
          rs = (if sustained_below t vs thr sus then [reason] else []))"
  by (auto simp: series_reason_def as_series_def split: option.splits)

lemma series_reason_fires:
  "series_reason t series name thr sus reason = Inr rs \<Longrightarrow>
     rs \<noteq> [] \<longleftrightarrow> (\<exists>vs. series = Some vs \<and> sustained_below t vs thr sus)"
  by (cases series) (simp_all add: series_reason_Inr)

lemma evaluate_ceiling_Inr:
  "evaluate_ceiling p t rtf pub ok tick = Inr v \<Longrightarrow>
     (rtf \<noteq> None \<or> tick \<noteq> None) \<and> (\<forall>x \<in> set t. in_i64 x) \<and>
     (\<exists>r1 r2. series_reason t rtf ''rtf'' (rtf_threshold p) (sustain_s p) (rtf_reason p) = Inr r1 \<and>
       series_reason t tick ''tick_rate_ratio'' (tick_rate_threshold p) (sustain_s p) (tick_reason p)
         = Inr r2 \<and>
       reasons v = r1 @ r2 @ (if pub < rate_threshold p then [rate_reason p pub] else []) @
         (if \<not> ok then [quality_reason] else []) \<and>
       (reached v \<longleftrightarrow> reasons v \<noteq> []))"
  by (auto simp: evaluate_ceiling_def py_splits as_i64_Inr Let_def split: if_splits)

lemma ceiling_disjuncts:
  assumes "evaluate_ceiling p t rtf pub ok tick = Inr v"
  shows "(reached v \<longleftrightarrow>
      (\<exists>vs. rtf = Some vs \<and> sustained_below t vs (rtf_threshold p) (sustain_s p)) \<or>
      (\<exists>vs. tick = Some vs \<and> sustained_below t vs (tick_rate_threshold p) (sustain_s p)) \<or>
      pub < rate_threshold p \<or> \<not> ok) \<and>
    (reached v \<longleftrightarrow> reasons v \<noteq> []) \<and> (rtf \<noteq> None \<or> tick \<noteq> None)"
proof -
  from evaluate_ceiling_Inr [OF assms] obtain r1 r2 where r:
      "series_reason t rtf ''rtf'' (rtf_threshold p) (sustain_s p) (rtf_reason p) = Inr r1"
      "series_reason t tick ''tick_rate_ratio'' (tick_rate_threshold p) (sustain_s p) (tick_reason p) = Inr r2"
      "reasons v = r1 @ r2 @ (if pub < rate_threshold p then [rate_reason p pub] else []) @
         (if \<not> ok then [quality_reason] else [])"
      "reached v \<longleftrightarrow> reasons v \<noteq> []" "rtf \<noteq> None \<or> tick \<noteq> None"
    by blast
  have "reasons v \<noteq> [] \<longleftrightarrow> r1 \<noteq> [] \<or> r2 \<noteq> [] \<or> pub < rate_threshold p \<or> \<not> ok"
    by (simp add: r(3))
  with r(4,5) series_reason_fires [OF r(1)] series_reason_fires [OF r(2)] show ?thesis by blast
qed

text \<open>A ceiling verdict is the disjunction of the four pre-registered criteria, each applied to
  the input it is given for, and \<open>reached\<close> says exactly whether some reason is listed. A NaN
  publisher ratio fires nothing.\<close>

theorem evaluate_ceiling_verdict:
  assumes "evaluate_ceiling p t rtf pub ok tick = Inr v"
  shows "(reached v \<longleftrightarrow>
      (\<exists>vs. rtf = Some vs \<and> sustained_below t vs (rtf_threshold p) (sustain_s p)) \<or>
      (\<exists>vs. tick = Some vs \<and> sustained_below t vs (tick_rate_threshold p) (sustain_s p)) \<or>
      pub < rate_threshold p \<or> \<not> ok) \<and>
    (reached v \<longleftrightarrow> reasons v \<noteq> []) \<and> (rtf \<noteq> None \<or> tick \<noteq> None)"
  by (rule ceiling_disjuncts [OF assms])

theorem evaluate_ceiling_verdict_witness:
  "evaluate_ceiling default_params [0, 12000000000] (Some [Fin (1/2), Fin (1/2)]) (Fin 1) True None
     = Inr \<lparr>reached = True, reasons = [''rtf<0.9 sustained >= 10.0s'']\<rparr> \<and>
   sustained_below [0, 12000000000] [Fin (1/2), Fin (1/2)] (rtf_threshold default_params)
     (sustain_s default_params)"
proof -
  have e: "evaluate_ceiling default_params [0, 12000000000] (Some [Fin (1/2), Fin (1/2)]) (Fin 1) True
      None = Inr \<lparr>reached = True, reasons = [''rtf<0.9 sustained >= 10.0s'']\<rparr>"
    by code_simp
  have "\<not> Fin 1 < rate_threshold default_params" by code_simp
  then show ?thesis using e evaluate_ceiling_verdict [OF e] by auto
qed

end
