(* ===== verification/Sweep_Verdict.thy ===== *)
theory Sweep_Verdict
  imports Run_Dir Cadence Ceiling Cell_Info
begin

text \<open>
  \<^verbatim>\<open>benchmarks/scripts/sweep_verdict.py\<close>: the inputs of \<open>evaluate_ceiling\<close> assembled from a run
  directory, and the table of one sweep point. The operations are in the order of the source; a
  run directory is a \<open>run_files\<close>, the printed table a string.

  The lemmas: a registered binding is never displaced silently; an excluded run never reaches a
  verdict and none of its data is read; a missing publisher file fires no disjunct and a missing
  quality file never passes; class pools are disjoint; every run directory is counted once.
\<close>

definition NOT_MEASURABLE :: string where
  "NOT_MEASURABLE = ''publisher rate not measurable (no publisher_counts.json)''"

definition NOT_APPLICABLE_ABLATION :: string where
  "NOT_APPLICABLE_ABLATION = ''quality not applicable (ablation arm, no closed loop)''"

definition EXIT_UNKNOWN_ID :: int where "EXIT_UNKNOWN_ID = 2"

definition TICK_HZ_PENDING_TASK :: "(string \<times> nat) list" where
  "TICK_HZ_PENDING_TASK = [(''A-hf'', 26), (''B-hf'', 26)]"

record run_verdict =
  v_run :: string
  v_arm :: pyval
  v_excluded :: bool
  v_exclusion_reason :: pyval
  v_verdict :: "ceiling_verdict option"
  v_publisher_rate_ratio :: "f64 option"
  v_publisher_note :: "string option"
  v_observer_loss_rate :: f64
  v_quality_ok :: "bool option"
  v_quality_note :: "string option"
  v_window_branch_note :: "string option"

section \<open>The series of a run\<close>

definition rtf_series_from_resources :: "(cell \<times> typed_columns) list \<Rightarrow> (int list \<times> f64 list) res" where
  "rtf_series_from_resources resources =
     (if resources = [] then Raise ValueError ''resources.csv has no process rows''
      else bindE (sorted_cells (map fst resources)) (\<lambda>ks.
        case map_of resources (hd ks) of
          None \<Rightarrow> Raise KeyError ''process''
        | Some cols \<Rightarrow>
            let sample_ns = col (tc_ints cols) ''sample_system_ns''; rtf = col (tc_floats cols) ''rtf'';
                valid = map (\<lambda>v. 0 \<le> v) rtf; s = select valid sample_ns; r = select valid rtf
            in if s = [] then Raise ValueError ''resources.csv has no valid (non-sentinel) rtf samples''
               else Ret (s, r)))"

definition tick_rate_ratio_series :: "int list \<Rightarrow> pyval \<Rightarrow> string \<Rightarrow> (int list \<times> f64 list) res" where
  "tick_rate_ratio_series wall_ns tick_hz cell =
     (if tick_hz = PNone
      then Raise ValueError (''metrics.tick_hz is null for cell '' @ repr_str cell @
        (case map_of TICK_HZ_PENDING_TASK cell of
           Some task \<Rightarrow> '' (pending Task '' @ show_nat task | None \<Rightarrow> '' (not yet registered''))
      else
        let w = sort wall_ns
        in if length w < 2 then Raise ValueError ''need >= 2 clock.csv rows to compute a tick-rate series''
           else
             let gap_s = map (\<lambda>d. of_i64 d div Fin 1000000000) (np_diff w)
             in if list_ex (\<lambda>g. g \<le> 0) gap_s
                then Raise ValueError ''clock.csv has non-increasing wall timestamps''
                else bindE (num_operand tick_hz) (\<lambda>hz. Ret (tl w, map (\<lambda>g. (1 div g) div hz) gap_s)))"

definition expected_lidar_count :: "f64 \<Rightarrow> pyval \<Rightarrow> int res" where
  "expected_lidar_count window_s lidar_expected_hz =
     (if lidar_expected_hz = PNone then Raise ValueError ''lidar_expected_hz is not registered''
      else bindE (num_operand lidar_expected_hz) (expected_count window_s))"

definition publisher_rate_ratio ::
  "run_files \<Rightarrow> pyval \<Rightarrow> int \<Rightarrow> (f64 \<times> f64 \<times> string option) res" where
  "publisher_rate_ratio run_dir topic n_expected =
     (if topic = PNone then Raise ValueError ''lidar_topic is not registered''
      else
        bindE (read_observer_csv (rf_observer run_dir)) (\<lambda>groups.
        bindE (lookup_group groups topic) (\<lambda>observed.
          let observed_count = (case observed of
                None \<Rightarrow> 0 | Some g \<Rightarrow> int (length (col g ''arrival_system_ns'')))
          in if rf_counts run_dir = JAbsent then Ret (1, NaN, Some NOT_MEASURABLE)
             else
               bindE (read_publisher_counts (rf_counts run_dir)) (\<lambda>pc.
               bindE (counts_of whole_run_count pc topic) (\<lambda>published.
               bindE (reconcile_drops n_expected (int published) observed_count) (\<lambda>drop.
                 Ret (1 - publisher_drop_rate drop, observer_loss_rate drop, None)))))))"

definition quality_ok :: "run_files \<Rightarrow> pyval \<Rightarrow> (bool \<times> string option) res" where
  "quality_ok run_dir arm =
     (if rf_quality run_dir \<noteq> JAbsent
      then bindE (read_json (rf_quality run_dir)) (\<lambda>doc.
             bindE (getitem doc ''gate_pass'') (\<lambda>g. Ret (truthy g, None)))
      else if py_eq arm (PStr ''ablation'') then Ret (True, Some NOT_APPLICABLE_ABLATION)
      else Raise FileNotFoundError ''quality.json missing: the M5 quality gate result is required'')"

section \<open>Scoring-window branch\<close>

definition CALIBRATION_CELL_WITH_A_SIM_LOOP :: string where
  "CALIBRATION_CELL_WITH_A_SIM_LOOP = ''CAL-seam''"

definition expected_window_branch :: "pyval \<Rightarrow> string \<Rightarrow> string" where
  "expected_window_branch approach cell =
     (if \<not> py_eq approach (PStr ''calibration'') then ''fittable''
      else if cell = CALIBRATION_CELL_WITH_A_SIM_LOOP then ''fittable'' else ''unfittable'')"

definition actual_window_branch :: "int list \<Rightarrow> string" where
  "actual_window_branch wall_ns = (if 2 \<le> length wall_ns then ''fittable'' else ''unfittable'')"

definition window_branch_note :: "string \<Rightarrow> string \<Rightarrow> string option" where
  "window_branch_note expected actual =
     (if expected = actual then None
      else Some (''window branch: cell expects '' @ expected @ '', this run took '' @ actual))"

section \<open>Admission\<close>

text \<open>\<open>cli_value\<close> and \<open>override\<close> are \<open>None\<close> (here \<open>PNone\<close>) when the flag is not given.\<close>

definition resolve_override :: "string \<Rightarrow> pyval \<Rightarrow> pyval \<Rightarrow> pyval \<Rightarrow> pyval res" where
  "resolve_override flag registered cli_value override =
     (if override \<noteq> PNone then Ret override
      else if cli_value \<noteq> PNone then
        (if registered \<noteq> PNone \<and> \<not> py_eq cli_value registered
         then Raise ValueError (''--'' @ flag @ '' disagrees with the registered value'')
         else Ret cli_value)
      else Ret registered)"

definition peek_manifest :: "run_files \<Rightarrow> run_manifest option res" where
  "peek_manifest run_dir =
     catchE [OSError, ValueError, TypeError] (\<lambda>_. Ret None)
       (bindE (load_manifest (rf_manifest run_dir)) (\<lambda>m. Ret (Some m)))"

definition LEGACY_CLASS_ID :: string where "LEGACY_CLASS_ID = ''vlp16''"

definition class_admits :: "pyval \<Rightarrow> string \<Rightarrow> bool" where
  "class_admits manifest_class_id class_id \<longleftrightarrow>
     py_eq manifest_class_id (PStr class_id) \<or>
     (py_eq manifest_class_id (PStr '''') \<and> class_id = LEGACY_CLASS_ID)"

section \<open>One run\<close>

fun list_max :: "int list \<Rightarrow> int res" where
  "list_max [] = Raise ValueError ''zero-size array to reduction operation maximum''"
| "list_max (x # xs) = Ret (fold max xs x)"

fun list_min :: "int list \<Rightarrow> int res" where
  "list_min [] = Raise ValueError ''zero-size array to reduction operation minimum''"
| "list_min (x # xs) = Ret (fold min xs x)"

text \<open>\<open>(int(clock_ns.max()) - int(clock_ns.min())) / 1e9\<close>.\<close>

definition sim_span_s :: "int list \<Rightarrow> f64 res" where
  "sim_span_s clock_ns =
     bindE (list_max clock_ns) (\<lambda>hi. bindE (list_min clock_ns) (\<lambda>lo.
     bindE (float_of_int (hi - lo)) (\<lambda>d. float_div d (Fin 1000000000))))"

definition excluded_verdict :: "run_files \<Rightarrow> run_manifest \<Rightarrow> run_verdict" where
  "excluded_verdict run_dir m =
     \<lparr>v_run = rf_name run_dir, v_arm = m_arm m, v_excluded = True,
      v_exclusion_reason = m_exclusion_reason m, v_verdict = None, v_publisher_rate_ratio = None,
      v_publisher_note = None, v_observer_loss_rate = NaN, v_quality_ok = None,
      v_quality_note = None, v_window_branch_note = None\<rparr>"

text \<open>The sample stamps with \<open>(rtf, tick_ratio)\<close>: one of the two series, by arm.\<close>

definition throughput_series ::
  "run_files \<Rightarrow> run_manifest \<Rightarrow> int list \<Rightarrow> pyval \<Rightarrow> (int list \<times> f64 list option \<times> f64 list option) res" where
  "throughput_series run_dir m wall_ns tick_hz =
     (if py_eq (m_arm m) (PStr ''unpaced'')
      then bindE (tick_rate_ratio_series wall_ns tick_hz (py_str (m_cell m))) (\<lambda>(s, r).
             Ret (s, None, Some r))
      else bindE (read_resources_csv (rf_resources run_dir)) (\<lambda>resources.
           bindE (rtf_series_from_resources resources) (\<lambda>(s, r). Ret (s, Some r, None))))"

definition scored_verdict ::
  "run_files \<Rightarrow> run_manifest \<Rightarrow> pyval \<Rightarrow> pyval \<Rightarrow> pyval \<Rightarrow> string \<Rightarrow> run_verdict res" where
  "scored_verdict run_dir m topic tick_hz lidar_expected_hz expected_branch =
     bindE (read_clock_csv (rf_clock run_dir)) (\<lambda>(clock_ns, wall_ns).
     let note = window_branch_note expected_branch (actual_window_branch wall_ns)
     in bindE (sim_span_s clock_ns) (\<lambda>window_s.
        bindE (expected_lidar_count window_s lidar_expected_hz) (\<lambda>n_expected.
        bindE (throughput_series run_dir m wall_ns tick_hz) (\<lambda>(sample_ns, rtf, tick_ratio).
        bindE (publisher_rate_ratio run_dir topic n_expected) (\<lambda>(pub_ratio, obs_loss, pub_note).
        bindE (quality_ok run_dir (m_arm m)) (\<lambda>(q_ok, q_note).
        bindE (evaluate_ceiling default_params sample_ns rtf pub_ratio q_ok tick_ratio) (\<lambda>verdict.
          Ret \<lparr>v_run = rf_name run_dir, v_arm = m_arm m, v_excluded = False,
               v_exclusion_reason = PStr '''', v_verdict = Some verdict,
               v_publisher_rate_ratio = Some pub_ratio, v_publisher_note = pub_note,
               v_observer_loss_rate = obs_loss, v_quality_ok = Some q_ok, v_quality_note = q_note,
               v_window_branch_note = note\<rparr>)))))))"

definition verdict_for_run ::
  "pyval \<Rightarrow> pyval \<Rightarrow> pyval \<Rightarrow> pyval \<Rightarrow> string \<Rightarrow> run_files \<Rightarrow> run_verdict res" where
  "verdict_for_run doc topic tick_hz lidar_expected_hz expected_branch run_dir =
     bindE (load_manifest (rf_manifest run_dir)) (\<lambda>m.
     bindE (manifest_validate doc m) (\<lambda>errs.
       if errs \<noteq> [] then Raise ValueError (''invalid manifest: '' @ join ''; '' errs)
       else if truthy (m_excluded m) then Ret (excluded_verdict run_dir m)
       else scored_verdict run_dir m topic tick_hz lidar_expected_hz expected_branch))"

section \<open>The table\<close>

definition fmt_ratio :: "f64 option \<Rightarrow> string" where
  "fmt_ratio value =
     (case value of None \<Rightarrow> ''-'' | Some x \<Rightarrow> if x = NaN then ''NaN'' else fmt_fixed 3 x)"

definition or_dash :: "string \<Rightarrow> string" where
  "or_dash s = (if s = [] then ''-'' else s)"

definition notes_of :: "string option list \<Rightarrow> string list" where
  "notes_of ns = filter (\<lambda>s. s \<noteq> []) (map (\<lambda>n. case n of None \<Rightarrow> [] | Some s \<Rightarrow> s) ns)"

definition show_bool :: "bool \<Rightarrow> string" where
  "show_bool b = (if b then ''True'' else ''False'')"

definition verdict_line :: "run_verdict \<Rightarrow> string" where
  "verdict_line v =
     (if v_excluded v
      then ''| '' @ v_run v @ '' | '' @ py_str (v_arm v) @ '' | EXCLUDED | '' @
           py_str (v_exclusion_reason v) @ '' | - | - | - | - |''
      else ''| '' @ v_run v @ '' | '' @ py_str (v_arm v) @ '' | '' @
        (case v_verdict v of None \<Rightarrow> [] | Some c \<Rightarrow> show_bool (reached c)) @ '' | '' @
        (case v_verdict v of None \<Rightarrow> [] | Some c \<Rightarrow> or_dash (join ''; '' (reasons c))) @ '' | '' @
        fmt_ratio (v_publisher_rate_ratio v) @ '' | '' @ fmt_ratio (Some (v_observer_loss_rate v)) @
        '' | '' @ (case v_quality_ok v of None \<Rightarrow> ''None'' | Some b \<Rightarrow> show_bool b) @ '' | '' @
        or_dash (join ''; '' (notes_of [v_publisher_note v, v_quality_note v, v_window_branch_note v])) @
        '' |'')"

definition render_verdicts :: "string \<Rightarrow> string \<Rightarrow> run_verdict list \<Rightarrow> nat \<Rightarrow> nat \<Rightarrow> string list" where
  "render_verdicts cell class_id verdicts skipped_out_of_arm skipped_out_of_class =
     [''## Sweep verdict: cell '' @ cell @ '', class '' @ class_id, [],
      ''| run | arm | reached | reasons | publisher_rate | observer_loss | quality_ok | notes |'',
      ''|---|---|---|---|---|---|---|---|''] @
     map verdict_line verdicts @
     (if skipped_out_of_arm = 0 then []
      else [[], show_nat skipped_out_of_arm @ '' run(s) skipped: arm not in this cell's sweep_arms.'']) @
     (if skipped_out_of_class = 0 then []
      else [[], show_nat skipped_out_of_class @
        '' run(s) skipped: class not in this point's pool (manifest class_id is neither '' @
        repr_str class_id @ '' nor the legacy '' @ repr_str [] @ '' this tool reads as '' @
        repr_str LEGACY_CLASS_ID @ '').''])"

section \<open>The walk\<close>

record sweep_tally =
  st_verdicts :: "run_verdict list"
  st_skipped :: nat
  st_skipped_class :: nat

text \<open>One directory: the two filters, arm first, then the verdict.\<close>

definition sweep_step ::
  "pyval list \<Rightarrow> string \<Rightarrow> (run_files \<Rightarrow> run_verdict res) \<Rightarrow> sweep_tally \<Rightarrow> run_files \<Rightarrow> sweep_tally res" where
  "sweep_step sweep_arms class_id score t run_dir =
     bindE (peek_manifest run_dir) (\<lambda>pm. case pm of
       None \<Rightarrow> Ret (t\<lparr>st_skipped := st_skipped t + 1\<rparr>)
     | Some m \<Rightarrow>
         bindE (in_values (m_arm m) sweep_arms) (\<lambda>in_arms.
           if \<not> in_arms then Ret (t\<lparr>st_skipped := st_skipped t + 1\<rparr>)
           else if \<not> class_admits (m_class_id m) class_id
           then Ret (t\<lparr>st_skipped_class := st_skipped_class t + 1\<rparr>)
           else bindE (score run_dir) (\<lambda>v. Ret (t\<lparr>st_verdicts := st_verdicts t @ [v]\<rparr>))))"

definition empty_tally :: sweep_tally where
  "empty_tally = \<lparr>st_verdicts = [], st_skipped = 0, st_skipped_class = 0\<rparr>"

record sweep_args =
  sa_cell :: string
  sa_class_id :: string
  sa_topic :: pyval
  sa_override_topic :: pyval
  sa_tick_hz :: pyval
  sa_override_tick_hz :: pyval
  sa_lidar_expected_hz :: pyval
  sa_override_lidar_expected_hz :: pyval

text \<open>\<open>set(merged.get("sweep_arms") or [])\<close>.\<close>

definition sweep_arms_of :: "(string \<times> pyval) list \<Rightarrow> pyval list res" where
  "sweep_arms_of merged =
     bindE (case map_of merged ''sweep_arms'' of
              None \<Rightarrow> Ret [] | Some v \<Rightarrow> if truthy v then py_iter v else Ret [])
       set_of_values"

definition score_cell ::
  "pyval \<Rightarrow> pyval \<Rightarrow> sweep_args \<Rightarrow> run_files list \<Rightarrow> (string \<times> pyval) list \<Rightarrow> (string \<times> pyval) list
    \<Rightarrow> sweep_tally res" where
  "score_cell known doc a cell_dir merged metrics =
     bindE (sweep_arms_of merged) (\<lambda>arms.
     bindE (getitem (PDict metrics) ''lidar_topic'') (\<lambda>r1.
     bindE (resolve_override ''topic'' r1 (sa_topic a) (sa_override_topic a)) (\<lambda>topic.
     bindE (getitem (PDict metrics) ''tick_hz'') (\<lambda>r2.
     bindE (resolve_override ''tick-hz'' r2 (sa_tick_hz a) (sa_override_tick_hz a)) (\<lambda>tick_hz.
     bindE (getitem (PDict metrics) ''lidar_expected_hz'') (\<lambda>r3.
     bindE (resolve_override ''lidar-expected-hz'' r3 (sa_lidar_expected_hz a)
              (sa_override_lidar_expected_hz a)) (\<lambda>hz.
     bindE (getitem (PDict merged) ''approach'') (\<lambda>approach.
       foldE (sweep_step arms (sa_class_id a)
                (verdict_for_run known topic tick_hz hz (expected_window_branch approach (sa_cell a))))
         empty_tally (run_dirs cell_dir)))))))))"

text \<open>\<open>main\<close>: the exit code and the lines it prints. The manifests are validated against the
  repository's own cells.yaml (\<open>known\<close>), the tables read the one given (\<open>doc\<close>).\<close>

definition sweep_main ::
  "pyval \<Rightarrow> pyval \<Rightarrow> sweep_args \<Rightarrow> run_files list \<Rightarrow> (int \<times> string list) res" where
  "sweep_main known doc a cell_dir =
     (case bindE (merge_cell doc (sa_cell a) (Some (sa_class_id a))) (\<lambda>merged.
           bindE (metrics_for doc (sa_cell a)) (\<lambda>metrics. Ret (merged, metrics))) of
        Inl e \<Rightarrow> if exc_isa (exc_of e) UnknownIdError then Ret (EXIT_UNKNOWN_ID, []) else Inl e
      | Inr (merged, metrics) \<Rightarrow>
          bindE (score_cell known doc a cell_dir merged metrics) (\<lambda>t.
            Ret (0, render_verdicts (sa_cell a) (sa_class_id a) (st_verdicts t) (st_skipped t)
                      (st_skipped_class t))))"

section \<open>Bindings\<close>

text \<open>A registered binding is never displaced silently: without the override flag the resolved
  value equals the registered one, and a plain flag that disagrees with it is refused; with nothing
  registered the plain flag fills the gap; the override flag always wins.\<close>

theorem resolve_override_registry:
  "resolve_override flag registered cli ov =
     (if ov \<noteq> PNone then Inr ov
      else if registered = PNone then Inr (if cli = PNone then PNone else cli)
      else if cli = PNone then Inr registered
      else if py_eq cli registered then Inr cli
      else Raise ValueError (''--'' @ flag @ '' disagrees with the registered value''))"
  by (simp add: resolve_override_def)

section \<open>The series\<close>

lemma tick_rate_ratio_series_length:
  assumes "tick_rate_ratio_series w hz cell = Inr (s, r)"
  shows "length s = length r \<and> s \<noteq> []"
proof -
  from assms obtain x where s: "s = tl (sort w)" and n: "\<not> length w < 2"
    and r: "r = map (\<lambda>g. (1 div g) div x) (map (\<lambda>d. of_i64 d div Fin 1000000000) (np_diff (sort w)))"
    by (auto simp: tick_rate_ratio_series_def Let_def py_splits split: if_split_asm)
  have "length s = length w - 1" "length r = length w - 1" unfolding s r by simp_all
  with n show ?thesis by (cases s) auto
qed

lemma resources_aligned:
  assumes "read_resources_csv f = Inr groups" "map_of groups k = Some g"
  shows "length (col (tc_ints g) ''sample_system_ns'') = length (col (tc_floats g) ''rtf'')"
proof -
  from assms(1) obtain rows raw where
    raw: "group_rows (\<lambda>row. row_cell row ''process'') empty_resource add_resource_row rows = Inr raw"
    and conv: "convert_groups convert_typed raw = Inr groups"
    by (auto simp: read_resources_csv_def py_splits)
  from convert_groups_Inr(1) [OF conv assms(2)] obtain g0 where
    g0: "map_of raw k = Some g0" "convert_typed g0 = Inr g" by blast
  then have f: "tc_floats g = tc_floats g0" and i: "i64_columns (tc_ints g0) = Inr (tc_ints g)"
    by (auto simp: convert_typed_def py_splits)
  have "length (col (tc_ints g0) ''sample_system_ns'') = length (col (tc_floats g0) ''rtf'')"
    using resource_ints.group_rows_length [OF raw g0(1), of "''sample_system_ns''"]
      resource_floats.group_rows_length [OF raw g0(1), of "''rtf''"]
    by (simp add: RESOURCE_INT_COLS_def RESOURCE_FLOAT_COLS_def)
  with i64_columns_col [OF i, of "''sample_system_ns''"] f show ?thesis by simp
qed

lemma length_select: "length xs = length ys \<Longrightarrow> length (select bs xs) = length (select bs ys)"
proof (induction bs arbitrary: xs ys)
  case Nil
  then show ?case by simp
next
  case (Cons b bs)
  then show ?case by (cases xs; cases ys) auto
qed

lemma rtf_series_length:
  assumes "read_resources_csv f = Inr groups" "rtf_series_from_resources groups = Inr (s, r)"
  shows "length s = length r \<and> s \<noteq> [] \<and> (\<forall>v \<in> set r. 0 \<le> v)"
proof -
  from assms(2) obtain ks cols where cols: "map_of groups (hd ks) = Some cols"
    and s: "s = select (map (\<lambda>v. 0 \<le> v) (col (tc_floats cols) ''rtf'')) (col (tc_ints cols) ''sample_system_ns'')"
    and r: "r = select (map (\<lambda>v. 0 \<le> v) (col (tc_floats cols) ''rtf'')) (col (tc_floats cols) ''rtf'')"
    and ne: "s \<noteq> []"
    by (auto simp: rtf_series_from_resources_def py_splits Let_def simp del: select_map
        split: if_split_asm option.splits)
  have "length s = length r" unfolding s r by (rule length_select [OF resources_aligned [OF assms(1) cols]])
  moreover have "\<forall>v \<in> set r. 0 \<le> v" unfolding r select_map by simp
  ultimately show ?thesis using ne by simp
qed

text \<open>The two throughput series are mutually exclusive and aligned: whatever the arm, exactly
  one of rtf and tick ratio is computed, it has one value per sample stamp, and it is not empty; an
  rtf series carries none of the sampler's negative sentinels.\<close>

theorem throughput_series_aligned:
  assumes "throughput_series run m wall tick_hz = Inr (s, rtf, tick)"
  shows "s \<noteq> [] \<and>
    ((\<exists>r. rtf = Some r \<and> tick = None \<and> length r = length s \<and> (\<forall>v \<in> set r. 0 \<le> v) \<and>
        \<not> py_eq (m_arm m) (PStr ''unpaced'')) \<or>
     (\<exists>r. tick = Some r \<and> rtf = None \<and> length r = length s \<and> py_eq (m_arm m) (PStr ''unpaced'')))"
proof (cases "py_eq (m_arm m) (PStr ''unpaced'')")
  case True
  with assms show ?thesis
    by (auto simp: throughput_series_def py_splits dest!: tick_rate_ratio_series_length)
next
  case False
  with assms obtain groups r where g: "read_resources_csv (rf_resources run) = Inr groups"
    and r: "rtf_series_from_resources groups = Inr (s, r)" and eq: "rtf = Some r" "tick = None"
    by (auto simp: throughput_series_def py_splits split: prod.splits)
  from rtf_series_length [OF g r] eq False show ?thesis by simp
qed

definition unpaced_manifest :: run_manifest where
  "unpaced_manifest = sample_manifest\<lparr>m_arm := PStr ''unpaced''\<rparr>"

definition bare_run :: run_files where
  "bare_run = \<lparr>rf_name = ''run-001'', rf_manifest = JAbsent, rf_clock = CAbsent, rf_resources = CAbsent,
     rf_observer = CAbsent, rf_published_time = CAbsent, rf_odometry = CAbsent, rf_pose = CAbsent,
     rf_gt = CAbsent, rf_counts = JAbsent, rf_quality = JAbsent\<rparr>"

theorem throughput_series_aligned_witness:
  "\<exists>s r. throughput_series bare_run unpaced_manifest [0, 50000000, 100000000] (PInt 20) =
     Inr (s, None, Some r) \<and> s \<noteq> [] \<and> length r = length s"
proof -
  have g: "(of_i64 50000000 div Fin 1000000000 \<le> 0) = False" by code_simp
  have "\<exists>h. num_operand (PInt 20) = Inr h" by (simp add: num_operand_def float_of_int_def rnd_int [of 20, simplified])
  then obtain h where "num_operand (PInt 20) = Inr h" ..
  then have "\<exists>s r. throughput_series bare_run unpaced_manifest [0, 50000000, 100000000] (PInt 20) =
      Inr (s, None, Some r)"
    by (simp add: throughput_series_def unpaced_manifest_def tick_rate_ratio_series_def g
        i64_sub_def wrap64_def)
  then obtain s r where
    t: "throughput_series bare_run unpaced_manifest [0, 50000000, 100000000] (PInt 20) = Inr (s, None, Some r)"
    by blast
  from throughput_series_aligned [OF t] t show ?thesis by auto
qed

section \<open>One run\<close>

lemma verdict_for_run_scored:
  assumes "verdict_for_run doc topic tick_hz hz br run = Inr v" "\<not> v_excluded v"
  shows "\<exists>m. load_manifest (rf_manifest run) = Inr m \<and> manifest_validate doc m = Inr [] \<and>
    \<not> truthy (m_excluded m) \<and> scored_verdict run m topic tick_hz hz br = Inr v"
  using assms by (auto simp: verdict_for_run_def py_splits excluded_verdict_def split: if_split_asm)

lemma scored_verdict_Inr:
  assumes "scored_verdict run m topic tick_hz hz br = Inr v"
  shows "\<exists>clock wall w n s rtf tick pub loss pnote q qnote c.
    read_clock_csv (rf_clock run) = Inr (clock, wall) \<and> sim_span_s clock = Inr w \<and>
    expected_lidar_count w hz = Inr n \<and> throughput_series run m wall tick_hz = Inr (s, rtf, tick) \<and>
    publisher_rate_ratio run topic n = Inr (pub, loss, pnote) \<and> quality_ok run (m_arm m) = Inr (q, qnote) \<and>
    evaluate_ceiling default_params s rtf pub q tick = Inr c \<and>
    v_arm v = m_arm m \<and> v_verdict v = Some c \<and> v_publisher_rate_ratio v = Some pub \<and>
    v_publisher_note v = pnote \<and> v_quality_ok v = Some q \<and> v_quality_note v = qnote \<and>
    v_window_branch_note v = window_branch_note br (actual_window_branch wall)"
  using assms by (auto simp: scored_verdict_def py_splits Let_def split: prod.splits)

text \<open>An excluded run never reaches a verdict and none of its data is read: with a valid
  manifest that excludes it, the row carries no ceiling verdict, no ratio and no quality, and any
  run directory with the same name and manifest gives the same row under any bindings.\<close>

theorem excluded_run_unscored:
  assumes "load_manifest (rf_manifest run) = Inr m" "manifest_validate doc m = Inr []"
    and "truthy (m_excluded m)" "rf_name run' = rf_name run" "rf_manifest run' = rf_manifest run"
  shows "\<exists>v. verdict_for_run doc topic tick_hz hz br run = Inr v \<and> v_excluded v \<and>
    v_exclusion_reason v = m_exclusion_reason m \<and> v_verdict v = None \<and>
    v_publisher_rate_ratio v = None \<and> v_quality_ok v = None \<and>
    verdict_for_run doc topic' tick_hz' hz' br' run' = Inr v"
  using assms by (simp add: verdict_for_run_def excluded_verdict_def)

definition excluded_sample :: run_manifest where
  "excluded_sample = sample_manifest\<lparr>m_excluded := PBool True, m_exclusion_reason := PStr ''stall:clock''\<rparr>"

definition excluded_run :: run_files where
  "excluded_run = bare_run\<lparr>rf_manifest := JDoc (manifest_asdict excluded_sample)\<rparr>"

theorem excluded_run_unscored_witness:
  "\<exists>v. verdict_for_run sample_doc PNone PNone PNone ''fittable'' excluded_run = Inr v \<and> v_excluded v \<and>
     v_verdict v = None"
proof -
  have l: "load_manifest (rf_manifest excluded_run) = Inr excluded_sample"
    by (simp add: excluded_run_def load_asdict)
  have v: "manifest_validate sample_doc excluded_sample = Inr []" by code_simp
  have e: "truthy (m_excluded excluded_sample)" by (simp add: excluded_sample_def)
  from excluded_run_unscored [OF l v e refl refl] show ?thesis by blast
qed

lemma rate_one_passes: "\<not> (1::f64) < rate_threshold default_params"
proof -
  have "rnd (9/10) \<le> rnd 1" by (rule rnd_mono) simp
  then show ?thesis by (auto simp: default_params_def one_f64_def not_less_f64)
qed

lemma publisher_rate_ratio_absent:
  assumes "publisher_rate_ratio run topic n = Inr (pub, loss, note)" "rf_counts run = JAbsent"
  shows "pub = 1 \<and> loss = NaN \<and> note = Some NOT_MEASURABLE"
  using assms by (auto simp: publisher_rate_ratio_def py_splits Let_def split: if_split_asm)

text \<open>A verdict is exactly the four pre-registered disjuncts over the run's own data, and absent
  publisher evidence is neutral: when the run has no publisher counts file the row says so in its
  note and the point is reached only if a sustained-throughput disjunct fires or the quality gate
  failed.\<close>

theorem verdict_without_publisher_counts:
  assumes "verdict_for_run doc topic tick_hz hz br run = Inr v" "\<not> v_excluded v"
    and "rf_counts run = JAbsent"
  shows "v_publisher_note v = Some NOT_MEASURABLE \<and>
    (\<exists>c m wall s rtf tick q. v_verdict v = Some c \<and> load_manifest (rf_manifest run) = Inr m \<and>
      throughput_series run m wall tick_hz = Inr (s, rtf, tick) \<and> v_quality_ok v = Some q \<and>
      (reached c \<longleftrightarrow>
        (\<exists>r. rtf = Some r \<and> sustained_below s r (rtf_threshold default_params) (sustain_s default_params)) \<or>
        (\<exists>r. tick = Some r \<and> sustained_below s r (tick_rate_threshold default_params) (sustain_s default_params)) \<or>
        \<not> q))"
proof -
  from verdict_for_run_scored [OF assms(1,2)] obtain m where m: "load_manifest (rf_manifest run) = Inr m"
    and sc: "scored_verdict run m topic tick_hz hz br = Inr v" by blast
  from scored_verdict_Inr [OF sc] obtain wall n s rtf tick pub loss pnote q qnote c where
    ts: "throughput_series run m wall tick_hz = Inr (s, rtf, tick)" and
    pr: "publisher_rate_ratio run topic n = Inr (pub, loss, pnote)" and
    ec: "evaluate_ceiling default_params s rtf pub q tick = Inr c" and
    vs: "v_verdict v = Some c" "v_publisher_note v = pnote" "v_quality_ok v = Some q" by blast
  from publisher_rate_ratio_absent [OF pr assms(3)] have p: "pub = 1" "pnote = Some NOT_MEASURABLE" by auto
  have "reached c \<longleftrightarrow>
        (\<exists>r. rtf = Some r \<and> sustained_below s r (rtf_threshold default_params) (sustain_s default_params)) \<or>
        (\<exists>r. tick = Some r \<and> sustained_below s r (tick_rate_threshold default_params) (sustain_s default_params)) \<or>
        \<not> q"
    using ceiling_disjuncts [OF ec] rate_one_passes unfolding p(1) by blast
  with m ts vs p(2) show ?thesis by blast
qed

text \<open>A complete run: two clock rows, no publisher counts, a passed quality gate.\<close>

definition scored_run :: run_files where
  "scored_run = bare_run
     \<lparr>rf_manifest := JDoc (manifest_asdict unpaced_manifest),
      rf_clock := CRows [[(''clock_ns'', Some ''0''), (''arrival_system_ns'', Some ''1'')],
                         [(''clock_ns'', Some ''5''), (''arrival_system_ns'', Some ''3'')]],
      rf_observer := CRows [], rf_quality := JDoc (PDict [(''gate_pass'', PBool True)])\<rparr>"

lemma scored_run_clock: "read_clock_csv (rf_clock scored_run) = Inr ([0, 5], [1, 3])"
  by code_simp

lemma scored_run_expected: "\<exists>w n. sim_span_s [0, 5] = Inr w \<and> expected_lidar_count w (PInt 20) = Inr n"
proof -
  have "case sim_span_s [0, 5] of Inr (Fin w) \<Rightarrow> True | _ \<Rightarrow> False" by code_simp
  then obtain w where w: "sim_span_s [0, 5] = Inr (Fin w)" by (auto split: sum.splits f64.splits)
  have "sim_span_s [0, 5] = Inr (rnd (5 / 1000000000))"
    by (simp add: sim_span_s_def float_of_int_def rnd_int [of 5, simplified] float_div_def)
  moreover have "\<bar>5 / 1000000000 :: rat\<bar> \<le> 2 ^ 53" by simp
  ultimately have "sim_span_s [0, 5] = Inr (Fin (rnd_rat (5 / 1000000000)))" by (simp only: rnd_small)
  moreover have "case Fin (rnd_rat (5 / 1000000000)) * Fin 20 of Fin q \<Rightarrow> True | _ \<Rightarrow> False" by code_simp
  then obtain q where "Fin (rnd_rat (5 / 1000000000)) * Fin 20 = Fin q" by (auto split: f64.splits)
  then have "expected_lidar_count (Fin (rnd_rat (5 / 1000000000))) (PInt 20) = Inr (max 1 (round_even q))"
    by (simp add: expected_lidar_count_def num_operand_def float_of_int_def rnd_int [of 20, simplified]
        expected_count_def py_round_def del: times_f64.simps)
  ultimately show ?thesis by blast
qed

lemma scored_run_series:
  "\<exists>r. throughput_series scored_run unpaced_manifest [1, 3] (PInt 20) = Inr ([3], None, Some [r])"
proof -
  have g: "(of_i64 2 div Fin 1000000000 \<le> 0) = False" by code_simp
  show ?thesis
    by (simp add: throughput_series_def unpaced_manifest_def tick_rate_ratio_series_def g num_operand_def
        float_of_int_def rnd_int [of 20, simplified] i64_sub_def wrap64_def)
qed

lemma scored_run_verdict:
  "\<exists>v. verdict_for_run sample_doc (PStr ''/l'') (PInt 20) (PInt 20) ''fittable'' scored_run = Inr v \<and>
     \<not> v_excluded v"
proof -
  have l: "load_manifest (rf_manifest scored_run) = Inr unpaced_manifest"
    by (simp add: scored_run_def load_asdict)
  have v: "manifest_validate sample_doc unpaced_manifest = Inr []" by code_simp
  have e: "\<not> truthy (m_excluded unpaced_manifest)" by (simp add: unpaced_manifest_def sample_manifest_def)
  obtain w n where w: "sim_span_s [0, 5] = Inr w" "expected_lidar_count w (PInt 20) = Inr n"
    using scored_run_expected by blast
  obtain r where r: "throughput_series scored_run unpaced_manifest [1, 3] (PInt 20) = Inr ([3], None, Some [r])"
    using scored_run_series by blast
  have p: "publisher_rate_ratio scored_run (PStr ''/l'') n = Inr (1, NaN, Some NOT_MEASURABLE)"
    by (simp add: publisher_rate_ratio_def scored_run_def bare_run_def read_observer_csv_def
        read_grouped_def read_rows_def group_rows_def convert_groups_def lookup_group_def)
  have q: "quality_ok scored_run a = Inr (True, None)" for a
    by (simp add: quality_ok_def scored_run_def read_json_def getitem_def)
  have c: "evaluate_ceiling default_params [3] None 1 True (Some [r]) = Inr \<lparr>reached = False, reasons = []\<rparr>"
    using rate_one_passes
    by (simp add: evaluate_ceiling_def as_i64_def in_i64_def series_reason_def as_series_def
        sustained_below_def Let_def)
  have "scored_verdict scored_run unpaced_manifest (PStr ''/l'') (PInt 20) (PInt 20) ''fittable'' \<noteq> Inl x" for x
    by (simp add: scored_verdict_def scored_run_clock w r p q c Let_def)
  then obtain v' where v': "scored_verdict scored_run unpaced_manifest (PStr ''/l'') (PInt 20) (PInt 20) ''fittable'' = Inr v'"
    by (meson sum.exhaust)
  have "\<not> v_excluded v'" using v' by (auto simp: scored_verdict_def scored_run_clock w r p q c Let_def)
  with l v e v' show ?thesis by (simp add: verdict_for_run_def)
qed

theorem verdict_without_publisher_counts_witness:
  "\<exists>v. verdict_for_run sample_doc (PStr ''/l'') (PInt 20) (PInt 20) ''fittable'' scored_run = Inr v \<and>
     v_publisher_note v = Some NOT_MEASURABLE"
proof -
  obtain v where v: "verdict_for_run sample_doc (PStr ''/l'') (PInt 20) (PInt 20) ''fittable'' scored_run = Inr v"
    "\<not> v_excluded v" using scored_run_verdict by blast
  have "rf_counts scored_run = JAbsent" by (simp add: scored_run_def bare_run_def)
  from verdict_without_publisher_counts [OF v this] v show ?thesis by blast
qed

text \<open>A missing quality file never reads as a pass: a run scored without quality.json was an
  ablation run, and its row says the gate did not apply.\<close>

theorem missing_quality_only_on_ablation:
  assumes "verdict_for_run doc topic tick_hz hz br run = Inr v" "\<not> v_excluded v"
    and "rf_quality run = JAbsent"
  shows "v_arm v = PStr ''ablation'' \<and> v_quality_note v = Some NOT_APPLICABLE_ABLATION"
proof -
  from verdict_for_run_scored [OF assms(1,2)] obtain m where
    "scored_verdict run m topic tick_hz hz br = Inr v" by blast
  from scored_verdict_Inr [OF this] obtain q qnote where
    "quality_ok run (m_arm m) = Inr (q, qnote)" "v_arm v = m_arm m" "v_quality_note v = qnote" by blast
  with assms(3) show ?thesis by (auto simp: quality_ok_def split: if_split_asm)
qed

definition ablation_run :: run_files where
  "ablation_run = scored_run
     \<lparr>rf_manifest := JDoc (manifest_asdict (sample_manifest\<lparr>m_arm := PStr ''ablation''\<rparr>)),
      rf_resources := CRows [(''process'', Some ''sim'') #
         map (\<lambda>c. (c, Some ''1'')) (RESOURCE_INT_COLS @ RESOURCE_FLOAT_COLS)],
      rf_quality := JAbsent\<rparr>"

lemma ablation_run_verdict:
  "\<exists>v. verdict_for_run sample_doc (PStr ''/l'') (PInt 20) (PInt 20) ''fittable'' ablation_run = Inr v \<and>
     \<not> v_excluded v"
proof -
  let ?m = "sample_manifest\<lparr>m_arm := PStr ''ablation''\<rparr>"
  have l: "load_manifest (rf_manifest ablation_run) = Inr ?m" by (simp add: ablation_run_def load_asdict)
  have v: "manifest_validate sample_doc ?m = Inr []" by code_simp
  have e: "\<not> truthy (m_excluded ?m)" by (simp add: sample_manifest_def)
  have k: "rf_clock ablation_run = rf_clock scored_run" by (simp add: ablation_run_def)
  obtain w n where w: "sim_span_s [0, 5] = Inr w" "expected_lidar_count w (PInt 20) = Inr n"
    using scored_run_expected by blast
  have g: "read_resources_csv (rf_resources ablation_run) = Inr [(Some ''sim'',
      \<lparr>tc_ints = [(''sample_system_ns'', [1]), (''rss_bytes'', [1]), (''vram_bytes'', [1])],
       tc_floats = [(''cpu_pct'', [Fin 1]), (''gpu_util_pct'', [Fin 1]), (''rtf'', [Fin 1]), (''loadavg_1m'', [NaN])]\<rparr>)]"
    by code_simp
  have r: "throughput_series ablation_run ?m [1, 3] (PInt 20) = Inr ([1], Some [Fin 1], None)"
    by (simp add: throughput_series_def g rtf_series_from_resources_def sorted_cells_def col_def zero_f64_def)
  have p: "publisher_rate_ratio ablation_run (PStr ''/l'') n = Inr (1, NaN, Some NOT_MEASURABLE)"
    by (simp add: publisher_rate_ratio_def ablation_run_def scored_run_def bare_run_def read_observer_csv_def
        read_grouped_def read_rows_def group_rows_def convert_groups_def lookup_group_def)
  have q: "quality_ok ablation_run (m_arm ?m) = Inr (True, Some NOT_APPLICABLE_ABLATION)"
    by (simp add: quality_ok_def ablation_run_def)
  have c: "evaluate_ceiling default_params [1] (Some [Fin 1]) 1 True None = Inr \<lparr>reached = False, reasons = []\<rparr>"
    using rate_one_passes
    by (simp add: evaluate_ceiling_def as_i64_def in_i64_def series_reason_def as_series_def
        sustained_below_def Let_def)
  have "scored_verdict ablation_run ?m (PStr ''/l'') (PInt 20) (PInt 20) ''fittable'' \<noteq> Inl x" for x
    by (simp add: scored_verdict_def k scored_run_clock w r p q [simplified] c Let_def)
  then obtain v' where v': "scored_verdict ablation_run ?m (PStr ''/l'') (PInt 20) (PInt 20) ''fittable'' = Inr v'"
    by (meson sum.exhaust)
  have "\<not> v_excluded v'" using v'
    by (auto simp: scored_verdict_def k scored_run_clock w r p q [simplified] c Let_def)
  with l v e v' show ?thesis by (simp add: verdict_for_run_def)
qed

theorem missing_quality_only_on_ablation_witness:
  "\<exists>v. verdict_for_run sample_doc (PStr ''/l'') (PInt 20) (PInt 20) ''fittable'' ablation_run = Inr v \<and>
     v_quality_note v = Some NOT_APPLICABLE_ABLATION"
proof -
  obtain v where v: "verdict_for_run sample_doc (PStr ''/l'') (PInt 20) (PInt 20) ''fittable'' ablation_run = Inr v"
    "\<not> v_excluded v" using ablation_run_verdict by blast
  have "rf_quality ablation_run = JAbsent" by (simp add: ablation_run_def)
  from missing_quality_only_on_ablation [OF v this] v show ?thesis by blast
qed

section \<open>Admission and accounting\<close>

interpretation class_pool: admission_pool "\<lambda>i k. class_admits (PStr i) k" "\<lambda>k. k"
    "\<lambda>k. k = LEGACY_CLASS_ID" "\<lambda>k. k \<noteq> ''''"
  by unfold_locales (auto simp: class_admits_def)

lemma class_admits_str: "class_admits v c \<Longrightarrow> \<exists>s. v = PStr s"
  by (auto simp: class_admits_def)

text \<open>Sweep classes partition the runs: no run is admitted to the points of two classes, and a
  run without a class id (every manifest older than the field) is admitted to the vlp16 point and
  to no other class.\<close>

theorem class_pools_disjoint:
  assumes "c \<noteq> ''''" "c' \<noteq> ''''"
  shows "(class_admits v c \<and> class_admits v c' \<longrightarrow> c = c') \<and>
    (class_admits (PStr '''') c \<longleftrightarrow> c = ''vlp16'') \<and> class_admits (PStr c) c"
proof (intro conjI impI)
  assume "class_admits v c \<and> class_admits v c'"
  moreover from this obtain s where "v = PStr s" using class_admits_str by blast
  ultimately show "c = c'" using class_pool.pools_disjoint [OF assms, of s] by simp
next
  show "class_admits (PStr '''') c \<longleftrightarrow> c = ''vlp16''"
    using class_pool.legacy_only [OF assms(1)] by (simp add: LEGACY_CLASS_ID_def)
next
  show "class_admits (PStr c) c" by (rule class_pool.own_pool)
qed

theorem class_pools_disjoint_witness:
  "\<not> class_admits (PStr '''') ''32ch'' \<and> class_admits (PStr '''') ''vlp16''"
  using class_pools_disjoint [of "''32ch''" "''vlp16''"] class_pools_disjoint [of "''vlp16''" "''vlp16''"]
  by simp

definition tally_total :: "sweep_tally \<Rightarrow> nat" where
  "tally_total t = length (st_verdicts t) + st_skipped t + st_skipped_class t"

interpretation sweep_walk: counted_walk "sweep_step arms class_id score" tally_total "\<lambda>_. 1"
  by unfold_locales
    (auto simp: sweep_step_def py_splits tally_total_def split: if_split_asm option.splits)

definition scored_in :: "pyval list \<Rightarrow> string \<Rightarrow> (run_files \<Rightarrow> run_verdict res) \<Rightarrow> run_files list \<Rightarrow> run_verdict \<Rightarrow> bool" where
  "scored_in arms class_id score runs v \<longleftrightarrow>
     (\<exists>r \<in> set runs. score r = Inr v \<and>
       (\<exists>m. load_manifest (rf_manifest r) = Inr m \<and> in_values (m_arm m) arms = Inr True \<and>
            class_admits (m_class_id m) class_id))"

lemma peek_manifest_Some: "peek_manifest r = Inr (Some m) \<Longrightarrow> load_manifest (rf_manifest r) = Inr m"
  by (auto simp: peek_manifest_def catchE_def py_splits split: sum.splits if_split_asm)

lemma sweep_verdicts_scored:
  assumes "foldE (sweep_step arms class_id score) empty_tally runs = Inr t"
  shows "\<forall>v \<in> set (st_verdicts t). scored_in arms class_id score runs v"
proof (rule foldE_invariant [OF _ _ assms, where P = "\<lambda>t. \<forall>v \<in> set (st_verdicts t). scored_in arms class_id score runs v"])
  fix t r t'
  assume r: "r \<in> set runs" and inv: "\<forall>v \<in> set (st_verdicts t). scored_in arms class_id score runs v"
    and step: "sweep_step arms class_id score t r = Inr t'"
  from step obtain pm where pm: "peek_manifest r = Inr pm"
    by (auto simp: sweep_step_def py_splits)
  show "\<forall>v \<in> set (st_verdicts t'). scored_in arms class_id score runs v"
  proof (cases pm)
    case None
    with step pm inv show ?thesis by (auto simp: sweep_step_def)
  next
    case (Some m)
    with pm have m: "load_manifest (rf_manifest r) = Inr m" by (simp add: peek_manifest_Some)
    from step pm Some have "t' = t\<lparr>st_skipped := st_skipped t + 1\<rparr> \<or>
        t' = t\<lparr>st_skipped_class := st_skipped_class t + 1\<rparr> \<or>
        (\<exists>v. score r = Inr v \<and> in_values (m_arm m) arms = Inr True \<and> class_admits (m_class_id m) class_id \<and>
          t' = t\<lparr>st_verdicts := st_verdicts t @ [v]\<rparr>)"
      by (auto simp: sweep_step_def py_splits split: if_split_asm)
    moreover have "scored_in arms class_id score runs v" if "score r = Inr v"
        "in_values (m_arm m) arms = Inr True" "class_admits (m_class_id m) class_id" for v
      unfolding scored_in_def using r m that by blast
    ultimately show ?thesis using inv by auto
  qed
qed (simp add: empty_tally_def)

lemma score_cell_Inr:
  assumes "score_cell known doc a cell_dir merged metrics = Inr t"
  shows "\<exists>arms topic tick_hz hz br. sweep_arms_of merged = Inr arms \<and>
    foldE (sweep_step arms (sa_class_id a) (verdict_for_run known topic tick_hz hz br)) empty_tally
      (run_dirs cell_dir) = Inr t"
  using assms unfolding score_cell_def bindE_Inr_iff by blast

text \<open>No run is lost and none is scored outside its pool: the scored rows and the two skip
  counts of a table add up to the run directories of the cell, and every row is the verdict of a
  directory whose manifest carries one of the cell's sweep arms and the point's class.\<close>

theorem sweep_accounts_for_every_run:
  assumes "score_cell known doc a cell_dir merged metrics = Inr t"
  shows "length (st_verdicts t) + st_skipped t + st_skipped_class t = length (run_dirs cell_dir) \<and>
    (\<exists>arms topic tick_hz hz br. sweep_arms_of merged = Inr arms \<and>
      (\<forall>v \<in> set (st_verdicts t). \<exists>r \<in> set (run_dirs cell_dir).
        verdict_for_run known topic tick_hz hz br r = Inr v \<and>
        (\<exists>m. load_manifest (rf_manifest r) = Inr m \<and> in_values (m_arm m) arms = Inr True \<and>
             class_admits (m_class_id m) (sa_class_id a))))"
proof -
  from score_cell_Inr [OF assms] obtain arms topic tick_hz hz br where
    arms: "sweep_arms_of merged = Inr arms" and
    f: "foldE (sweep_step arms (sa_class_id a) (verdict_for_run known topic tick_hz hz br)) empty_tally
      (run_dirs cell_dir) = Inr t" by blast
  have "length (st_verdicts t) + st_skipped t + st_skipped_class t = length (run_dirs cell_dir)"
    using sweep_walk.walk_total [OF f] by (simp add: tally_total_def empty_tally_def sum_list_triv)
  with arms sweep_verdicts_scored [OF f] show ?thesis unfolding scored_in_def by blast
qed

definition sample_sweep_args :: sweep_args where
  "sample_sweep_args = \<lparr>sa_cell = ''A'', sa_class_id = ''vlp16'', sa_topic = PNone, sa_override_topic = PNone,
     sa_tick_hz = PNone, sa_override_tick_hz = PNone, sa_lidar_expected_hz = PNone,
     sa_override_lidar_expected_hz = PNone\<rparr>"

theorem sweep_accounts_for_every_run_witness:
  "\<exists>t. score_cell sample_doc sample_doc sample_sweep_args [excluded_run, bare_run]
       [(''sweep_arms'', PList [PStr ''paced'']), (''approach'', PStr ''extension'')]
       (map (\<lambda>k. (k, PNone)) METRIC_KEYS) = Inr t \<and>
     length (st_verdicts t) + st_skipped t + st_skipped_class t = 2"
proof -
  let ?metrics = "map (\<lambda>k. (k, PNone)) METRIC_KEYS"
  have l: "load_manifest (JDoc (manifest_asdict excluded_sample)) = Inr excluded_sample" by (rule load_asdict)
  have v: "manifest_validate sample_doc excluded_sample = Inr []" by code_simp
  have x: "verdict_for_run sample_doc topic hz hz' br excluded_run =
      Inr (excluded_verdict excluded_run excluded_sample)" for topic hz hz' br
    by (simp add: verdict_for_run_def excluded_run_def l v) (simp add: excluded_sample_def)
  have p1: "peek_manifest excluded_run = Inr (Some excluded_sample)"
    by (simp add: peek_manifest_def excluded_run_def l)
  have p2: "peek_manifest bare_run = Inr None"
    by (simp add: peek_manifest_def bare_run_def load_manifest_def read_json_def catchE_def exc_isa_def)
  have adm: "m_arm excluded_sample = PStr ''paced''" "class_admits (m_class_id excluded_sample) ''vlp16''"
    by (simp_all add: excluded_sample_def sample_manifest_def class_admits_def)
  have dirs: "run_dirs [excluded_run, bare_run] = [excluded_run, bare_run]"
    by (simp add: run_dirs_def excluded_run_def bare_run_def)
  have arms: "sweep_arms_of [(''sweep_arms'', PList [PStr ''paced'']), (''approach'', PStr ''extension'')] =
      Inr [PStr ''paced'']"
    by (simp add: sweep_arms_of_def py_iter_def set_of_values_def)
  have keys: "getitem (PDict ?metrics) ''lidar_topic'' = Inr PNone" "getitem (PDict ?metrics) ''tick_hz'' = Inr PNone"
    "getitem (PDict ?metrics) ''lidar_expected_hz'' = Inr PNone"
    by (simp_all add: getitem_def METRIC_KEYS_def)
  have "\<exists>t. score_cell sample_doc sample_doc sample_sweep_args [excluded_run, bare_run]
       [(''sweep_arms'', PList [PStr ''paced'']), (''approach'', PStr ''extension'')] ?metrics = Inr t"
    unfolding score_cell_def dirs arms keys bindE_simps resolve_override_def
    by (simp add: getitem_def sweep_step_def p1 p2 x adm in_values_def sample_sweep_args_def)
  then obtain t where t: "score_cell sample_doc sample_doc sample_sweep_args [excluded_run, bare_run]
       [(''sweep_arms'', PList [PStr ''paced'']), (''approach'', PStr ''extension'')] ?metrics = Inr t" ..
  from sweep_accounts_for_every_run [OF t] t dirs show ?thesis by auto
qed

end
