(* ===== verification/Stats.thy ===== *)
theory Stats
  imports Numpy_Ops
begin

text \<open>
  \<^verbatim>\<open>benchmarks/analysis/stats.py\<close>: the bootstrap confidence interval of a difference of medians and
  the equivalence decision on it. The random generator, the median and the quantile are numpy's
  (\<open>np_ops\<close>); the loop, its order of draws and the guard are the program's.

  The lemmas: the decision is a partition of the four verdicts by the position of the interval, a
  parity verdict bounds every value of the interval by the margin, and a wider interval or a
  narrower margin never turns a verdict into parity.
\<close>

text \<open>One pass of the loop draws a resample of each side, first \<open>a\<close> then \<open>b\<close>.\<close>

fun bootstrap_diffs ::
  "'g np_ops \<Rightarrow> f64 list \<Rightarrow> f64 list \<Rightarrow> nat \<Rightarrow> 'g \<Rightarrow> f64 list" where
  "bootstrap_diffs np a b 0 g = []"
| "bootstrap_diffs np a b (Suc n) g =
     (let (ra, g1) = np_choice np g a (length a); (rb, g2) = np_choice np g1 b (length b)
      in (np_median np ra - np_median np rb) # bootstrap_diffs np a b n g2)"

definition bootstrap_ci_median_diff ::
  "'g np_ops \<Rightarrow> f64 list \<Rightarrow> f64 list \<Rightarrow> nat \<Rightarrow> int \<Rightarrow> f64 \<Rightarrow> (f64 \<times> f64) res" where
  "bootstrap_ci_median_diff np a b iters seed alpha =
     (if length a < 3 \<or> length b < 3 then Raise ValueError ''need >= 3 run-level values per side''
      else let diffs = bootstrap_diffs np a b iters (np_default_rng np seed)
           in Ret (np_quantile np diffs (alpha div Fin 2), np_quantile np diffs (1 - alpha div Fin 2)))"

definition BOOTSTRAP_ITERS :: nat where "BOOTSTRAP_ITERS = 10000"

definition BOOTSTRAP_SEED :: int where "BOOTSTRAP_SEED = 20260727"

definition BOOTSTRAP_ALPHA :: f64 where "BOOTSTRAP_ALPHA = of_lit (5 / 100)"

definition equivalence_decision :: "f64 \<Rightarrow> f64 \<times> f64 \<Rightarrow> f64 \<Rightarrow> string" where
  "equivalence_decision delta_median ci margin =
     (case ci of (lo, hi) \<Rightarrow>
        if - margin < lo \<and> hi < margin then ''parity''
        else if hi < 0 then ''a_better''
        else if 0 < lo then ''b_better''
        else ''inconclusive'')"

section \<open>The decision\<close>

lemma f64_less_trans: "x < y \<Longrightarrow> y < z \<Longrightarrow> x < (z::f64)"
  by (cases x; cases y; cases z) auto

lemma f64_le_less_trans: "x \<le> y \<Longrightarrow> y < z \<Longrightarrow> x < (z::f64)"
  by (cases x; cases y; cases z) (auto simp: less_eq_f64_def)

lemma f64_less_le_trans: "x < y \<Longrightarrow> y \<le> z \<Longrightarrow> x < (z::f64)"
  by (cases x; cases y; cases z) (auto simp: less_eq_f64_def)

lemma f64_less_asym: "x < y \<Longrightarrow> \<not> y < (x::f64)"
  by (cases x; cases y) auto

lemma f64_minus_antimono: "x \<le> y \<Longrightarrow> - y \<le> - (x::f64)"
  by (cases x; cases y) (auto simp: less_eq_f64_def)

lemma f64_minus_less: "- x < - y \<longleftrightarrow> y < (x::f64)"
  by (cases x; cases y) auto

lemma equivalence_parity_iff:
  "equivalence_decision d (lo, hi) m = ''parity'' \<longleftrightarrow> - m < lo \<and> hi < m"
  by (auto simp: equivalence_decision_def)

text \<open>A parity verdict is a two-sided bound: every difference inside the confidence interval is
  strictly smaller than the margin in magnitude, and an interval that reaches the margin on either
  side is never parity.\<close>

theorem parity_bounds_interval:
  "equivalence_decision d (lo, hi) m = ''parity'' \<and> lo \<le> x \<and> x \<le> hi \<Longrightarrow> - m < x \<and> x < m"
  using f64_less_le_trans [of "- m" lo x] f64_le_less_trans [of x hi m]
  by (auto simp: equivalence_parity_iff)

theorem parity_bounds_interval_witness: "- Fin 2 < Fin 1 \<and> Fin 1 < (Fin 2 :: f64)"
  using parity_bounds_interval [of 0 "Fin 0" "Fin 1" "Fin 2" "Fin 1"]
  by (simp add: equivalence_decision_def)

text \<open>The decision only hardens with evidence: if an interval is parity for a margin, every
  interval inside it is parity for every margin at least as wide.\<close>

theorem parity_monotone:
  assumes "equivalence_decision d (lo, hi) m = ''parity''"
    and "lo \<le> lo'" "hi' \<le> hi" "m \<le> m'"
  shows "equivalence_decision d' (lo', hi') m' = ''parity''"
proof -
  from assms(1) have lo: "- m < lo" and hi: "hi < m" by (simp_all add: equivalence_parity_iff)
  have "- m' < lo'"
    using f64_le_less_trans [OF f64_minus_antimono [OF assms(4)] lo] assms(2) by (rule f64_less_le_trans)
  moreover have "hi' < m'"
    using f64_le_less_trans [OF assms(3) hi] assms(4) by (rule f64_less_le_trans)
  ultimately show ?thesis by (simp add: equivalence_parity_iff)
qed

theorem parity_monotone_witness:
  "equivalence_decision 0 (Fin (1/4), Fin (1/2)) (Fin 2) = ''parity''"
  by (rule parity_monotone [of 0 "Fin 0" "Fin 1" "Fin (3/2)"])
    (auto simp: equivalence_decision_def zero_f64_def)

text \<open>Exchanging the two sides negates the interval and exchanges the two verdicts.\<close>

definition swap_verdict :: "string \<Rightarrow> string" where
  "swap_verdict v = (if v = ''a_better'' then ''b_better'' else if v = ''b_better'' then ''a_better'' else v)"

lemma uminus_less_0: "- x < (0::f64) \<longleftrightarrow> 0 < x" and zero_less_uminus: "0 < - x \<longleftrightarrow> x < (0::f64)"
  by (cases x; simp add: zero_f64_def)+

text \<open>The rule favours neither side: on an ordered interval, exchanging the two cells (which
  negates and exchanges the bounds) exchanges the two one-sided verdicts and keeps the other two.\<close>

theorem equivalence_symmetric:
  assumes "lo \<le> hi"
  shows "equivalence_decision d' (- hi, - lo) m = swap_verdict (equivalence_decision d (lo, hi) m)"
proof -
  have flip: "- x < m \<longleftrightarrow> - m < x" for x :: f64
    by (cases x; cases m) auto
  have excl: "hi < 0 \<Longrightarrow> \<not> 0 < lo"
    using assms f64_le_less_trans [of lo hi 0] f64_less_asym by blast
  show ?thesis
    by (auto simp: equivalence_decision_def swap_verdict_def flip f64_minus_less uminus_less_0
        zero_less_uminus dest: excl)
qed

theorem equivalence_symmetric_witness:
  "equivalence_decision 0 (- Fin 7, - Fin 5) (Fin 2) = swap_verdict ''b_better''"
  using equivalence_symmetric [of "Fin 5" "Fin 7" 0 "Fin 2" 0]
  by (simp add: equivalence_decision_def zero_f64_def)

section \<open>The resampling loop\<close>

lemma length_bootstrap_diffs [simp]: "length (bootstrap_diffs np a b n g) = n"
  by (induction n arbitrary: g) (auto simp: case_prod_beta Let_def)

text \<open>What the documentation of \<open>Generator.choice\<close> with replacement promises.\<close>

definition choice_from :: "'g np_ops \<Rightarrow> bool" where
  "choice_from np \<longleftrightarrow>
     (\<forall>g xs n. xs \<noteq> [] \<longrightarrow> length (fst (np_choice np g xs n)) = n \<and> set (fst (np_choice np g xs n)) \<subseteq> set xs)"

lemma resample_median:
  assumes "choice_from np" "median_between (np_median np)" "xs \<noteq> []" "\<forall>x \<in> set xs. lo \<le> x \<and> x \<le> hi"
  shows "lo \<le> np_median np (fst (np_choice np g xs (length xs))) \<and>
    np_median np (fst (np_choice np g xs (length xs))) \<le> hi"
proof -
  let ?r = "fst (np_choice np g xs (length xs))"
  have r: "length ?r = length xs" "set ?r \<subseteq> set xs" using assms(1,3) by (auto simp: choice_from_def)
  then have "?r \<noteq> []" using assms(3) by auto
  moreover have "NaN \<notin> set ?r" using r(2) assms(4) le_f64_simps(2) by blast
  ultimately obtain x y where "x \<in> set ?r" "y \<in> set ?r" "x \<le> np_median np ?r" "np_median np ?r \<le> y"
    using assms(2) unfolding median_between_def by blast
  then show ?thesis using r(2) assms(4) f64_le_trans by blast
qed

lemma minus_between:
  assumes "Fin a \<le> x" "x \<le> Fin b" "Fin c \<le> y" "y \<le> Fin d"
  shows "rnd (a - d) \<le> x - y \<and> x - y \<le> rnd (b - c)"
  using assms by (cases x; cases y) (auto intro!: rnd_mono)

text \<open>Every bootstrap difference lies between the extreme differences the data allows, so runs
  that all sit in known ranges cannot produce an interval outside them, whatever the generator
  draws.\<close>

theorem bootstrap_diffs_within:
  assumes "choice_from np" "median_between (np_median np)" "a \<noteq> []" "b \<noteq> []"
    and "\<forall>x \<in> set a. Fin alo \<le> x \<and> x \<le> Fin ahi" "\<forall>y \<in> set b. Fin blo \<le> y \<and> y \<le> Fin bhi"
  shows "\<forall>d \<in> set (bootstrap_diffs np a b n g). rnd (alo - bhi) \<le> d \<and> d \<le> rnd (ahi - blo)"
proof (induction n arbitrary: g)
  case 0
  then show ?case by simp
next
  case (Suc n)
  obtain ra g1 where ra: "np_choice np g a (length a) = (ra, g1)" by fastforce
  obtain rb g2 where rb: "np_choice np g1 b (length b) = (rb, g2)" by fastforce
  have "Fin alo \<le> np_median np ra \<and> np_median np ra \<le> Fin ahi"
    using resample_median [OF assms(1,2,3,5), of g] ra by simp
  moreover have "Fin blo \<le> np_median np rb \<and> np_median np rb \<le> Fin bhi"
    using resample_median [OF assms(1,2,4,6), of g1] rb by simp
  ultimately have "rnd (alo - bhi) \<le> np_median np ra - np_median np rb \<and>
      np_median np ra - np_median np rb \<le> rnd (ahi - blo)"
    using minus_between by blast
  with Suc.IH [of g2] show ?case by (simp add: ra rb)
qed

text \<open>A generator and a median that meet the documented behaviour: the draw repeats one element, the
  median is an element.\<close>

definition sample_np :: "nat np_ops" where
  "sample_np =
     \<lparr>np_median = hd, np_percentile = (\<lambda>xs _. hd xs), np_quantile = (\<lambda>xs _. hd xs), np_mean = hd,
      np_dot = (\<lambda>_ _. 0), np_norm = (\<lambda>_. 0), np_default_rng = nat,
      np_choice = (\<lambda>g xs n. (replicate n (xs ! (g mod length xs)), Suc g))\<rparr>"

lemma sample_np_choice: "choice_from sample_np"
  by (auto simp: choice_from_def sample_np_def split: if_splits)

lemma sample_np_median: "median_between (np_median sample_np)"
proof -
  have refl: "x \<noteq> NaN \<Longrightarrow> x \<le> x" for x :: f64 by (simp add: less_eq_f64_def)
  have "\<exists>a \<in> set xs. \<exists>b \<in> set xs. a \<le> hd xs \<and> hd xs \<le> b" if "xs \<noteq> []" "NaN \<notin> set xs" for xs
    using that refl [of "hd xs"] hd_in_set [of xs] by metis
  then show ?thesis by (simp add: median_between_def sample_np_def)
qed

theorem bootstrap_diffs_within_witness:
  "\<forall>d \<in> set (bootstrap_diffs sample_np [Fin 1, Fin 2, Fin 3] [Fin 5, Fin 6, Fin 7] 4 0).
     rnd (1 - 7) \<le> d \<and> d \<le> rnd (3 - 5)"
  by (rule bootstrap_diffs_within) (auto simp: sample_np_choice sample_np_median)

end
