(* ===== verification/Timing.thy ===== *)
theory Timing
  imports Numpy_Ops
begin

text \<open>
  \<^verbatim>\<open>benchmarks/analysis/clockfit.py\<close> and \<^verbatim>\<open>latency.py\<close>: the affine fit from simulation to wall time
  and the latency arrays. The fit shifts both series by their first sample in int64 before it
  converts to floats; mean and dot product are numpy's (\<open>np_ops\<close>).

  The lemmas: slope, residual and count do not depend on the epochs of the two clocks (what the
  shift is for); matched stamps are exactly the common ones, each once, in ascending order.
\<close>

record affine_fit =
  af_slope :: f64
  af_intercept_ns :: f64
  af_max_abs_residual_ns :: f64
  af_n :: nat

text \<open>\<open>np.max\<close> propagates a NaN.\<close>

fun np_max :: "f64 list \<Rightarrow> f64" where
  "np_max [] = NaN"
| "np_max [x] = x"
| "np_max (x # xs) = (let m = np_max xs in if x = NaN \<or> m = NaN then NaN else if x < m then m else x)"

definition sim_to_wall :: "affine_fit \<Rightarrow> int list \<Rightarrow> f64 list" where
  "sim_to_wall fit sim_ns = map (\<lambda>s. af_slope fit * of_i64 s + af_intercept_ns fit) sim_ns"

text \<open>\<open>(x - x[0]).astype(np.float64)\<close>.\<close>

definition shifted :: "int list \<Rightarrow> f64 list" where
  "shifted x = map (\<lambda>v. of_i64 (i64_sub v (hd x))) x"

definition fit_sim_wall_affine :: "'g np_ops \<Rightarrow> int list \<Rightarrow> int list \<Rightarrow> affine_fit res" where
  "fit_sim_wall_affine np x y =
     (if length x \<noteq> length y \<or> length x < 2
      then Raise ValueError ''need >= 2 paired (sim, wall) samples''
      else
        let x0 = hd x; y0 = hd y; xf = shifted x; yf = shifted y;
            xm = np_mean np xf; ym = np_mean np yf;
            xc = map (\<lambda>v. v - xm) xf; yc = map (\<lambda>v. v - ym) yf;
            slope = np_dot np xc yc div np_dot np xc xc;
            b = ym - slope * xm;
            intercept = b + of_i64 y0 - slope * of_i64 x0;
            resid = map2 (\<lambda>xv yv. yv - (slope * xv + b)) xf yf
        in Ret \<lparr>af_slope = slope, af_intercept_ns = intercept,
                af_max_abs_residual_ns = np_max (map abs resid), af_n = length x\<rparr>)"

section \<open>The fit does not depend on the epochs\<close>

lemma i64_sub_shift:
  "in_i64 (v + c) \<Longrightarrow> in_i64 (w + c) \<Longrightarrow> i64_sub (v + c) (w + c) = i64_sub v w"
  by (simp add: i64_sub_def)

lemma shifted_translate:
  "x \<noteq> [] \<Longrightarrow> shifted (map (\<lambda>v. v + c) x) = shifted x"
  by (simp add: shifted_def i64_sub_def hd_map)

text \<open>Fitting in the shifted domain makes the fit independent of the clocks' epochs: moving
  every simulation stamp by one constant and every wall stamp by another leaves the slope, the
  residual and the count bit-for-bit the same, however large the constants are.\<close>

theorem fit_epoch_invariant:
  assumes "fit_sim_wall_affine np x y = Inr fit"
  shows "\<exists>fit'. fit_sim_wall_affine np (map (\<lambda>v. v + c) x) (map (\<lambda>v. v + d) y) = Inr fit' \<and>
    af_slope fit' = af_slope fit \<and> af_max_abs_residual_ns fit' = af_max_abs_residual_ns fit \<and>
    af_n fit' = af_n fit"
proof -
  from assms have "x \<noteq> []" "y \<noteq> []"
    by (auto simp: fit_sim_wall_affine_def split: if_split_asm)
  then have s: "shifted (map (\<lambda>v. v + c) x) = shifted x" "shifted (map (\<lambda>v. v + d) y) = shifted y"
    by (simp_all add: shifted_translate)
  show ?thesis
    using assms by (auto simp: fit_sim_wall_affine_def s Let_def split: if_split_asm)
qed

text \<open>An exact reference for the two reductions, for evaluation: sums rounded left to right.\<close>

definition sum_f64 :: "f64 list \<Rightarrow> f64" where
  "sum_f64 xs = foldl (+) 0 xs"

definition exact_np :: "unit np_ops" where
  "exact_np =
     \<lparr>np_median = hd, np_percentile = (\<lambda>xs _. hd xs), np_quantile = (\<lambda>xs _. hd xs),
      np_mean = (\<lambda>xs. sum_f64 xs div of_i64 (int (length xs))),
      np_dot = (\<lambda>xs ys. sum_f64 (map2 (*) xs ys)), np_norm = (\<lambda>_. 0), np_default_rng = (\<lambda>_. ()),
      np_choice = (\<lambda>g xs n. (xs, g))\<rparr>"

theorem fit_epoch_invariant_witness:
  "\<exists>fit'. fit_sim_wall_affine exact_np [1700000000000000000, 1700000000000000010, 1700000000000000020]
       [900, 920, 940] = Inr fit' \<and> af_slope fit' = Fin 2 \<and> af_max_abs_residual_ns fit' = Fin 0"
proof -
  have "case fit_sim_wall_affine exact_np [0, 10, 20] [0, 20, 40] of
      Inr f \<Rightarrow> af_slope f = Fin 2 \<and> af_max_abs_residual_ns f = Fin 0 | _ \<Rightarrow> False"
    by (simp add: fit_sim_wall_affine_def Let_def shifted_def exact_np_def sum_f64_def i64_sub_def as_i64_def
        in_i64_def of_i64_def rnd_numeral rnd_neg_numeral zero_f64_def)
  then obtain f where f: "fit_sim_wall_affine exact_np [0, 10, 20] [0, 20, 40] = Inr f"
    and s: "af_slope f = Fin 2" "af_max_abs_residual_ns f = Fin 0"
    by (auto split: sum.splits)
  from fit_epoch_invariant [OF f, of 1700000000000000000 900] s show ?thesis by auto
qed

section \<open>Latencies\<close>

definition one_hop_wall_ms :: "int list \<Rightarrow> int list \<Rightarrow> affine_fit \<Rightarrow> f64 list" where
  "one_hop_wall_ms header_stamp_ns arrival_system_ns fit =
     map2 (\<lambda>a e. (of_i64 a - e) div Fin 1000000) arrival_system_ns (sim_to_wall fit header_stamp_ns)"

text \<open>\<open>np.intersect1d(..., return_indices=True)\<close>: the common values ascending, with the first index
  of each on either side.\<close>

fun index_of :: "int \<Rightarrow> int list \<Rightarrow> nat" where
  "index_of v [] = 0"
| "index_of v (x # xs) = (if x = v then 0 else Suc (index_of v xs))"

definition common_stamps :: "int list \<Rightarrow> int list \<Rightarrow> int list" where
  "common_stamps src dst = sort (remdups (filter (\<lambda>s. s \<in> set dst) src))"

definition match_stamps :: "int list \<Rightarrow> int list \<Rightarrow> (nat list \<times> nat list) res" where
  "match_stamps src_stamp_ns dst_stamp_ns =
     bindE (as_i64 src_stamp_ns) (\<lambda>src. bindE (as_i64 dst_stamp_ns) (\<lambda>dst.
       let common = common_stamps src dst
       in Ret (map (\<lambda>v. index_of v src) common, map (\<lambda>v. index_of v dst) common)))"

definition segment_sim_ms :: "int list \<Rightarrow> int list \<Rightarrow> f64 list" where
  "segment_sim_ms src_stamp_ns dst_stamp_ns =
     map2 (\<lambda>d s. (of_i64 d - of_i64 s) div Fin 1000000) dst_stamp_ns src_stamp_ns"

definition staleness_ms :: "int list \<Rightarrow> int list \<Rightarrow> f64 list" where
  "staleness_ms source_header_ns published_ns = segment_sim_ms source_header_ns published_ns"

lemma index_of_nth: "v \<in> set xs \<Longrightarrow> index_of v xs < length xs \<and> xs ! index_of v xs = v"
  by (induction xs) auto

lemma common_stamps_props:
  "sorted (common_stamps src dst) \<and> distinct (common_stamps src dst) \<and>
   set (common_stamps src dst) = set src \<inter> set dst"
  by (auto simp: common_stamps_def)

text \<open>Stamp matching pairs every stamp the two topics share exactly once: the two index lists
  are valid, equally long, select equal stamps on both sides in strictly ascending order, and
  select every common stamp.\<close>

theorem match_stamps_pairs:
  assumes "match_stamps src dst = Inr (is, js)"
  shows "length is = length js \<and> (\<forall>i \<in> set is. i < length src) \<and> (\<forall>j \<in> set js. j < length dst) \<and>
    map ((!) src) is = map ((!) dst) js \<and> sorted_wrt (<) (map ((!) src) is) \<and>
    set (map ((!) src) is) = set src \<inter> set dst"
proof -
  from assms have ij: "is = map (\<lambda>v. index_of v src) (common_stamps src dst)"
    "js = map (\<lambda>v. index_of v dst) (common_stamps src dst)"
    by (auto simp: match_stamps_def py_splits as_i64_Inr Let_def)
  note c = common_stamps_props [of src dst]
  have v: "index_of v src < length src \<and> src ! index_of v src = v \<and>
      index_of v dst < length dst \<and> dst ! index_of v dst = v"
    if "v \<in> set (common_stamps src dst)" for v
    using that c index_of_nth [of v src] index_of_nth [of v dst] by simp
  have src: "map ((!) src) is = common_stamps src dst"
    unfolding ij map_map by (rule map_idI) (simp add: v)
  have dst: "map ((!) dst) js = common_stamps src dst"
    unfolding ij map_map by (rule map_idI) (simp add: v)
  have "\<forall>i \<in> set is. i < length src" "\<forall>j \<in> set js. j < length dst" "length is = length js"
    using v by (auto simp: ij)
  with src dst c show ?thesis by (simp add: strict_sorted_iff)
qed

theorem match_stamps_pairs_witness:
  "set (map ((!) [30, 10, 20, 10]) [1, 0]) = set [30, 10, 20, 10] \<inter> set [10, 30, 30, 40::int]"
proof -
  have "match_stamps [30, 10, 20, 10] [10, 30, 30, 40] = Inr ([1, 0], [0, 1])" by code_simp
  from match_stamps_pairs [OF this] show ?thesis by blast
qed

end
