(* ===== verification/Window.thy ===== *)
theory Window
  imports Numpy_Ops
begin

text \<open>
  \<^verbatim>\<open>benchmarks/analysis/window.py\<close>: the scoring windows. A point is projected on every segment of
  the route and the nearest projection gives its station (arc length) and lateral distance; the
  spatial window is the span of the samples between two stations, after the warm-up. The per-row
  products, norms and square root are numpy's (\<open>geo_ops\<close>).

  The lemmas: a window returned is the span of admissible samples, every admissible sample is in it,
  and both bounds are stamps of the run past the warm-up; a repeated route vertex makes every
  station NaN.
\<close>

type_synonym pt = "f64 \<times> f64"

text \<open>\<open>einsum("ij,ij->i")\<close> on one row, \<open>linalg.norm(axis=1)\<close> on one row, \<open>sqrt\<close>.\<close>

record geo_ops =
  row_dot :: "pt \<Rightarrow> pt \<Rightarrow> f64"
  row_norm :: "pt \<Rightarrow> f64"
  sqrt_f :: "f64 \<Rightarrow> f64"

definition pt_sub :: "pt \<Rightarrow> pt \<Rightarrow> pt" where
  "pt_sub p q = (fst p - fst q, snd p - snd q)"

definition pt_add :: "pt \<Rightarrow> pt \<Rightarrow> pt" where
  "pt_add p q = (fst p + fst q, snd p + snd q)"

definition pt_scale :: "f64 \<Rightarrow> pt \<Rightarrow> pt" where
  "pt_scale t p = (t * fst p, t * snd p)"

text \<open>The segments of a route: \<open>route[:-1]\<close> with \<open>route[1:]\<close>.\<close>

definition segments :: "pt list \<Rightarrow> (pt \<times> pt) list" where
  "segments route = zip (butlast route) (tl route)"

fun cumsum :: "f64 \<Rightarrow> f64 list \<Rightarrow> f64 list" where
  "cumsum acc [] = []"
| "cumsum acc (x # xs) = (acc + x) # cumsum (acc + x) xs"

text \<open>\<open>np.cumsum\<close> starts from the first element, not from zero.\<close>

definition np_cumsum :: "f64 list \<Rightarrow> f64 list" where
  "np_cumsum xs = (case xs of [] \<Rightarrow> [] | x # ys \<Rightarrow> x # cumsum x ys)"

definition cum_arclen :: "geo_ops \<Rightarrow> pt list \<Rightarrow> f64 list" where
  "cum_arclen geo route = 0 # np_cumsum (map (\<lambda>(a, b). row_norm geo (pt_sub b a)) (segments route))"

text \<open>\<open>np.clip(t, 0, 1)\<close> lets a NaN through; \<open>np.argmin\<close> takes the first NaN for the least.\<close>

definition clip01 :: "f64 \<Rightarrow> f64" where
  "clip01 t = (if t = NaN then NaN else py_min (py_max t 0) 1)"

fun argmin :: "nat \<Rightarrow> nat \<times> f64 \<Rightarrow> f64 list \<Rightarrow> nat" where
  "argmin i (bi, b) [] = bi"
| "argmin i (bi, b) (x # xs) =
     (if b = NaN then bi
      else if x = NaN \<or> x < b then argmin (Suc i) (i, x) xs else argmin (Suc i) (bi, b) xs)"

definition np_argmin :: "f64 list \<Rightarrow> nat res" where
  "np_argmin xs =
     (case xs of [] \<Rightarrow> Raise ValueError ''attempt to get argmin of an empty sequence''
      | x # ys \<Rightarrow> Ret (argmin 1 (0, x) ys))"

text \<open>One segment's clipped parameter and squared distance for a point.\<close>

definition seg_param :: "geo_ops \<Rightarrow> pt \<Rightarrow> pt \<times> pt \<Rightarrow> f64" where
  "seg_param geo p s =
     (case s of (a, b) \<Rightarrow>
        let ab = pt_sub b a
        in clip01 (row_dot geo (pt_sub p a) ab div row_dot geo ab ab))"

definition seg_d2 :: "geo_ops \<Rightarrow> pt \<Rightarrow> pt \<times> pt \<Rightarrow> f64" where
  "seg_d2 geo p s =
     (case s of (a, b) \<Rightarrow>
        let proj = pt_add a (pt_scale (seg_param geo p s) (pt_sub b a)); r = pt_sub p proj
        in row_dot geo r r)"

text \<open>Station and lateral distance both come from the segment the argmin chose.\<close>

definition seg_place :: "geo_ops \<Rightarrow> pt \<Rightarrow> f64 \<Rightarrow> pt \<times> pt \<Rightarrow> f64 \<times> f64" where
  "seg_place geo p base s =
     (base + seg_param geo p s * sqrt_f geo (row_dot geo (pt_sub (snd s) (fst s)) (pt_sub (snd s) (fst s))),
      sqrt_f geo (seg_d2 geo p s))"

definition project_on :: "geo_ops \<Rightarrow> pt list \<Rightarrow> pt \<Rightarrow> nat \<Rightarrow> (f64 \<times> f64) res" where
  "project_on geo route p i =
     Ret (seg_place geo p (butlast (cum_arclen geo route) ! i) (segments route ! i))"

definition project_point :: "geo_ops \<Rightarrow> pt list \<Rightarrow> pt \<Rightarrow> (f64 \<times> f64) res" where
  "project_point geo route p =
     bindE (np_argmin (map (seg_d2 geo p) (segments route))) (project_on geo route p)"

definition project :: "geo_ops \<Rightarrow> pt list \<Rightarrow> pt list \<Rightarrow> (f64 list \<times> f64 list) res" where
  "project geo route xy =
     bindE (mapE (project_point geo route) xy) (\<lambda>r. Ret (map fst r, map snd r))"

definition project_station_m :: "geo_ops \<Rightarrow> pt list \<Rightarrow> pt list \<Rightarrow> f64 list res" where
  "project_station_m geo route xy = bindE (project geo route xy) (\<lambda>r. Ret (fst r))"

text \<open>The odometry samples are the aligned columns of one topic, so a sample is a stamp and a
  position. \<open>stamps[0] + warmup_ns\<close> is int64 arithmetic.\<close>

definition in_spatial_window :: "f64 \<Rightarrow> f64 \<Rightarrow> int \<Rightarrow> int \<times> f64 \<Rightarrow> bool" where
  "in_spatial_window start_m end_m from p =
     (case p of (stamp, st) \<Rightarrow> start_m \<le> st \<and> st \<le> end_m \<and> from \<le> stamp)"

definition window_of_stations ::
  "(int \<times> pt) list \<Rightarrow> f64 \<Rightarrow> f64 \<Rightarrow> int \<Rightarrow> f64 list \<Rightarrow> (int \<times> int) res" where
  "window_of_stations odom start_station_m end_station_m warmup_ns st =
     (if odom = [] then Raise IndexError ''index 0 is out of bounds''
      else
        let stamps = map fst odom; from = wrap64 (hd stamps + warmup_ns);
            ok = map fst (filter (in_spatial_window start_station_m end_station_m from) (zip stamps st))
        in if ok = [] then Raise ValueError ''no odometry sample inside the spatial window''
           else Ret (hd ok, last ok))"

definition spatial_window ::
  "geo_ops \<Rightarrow> (int \<times> pt) list \<Rightarrow> pt list \<Rightarrow> f64 \<Rightarrow> f64 \<Rightarrow> int \<Rightarrow> (int \<times> int) res" where
  "spatial_window geo odom route start_station_m end_station_m warmup_ns =
     bindE (project_station_m geo route (map snd odom))
       (window_of_stations odom start_station_m end_station_m warmup_ns)"

definition static_window :: "int \<Rightarrow> int \<Rightarrow> int \<Rightarrow> (int \<times> int) res" where
  "static_window t0_ns end_ns warmup_ns =
     (if end_ns \<le> t0_ns + warmup_ns then Raise ValueError ''warm-up discard consumes the whole run''
      else Ret (t0_ns + warmup_ns, end_ns))"

section \<open>The windows\<close>

text \<open>The spatial window is exactly the span of the admissible samples: both bounds are stamps
  of samples between the two stations and past the warm-up, and on an ordered run every such sample
  lies between the bounds.\<close>

theorem spatial_window_span:
  assumes "spatial_window geo odom route s e w = Inr (lo, hi)"
    and "project_station_m geo route (map snd odom) = Inr st" "sorted (map fst odom)"
  shows "let adm = in_spatial_window s e (wrap64 (fst (hd odom) + w)) in
    (\<exists>p q. p \<in> set (zip (map fst odom) st) \<and> q \<in> set (zip (map fst odom) st) \<and>
       fst p = lo \<and> fst q = hi \<and> adm p \<and> adm q) \<and>
    lo \<le> hi \<and> wrap64 (fst (hd odom) + w) \<le> lo \<and>
    (\<forall>p \<in> set (zip (map fst odom) st). adm p \<longrightarrow> lo \<le> fst p \<and> fst p \<le> hi)"
proof -
  define adm where "adm = in_spatial_window s e (wrap64 (fst (hd odom) + w))"
  define ps where "ps = filter adm (zip (map fst odom) st)"
  from assms(1,2) have "odom \<noteq> []" "ps \<noteq> []" and b: "lo = hd (map fst ps)" "hi = last (map fst ps)"
    by (auto simp: spatial_window_def window_of_stations_def Let_def ps_def adm_def hd_map split: if_split_asm)
  then have lo: "lo = fst (hd ps)" and hi: "hi = fst (last ps)" by (simp_all add: hd_map last_map)
  have sub: "set ps \<subseteq> set (zip (map fst odom) st)" and all: "\<forall>p \<in> set ps. adm p"
    by (auto simp: ps_def)
  have "map fst (zip (map fst odom) st) = take (length st) (map fst odom)"
    by (simp add: map_fst_zip_take min_def)
  then have "sorted (map fst (zip (map fst odom) st))" using assms(3) by (simp add: sorted_wrt_take)
  then have srt: "sorted (map fst ps)" unfolding ps_def by (rule sorted_filter)
  have ends: "lo \<le> fst p \<and> fst p \<le> hi" if "p \<in> set ps" for p
  proof -
    from that obtain i where i: "i < length ps" "p = ps ! i" by (auto simp: in_set_conv_nth)
    have "map fst ps ! 0 \<le> map fst ps ! i" by (rule sorted_nth_mono [OF srt]) (use i in auto)
    moreover have "map fst ps ! i \<le> map fst ps ! (length ps - 1)"
      by (rule sorted_nth_mono [OF srt]) (use i in auto)
    ultimately show ?thesis
      using i \<open>ps \<noteq> []\<close> by (auto simp: lo hi hd_conv_nth last_conv_nth)
  qed
  have h: "hd ps \<in> set ps" "last ps \<in> set ps" using \<open>ps \<noteq> []\<close> by auto
  have "\<exists>p q. p \<in> set (zip (map fst odom) st) \<and> q \<in> set (zip (map fst odom) st) \<and>
       fst p = lo \<and> fst q = hi \<and> adm p \<and> adm q"
    using h sub all lo hi by blast
  moreover have "lo \<le> hi" using ends [OF h(1)] lo by simp
  moreover have "wrap64 (fst (hd odom) + w) \<le> lo"
    using all [rule_format, OF h(1)] lo by (simp add: adm_def in_spatial_window_def case_prod_beta)
  moreover have "\<forall>p \<in> set (zip (map fst odom) st). adm p \<longrightarrow> lo \<le> fst p \<and> fst p \<le> hi"
    using ends by (simp add: ps_def)
  ultimately show ?thesis by (simp add: adm_def Let_def)
qed

text \<open>The reference geometry for evaluation: products summed left to right; the square root is the
  identity on 0 and 1.\<close>

definition sample_geo :: geo_ops where
  "sample_geo = \<lparr>row_dot = (\<lambda>p q. fst p * fst q + snd p * snd q),
     row_norm = (\<lambda>p. abs (fst p) + abs (snd p)), sqrt_f = (\<lambda>x. x)\<rparr>"

lemmas sample_geo_simps = sample_geo_def pt_sub_def pt_add_def pt_scale_def clip01_def py_min_def py_max_def
  zero_f64_def one_f64_def Let_def

lemma sample_seg:
  "seg_param sample_geo (Fin 0, Fin 0) ((Fin 0, Fin 0), (Fin 1, Fin 0)) = Fin 0"
  "seg_param sample_geo (Fin 1, Fin 0) ((Fin 0, Fin 0), (Fin 1, Fin 0)) = Fin 1"
  "seg_d2 sample_geo (Fin 0, Fin 0) ((Fin 0, Fin 0), (Fin 1, Fin 0)) = Fin 0"
  "seg_d2 sample_geo (Fin 1, Fin 0) ((Fin 0, Fin 0), (Fin 1, Fin 0)) = Fin 0"
  by (simp_all add: seg_d2_def seg_param_def sample_geo_simps)

theorem spatial_window_span_witness:
  "\<exists>lo hi. spatial_window sample_geo
       [(100, (Fin 0, Fin 0)), (200, (Fin 1, Fin 0)), (300, (Fin 1, Fin 0))]
       [(Fin 0, Fin 0), (Fin 1, Fin 0)] (Fin 0) (Fin 1) 50 = Inr (lo, hi) \<and> 150 \<le> lo \<and> lo \<le> hi"
proof -
  let ?odom = "[(100, (Fin 0, Fin 0)), (200, (Fin 1, Fin 0)), (300, (Fin 1, Fin 0))] :: (int \<times> pt) list"
  let ?route = "[(Fin 0, Fin 0), (Fin 1, Fin 0)] :: pt list"
  have st: "project_station_m sample_geo ?route (map snd ?odom) = Inr [Fin 0, Fin 1, Fin 1]"
    by (simp add: project_station_m_def project_def project_point_def project_on_def seg_place_def
        np_argmin_def segments_def cum_arclen_def sample_seg)
      (simp add: sample_geo_simps np_cumsum_def)
  have w: "spatial_window sample_geo ?odom ?route (Fin 0) (Fin 1) 50 = Inr (200, 300)"
    unfolding spatial_window_def st bindE_simps
    by (simp add: window_of_stations_def in_spatial_window_def wrap64_def Let_def)
  have srt: "sorted (map fst ?odom)" by simp
  from spatial_window_span [OF w st srt] have "wrap64 (fst (hd ?odom) + 50) \<le> 200 \<and> (200::int) \<le> 300"
    unfolding Let_def by blast
  then have "150 \<le> (200::int)" by (simp add: wrap64_def)
  with w show ?thesis by (intro exI [of _ 200] exI [of _ 300]) simp
qed

text \<open>The static window discards exactly the warm-up and nothing else, and is refused exactly
  when the warm-up would consume the whole run.\<close>

theorem static_window_correct:
  "static_window t0 end_ns w =
     (if t0 + w < end_ns then Inr (t0 + w, end_ns)
      else Raise ValueError ''warm-up discard consumes the whole run'')"
  by (simp add: static_window_def not_le [symmetric])

section \<open>A repeated route vertex\<close>

lemma f64_NaN_absorb [simp]: "NaN * y = NaN" "x * NaN = NaN" "NaN + y = NaN" "x + NaN = (NaN :: f64)"
    "NaN - y = (NaN :: f64)" "x - NaN = (NaN :: f64)" "NaN div y = (NaN :: f64)" "x div NaN = (NaN :: f64)"
  by (cases x; cases y; simp add: minus_f64_def)+

lemma times_Fin_0: "x * Fin 0 = Fin 0 \<or> x * Fin 0 = NaN"
  by (cases x) auto

lemma plus_zeros: "u \<in> {Fin 0, NaN} \<Longrightarrow> v \<in> {Fin 0, NaN} \<Longrightarrow> u + v \<in> {Fin 0, NaN}"
  by auto

lemma argmin_NaN_start: "argmin i (b, NaN) xs = b"
  by (cases xs) auto

lemma argmin_NaN:
  "bi < i \<Longrightarrow> NaN \<in> set xs \<Longrightarrow> b \<noteq> NaN \<Longrightarrow>
     i \<le> argmin i (bi, b) xs \<and> argmin i (bi, b) xs < i + length xs \<and> xs ! (argmin i (bi, b) xs - i) = NaN"
proof (induction xs arbitrary: i bi b)
  case Nil
  then show ?case by simp
next
  case (Cons x xs)
  show ?case
  proof (cases "x = NaN")
    case True
    with Cons.prems show ?thesis by (simp add: argmin_NaN_start)
  next
    case False
    define bi' b' where "bi' = (if x < b then i else bi)" "b' = (if x < b then x else b)"
    have step: "argmin i (bi, b) (x # xs) = argmin (Suc i) (bi', b') xs"
      using False Cons.prems(3) by (simp add: bi'_b'_def)
    have "bi' < Suc i" "NaN \<in> set xs" "b' \<noteq> NaN"
      using Cons.prems False by (auto simp: bi'_b'_def)
    note ih = Cons.IH [OF this]
    from ih have "argmin (Suc i) (bi', b') xs - i = Suc (argmin (Suc i) (bi', b') xs - Suc i)"
      by linarith
    with ih show ?thesis unfolding step by simp
  qed
qed

lemma np_argmin_NaN:
  assumes "NaN \<in> set xs"
  shows "\<exists>i. np_argmin xs = Inr i \<and> i < length xs \<and> xs ! i = NaN"
proof -
  from assms obtain x ys where xs: "xs = x # ys" by (cases xs) auto
  show ?thesis
  proof (cases "x = NaN")
    case True
    then show ?thesis by (simp add: xs np_argmin_def argmin_NaN_start)
  next
    case False
    with assms xs have "NaN \<in> set ys" by auto
    from argmin_NaN [of 0 1 ys x, OF _ this False] show ?thesis
      by (auto simp: xs np_argmin_def nth_Cons')
  qed
qed

text \<open>\<open>row_dot\<close> is the sum of the two products.\<close>

definition row_dot_sum :: "geo_ops \<Rightarrow> bool" where
  "row_dot_sum geo \<longleftrightarrow> (\<forall>p q. row_dot geo p q = fst p * fst q + snd p * snd q)"

lemma seg_d2_param_NaN:
  assumes "row_dot_sum geo" "seg_param geo p s = NaN"
  shows "seg_d2 geo p s = NaN"
  using assms by (cases s) (simp add: seg_d2_def row_dot_sum_def pt_scale_def pt_add_def pt_sub_def)

lemma degenerate_param:
  assumes "row_dot_sum geo"
  shows "seg_param geo p ((Fin x, Fin y), (Fin x, Fin y)) = NaN"
proof -
  let ?q = "pt_sub p (Fin x, Fin y)"
  have ab: "pt_sub (Fin x, Fin y) (Fin x, Fin y) = (Fin 0, Fin 0)" by (simp add: pt_sub_def)
  have "row_dot geo ?q (Fin 0, Fin 0) = fst ?q * Fin 0 + snd ?q * Fin 0"
    using assms [unfolded row_dot_sum_def, rule_format, of ?q "(Fin 0, Fin 0)"]
    by (simp only: fst_conv snd_conv)
  then have "row_dot geo ?q (Fin 0, Fin 0) \<in> {Fin 0, NaN}"
    using plus_zeros [of "fst ?q * Fin 0" "snd ?q * Fin 0"] times_Fin_0 [of "fst ?q"]
      times_Fin_0 [of "snd ?q"] by simp
  moreover have "row_dot geo (Fin 0, Fin 0) (Fin 0, Fin 0) = Fin 0"
    using assms by (simp add: row_dot_sum_def)
  ultimately show ?thesis by (auto simp: seg_param_def ab clip01_def Let_def)
qed

text \<open>The projection has no guard against a repeated route vertex: the parameter of the zero-length
  segment is NaN, the argmin takes it, and (where no other segment overflows) the station of every
  point is NaN, so a spatial window over such a route is always refused as empty.\<close>

theorem repeated_vertex_poisons:
  assumes "row_dot_sum geo" "((Fin x, Fin y), (Fin x, Fin y)) \<in> set (segments route)"
    and "\<forall>s \<in> set (segments route). seg_d2 geo p s = NaN \<longrightarrow> seg_param geo p s = NaN"
  shows "\<exists>lat. project_point geo route p = Inr (NaN, lat)"
proof -
  let ?z = "((Fin x, Fin y), (Fin x, Fin y))"
  have "seg_d2 geo p ?z = NaN"
    by (rule seg_d2_param_NaN [OF assms(1) degenerate_param [OF assms(1)]])
  then have "NaN \<in> set (map (seg_d2 geo p) (segments route))" using assms(2) by (auto intro: rev_image_eqI)
  from np_argmin_NaN [OF this] obtain i where
    i: "np_argmin (map (seg_d2 geo p) (segments route)) = Inr i" "i < length (segments route)"
      "seg_d2 geo p (segments route ! i) = NaN" by auto
  then have "seg_param geo p (segments route ! i) = NaN" using assms(3) by simp
  then show ?thesis by (simp add: project_point_def project_on_def seg_place_def i(1))
qed

lemma sample_row_dot: "row_dot_sum sample_geo"
  by (simp add: row_dot_sum_def sample_geo_def)

lemma repeated_vertex_poisons_witness:
  "\<exists>lat. project_point sample_geo [(Fin 0, Fin 0), (Fin 1, Fin 0), (Fin 1, Fin 0)] (Fin 0, Fin 0) = Inr (NaN, lat)"
proof (rule repeated_vertex_poisons [where x = 1 and y = 0])
  show "row_dot_sum sample_geo" by (rule sample_row_dot)
  show "((Fin 1, Fin 0), (Fin 1, Fin 0)) \<in> set (segments [(Fin 0, Fin 0), (Fin 1, Fin 0), (Fin 1, Fin 0)])"
    by (simp add: segments_def)
  show "\<forall>s \<in> set (segments [(Fin 0, Fin 0), (Fin 1, Fin 0), (Fin 1, Fin 0)]).
      seg_d2 sample_geo (Fin 0, Fin 0) s = NaN \<longrightarrow> seg_param sample_geo (Fin 0, Fin 0) s = NaN"
    by (simp add: segments_def sample_seg degenerate_param sample_row_dot)
qed

end
