(* ===== verification/Duel_Verdict.thy ===== *)
theory Duel_Verdict
  imports Run_Dir Cell_Info Cadence Stats Timing Window
begin

text \<open>
  \<^verbatim>\<open>benchmarks/scripts/duel_verdict.py\<close>: a row of the primary duel's equivalence table, the rendered table,
  and the scoring window of a run (\<open>resolve_window\<close>), which every metric of a row is reduced over. The walk
  over the runs and the extraction of the metrics are not here.

  The route files, numpy's reductions and geometry are parameters (\<open>routes\<close>, \<open>np\<close>, \<open>geo\<close>).
\<close>

definition MIN_RUNS :: nat where "MIN_RUNS = 10"

definition WARMUP_NS :: int where "WARMUP_NS = 20000000000"

definition ODOM_TOPIC :: string where "ODOM_TOPIC = ''/localization/kinematic_state''"

definition WALL_STAMP_FLOOR_NS :: f64 where "WALL_STAMP_FLOOR_NS = Fin 1000000000000000000"

definition SIM_STAMP_CEIL_NS :: f64 where "SIM_STAMP_CEIL_NS = Fin 10000000000000"

definition PUBLISHER_NOT_MEASURABLE :: string where
  "PUBLISHER_NOT_MEASURABLE = ''publisher rate not measurable (no publisher_counts.json)''"

section \<open>Verdict rows\<close>

record verdict_row =
  vr_metric :: string
  vr_n_a :: nat
  vr_n_b :: nat
  vr_delta_median :: "f64 option"
  vr_ci :: "(f64 \<times> f64) option"
  vr_margin :: f64
  vr_verdict :: string
  vr_notes :: string
  vr_arm :: string

record row_counts =
  rc_excluded_a :: nat
  rc_excluded_b :: nat
  rc_inadmissible_a :: nat
  rc_inadmissible_b :: nat

definition count_note :: "nat \<Rightarrow> string \<Rightarrow> string list" where
  "count_note n s = (if n = 0 then [] else [show_nat n @ s])"

definition under_n_note :: "string \<Rightarrow> nat \<Rightarrow> nat \<Rightarrow> string list" where
  "under_n_note side n min_n =
     (if n < min_n
      then [''UNDER-N: '' @ side @ '' has '' @ show_nat n @ '' run(s) (< '' @ show_nat min_n @ '')'']
      else [])"

definition row_notes :: "nat \<Rightarrow> nat \<Rightarrow> nat \<Rightarrow> row_counts \<Rightarrow> string list" where
  "row_notes n_a n_b min_n c =
     count_note (rc_excluded_a c) '' run(s) excluded from A'' @
     count_note (rc_excluded_b c) '' run(s) excluded from B'' @
     count_note (rc_inadmissible_a c) '' run(s) not duel-admissible in A'' @
     count_note (rc_inadmissible_b c) '' run(s) not duel-admissible in B'' @
     under_n_note ''a'' n_a min_n @ under_n_note ''b'' n_b min_n"

definition make_verdict_row ::
  "'g np_ops \<Rightarrow> nat \<Rightarrow> int \<Rightarrow> f64 \<Rightarrow> string \<Rightarrow> f64 list \<Rightarrow> f64 list \<Rightarrow> f64 \<Rightarrow> nat \<Rightarrow> row_counts
    \<Rightarrow> string \<Rightarrow> verdict_row res" where
  "make_verdict_row np iters seed alpha metric a b margin min_n c arm =
     (let notes = row_notes (length a) (length b) min_n c
      in if length a < 3 \<or> length b < 3
         then Ret \<lparr>vr_metric = metric, vr_n_a = length a, vr_n_b = length b, vr_delta_median = None,
                   vr_ci = None, vr_margin = margin, vr_verdict = ''insufficient-data'',
                   vr_notes = join ''; '' (notes @
                     [''insufficient data for a bootstrap CI (need >= 3 per side; got a='' @
                      show_nat (length a) @ '', b='' @ show_nat (length b) @ '')'']),
                   vr_arm = arm\<rparr>
         else
           let delta = np_median np a - np_median np b
           in bindE (bootstrap_ci_median_diff np a b iters seed alpha) (\<lambda>ci.
                Ret \<lparr>vr_metric = metric, vr_n_a = length a, vr_n_b = length b,
                     vr_delta_median = Some delta, vr_ci = Some ci, vr_margin = margin,
                     vr_verdict = equivalence_decision delta ci margin,
                     vr_notes = join ''; '' notes, vr_arm = arm\<rparr>))"

definition row_line :: "verdict_row \<Rightarrow> string" where
  "row_line r =
     ''| '' @ vr_metric r @ '' | '' @ vr_arm r @ '' | '' @ show_nat (vr_n_a r) @ ''/'' @ show_nat (vr_n_b r) @
     '' | '' @ (case vr_delta_median r of None \<Rightarrow> ''-'' | Some d \<Rightarrow> fmt_fixed 3 d) @ '' | '' @
     (case vr_ci r of None \<Rightarrow> ''-''
      | Some (lo, hi) \<Rightarrow> ''['' @ fmt_fixed 3 lo @ '', '' @ fmt_fixed 3 hi @ '']'') @ '' | '' @
     fmt_g (vr_margin r) @ '' | '' @ vr_verdict r @ '' | '' @ vr_notes r @ '' |''"

definition render_table :: "verdict_row list \<Rightarrow> string list" where
  "render_table rows =
     [''| metric | arm | n (a/b) | delta_median | 95% ci | margin | verdict | notes |'',
      ''|---|---|---|---|---|---|---|---|''] @ map row_line rows"

definition append_note :: "string \<Rightarrow> string \<Rightarrow> string" where
  "append_note existing extra = (if existing = [] then extra else existing @ ''; '' @ extra)"

section \<open>The scoring window\<close>

record run_window =
  rw_fit :: affine_fit
  rw_sim_lo :: int
  rw_sim_hi :: int
  rw_wall_lo :: int
  rw_wall_hi :: int

definition wall_to_sim :: "affine_fit \<Rightarrow> f64 \<Rightarrow> f64" where
  "wall_to_sim fit wall_ns = (wall_ns - af_intercept_ns fit) div af_slope fit"

text \<open>A vertex of the polyline: two numbers.\<close>

definition route_vertex :: "pyval \<Rightarrow> pt res" where
  "route_vertex v =
     (case v of
        PList [x, y] \<Rightarrow> bindE (py_float x) (\<lambda>a. bindE (py_float y) (\<lambda>b. Ret (a, b)))
      | _ \<Rightarrow> Raise ValueError ''setting an array element with a sequence'')"

definition load_route :: "(string \<Rightarrow> pyval option) \<Rightarrow> pyval \<Rightarrow> (pt list \<times> f64 \<times> f64) res" where
  "load_route routes map_name =
     (case routes (py_str map_name) of
        None \<Rightarrow> Raise MetricUnavailableError ''no route file for map''
      | Some doc \<Rightarrow>
          bindE (getitem doc ''polyline'') (\<lambda>poly.
          bindE (py_iter poly) (\<lambda>vs.
          bindE (mapE route_vertex vs) (\<lambda>route.
          bindE (getitem doc ''stations'') (\<lambda>st.
          bindE (getitem st ''start_m'') (\<lambda>s0. bindE (py_float s0) (\<lambda>s.
          bindE (getitem st ''end_m'') (\<lambda>e0. bindE (py_float e0) (\<lambda>e.
            Ret (route, s, e))))))))))"

text \<open>The four bounds as floats, before they are rounded: sim then wall.\<close>

definition spatial_bounds ::
  "geo_ops \<Rightarrow> (string \<Rightarrow> pyval option) \<Rightarrow> run_files \<Rightarrow> run_manifest \<Rightarrow> affine_fit
    \<Rightarrow> (f64 \<times> f64 \<times> f64 \<times> f64) res" where
  "spatial_bounds geo routes run_dir m fit =
     bindE (read_odometry_csv (rf_odometry run_dir)) (\<lambda>odom.
       case map_of odom (Some ODOM_TOPIC) of
         None \<Rightarrow> Raise MetricUnavailableError ''odometry topic not in odometry.csv''
       | Some cols \<Rightarrow>
           bindE (load_route routes (m_map_name m)) (\<lambda>(route, start_m, end_m).
           let xy = zip (col (tc_floats cols) ''x_m'') (col (tc_floats cols) ''y_m'');
               samples = zip (col (tc_ints cols) ''header_stamp_ns'') xy
           in bindE (spatial_window geo samples route start_m end_m WARMUP_NS) (\<lambda>(lo, hi).
                Ret (of_i64 lo, of_i64 hi,
                     af_slope fit * of_i64 lo + af_intercept_ns fit,
                     af_slope fit * of_i64 hi + af_intercept_ns fit))))"

fun list_max_i :: "int list \<Rightarrow> int res" where
  "list_max_i [] = Raise ValueError ''zero-size array to reduction operation maximum''"
| "list_max_i (x # xs) = Ret (fold max xs x)"

fun list_min_i :: "int list \<Rightarrow> int res" where
  "list_min_i [] = Raise ValueError ''zero-size array to reduction operation minimum''"
| "list_min_i (x # xs) = Ret (fold min xs x)"

definition static_bounds :: "int list \<Rightarrow> affine_fit \<Rightarrow> (f64 \<times> f64 \<times> f64 \<times> f64) res" where
  "static_bounds clock_wall fit =
     bindE (list_min_i clock_wall) (\<lambda>t0. bindE (list_max_i clock_wall) (\<lambda>t1.
     bindE (static_window t0 t1 WARMUP_NS) (\<lambda>(lo, hi).
     bindE (float_of_int lo) (\<lambda>wlo. bindE (float_of_int hi) (\<lambda>whi.
       Ret (wall_to_sim fit wlo, wall_to_sim fit whi, wlo, whi))))))"

definition round_window :: "affine_fit \<Rightarrow> f64 \<times> f64 \<times> f64 \<times> f64 \<Rightarrow> run_window res" where
  "round_window fit b =
     (case b of (slo, shi, wlo, whi) \<Rightarrow>
        bindE (py_round slo) (\<lambda>a. bindE (py_round shi) (\<lambda>b. bindE (py_round wlo) (\<lambda>c.
        bindE (py_round whi) (\<lambda>d.
          Ret \<lparr>rw_fit = fit, rw_sim_lo = a, rw_sim_hi = b, rw_wall_lo = c, rw_wall_hi = d\<rparr>)))))"

definition resolve_window ::
  "'g np_ops \<Rightarrow> geo_ops \<Rightarrow> (string \<Rightarrow> pyval option) \<Rightarrow> run_files \<Rightarrow> run_manifest \<Rightarrow> run_window res" where
  "resolve_window np geo routes run_dir m =
     bindE (read_clock_csv (rf_clock run_dir)) (\<lambda>(clock_ns, clock_wall).
     bindE (fit_sim_wall_affine np clock_ns clock_wall) (\<lambda>fit.
     bindE (if py_eq (m_arm m) (PStr ''closed-loop'') then spatial_bounds geo routes run_dir m fit
            else static_bounds clock_wall fit) (round_window fit)))"

end
