(* ===== verification/Duel_Walk.thy ===== *)
theory Duel_Walk
  imports Duel_Verdict
begin

text \<open>
  \<^verbatim>\<open>benchmarks/scripts/duel_verdict.py\<close>, the aggregation layer: the walk over the run directories of one cell
  and one arm (\<open>_walk_cell_runs\<close>), and the two ways a metric is reduced over the walked runs
  (\<open>_apply_extractor\<close>, \<open>_apply_fit_residual\<close>). A failed run is a text: the class and the message of the
  exception.

  The lemmas: the walk accounts for every run of its arm, admits only valid runs of its own duel, and two duels
  have no run in common; a metric gives every walked run a value or a note.
\<close>

record run_record =
  rr_dir :: run_files
  rr_manifest :: run_manifest
  rr_window :: "run_window option"
  rr_window_error :: "string option"

text \<open>The values \<open>_walk_cell_runs\<close> returns.\<close>

record cell_walk =
  cw_records :: "run_record list"
  cw_excluded :: nat
  cw_inadmissible :: nat
  cw_errors :: "string list"

section \<open>The walk\<close>

text \<open>The pool rule: a run belongs to the duel its id names, the empty id of the older manifests to the duel with
  \<open>legacy_ok\<close>. No expected id: every run does.\<close>

definition duel_admits :: "string option \<Rightarrow> bool \<Rightarrow> pyval \<Rightarrow> bool" where
  "duel_admits expected_duel_id legacy_ok duel_id \<longleftrightarrow>
     (case expected_duel_id of
        None \<Rightarrow> True
      | Some e \<Rightarrow> py_eq duel_id (PStr e) \<or> (legacy_ok \<and> py_eq duel_id (PStr '''')))"

definition other_arm :: "string option \<Rightarrow> run_manifest \<Rightarrow> bool" where
  "other_arm arm m \<longleftrightarrow> (case arm of None \<Rightarrow> False | Some a \<Rightarrow> \<not> py_eq (m_arm m) (PStr a))"

text \<open>The record of an admitted run: its window, or why it has none.\<close>

definition record_run :: "(run_files \<Rightarrow> run_manifest \<Rightarrow> run_window res) \<Rightarrow> run_files \<Rightarrow> run_manifest \<Rightarrow> run_record" where
  "record_run resolve run_dir m =
     (case resolve run_dir m of
        Inr w \<Rightarrow> \<lparr>rr_dir = run_dir, rr_manifest = m, rr_window = Some w, rr_window_error = None\<rparr>
      | Inl e \<Rightarrow> \<lparr>rr_dir = run_dir, rr_manifest = m, rr_window = None, rr_window_error = Some (exc_text e)\<rparr>)"

definition walk_step ::
  "(run_files \<Rightarrow> run_manifest \<Rightarrow> run_window res) \<Rightarrow> string option \<Rightarrow> string option \<Rightarrow> bool \<Rightarrow> cell_walk \<Rightarrow> run_files
    \<Rightarrow> cell_walk" where
  "walk_step resolve arm expected_duel_id legacy_ok t run_dir =
     (if rf_manifest run_dir = JAbsent
      then t\<lparr>cw_errors := cw_errors t @ [rf_name run_dir @ '': no manifest.json'']\<rparr>
      else
        case load_manifest (rf_manifest run_dir) of
          Inl e \<Rightarrow> t\<lparr>cw_errors := cw_errors t @ [rf_name run_dir @ '': FAILED loading manifest: '' @ exc_msg e]\<rparr>
        | Inr m \<Rightarrow>
            if other_arm arm m then t
            else if truthy (m_excluded m) then t\<lparr>cw_excluded := cw_excluded t + 1\<rparr>
            else if \<not> truthy (m_duel_admissible m) then t\<lparr>cw_inadmissible := cw_inadmissible t + 1\<rparr>
            else if \<not> duel_admits expected_duel_id legacy_ok (m_duel_id m)
            then t\<lparr>cw_inadmissible := cw_inadmissible t + 1\<rparr>
            else t\<lparr>cw_records := cw_records t @ [record_run resolve run_dir m]\<rparr>)"

definition empty_walk :: cell_walk where
  "empty_walk = \<lparr>cw_records = [], cw_excluded = 0, cw_inadmissible = 0, cw_errors = []\<rparr>"

definition walk_cell_runs ::
  "(run_files \<Rightarrow> run_manifest \<Rightarrow> run_window res) \<Rightarrow> string option \<Rightarrow> string option \<Rightarrow> bool \<Rightarrow> run_files list \<Rightarrow> cell_walk" where
  "walk_cell_runs resolve arm expected_duel_id legacy_ok cell_dir =
     foldl (walk_step resolve arm expected_duel_id legacy_ok) empty_walk (run_dirs cell_dir)"

section \<open>Reducing a metric\<close>

definition failed_run :: "run_files \<Rightarrow> exc \<Rightarrow> string" where
  "failed_run run_dir e = rf_name run_dir @ '': FAILED '' @ exc_text e"

definition failed_window :: "run_record \<Rightarrow> string" where
  "failed_window rec =
     rf_name (rr_dir rec) @ '': FAILED window: '' @ (case rr_window_error rec of None \<Rightarrow> ''None'' | Some s \<Rightarrow> s)"

fun apply_extractor ::
  "(run_files \<Rightarrow> run_manifest \<Rightarrow> run_window \<Rightarrow> f64 res) \<Rightarrow> run_record list \<Rightarrow> f64 list \<times> string list" where
  "apply_extractor extractor [] = ([], [])"
| "apply_extractor extractor (rec # recs) =
     (let (values, errors) = apply_extractor extractor recs
      in case rr_window rec of
           None \<Rightarrow> (values, failed_window rec # errors)
         | Some w \<Rightarrow>
             (case extractor (rr_dir rec) (rr_manifest rec) w of
                Inr v \<Rightarrow> (v # values, errors)
              | Inl e \<Rightarrow> (values, failed_run (rr_dir rec) e # errors)))"

definition extract_fit_residual_ns :: "'g np_ops \<Rightarrow> run_files \<Rightarrow> f64 res" where
  "extract_fit_residual_ns np run_dir =
     bindE (read_clock_csv (rf_clock run_dir)) (\<lambda>(clock_ns, clock_wall).
     bindE (fit_sim_wall_affine np clock_ns clock_wall) (\<lambda>fit. Ret (af_max_abs_residual_ns fit)))"

fun apply_fit_residual :: "'g np_ops \<Rightarrow> run_record list \<Rightarrow> f64 list \<times> string list" where
  "apply_fit_residual np [] = ([], [])"
| "apply_fit_residual np (rec # recs) =
     (let (values, errors) = apply_fit_residual np recs
      in case extract_fit_residual_ns np (rr_dir rec) of
           Inr v \<Rightarrow> (v # values, errors)
         | Inl e \<Rightarrow> (values, failed_run (rr_dir rec) e # errors))"

definition cell_run_values ::
  "(run_files \<Rightarrow> run_manifest \<Rightarrow> run_window res) \<Rightarrow> run_files list \<Rightarrow>
     (run_files \<Rightarrow> run_manifest \<Rightarrow> run_window \<Rightarrow> f64 res) \<Rightarrow> string option \<Rightarrow> f64 list \<times> nat \<times> nat \<times> string list" where
  "cell_run_values resolve cell_dir extractor arm =
     (let w = walk_cell_runs resolve arm None False cell_dir; (values, apply_errors) = apply_extractor extractor (cw_records w)
      in (values, cw_excluded w, cw_inadmissible w, cw_errors w @ apply_errors))"

section \<open>The walk accounts for every run\<close>

definition walk_total :: "cell_walk \<Rightarrow> nat" where
  "walk_total t = length (cw_records t) + cw_excluded t + cw_inadmissible t + length (cw_errors t)"

text \<open>A run whose manifest loads and names another arm is out of scope; every other run counts.\<close>

definition in_scope :: "string option \<Rightarrow> run_files \<Rightarrow> bool" where
  "in_scope arm run_dir \<longleftrightarrow> \<not> (\<exists>m. load_manifest (rf_manifest run_dir) = Inr m \<and> other_arm arm m)"

definition admitted :: "string option \<Rightarrow> string option \<Rightarrow> bool \<Rightarrow> run_manifest \<Rightarrow> bool" where
  "admitted arm expected_duel_id legacy_ok m \<longleftrightarrow>
     \<not> other_arm arm m \<and> \<not> truthy (m_excluded m) \<and> truthy (m_duel_admissible m) \<and>
     duel_admits expected_duel_id legacy_ok (m_duel_id m)"

lemma load_absent: "load_manifest JAbsent = Raise FileNotFoundError ''no such file''"
  by (simp add: load_manifest_def read_json_def)

interpretation duel_walk: counted_walk "\<lambda>t r. Ret (walk_step resolve arm duel legacy t r)" walk_total
    "\<lambda>r. if in_scope arm r then 1 else 0"
  by unfold_locales (auto simp: walk_step_def walk_total_def in_scope_def load_absent split: sum.split)

lemma foldE_Ret: "foldE (\<lambda>s x. Ret (f s x)) s xs = Ret (foldl f s xs)"
  by (induction xs arbitrary: s) auto

lemma sum_list_indicator: "sum_list (map (\<lambda>x. if P x then 1 else 0) xs) = length (filter P xs)"
  by (induction xs) auto

text \<open>The records of a walk, in order: the admitted runs with their windows.\<close>

definition records_of ::
  "(run_files \<Rightarrow> run_manifest \<Rightarrow> run_window res) \<Rightarrow> string option \<Rightarrow> string option \<Rightarrow> bool \<Rightarrow> run_files \<Rightarrow> run_record list" where
  "records_of resolve arm duel legacy r =
     (case load_manifest (rf_manifest r) of
        Inr m \<Rightarrow> if admitted arm duel legacy m then [record_run resolve r m] else []
      | Inl e \<Rightarrow> [])"

lemma walk_step_records:
  "cw_records (walk_step resolve arm duel legacy t r) = cw_records t @ records_of resolve arm duel legacy r"
  by (auto simp: walk_step_def records_of_def admitted_def load_absent split: sum.split)

lemma walk_records:
  "cw_records (foldl (walk_step resolve arm duel legacy) t rs) =
     cw_records t @ concat (map (records_of resolve arm duel legacy) rs)"
  by (induction rs arbitrary: t) (simp_all add: walk_step_records)

lemma walk_cell_records:
  "cw_records (walk_cell_runs resolve arm duel legacy cell_dir) =
     concat (map (records_of resolve arm duel legacy) (run_dirs cell_dir))"
  by (simp add: walk_cell_runs_def walk_records empty_walk_def)

lemma walk_recordD:
  assumes "rec \<in> set (cw_records (walk_cell_runs resolve arm duel legacy cell_dir))"
  shows "\<exists>r \<in> set (run_dirs cell_dir). \<exists>m. load_manifest (rf_manifest r) = Inr m \<and>
    admitted arm duel legacy m \<and> rec = record_run resolve r m"
proof -
  from assms obtain r where r: "r \<in> set (run_dirs cell_dir)" "rec \<in> set (records_of resolve arm duel legacy r)"
    by (auto simp: walk_cell_records)
  then show ?thesis by (cases "load_manifest (rf_manifest r)") (auto simp: records_of_def split: if_split_asm)
qed

lemma map_records_of:
  "map rr_dir (concat (map (records_of resolve arm duel legacy) rs)) =
     filter (\<lambda>r. \<exists>m. load_manifest (rf_manifest r) = Inr m \<and> admitted arm duel legacy m) rs"
  by (induction rs) (auto simp: records_of_def record_run_def split: sum.split)

lemma records_length:
  "length (cw_records (walk_cell_runs resolve arm duel legacy cell_dir)) =
     length (filter (\<lambda>r. \<exists>m. load_manifest (rf_manifest r) = Inr m \<and> admitted arm duel legacy m) (run_dirs cell_dir))"
  unfolding walk_cell_records using arg_cong [OF map_records_of, of length] by (simp only: length_map)

text \<open>C21: The walk loses no run and mixes no arms: records, excluded runs, inadmissible runs and error notes add up to
  the run directories less those of other arms, and the records are, in directory order, exactly the admitted
  runs, each with its manifest.\<close>

theorem walk_accounts_for_every_run:
  "(let w = walk_cell_runs resolve arm duel legacy cell_dir
    in length (cw_records w) + cw_excluded w + cw_inadmissible w + length (cw_errors w) =
         length (filter (in_scope arm) (run_dirs cell_dir)) \<and>
       map rr_dir (cw_records w) =
         filter (\<lambda>r. \<exists>m. load_manifest (rf_manifest r) = Inr m \<and> admitted arm duel legacy m) (run_dirs cell_dir))"
proof -
  have "foldE (\<lambda>t r. Ret (walk_step resolve arm duel legacy t r)) empty_walk (run_dirs cell_dir) =
      Ret (walk_cell_runs resolve arm duel legacy cell_dir)"
    by (simp add: foldE_Ret walk_cell_runs_def)
  from duel_walk.walk_total [OF this]
  have "walk_total (walk_cell_runs resolve arm duel legacy cell_dir) = length (filter (in_scope arm) (run_dirs cell_dir))"
    by (simp add: sum_list_indicator) (simp add: walk_total_def empty_walk_def)
  then show ?thesis by (simp add: Let_def walk_total_def walk_cell_records map_records_of)
qed

section \<open>Duels share no run\<close>

definition duel_id :: "string \<Rightarrow> string \<Rightarrow> string" where
  "duel_id cell_a_id cell_b_id = cell_a_id @ ''+'' @ cell_b_id"

definition legacy_duel :: "string \<Rightarrow> string \<Rightarrow> bool" where
  "legacy_duel cell_a_id cell_b_id \<longleftrightarrow> cell_a_id = ''A'' \<and> cell_b_id = ''B''"

interpretation duel_pool: admission_pool
    "\<lambda>i (a, b). duel_admits (Some (duel_id a b)) (legacy_duel a b) (PStr i)" "\<lambda>(a, b). duel_id a b"
    "\<lambda>(a, b). legacy_duel a b" "\<lambda>_. True"
  by unfold_locales (auto simp: duel_admits_def duel_id_def legacy_duel_def)

lemma duel_admits_str: "duel_admits (Some e) l v \<Longrightarrow> \<exists>s. v = PStr s"
  by (auto simp: duel_admits_def)

text \<open>C20: A run is evidence for one duel only: the walks of two duels with different ids have no run in common,
  whatever the arms, and the runs of the older manifests, which carry no id, belong to the duel of A and B.\<close>

theorem duels_share_no_run:
  assumes "rec \<in> set (cw_records (walk_cell_runs resolve arm (Some (duel_id a b)) (legacy_duel a b) cell_dir))"
    and "rec' \<in> set (cw_records (walk_cell_runs resolve' arm' (Some (duel_id c d)) (legacy_duel c d) cell_dir'))"
    and "duel_id a b \<noteq> duel_id c d"
  shows "rr_dir rec \<noteq> rr_dir rec' \<and> (py_eq (m_duel_id (rr_manifest rec)) (PStr '''') \<longrightarrow> a = ''A'' \<and> b = ''B'')"
proof -
  have rr: "rr_dir (record_run f r m) = r" "rr_manifest (record_run f r m) = m" for f r m
    by (simp_all add: record_run_def split: sum.split)
  from walk_recordD [OF assms(1)] obtain m where
    m: "load_manifest (rf_manifest (rr_dir rec)) = Inr m" "rr_manifest rec = m"
      "duel_admits (Some (duel_id a b)) (legacy_duel a b) (m_duel_id m)"
    by (auto simp: rr admitted_def)
  from walk_recordD [OF assms(2)] obtain m' where
    m': "load_manifest (rf_manifest (rr_dir rec')) = Inr m'"
      "duel_admits (Some (duel_id c d)) (legacy_duel c d) (m_duel_id m')"
    by (auto simp: rr admitted_def)
  have "rr_dir rec \<noteq> rr_dir rec'"
  proof
    assume "rr_dir rec = rr_dir rec'"
    with m m' have "m' = m" by simp
    obtain s where s: "m_duel_id m = PStr s" using duel_admits_str [OF m(3)] by blast
    from duel_pool.pools_disjoint [where k = "(a, b)" and k' = "(c, d)" and i = s] m(3) m'(2) s \<open>m' = m\<close> assms(3) show False by simp
  qed
  moreover have "a = ''A'' \<and> b = ''B''" if "py_eq (m_duel_id (rr_manifest rec)) (PStr '''')"
    using that m duel_pool.legacy_only [where k = "(a, b)"] by (simp add: legacy_duel_def)
  ultimately show ?thesis by blast
qed

section \<open>A value or a note for every run\<close>

text \<open>Every walked run is accounted for in every metric: it has a value or a note, and a run with a value had a
  window and the value is the extractor's; the fit residual needs no window.\<close>

theorem extractor_accounts_for_every_run:
  "(case apply_extractor extractor recs of (values, errors) \<Rightarrow>
      length values + length errors = length recs \<and>
      (\<forall>v \<in> set values. \<exists>rec \<in> set recs. \<exists>w. rr_window rec = Some w \<and>
         extractor (rr_dir rec) (rr_manifest rec) w = Inr v)) \<and>
   (case apply_fit_residual np recs of (values, errors) \<Rightarrow> length values + length errors = length recs)"
proof (induction recs)
  case (Cons rec recs)
  obtain vs es where v: "apply_extractor extractor recs = (vs, es)" by fastforce
  obtain fs gs where f: "apply_fit_residual np recs = (fs, gs)" by fastforce
  from Cons show ?case by (auto simp: v f split: option.split sum.split)
qed simp

section \<open>A sample\<close>

text \<open>An admissible run of cell A, filed under a duel; its clock was never recorded.\<close>

definition pool_run :: "string \<Rightarrow> run_files" where
  "pool_run duel = \<lparr>rf_name = ''run-001'',
     rf_manifest = JDoc (manifest_asdict (sample_manifest\<lparr>m_arm := PStr ''static'', m_duel_admissible := PBool True,
       m_duel_id := PStr duel\<rparr>)),
     rf_clock = CAbsent, rf_resources = CAbsent, rf_observer = CAbsent, rf_published_time = CAbsent,
     rf_odometry = CAbsent, rf_pose = CAbsent, rf_gt = CAbsent, rf_counts = JAbsent, rf_quality = JAbsent\<rparr>"

lemma pool_run_walk:
  assumes "duel_admits (Some e) legacy (PStr duel)"
  shows "walk_cell_runs resolve (Some ''static'') (Some e) legacy [pool_run duel] =
    empty_walk\<lparr>cw_records := [record_run resolve (pool_run duel) (sample_manifest\<lparr>m_arm := PStr ''static'',
      m_duel_admissible := PBool True, m_duel_id := PStr duel\<rparr>)]\<rparr>"
proof -
  have "run_dirs [pool_run duel] = [pool_run duel]" by (simp add: run_dirs_def pool_run_def)
  moreover have "\<not> truthy (m_excluded sample_manifest)" by (simp add: sample_manifest_def)
  ultimately show ?thesis using assms
    by (simp add: walk_cell_runs_def walk_step_def pool_run_def load_asdict other_arm_def empty_walk_def)
qed

theorem duels_share_no_run_witness:
  "\<exists>(rec :: run_record) (rec' :: run_record). rr_dir rec = pool_run ''A+B'' \<and> rr_dir rec' = pool_run ''A+S'' \<and> rr_dir rec \<noteq> rr_dir rec'"
proof -
  let ?f = "\<lambda>_ _. Raise FileNotFoundError ''no such file'' :: run_window res"
  let ?rec = "\<lambda>duel. record_run ?f (pool_run duel) (sample_manifest\<lparr>m_arm := PStr ''static'',
      m_duel_admissible := PBool True, m_duel_id := PStr duel\<rparr>)"
  have 1: "?rec ''A+B'' \<in> set (cw_records (walk_cell_runs ?f (Some ''static'') (Some (duel_id ''A'' ''B''))
      (legacy_duel ''A'' ''B'') [pool_run ''A+B'']))"
    using pool_run_walk [of "duel_id ''A'' ''B''" "legacy_duel ''A'' ''B''" "''A+B''" ?f]
    by (simp add: duel_admits_def duel_id_def)
  have 2: "?rec ''A+S'' \<in> set (cw_records (walk_cell_runs ?f (Some ''static'') (Some (duel_id ''A'' ''S''))
      (legacy_duel ''A'' ''S'') [pool_run ''A+S'']))"
    using pool_run_walk [of "duel_id ''A'' ''S''" "legacy_duel ''A'' ''S''" "''A+S''" ?f]
    by (simp add: duel_admits_def duel_id_def)
  have "duel_id ''A'' ''B'' \<noteq> duel_id ''A'' ''S''" by (simp add: duel_id_def)
  from duels_share_no_run [OF 1 2 this] have "rr_dir (?rec ''A+B'') \<noteq> rr_dir (?rec ''A+S'')" by blast
  moreover have d: "rr_dir (?rec duel) = pool_run duel" for duel by (simp add: record_run_def)
  ultimately show ?thesis
    by (intro exI [of _ "?rec ''A+B''"] exI [of _ "?rec ''A+S''"]) (simp only: d simp_thms)
qed

end
