(* ===== verification/Duel_Metrics.thy ===== *)
theory Duel_Metrics
  imports Duel_Walk
begin

text \<open>
  \<^verbatim>\<open>benchmarks/scripts/duel_verdict.py\<close>, the five metrics of the duel: one run-level value per metric over the
  scoring window (\<open>extract_...\<close>), and the bindings of a cell's \<open>metrics:\<close> block to them (\<open>_bind_...\<close>). A bound
  topic or label is a YAML value; only a text matches a group of a file.

  The lemmas: the two clock-domain bands of the staleness metric exclude each other and a stamp in neither is
  refused.
\<close>

section \<open>Extractors\<close>

text \<open>\<open>if topic not in groups: raise MetricUnavailableError\<close>.\<close>

definition group_or_unavailable :: "(cell \<times> 'g) list \<Rightarrow> pyval \<Rightarrow> string \<Rightarrow> 'g res" where
  "group_or_unavailable groups k what =
     bindE (lookup_group groups k) (\<lambda>g. case g of
       None \<Rightarrow> Raise MetricUnavailableError what
     | Some g \<Rightarrow> Ret g)"

text \<open>The boolean masks of the window.\<close>

definition sim_mask :: "run_window \<Rightarrow> int list \<Rightarrow> bool list" where
  "sim_mask w stamps = map (\<lambda>s. rw_sim_lo w \<le> s \<and> s \<le> rw_sim_hi w) stamps"

definition wall_mask :: "run_window \<Rightarrow> int list \<Rightarrow> bool list" where
  "wall_mask w stamps = map (\<lambda>s. rw_wall_lo w \<le> s \<and> s \<le> rw_wall_hi w) stamps"

definition extract_one_hop_wall_ms :: "'g np_ops \<Rightarrow> pyval \<Rightarrow> run_files \<Rightarrow> run_manifest \<Rightarrow> run_window \<Rightarrow> f64 res" where
  "extract_one_hop_wall_ms np lidar_topic run_dir m w =
     bindE (read_observer_csv (rf_observer run_dir)) (\<lambda>topics.
     bindE (group_or_unavailable topics lidar_topic ''topic not in observer.csv'') (\<lambda>cols.
       let stamps = col cols ''header_stamp_ns''; in_w = sim_mask w stamps
       in if \<not> list_ex id in_w then Raise MetricUnavailableError ''no rows inside the scoring window''
          else Ret (np_median np (one_hop_wall_ms (select in_w stamps)
                 (select in_w (col cols ''arrival_system_ns'')) (rw_fit w)))))"

definition gap_ms :: "affine_fit \<Rightarrow> int \<Rightarrow> int \<Rightarrow> f64" where
  "gap_ms fit l n = (of_i64 n - of_i64 l) div af_slope fit div Fin 1000000"

definition extract_lidar_to_ndt_sim_ms ::
  "'g np_ops \<Rightarrow> pyval \<Rightarrow> pyval \<Rightarrow> run_files \<Rightarrow> run_manifest \<Rightarrow> run_window \<Rightarrow> f64 res" where
  "extract_lidar_to_ndt_sim_ms np lidar_topic ndt_topic run_dir m w =
     bindE (read_observer_csv (rf_observer run_dir)) (\<lambda>topics.
     bindE (group_or_unavailable topics lidar_topic ''topic not in observer.csv'') (\<lambda>lidar.
     bindE (group_or_unavailable topics ndt_topic ''topic not in observer.csv'') (\<lambda>ndt.
       let l_mask = sim_mask w (col lidar ''header_stamp_ns''); n_mask = sim_mask w (col ndt ''header_stamp_ns'');
           l_stamp = select l_mask (col lidar ''header_stamp_ns''); l_arrival = select l_mask (col lidar ''arrival_system_ns'');
           n_stamp = select n_mask (col ndt ''header_stamp_ns''); n_arrival = select n_mask (col ndt ''arrival_system_ns'')
       in bindE (match_stamps l_stamp n_stamp) (\<lambda>(i, j).
            if i = [] then Raise MetricUnavailableError ''no matched header stamps inside the scoring window''
            else Ret (np_median np (map2 (\<lambda>a b. gap_ms (rw_fit w) (l_arrival ! a) (n_arrival ! b)) i j))))))"

definition staleness_of :: "'g np_ops \<Rightarrow> affine_fit \<Rightarrow> int list \<Rightarrow> int list \<Rightarrow> f64 list res" where
  "staleness_of np fit src pub =
     (let median_pub = np_median np (map of_i64 pub)
      in if WALL_STAMP_FLOOR_NS < median_pub then Ret (one_hop_wall_ms src pub fit)
         else if median_pub < SIM_STAMP_CEIL_NS then Ret (staleness_ms src pub)
         else Raise MetricUnavailableError ''clock domain not determinable'')"

definition extract_control_staleness_ms ::
  "'g np_ops \<Rightarrow> pyval \<Rightarrow> run_files \<Rightarrow> run_manifest \<Rightarrow> run_window \<Rightarrow> f64 res" where
  "extract_control_staleness_ms np published_time_topic run_dir m w =
     (if published_time_topic = PNone
      then Raise MetricUnavailableError ''control_published_time_topic is not registered for this cell (Tasks 13/20)''
      else
        bindE (read_published_time_csv (rf_published_time run_dir)) (\<lambda>published.
        bindE (group_or_unavailable published published_time_topic ''topic not in published_time.csv'') (\<lambda>cols.
          let src = col cols ''source_header_ns''; mask = sim_mask w src
          in if \<not> list_ex id mask then Raise MetricUnavailableError ''no rows inside the scoring window''
             else bindE (staleness_of np (rw_fit w) (select mask src) (select mask (col cols ''published_ns'')))
                    (\<lambda>stale. Ret (np_median np stale)))))"

text \<open>The message of a missing process lists the sorted labels, so their sort happens first.\<close>

definition extract_carla_process_cpu_pct ::
  "'g np_ops \<Rightarrow> pyval \<Rightarrow> run_files \<Rightarrow> run_manifest \<Rightarrow> run_window \<Rightarrow> f64 res" where
  "extract_carla_process_cpu_pct np process_label run_dir m w =
     (if process_label = PNone
      then Raise MetricUnavailableError ''cpu_process_label is not registered for this cell''
      else
        bindE (read_resources_csv (rf_resources run_dir)) (\<lambda>processes.
        bindE (lookup_group processes process_label) (\<lambda>g. case g of
          None \<Rightarrow> bindE (sorted_cells (map fst processes)) (\<lambda>_.
                    Raise MetricUnavailableError ''process not in resources.csv'')
        | Some cols \<Rightarrow>
            let mask = wall_mask w (col (tc_ints cols) ''sample_system_ns'')
            in if \<not> list_ex id mask then Raise MetricUnavailableError ''no samples inside the scoring window''
               else Ret (np_median np (select mask (col (tc_floats cols) ''cpu_pct''))))))"

text \<open>\<open>v <= 0\<close> for a YAML value.\<close>

definition not_positive :: "pyval \<Rightarrow> bool res" where
  "not_positive v =
     (case num_value v of
        None \<Rightarrow> Raise TypeError ''not supported between instances''
      | Some x \<Rightarrow> Ret (x \<le> 0))"

definition extract_achieved_rate_ratio ::
  "'g np_ops \<Rightarrow> pyval \<Rightarrow> pyval \<Rightarrow> run_files \<Rightarrow> run_manifest \<Rightarrow> run_window \<Rightarrow> f64 res" where
  "extract_achieved_rate_ratio np lidar_topic expected_hz run_dir m w =
     (if expected_hz = PNone
      then Raise MetricUnavailableError ''lidar_expected_hz is not registered for this cell''
      else
        bindE (not_positive expected_hz) (\<lambda>bad.
        if bad then Raise ValueError ''lidar_expected_hz must be > 0''
        else
          bindE (read_observer_csv (rf_observer run_dir)) (\<lambda>topics.
          bindE (group_or_unavailable topics lidar_topic ''topic not in observer.csv'') (\<lambda>cols.
            let stamps = col cols ''header_stamp_ns''; in_w = select (sim_mask w stamps) stamps
            in if length in_w < 2
               then Raise MetricUnavailableError ''fewer than 2 arrivals inside the scoring window''
               else bindE (inter_arrival_stats np in_w) (\<lambda>stats.
                    bindE (num_operand expected_hz) (\<lambda>hz. Ret (cs_hz stats div hz)))))))"

section \<open>Bindings\<close>

text \<open>A bound extractor, or the reason there is none.\<close>

type_synonym binding = "(run_files \<Rightarrow> run_manifest \<Rightarrow> run_window \<Rightarrow> f64 res) + string"

definition bind_one_hop_wall_ms :: "'g np_ops \<Rightarrow> (string \<times> pyval) list \<Rightarrow> binding res" where
  "bind_one_hop_wall_ms np metrics =
     bindE (getitem (PDict metrics) ''lidar_topic'') (\<lambda>topic.
       Ret (if topic = PNone then Inr ''lidar_topic not registered for this cell''
            else Inl (extract_one_hop_wall_ms np topic)))"

text \<open>\<open>[k for k, v in pairs if v is None]\<close>.\<close>

definition missing_of :: "(string \<times> pyval) list \<Rightarrow> string list" where
  "missing_of pairs = map fst (filter (\<lambda>p. snd p = PNone) pairs)"

definition bind_lidar_to_ndt_sim_ms :: "'g np_ops \<Rightarrow> (string \<times> pyval) list \<Rightarrow> binding res" where
  "bind_lidar_to_ndt_sim_ms np metrics =
     bindE (getitem (PDict metrics) ''lidar_topic'') (\<lambda>lidar_topic.
     bindE (getitem (PDict metrics) ''ndt_topic'') (\<lambda>ndt_topic.
       let missing = missing_of [(''lidar_topic'', lidar_topic), (''ndt_topic'', ndt_topic)]
       in Ret (if missing \<noteq> [] then Inr (join '', '' missing @ '' not registered for this cell'')
               else Inl (extract_lidar_to_ndt_sim_ms np lidar_topic ndt_topic))))"

definition bind_control_staleness_ms :: "'g np_ops \<Rightarrow> (string \<times> pyval) list \<Rightarrow> binding res" where
  "bind_control_staleness_ms np metrics =
     bindE (getitem (PDict metrics) ''control_published_time_topic'') (\<lambda>topic.
       Ret (if topic = PNone then Inr ''control_published_time_topic not registered for this cell (Tasks 13/20)''
            else Inl (extract_control_staleness_ms np topic)))"

definition bind_carla_process_cpu_pct :: "'g np_ops \<Rightarrow> (string \<times> pyval) list \<Rightarrow> binding res" where
  "bind_carla_process_cpu_pct np metrics =
     bindE (getitem (PDict metrics) ''cpu_process_label'') (\<lambda>label.
       Ret (if label = PNone then Inr ''cpu_process_label not registered for this cell''
            else Inl (extract_carla_process_cpu_pct np label)))"

definition bind_achieved_rate_ratio :: "'g np_ops \<Rightarrow> (string \<times> pyval) list \<Rightarrow> binding res" where
  "bind_achieved_rate_ratio np metrics =
     bindE (getitem (PDict metrics) ''lidar_topic'') (\<lambda>lidar_topic.
     bindE (getitem (PDict metrics) ''lidar_expected_hz'') (\<lambda>expected_hz.
       let missing = missing_of [(''lidar_topic'', lidar_topic), (''lidar_expected_hz'', expected_hz)]
       in Ret (if missing \<noteq> [] then Inr (join '', '' missing @ '' not registered for this cell'')
               else Inl (extract_achieved_rate_ratio np lidar_topic expected_hz))))"

definition METRIC_BINDERS :: "'g np_ops \<Rightarrow> (string \<times> ((string \<times> pyval) list \<Rightarrow> binding res)) list" where
  "METRIC_BINDERS np =
     [(''one_hop_wall_ms'', bind_one_hop_wall_ms np), (''lidar_to_ndt_sim_ms'', bind_lidar_to_ndt_sim_ms np),
      (''control_staleness_ms'', bind_control_staleness_ms np),
      (''carla_process_cpu_pct'', bind_carla_process_cpu_pct np),
      (''achieved_rate_ratio'', bind_achieved_rate_ratio np)]"

section \<open>Clock domains\<close>

text \<open>The staleness metric never guesses a clock domain: the two bands exclude each other, a median of publication
  stamps above the wall band's floor is read through the clock fit and one below the simulation band's ceiling as
  simulation time, and any other (NaN included) is refused.\<close>

theorem staleness_clock_domain:
  "(let med = np_median np (map of_i64 pub)
    in \<not> (Fin (10 ^ 18) < med \<and> med < Fin (10 ^ 13)) \<and>
       (staleness_of np fit src pub = Inr stale \<longleftrightarrow>
          (Fin (10 ^ 18) < med \<and> stale = one_hop_wall_ms src pub fit) \<or>
          (med < Fin (10 ^ 13) \<and> stale = staleness_ms src pub)))"
proof -
  have "\<not> (Fin 1000000000000000000 < x \<and> x < Fin 10000000000000)" for x :: f64
    by (cases x) auto
  then show ?thesis
    by (auto simp: staleness_of_def Let_def WALL_STAMP_FLOOR_NS_def SIM_STAMP_CEIL_NS_def)
qed

end
