(* ===== verification/Duel_Reconcile.thy ===== *)
theory Duel_Reconcile
  imports Duel_Metrics
begin

text \<open>
  \<^verbatim>\<open>benchmarks/scripts/duel_verdict.py\<close>, the M2 three-way reconciliation beside the duel table: expected, published
  and observed messages of a run over its scoring window (\<open>_reconcile_run\<close>), and the row of a cell and an arm
  (\<open>_cell_reconciliation_row\<close>).

  The lemmas: every walked run is in exactly one of the row's counts, the maximum of the row hides no run, and an
  unusable binding is refused before any run is read.
\<close>

section \<open>One run\<close>

definition reconcile_run :: "run_files \<Rightarrow> run_window \<Rightarrow> pyval \<Rightarrow> pyval \<Rightarrow> drop_stats option res" where
  "reconcile_run run_dir w lidar_topic lidar_expected_hz =
     bindE (not_positive lidar_expected_hz) (\<lambda>bad.
     if bad then Raise ValueError ''lidar_expected_hz must be > 0''
     else if rf_counts run_dir = JAbsent then Ret None
     else
       bindE (read_publisher_counts (rf_counts run_dir)) (\<lambda>pc.
       bindE (counts_of (\<lambda>pc t. count_in_window pc t (rw_sim_lo w) (rw_sim_hi w)) pc lidar_topic) (\<lambda>published.
       bindE (read_observer_csv (rf_observer run_dir)) (\<lambda>topics.
       bindE (group_or_unavailable topics lidar_topic ''topic not in observer.csv'') (\<lambda>cols.
       bindE (float_of_int (rw_sim_hi w - rw_sim_lo w)) (\<lambda>d. bindE (float_div d (Fin 1000000000)) (\<lambda>window_s.
       bindE (num_operand lidar_expected_hz) (\<lambda>hz. bindE (expected_count window_s hz) (\<lambda>n_expected.
         let observed = length (filter id (sim_mask w (col cols ''header_stamp_ns'')))
         in bindE (reconcile_drops n_expected (int published) (int observed)) (\<lambda>d. Ret (Some d)))))))))))"

section \<open>The row of a cell\<close>

record reconciliation_row =
  rec_cell :: string
  rec_arm :: string
  n_measurable :: nat
  n_not_measurable :: nat
  n_zero_published :: nat
  publisher_drop_rate_median :: "f64 option"
  publisher_drop_rate_max :: "f64 option"
  observer_loss_rate_median :: "f64 option"
  observer_loss_rate_max :: "f64 option"
  rec_notes :: string

definition n_observer :: "reconciliation_row \<Rightarrow> int" where
  "n_observer r = int (n_measurable r) - int (n_zero_published r)"

definition unavailable_row :: "string \<Rightarrow> string \<Rightarrow> string \<Rightarrow> reconciliation_row" where
  "unavailable_row cell_id arm notes =
     \<lparr>rec_cell = cell_id, rec_arm = arm, n_measurable = 0, n_not_measurable = 0, n_zero_published = 0,
      publisher_drop_rate_median = None, publisher_drop_rate_max = None, observer_loss_rate_median = None,
      observer_loss_rate_max = None, rec_notes = notes\<rparr>"

text \<open>The drops of the measurable runs, how many were not measurable, and the notes of the others.\<close>

fun collect_drops ::
  "(run_record \<Rightarrow> run_window \<Rightarrow> drop_stats option res) \<Rightarrow> run_record list \<Rightarrow> drop_stats list \<times> nat \<times> string list" where
  "collect_drops reconcile [] = ([], 0, [])"
| "collect_drops reconcile (rec # recs) =
     (let (drops, n, errors) = collect_drops reconcile recs
      in case rr_window rec of
           None \<Rightarrow> (drops, n, failed_window rec # errors)
         | Some w \<Rightarrow>
             (case reconcile rec w of
                Inl e \<Rightarrow> (drops, n, failed_run (rr_dir rec) e # errors)
              | Inr None \<Rightarrow> (drops, Suc n, errors)
              | Inr (Some d) \<Rightarrow> (d # drops, n, errors)))"

definition rate_stats :: "'g np_ops \<Rightarrow> f64 list \<Rightarrow> (f64 \<times> f64) option" where
  "rate_stats np rates = (if rates = [] then None else Some (np_median np rates, np_max rates))"

definition row_of_drops ::
  "'g np_ops \<Rightarrow> string \<Rightarrow> string \<Rightarrow> nat \<Rightarrow> nat \<Rightarrow> drop_stats list \<times> nat \<times> string list \<Rightarrow> reconciliation_row" where
  "row_of_drops np cell_id arm n_records n_inadmissible collected =
     (case collected of (drops, n_not, errors) \<Rightarrow>
        let n_zero = length (filter (\<lambda>d. observer_loss_rate d = NaN) drops);
            pub = rate_stats np (map publisher_drop_rate drops);
            non_nan = filter (\<lambda>x. x \<noteq> NaN) (map observer_loss_rate drops);
            obs = (if drops = [] then None
                   else if non_nan \<noteq> [] then rate_stats np non_nan else Some (NaN, NaN));
            notes = (if n_records = 0 then [''no runs found for this arm''] else []) @
              count_note n_inadmissible '' run(s) not duel-admissible'' @
              (if errors = [] then [] else [join ''; '' errors]) @
              count_note n_not ('' run(s): '' @ PUBLISHER_NOT_MEASURABLE) @
              count_note n_zero '' run(s) had published_count == 0 (observer_loss_rate NaN)''
        in \<lparr>rec_cell = cell_id, rec_arm = arm, n_measurable = length drops, n_not_measurable = n_not,
            n_zero_published = n_zero, publisher_drop_rate_median = map_option fst pub,
            publisher_drop_rate_max = map_option snd pub, observer_loss_rate_median = map_option fst obs,
            observer_loss_rate_max = map_option snd obs, rec_notes = join ''; '' notes\<rparr>)"

definition cell_reconciliation_row ::
  "'g np_ops \<Rightarrow> string \<Rightarrow> string \<Rightarrow> (string \<times> pyval) list \<Rightarrow> run_record list \<Rightarrow> nat \<Rightarrow> reconciliation_row res" where
  "cell_reconciliation_row np cell_id arm metrics records n_inadmissible =
     bindE (getitem (PDict metrics) ''lidar_topic'') (\<lambda>lidar_topic.
     bindE (getitem (PDict metrics) ''lidar_expected_hz'') (\<lambda>hz.
       let missing = missing_of [(''lidar_topic'', lidar_topic), (''lidar_expected_hz'', hz)]
       in if missing \<noteq> []
          then Ret (unavailable_row cell_id arm (''UNAVAILABLE: '' @ join '', '' missing @
                 '' not registered for cell '' @ cell_id))
          else bindE (not_positive hz) (\<lambda>bad.
            if bad then Ret (unavailable_row cell_id arm (''UNAVAILABLE: lidar_expected_hz must be > 0, got '' @
                 py_str hz @ '' for cell '' @ cell_id))
            else Ret (row_of_drops np cell_id arm (length records) n_inadmissible
                 (collect_drops (\<lambda>rec w. reconcile_run (rr_dir rec) w lidar_topic hz) records)))))"

section \<open>The table\<close>

definition fmt_reconciliation_rate :: "f64 option \<Rightarrow> string" where
  "fmt_reconciliation_rate value =
     (case value of None \<Rightarrow> ''-'' | Some x \<Rightarrow> if x = NaN then ''NaN'' else fmt_fixed 3 x)"

definition reconciliation_line :: "reconciliation_row \<Rightarrow> string" where
  "reconciliation_line r =
     ''| '' @ rec_cell r @ '' | '' @ rec_arm r @ '' | '' @ show_nat (n_measurable r) @ '' | '' @
     show_nat (n_not_measurable r) @ '' | '' @ show_nat (n_zero_published r) @ '' | '' @ show_int (n_observer r) @
     '' | '' @ fmt_reconciliation_rate (publisher_drop_rate_median r) @ '' | '' @
     fmt_reconciliation_rate (publisher_drop_rate_max r) @ '' | '' @
     fmt_reconciliation_rate (observer_loss_rate_median r) @ '' | '' @
     fmt_reconciliation_rate (observer_loss_rate_max r) @ '' | '' @ rec_notes r @ '' |''"

definition render_reconciliation_table :: "reconciliation_row list \<Rightarrow> string list" where
  "render_reconciliation_table rows =
     [''| cell | arm | n measurable | n not measurable | n zero-published '' @
      ''| n observer | publisher_drop_rate (median) | publisher_drop_rate (max) '' @
      ''| observer_loss_rate (median) | observer_loss_rate (max) | notes |'',
      ''|---|---|---|---|---|---|---|---|---|---|---|''] @ map reconciliation_line rows"

section \<open>The row accounts for every run\<close>

lemma collect_drops_counts:
  "collect_drops reconcile recs = (drops, n, errors) \<Longrightarrow> length drops + n + length errors = length recs"
  by (induction recs arbitrary: drops n errors)
    (auto simp: split: prod.split_asm option.split_asm sum.split_asm)

lemma collect_drops_iff:
  "collect_drops reconcile recs = (drops, n, errors) \<Longrightarrow>
     d \<in> set drops \<longleftrightarrow> (\<exists>rec \<in> set recs. \<exists>w. rr_window rec = Some w \<and> reconcile rec w = Inr (Some d))"
  by (induction recs arbitrary: drops n errors)
    (auto simp: split: prod.split_asm option.split_asm sum.split_asm)

lemma reconcile_run_rates:
  assumes "reconcile_run run_dir w t hz = Inr (Some d)"
  shows "is_rate (publisher_drop_rate d) \<and> (observer_loss_rate d = NaN \<or> is_rate (observer_loss_rate d))"
proof -
  from assms obtain e p obs where "reconcile_drops e p (int obs) = Inr d"
    unfolding reconcile_run_def Let_def by (auto simp: py_splits split: if_split_asm)
  from reconcile_drops_rates [OF this] show ?thesis by (auto split: if_split_asm)
qed

lemma np_max_rate:
  "xs \<noteq> [] \<Longrightarrow> \<forall>x \<in> set xs. is_rate x \<Longrightarrow> np_max xs \<in> set xs \<and> (\<forall>x \<in> set xs. x \<le> np_max xs)"
proof (induction xs rule: np_max.induct)
  case (3 x y ys)
  then have ih: "np_max (y # ys) \<in> set (y # ys)" "\<forall>z \<in> set (y # ys). z \<le> np_max (y # ys)" by auto
  have "is_rate x" "is_rate (np_max (y # ys))" using 3 ih(1) by auto
  then obtain a b where ab: "x = Fin a" "np_max (y # ys) = Fin b" using is_rate_not_NaN by blast
  have tr: "z \<le> Fin b \<Longrightarrow> b \<le> a \<Longrightarrow> z \<le> Fin a" for z
    using f64_le_trans [of z "Fin b" "Fin a"] by simp
  from ih ab show ?case by (auto simp: Let_def not_less intro: tr)
qed (auto dest: is_rate_not_NaN)

lemma reconcile_run_usable:
  assumes "reconcile_run run_dir w t hz = Inr (Some d)"
  shows "t \<noteq> PNone" "hz \<noteq> PNone" "not_positive hz = Inr False"
  using assms by (auto simp: reconcile_run_def counts_of_def not_positive_def py_splits split: if_split_asm)

lemma cell_reconciliation_row_usable:
  assumes "getitem (PDict metrics) ''lidar_topic'' = Inr t" "getitem (PDict metrics) ''lidar_expected_hz'' = Inr hz"
    and "t \<noteq> PNone" "hz \<noteq> PNone" "not_positive hz = Inr False"
  shows "cell_reconciliation_row np cell_id arm metrics records n =
    Inr (row_of_drops np cell_id arm (length records) n
      (collect_drops (\<lambda>rec w. reconcile_run (rr_dir rec) w t hz) records))"
  using assms by (simp add: cell_reconciliation_row_def missing_of_def)

text \<open>A row without a usable binding is decided before any run is looked at.\<close>

lemma unusable_binding_reads_nothing:
  assumes "getitem (PDict metrics) ''lidar_topic'' = Inr t" "getitem (PDict metrics) ''lidar_expected_hz'' = Inr hz"
    and "t = PNone \<or> hz = PNone \<or> not_positive hz = Inr True"
  shows "\<exists>notes. \<forall>records n. cell_reconciliation_row np cell_id arm metrics records n = Inr (unavailable_row cell_id arm notes)"
proof -
  have "cell_reconciliation_row np cell_id arm metrics records n = cell_reconciliation_row np cell_id arm metrics [] 0"
      "\<exists>notes. cell_reconciliation_row np cell_id arm metrics [] 0 = Inr (unavailable_row cell_id arm notes)" for records n
    using assms by (auto simp: cell_reconciliation_row_def missing_of_def)
  then show ?thesis by metis
qed

text \<open>The counts of a row: a walked run is measurable, not measurable or noted as failed, and the sample size printed
  for the observer rates is never negative.\<close>

lemma row_counts:
  assumes "collect_drops reconcile records = (drops, n, errors)"
  shows "(let r = row_of_drops np cell_id arm (length records) n_inadmissible (drops, n, errors)
    in n_measurable r + n_not_measurable r + length errors = length records \<and> 0 \<le> n_observer r \<and>
       n_observer r = int (length (filter (\<lambda>d. observer_loss_rate d \<noteq> NaN) drops)))"
proof -
  have "length (filter (\<lambda>d. observer_loss_rate d = NaN) drops) +
      length (filter (\<lambda>d. observer_loss_rate d \<noteq> NaN) drops) = length drops"
    using sum_length_filter_compl [of "\<lambda>d. observer_loss_rate d = NaN" drops] by simp
  with collect_drops_counts [OF assms] show ?thesis
    by (simp add: Let_def row_of_drops_def n_observer_def)
qed

lemma rate_stats_max:
  assumes "x \<in> set xs" "\<forall>x \<in> set xs. is_rate x"
  shows "\<exists>m. map_option snd (rate_stats np xs) = Some m \<and> is_rate m \<and> x \<le> m"
proof -
  from assms(1) have "xs \<noteq> []" by auto
  from np_max_rate [OF this assms(2)] assms show ?thesis by (auto simp: rate_stats_def)
qed

text \<open>C22: The maximum of a row hides no run: when a walked run was measured, the row's maximal publisher drop is a rate
  no smaller than the run's, and, unless the run published nothing, so is its maximal observer loss.\<close>

theorem worst_run_shows:
  assumes "cell_reconciliation_row np cell_id arm metrics records n_inadmissible = Inr r"
    and "getitem (PDict metrics) ''lidar_topic'' = Inr t" "getitem (PDict metrics) ''lidar_expected_hz'' = Inr hz"
    and "rec \<in> set records" "rr_window rec = Some w" "reconcile_run (rr_dir rec) w t hz = Inr (Some d)"
  shows "(\<exists>m. publisher_drop_rate_max r = Some m \<and> is_rate m \<and> publisher_drop_rate d \<le> m) \<and>
    (if observer_loss_rate d = NaN then 0 < n_zero_published r
     else \<exists>m. observer_loss_rate_max r = Some m \<and> is_rate m \<and> observer_loss_rate d \<le> m)"
proof -
  let ?rc = "\<lambda>rec w. reconcile_run (rr_dir rec) w t hz"
  obtain drops n errors where c: "collect_drops ?rc records = (drops, n, errors)" by (metis prod_cases3)
  note usable = reconcile_run_usable [OF assms(6)]
  have r: "r = row_of_drops np cell_id arm (length records) n_inadmissible (drops, n, errors)"
  proof -
    have "Inr r = (Inr (row_of_drops np cell_id arm (length records) n_inadmissible (collect_drops ?rc records)) ::
        reconciliation_row res)"
      unfolding assms(1) [symmetric] by (rule cell_reconciliation_row_usable [OF assms(2,3) usable])
    then show ?thesis by (simp add: c)
  qed
  have d: "d \<in> set drops" using collect_drops_iff [OF c] assms(4-6) by blast
  have rates: "is_rate (publisher_drop_rate x) \<and> (observer_loss_rate x = NaN \<or> is_rate (observer_loss_rate x))"
    if "x \<in> set drops" for x
    using that collect_drops_iff [OF c] reconcile_run_rates by blast
  let ?pub = "map publisher_drop_rate drops" and ?obs = "filter (\<lambda>x. x \<noteq> NaN) (map observer_loss_rate drops)"
  have "\<exists>m. map_option snd (rate_stats np ?pub) = Some m \<and> is_rate m \<and> publisher_drop_rate d \<le> m"
    by (rule rate_stats_max) (use d rates in auto)
  moreover have "\<exists>m. map_option snd (rate_stats np ?obs) = Some m \<and> is_rate m \<and> observer_loss_rate d \<le> m"
    if "observer_loss_rate d \<noteq> NaN"
    by (rule rate_stats_max) (use d rates that in auto)
  moreover have "?obs \<noteq> []" if "observer_loss_rate d \<noteq> NaN"
    using that d by (auto simp: filter_empty_conv)
  moreover have "drops \<noteq> []" using d by auto
  moreover have "0 < length (filter (\<lambda>d. observer_loss_rate d = NaN) drops)" if "observer_loss_rate d = NaN"
    using that d by (auto simp: filter_empty_conv)
  ultimately show ?thesis by (auto simp: r row_of_drops_def Let_def)
qed

section \<open>A sample\<close>

text \<open>One published message inside the window, one observed outside it.\<close>

definition lossy_run :: run_files where
  "lossy_run = (pool_run ''A+B'')
     \<lparr>rf_counts := JDoc (publisher_counts_doc [(''/l'', [0])]),
      rf_observer := CRows [(''topic'', Some ''/l'') # map (\<lambda>c. (c, Some ''5'')) OBSERVER_COLS]\<rparr>"

definition lossy_window :: run_window where
  "lossy_window = \<lparr>rw_fit = \<lparr>af_slope = Fin 1, af_intercept_ns = Fin 0, af_max_abs_residual_ns = Fin 0, af_n = 2\<rparr>,
     rw_sim_lo = 0, rw_sim_hi = 0, rw_wall_lo = 0, rw_wall_hi = 0\<rparr>"

definition lossy_record :: run_record where
  "lossy_record = \<lparr>rr_dir = lossy_run, rr_manifest = sample_manifest, rr_window = Some lossy_window, rr_window_error = None\<rparr>"

lemma lossy_run_reconciled:
  "reconcile_run lossy_run lossy_window (PStr ''/l'') (PInt 20) =
     Inr (Some \<lparr>publisher_drop_rate = Fin 0, observer_loss_rate = Fin 1\<rparr>)"
proof -
  have o: "\<exists>g. read_observer_csv (rf_observer lossy_run) = Inr [(Some ''/l'', g)] \<and> col g ''header_stamp_ns'' = [5]"
  proof -
    have "case read_observer_csv (rf_observer lossy_run) of
        Inr gs \<Rightarrow> length gs = 1 \<and> fst (hd gs) = Some ''/l'' \<and> col (snd (hd gs)) ''header_stamp_ns'' = [5]
      | _ \<Rightarrow> False" by code_simp
    then show ?thesis by (auto simp: length_Suc_conv split: sum.splits)
  qed
  have p: "read_publisher_counts (rf_counts lossy_run) = Inr [(''/l'', [0])]" by code_simp
  have "reconcile_drops 1 1 0 = Inr \<lparr>publisher_drop_rate = Fin 0, observer_loss_rate = Fin 1\<rparr>" by code_simp
  moreover have "num_operand (PInt 20) = Inr (Fin 20)"
    by (simp add: num_operand_def float_of_int_def rnd_int [of 20, simplified])
  moreover have "rf_counts lossy_run \<noteq> JAbsent" by (simp add: lossy_run_def)
  moreover have "round_even 0 = 0" by code_simp
  moreover have "not_positive (PInt 20) = Inr False" by (simp add: not_positive_def zero_f64_def)
  ultimately show ?thesis using o
    by (auto simp: reconcile_run_def lossy_window_def p counts_of_def count_in_window_def pc_stamps_def
        group_or_unavailable_def lookup_group_def sim_mask_def float_of_int_def float_div_def expected_count_def
        py_round_def)
qed

theorem worst_run_shows_witness:
  "\<exists>r m. cell_reconciliation_row exact_np ''A'' ''static''
       [(''lidar_topic'', PStr ''/l''), (''lidar_expected_hz'', PInt 20)] [lossy_record] 0 = Inr r \<and>
     observer_loss_rate_max r = Some m \<and> Fin 1 \<le> m"
proof -
  let ?metrics = "[(''lidar_topic'', PStr ''/l''), (''lidar_expected_hz'', PInt 20)]"
  have g: "getitem (PDict ?metrics) ''lidar_topic'' = Inr (PStr ''/l'')"
    "getitem (PDict ?metrics) ''lidar_expected_hz'' = Inr (PInt 20)" by (simp_all add: getitem_def)
  note d = lossy_run_reconciled
  obtain r where r: "cell_reconciliation_row exact_np ''A'' ''static'' ?metrics [lossy_record] 0 = Inr r"
    using cell_reconciliation_row_usable [OF g reconcile_run_usable [OF d]] by blast
  have "lossy_record \<in> set [lossy_record]" "rr_window lossy_record = Some lossy_window" by (simp_all add: lossy_record_def)
  from worst_run_shows [OF r g this] d have "\<exists>m. observer_loss_rate_max r = Some m \<and> Fin 1 \<le> m"
    by (auto simp: lossy_record_def)
  with r show ?thesis by blast
qed

end
