(* ===== verification/Duel_Table.thy ===== *)
theory Duel_Table
  imports Duel_Reconcile
begin

text \<open>
  \<^verbatim>\<open>benchmarks/scripts/duel_verdict.py\<close>, the table: \<open>build_verdict_table\<close> walks the runs of both cells once per
  arm, gives every bound metric a row and every cell a reconciliation row, and \<open>main\<close> prints it. The results
  directory is a function from cell ids to the directories under them, the two YAML files what loading them gives
  or raises. The output is its lines.

  The lemmas: one row per arm and metric, none pooled and none left out; the same walk feeds every metric of an
  arm; a row of parity rests on at least three runs a side and an interval inside the margin; a metric without a
  binding is reported without reading a run.
\<close>

section \<open>Rows\<close>

definition attach_fit_residual_note :: "'g np_ops \<Rightarrow> verdict_row \<Rightarrow> run_record list \<Rightarrow> run_record list \<Rightarrow> verdict_row" where
  "attach_fit_residual_note np row records_a records_b =
     (let (fit_a, errors_a) = apply_fit_residual np records_a; (fit_b, errors_b) = apply_fit_residual np records_b;
          fit_errors = errors_a @ errors_b;
          notes = (if fit_errors = [] then vr_notes row
                   else append_note (vr_notes row) (''fit_residual_ns: '' @ join ''; '' fit_errors));
          notes' = (if fit_a \<noteq> [] \<and> fit_b \<noteq> []
                    then append_note notes (''fit_residual_ns median: a='' @ fmt_fixed 0 (np_median np fit_a) @
                           '' b='' @ fmt_fixed 0 (np_median np fit_b))
                    else notes)
      in row\<lparr>vr_notes := notes'\<rparr>)"

text \<open>\<open>set(cell_entry(cells_doc, c).get("arms", []))\<close>.\<close>

definition arms_of :: "pyval \<Rightarrow> string \<Rightarrow> pyval list res" where
  "arms_of cells_doc c =
     bindE (cell_entry cells_doc c) (\<lambda>entry.
     bindE (py_iter (case map_of entry ''arms'' of None \<Rightarrow> PList [] | Some v \<Rightarrow> v)) set_of_values)"

definition registered_arms :: "pyval \<Rightarrow> string \<Rightarrow> string \<Rightarrow> string list res" where
  "registered_arms cells_doc cell_a_id cell_b_id =
     bindE (arms_of cells_doc cell_a_id) (\<lambda>a_arms. bindE (arms_of cells_doc cell_b_id) (\<lambda>b_arms.
       Ret (filter (\<lambda>arm. list_ex (py_eq (PStr arm)) a_arms \<and> list_ex (py_eq (PStr arm)) b_arms) ARMS)))"

text \<open>The bindings of the metrics of \<open>margins\<close>, made once: \<open>None\<close> for a metric without a binder.\<close>

definition bind_metric ::
  "'g np_ops \<Rightarrow> (string \<times> pyval) list \<Rightarrow> (string \<times> pyval) list \<Rightarrow> string \<Rightarrow> (binding \<times> binding) option res" where
  "bind_metric np metrics_a metrics_b metric =
     (case map_of (METRIC_BINDERS np) metric of
        None \<Rightarrow> Ret None
      | Some binder \<Rightarrow> bindE (binder metrics_a) (\<lambda>a. bindE (binder metrics_b) (\<lambda>b. Ret (Some (a, b)))))"

definition bind_metrics ::
  "'g np_ops \<Rightarrow> (string \<times> pyval) list \<Rightarrow> (string \<times> pyval) list \<Rightarrow> (string \<times> pyval) list
    \<Rightarrow> (string \<times> pyval \<times> (binding \<times> binding) option) list res" where
  "bind_metrics np metrics_a metrics_b margins =
     mapE (\<lambda>(metric, spec). bindE (bind_metric np metrics_a metrics_b metric) (\<lambda>b. Ret (metric, spec, b))) margins"

definition margin_of :: "pyval \<Rightarrow> f64 res" where
  "margin_of spec = bindE (getitem spec ''margin'') py_float"

text \<open>A cell's reason as the note gives it; a binding has none.\<close>

definition unbound_reason :: "string \<Rightarrow> binding \<Rightarrow> string list" where
  "unbound_reason c b = (case b of Inl _ \<Rightarrow> [] | Inr reason \<Rightarrow> [''cell '' @ c @ '': '' @ reason])"

definition unavailable_verdict :: "string \<Rightarrow> string \<Rightarrow> string \<Rightarrow> binding \<Rightarrow> binding \<Rightarrow> string \<Rightarrow> f64 \<Rightarrow> verdict_row" where
  "unavailable_verdict cell_a_id cell_b_id metric a b arm margin =
     \<lparr>vr_metric = metric, vr_n_a = 0, vr_n_b = 0, vr_delta_median = None, vr_ci = None, vr_margin = margin,
      vr_verdict = ''insufficient-data'',
      vr_notes = ''UNAVAILABLE: '' @ join ''; '' (unbound_reason cell_a_id a @ unbound_reason cell_b_id b),
      vr_arm = arm\<rparr>"

definition counts_of_walks :: "cell_walk \<Rightarrow> cell_walk \<Rightarrow> row_counts" where
  "counts_of_walks wa wb =
     \<lparr>rc_excluded_a = cw_excluded wa, rc_excluded_b = cw_excluded wb,
      rc_inadmissible_a = cw_inadmissible wa, rc_inadmissible_b = cw_inadmissible wb\<rparr>"

definition metric_row ::
  "'g np_ops \<Rightarrow> nat \<Rightarrow> string \<Rightarrow> string \<Rightarrow> string \<Rightarrow> cell_walk \<Rightarrow> cell_walk \<Rightarrow> string \<times> pyval \<times> (binding \<times> binding)
    \<Rightarrow> verdict_row res" where
  "metric_row np min_n cell_a_id cell_b_id arm wa wb b =
     (case b of (metric, spec, a_bind, b_bind) \<Rightarrow>
       (case (a_bind, b_bind) of
          (Inl extractor_a, Inl extractor_b) \<Rightarrow>
            (let (values_a, errors_a) = apply_extractor extractor_a (cw_records wa);
                 (values_b, errors_b) = apply_extractor extractor_b (cw_records wb)
             in bindE (margin_of spec) (\<lambda>margin.
                bindE (make_verdict_row np BOOTSTRAP_ITERS BOOTSTRAP_SEED BOOTSTRAP_ALPHA metric values_a values_b margin
                         min_n (counts_of_walks wa wb) arm) (\<lambda>row.
                  let run_errors = cw_errors wa @ errors_a @ cw_errors wb @ errors_b;
                      row1 = (if run_errors = [] then row
                              else row\<lparr>vr_notes := append_note (vr_notes row) (join ''; '' run_errors)\<rparr>)
                  in Ret (if metric = ''one_hop_wall_ms''
                          then attach_fit_residual_note np row1 (cw_records wa) (cw_records wb) else row1))))
        | _ \<Rightarrow> bindE (margin_of spec) (\<lambda>margin.
                 Ret (unavailable_verdict cell_a_id cell_b_id metric a_bind b_bind arm margin))))"

section \<open>The table\<close>

text \<open>What \<open>build_verdict_table\<close> is called with.\<close>

record duel_inputs =
  di_cell_a :: string
  di_cell_b :: string
  di_dir_a :: "run_files list"
  di_dir_b :: "run_files list"
  di_min_n :: nat
  di_arms :: "string list option"

definition duel_walk :: "'g np_ops \<Rightarrow> geo_ops \<Rightarrow> (string \<Rightarrow> pyval option) \<Rightarrow> duel_inputs \<Rightarrow> string \<Rightarrow> run_files list \<Rightarrow> cell_walk" where
  "duel_walk np geo routes d arm cell_dir =
     walk_cell_runs (resolve_window np geo routes) (Some arm) (Some (duel_id (di_cell_a d) (di_cell_b d)))
       (legacy_duel (di_cell_a d) (di_cell_b d)) cell_dir"

text \<open>One arm: the two walks, the reconciliation rows if asked for, then a row per bound metric.\<close>

definition arm_rows ::
  "'g np_ops \<Rightarrow> geo_ops \<Rightarrow> (string \<Rightarrow> pyval option) \<Rightarrow> duel_inputs \<Rightarrow> (string \<times> pyval) list \<Rightarrow> (string \<times> pyval) list
    \<Rightarrow> bool \<Rightarrow> (string \<times> pyval \<times> (binding \<times> binding)) list \<Rightarrow> string \<Rightarrow> (verdict_row list \<times> reconciliation_row list) res" where
  "arm_rows np geo routes d metrics_a metrics_b with_reconciliation bound arm =
     (let wa = duel_walk np geo routes d arm (di_dir_a d); wb = duel_walk np geo routes d arm (di_dir_b d)
      in bindE (if \<not> with_reconciliation then Ret []
                else bindE (cell_reconciliation_row np (di_cell_a d) arm metrics_a (cw_records wa) (cw_inadmissible wa)) (\<lambda>ra.
                     bindE (cell_reconciliation_row np (di_cell_b d) arm metrics_b (cw_records wb) (cw_inadmissible wb)) (\<lambda>rb.
                       Ret [ra, rb]))) (\<lambda>recon.
         bindE (mapE (metric_row np (di_min_n d) (di_cell_a d) (di_cell_b d) arm wa wb) bound) (\<lambda>rows. Ret (rows, recon))))"

fun bound_of :: "(string \<times> pyval \<times> (binding \<times> binding) option) list \<Rightarrow> (string \<times> pyval \<times> (binding \<times> binding)) list" where
  "bound_of [] = []"
| "bound_of ((metric, spec, None) # bs) = bound_of bs"
| "bound_of ((metric, spec, Some b) # bs) = (metric, spec, b) # bound_of bs"

definition unbindable_of :: "(string \<times> pyval \<times> (binding \<times> binding) option) list \<Rightarrow> string list" where
  "unbindable_of bs = map fst (filter (\<lambda>b. snd (snd b) = None) bs)"

record duel_tables =
  dt_rows :: "verdict_row list"
  dt_unbindable :: "string list"
  dt_reconciliation :: "reconciliation_row list"

definition margin_items :: "pyval \<Rightarrow> (string \<times> pyval) list res" where
  "margin_items v = (case v of PDict d \<Rightarrow> Ret d | _ \<Rightarrow> Raise AttributeError ''items'')"

definition duel_tables_of ::
  "'g np_ops \<Rightarrow> geo_ops \<Rightarrow> (string \<Rightarrow> pyval option) \<Rightarrow> duel_inputs \<Rightarrow> pyval \<Rightarrow> pyval \<Rightarrow> duel_tables res" where
  "duel_tables_of np geo routes d margins cells_doc =
     bindE (metrics_for cells_doc (di_cell_a d)) (\<lambda>metrics_a.
     bindE (metrics_for cells_doc (di_cell_b d)) (\<lambda>metrics_b.
     bindE (case di_arms d of None \<Rightarrow> registered_arms cells_doc (di_cell_a d) (di_cell_b d) | Some arms \<Rightarrow> Ret arms) (\<lambda>arms.
       if arms = [] then Raise UnknownIdError ''cells share no registered arm''
       else
         bindE (margin_items margins) (\<lambda>items.
         bindE (bind_metrics np metrics_a metrics_b items) (\<lambda>bs.
         bindE (mapE (arm_rows np geo routes d metrics_a metrics_b (''achieved_rate_ratio'' \<in> set (map fst items))
                        (bound_of bs)) arms) (\<lambda>per_arm.
           Ret \<lparr>dt_rows = concat (map fst per_arm), dt_unbindable = unbindable_of bs,
                dt_reconciliation = concat (map snd per_arm)\<rparr>))))))"

definition build_verdict_table ::
  "'g np_ops \<Rightarrow> geo_ops \<Rightarrow> (string \<Rightarrow> pyval option) \<Rightarrow> duel_inputs \<Rightarrow> pyval \<Rightarrow> pyval \<Rightarrow> string list res" where
  "build_verdict_table np geo routes d margins cells_doc =
     bindE (duel_tables_of np geo routes d margins cells_doc) (\<lambda>t.
       Ret ([''Metric definitions: benchmarks/README.md, '' @ [CHR 0x22] @ ''Primary-duel metric definitions'' @
               [CHR 0x22] @ ''.'', []] @
            render_table (dt_rows t) @
            (if dt_unbindable t = [] then []
             else [[], ''Margin metrics with no registered extractor in this tool: '' @
                       join '', '' (sort (dt_unbindable t))]) @
            (if dt_reconciliation t = [] then []
             else [[], ''M2 three-way reconciliation (cadence.reconcile_drops over '' @
                       ''publisher_counts.json), per cell alongside the achieved_rate_ratio '' @
                       ''duel row above (README.md, '' @ [CHR 0x22] @ ''achieved_rate_ratio'' @ [CHR 0x22] @ ''):'', []] @
                  render_reconciliation_table (dt_reconciliation t))))"

section \<open>The command line\<close>

record duel_args =
  da_cell_a :: string
  da_cell_b :: string
  da_min_n :: int

definition EXIT_UNKNOWN_ID :: int where "EXIT_UNKNOWN_ID = 2"

text \<open>The exit status with the lines printed.\<close>

definition duel_main ::
  "'g np_ops \<Rightarrow> geo_ops \<Rightarrow> (string \<Rightarrow> pyval option) \<Rightarrow> duel_args \<Rightarrow> (string \<Rightarrow> run_files list) \<Rightarrow> pyval res \<Rightarrow> pyval res
    \<Rightarrow> (int \<times> string list) res" where
  "duel_main np geo routes a results margins_yaml cells_yaml =
     bindE margins_yaml (\<lambda>margins. bindE cells_yaml (\<lambda>cells_doc.
       catchE [UnknownIdError] (\<lambda>_. Ret (EXIT_UNKNOWN_ID, []))
         (bindE (build_verdict_table np geo routes
                   \<lparr>di_cell_a = da_cell_a a, di_cell_b = da_cell_b a, di_dir_a = results (da_cell_a a),
                    di_dir_b = results (da_cell_b a), di_min_n = nat (da_min_n a), di_arms = None\<rparr> margins cells_doc)
            (\<lambda>lines. Ret (0, lines)))))"

section \<open>One row per arm and metric\<close>

lemma make_verdict_row_Inr:
  assumes "make_verdict_row np iters seed alpha metric a b margin min_n c arm = Inr row"
  shows "vr_metric row = metric \<and> vr_arm row = arm \<and> vr_margin row = margin \<and>
    vr_n_a row = length a \<and> vr_n_b row = length b \<and>
    (vr_verdict row = ''parity'' \<longrightarrow> 3 \<le> length a \<and> 3 \<le> length b \<and>
       (\<exists>lo hi. vr_ci row = Some (lo, hi) \<and> - margin < lo \<and> hi < margin))"
proof (cases "length a < 3 \<or> length b < 3")
  case True
  with assms show ?thesis by (auto simp: make_verdict_row_def Let_def)
next
  case False
  with assms obtain ci where "Inr \<lparr>vr_metric = metric, vr_n_a = length a, vr_n_b = length b,
      vr_delta_median = Some (np_median np a - np_median np b), vr_ci = Some ci, vr_margin = margin,
      vr_verdict = equivalence_decision (np_median np a - np_median np b) ci margin,
      vr_notes = join ''; '' (row_notes (length a) (length b) min_n c), vr_arm = arm\<rparr> = (Inr row :: verdict_row res)"
    by (auto simp: make_verdict_row_def Let_def py_splits)
  with False show ?thesis by (cases ci) (auto simp: equivalence_parity_iff not_less)
qed

lemma attach_note_fields:
  "vr_metric (attach_fit_residual_note np row ra rb) = vr_metric row"
  "vr_arm (attach_fit_residual_note np row ra rb) = vr_arm row"
  "vr_margin (attach_fit_residual_note np row ra rb) = vr_margin row"
  "vr_n_a (attach_fit_residual_note np row ra rb) = vr_n_a row"
  "vr_n_b (attach_fit_residual_note np row ra rb) = vr_n_b row"
  "vr_ci (attach_fit_residual_note np row ra rb) = vr_ci row"
  "vr_verdict (attach_fit_residual_note np row ra rb) = vr_verdict row"
  by (simp_all add: attach_fit_residual_note_def Let_def case_prod_beta)

lemma apply_extractor_at_most: "length (fst (apply_extractor extractor recs)) \<le> length recs"
  by (induction recs) (auto simp: case_prod_beta Let_def split: option.split sum.split)

lemma metric_row_Inr:
  assumes "metric_row np min_n ca cb arm wa wb (metric, spec, ba, bb) = Inr row"
  shows "vr_metric row = metric \<and> vr_arm row = arm \<and>
    vr_n_a row \<le> length (cw_records wa) \<and> vr_n_b row \<le> length (cw_records wb) \<and>
    (vr_verdict row = ''parity'' \<longrightarrow> 3 \<le> vr_n_a row \<and> 3 \<le> vr_n_b row \<and>
       (\<exists>lo hi. vr_ci row = Some (lo, hi) \<and> - vr_margin row < lo \<and> hi < vr_margin row))"
proof (cases "\<exists>ea eb. ba = Inl ea \<and> bb = Inl eb")
  case True
  then obtain ea eb where b: "ba = Inl ea" "bb = Inl eb" by blast
  obtain va xa where va: "apply_extractor ea (cw_records wa) = (va, xa)" by fastforce
  obtain vb xb where vb: "apply_extractor eb (cw_records wb) = (vb, xb)" by fastforce
  from assms obtain margin row0 where
    r: "make_verdict_row np BOOTSTRAP_ITERS BOOTSTRAP_SEED BOOTSTRAP_ALPHA metric va vb margin min_n
          (counts_of_walks wa wb) arm = Inr row0" and
    row: "vr_metric row = vr_metric row0" "vr_arm row = vr_arm row0" "vr_margin row = vr_margin row0"
      "vr_n_a row = vr_n_a row0" "vr_n_b row = vr_n_b row0" "vr_ci row = vr_ci row0" "vr_verdict row = vr_verdict row0"
    by (auto simp: metric_row_def b va vb Let_def py_splits attach_note_fields split: if_split_asm)
  show ?thesis
    using make_verdict_row_Inr [OF r] apply_extractor_at_most [of ea "cw_records wa"]
      apply_extractor_at_most [of eb "cw_records wb"]
    by (auto simp: row va vb)
next
  case False
  with assms obtain margin where "row = unavailable_verdict ca cb metric ba bb arm margin"
    by (auto simp: metric_row_def py_splits split: sum.split_asm)
  then show ?thesis by (simp add: unavailable_verdict_def)
qed

text \<open>A metric without a binding on either side is reported from the bindings alone: the runs play no part.\<close>

lemma unbound_metric_reads_nothing:
  assumes "\<not> (\<exists>ea eb. ba = Inl ea \<and> bb = Inl eb)"
  shows "metric_row np min_n ca cb arm wa wb (metric, spec, ba, bb) =
    bindE (margin_of spec) (\<lambda>margin. Ret (unavailable_verdict ca cb metric ba bb arm margin))"
  using assms by (auto simp: metric_row_def split: sum.split)

lemma map_fst_bound: "map fst (bound_of bs) = map fst (filter (\<lambda>b. snd (snd b) \<noteq> None) bs)"
  by (induction bs rule: bound_of.induct) auto

lemma bind_metric_None: "bind_metric np ma mb metric = Inr b \<Longrightarrow> b = None \<longleftrightarrow> metric \<notin> fst ` set (METRIC_BINDERS np)"
  using map_of_eq_None_iff [of "METRIC_BINDERS np" metric]
  by (auto simp: bind_metric_def py_splits split: option.split_asm)

text \<open>The metrics this tool can bind.\<close>

abbreviation registered_metric :: "string \<Rightarrow> bool" where
  "registered_metric m \<equiv> m \<in> {''one_hop_wall_ms'', ''lidar_to_ndt_sim_ms'', ''control_staleness_ms'',
     ''carla_process_cpu_pct'', ''achieved_rate_ratio''}"

lemma binder_names: "fst ` set (METRIC_BINDERS np) = {m. registered_metric m}"
  by (auto simp: METRIC_BINDERS_def)

lemma bind_metrics_names:
  assumes "bind_metrics np ma mb items = Inr bs"
  shows "map fst (bound_of bs) = filter registered_metric (map fst items) \<and>
    unbindable_of bs = filter (\<lambda>m. \<not> registered_metric m) (map fst items)"
  using assms unfolding bind_metrics_def
proof (induction items arbitrary: bs)
  case (Cons i items)
  obtain metric spec where i: "i = (metric, spec)" by fastforce
  from Cons.prems obtain b bs' where
    b: "bind_metric np ma mb metric = Inr b" "bs = (metric, spec, b) # bs'" and
    t: "mapE (\<lambda>(metric, spec). bindE (bind_metric np ma mb metric) (\<lambda>b. Ret (metric, spec, b))) items = Inr bs'"
    by (auto simp: i py_splits)
  have n: "b = None \<longleftrightarrow> \<not> registered_metric metric"
    using bind_metric_None [OF b(1)] unfolding binder_names by simp
  from Cons.IH [OF t] n show ?case
    by (cases b) (auto simp: i b(2) unbindable_of_def)
qed (simp add: unbindable_of_def)

lemma list_all2_right: "list_all2 P xs ys \<Longrightarrow> y \<in> set ys \<Longrightarrow> \<exists>x. P x y"
  by (auto simp: list_all2_conv_all_nth in_set_conv_nth)

lemma arm_rows_Inr:
  assumes "arm_rows np geo routes d ma mb recon bound arm = Inr (rows, rr)"
  shows "list_all2 (\<lambda>b row. metric_row np (di_min_n d) (di_cell_a d) (di_cell_b d) arm
      (duel_walk np geo routes d arm (di_dir_a d)) (duel_walk np geo routes d arm (di_dir_b d)) b = Inr row) bound rows"
  using assms by (auto simp: arm_rows_def Let_def py_splits mapE_Inr_list_all2)

lemma arm_rows_names:
  assumes "arm_rows np geo routes d ma mb recon bound arm = Inr p"
  shows "map (\<lambda>r. (vr_arm r, vr_metric r)) (fst p) = map (Pair arm) (map fst bound)"
proof -
  obtain rows rr where p: "p = (rows, rr)" by fastforce
  from arm_rows_Inr [OF assms [unfolded p]] show ?thesis
    by (auto simp: p list_all2_conv_all_nth metric_row_Inr intro!: nth_equalityI)
      (metis metric_row_Inr prod.collapse)+
qed

lemma per_arm_names:
  assumes "mapE (arm_rows np geo routes d ma mb recon bound) arms = Inr per_arm"
  shows "map (\<lambda>r. (vr_arm r, vr_metric r)) (concat (map fst per_arm)) = List.product arms (map fst bound)"
  using assms
proof (induction arms arbitrary: per_arm)
  case (Cons arm arms)
  then obtain p ps where "arm_rows np geo routes d ma mb recon bound arm = Inr p"
    "mapE (arm_rows np geo routes d ma mb recon bound) arms = Inr ps" "per_arm = p # ps"
    by (auto simp: py_splits)
  with Cons.IH arm_rows_names show ?case by fastforce
qed simp

text \<open>The arms of a table.\<close>

definition table_arms :: "duel_inputs \<Rightarrow> pyval \<Rightarrow> string list res" where
  "table_arms d cells_doc =
     (case di_arms d of None \<Rightarrow> registered_arms cells_doc (di_cell_a d) (di_cell_b d) | Some arms \<Rightarrow> Ret arms)"

lemma duel_tables_Inr:
  assumes "duel_tables_of np geo routes d margins cells_doc = Inr t"
  obtains ma mb arms items bs per_arm where
    "table_arms d cells_doc = Inr arms" "arms \<noteq> []" "margin_items margins = Inr items"
    "bind_metrics np ma mb items = Inr bs"
    "mapE (arm_rows np geo routes d ma mb (''achieved_rate_ratio'' \<in> set (map fst items)) (bound_of bs)) arms = Inr per_arm"
    "dt_rows t = concat (map fst per_arm)" "dt_unbindable t = unbindable_of bs"
  using assms unfolding duel_tables_of_def table_arms_def [symmetric]
  by (elim InrE) auto

text \<open>C19: Nothing is pooled across arms and no margin metric is left out: the rows of a table are, in order, one for each
  arm and each registered metric that has a tool, and the other metrics are named in the footer. The arms are not
  none.\<close>

theorem one_row_per_arm_and_metric:
  assumes "duel_tables_of np geo routes d margins cells_doc = Inr t"
  shows "\<exists>arms items. table_arms d cells_doc = Inr arms \<and> arms \<noteq> [] \<and> margins = PDict items \<and>
    map (\<lambda>r. (vr_arm r, vr_metric r)) (dt_rows t) =
      List.product arms (filter registered_metric (map fst items)) \<and>
    dt_unbindable t = filter (\<lambda>m. \<not> registered_metric m) (map fst items)"
proof -
  from duel_tables_Inr [OF assms] obtain ma mb arms items bs per_arm where
    a: "table_arms d cells_doc = Inr arms" "arms \<noteq> []" "margin_items margins = Inr items"
    and b: "bind_metrics np ma mb items = Inr bs"
    and p: "mapE (arm_rows np geo routes d ma mb (''achieved_rate_ratio'' \<in> set (map fst items)) (bound_of bs)) arms =
        Inr per_arm"
    and t: "dt_rows t = concat (map fst per_arm)" "dt_unbindable t = unbindable_of bs"
    by metis
  have "margins = PDict items" using a(3) by (auto simp: margin_items_def split: pyval.split_asm)
  with a t per_arm_names [OF p] bind_metrics_names [OF b] show ?thesis by auto
qed

text \<open>C18: A row of parity is earned: it compares at least three runs a side, its confidence interval lies strictly inside
  the metric's margin, and the runs it counts are no more than the admissible, not excluded runs of that arm that
  are filed under this duel.\<close>

theorem parity_is_earned:
  assumes "duel_tables_of np geo routes d margins cells_doc = Inr t" "row \<in> set (dt_rows t)" "vr_verdict row = ''parity''"
  shows "3 \<le> vr_n_a row \<and> 3 \<le> vr_n_b row \<and>
    (\<exists>lo hi. vr_ci row = Some (lo, hi) \<and> - vr_margin row < lo \<and> hi < vr_margin row) \<and>
    (let eligible = (\<lambda>r. \<exists>m. load_manifest (rf_manifest r) = Inr m \<and> admitted (Some (vr_arm row))
           (Some (duel_id (di_cell_a d) (di_cell_b d))) (legacy_duel (di_cell_a d) (di_cell_b d)) m)
     in vr_n_a row \<le> length (filter eligible (run_dirs (di_dir_a d))) \<and>
        vr_n_b row \<le> length (filter eligible (run_dirs (di_dir_b d))))"
proof -
  obtain ma mb arms items bs per_arm where
    "margin_items margins = Inr items" and
    p: "mapE (arm_rows np geo routes d ma mb (''achieved_rate_ratio'' \<in> set (map fst items)) (bound_of bs)) arms =
        Inr per_arm"
    and t: "dt_rows t = concat (map fst per_arm)"
    by (rule duel_tables_Inr [OF assms(1)]) (rule that, assumption+)
  from assms(2) t obtain q where q: "q \<in> set per_arm" "row \<in> set (fst q)" by auto
  from list_all2_right [OF p [unfolded mapE_Inr_list_all2] q(1)] obtain arm where
    "arm_rows np geo routes d ma mb (''achieved_rate_ratio'' \<in> set (map fst items)) (bound_of bs) arm = Inr (fst q, snd q)"
    by auto
  from list_all2_right [OF arm_rows_Inr [OF this] q(2)] obtain b where
    "metric_row np (di_min_n d) (di_cell_a d) (di_cell_b d) arm
      (duel_walk np geo routes d arm (di_dir_a d)) (duel_walk np geo routes d arm (di_dir_b d)) b = Inr row" by blast
  then obtain metric spec ba bb where
    "metric_row np (di_min_n d) (di_cell_a d) (di_cell_b d) arm
      (duel_walk np geo routes d arm (di_dir_a d)) (duel_walk np geo routes d arm (di_dir_b d)) (metric, spec, ba, bb) = Inr row"
    by (cases b) auto
  note m = metric_row_Inr [OF this]
  have len: "length (cw_records (duel_walk np geo routes d arm dir)) = length (filter (\<lambda>r. \<exists>m. load_manifest (rf_manifest r) = Inr m \<and>
      admitted (Some arm) (Some (duel_id (di_cell_a d) (di_cell_b d))) (legacy_duel (di_cell_a d) (di_cell_b d)) m)
      (run_dirs dir))" for dir
    unfolding duel_walk_def by (rule records_length)
  have arm: "vr_arm row = arm" using m by blast
  from m assms(3) show ?thesis unfolding Let_def arm len [symmetric] by blast
qed

end
