(* ===== verification/Py_Arith.thy ===== *)
theory Py_Arith
  imports Py_Values
begin

text \<open>
  Arithmetic, length, subscription and number formatting on the values of a YAML document: an int
  stays an int until it meets a float or a division, a bool counts as an int, and an operand of
  another type raises. Repetition of a sequence (\<open>int * str\<close>) is refused at once: in the program the
  next operation refuses its result with the same exception.

  The lemmas evaluate the operators on numbers.
\<close>

named_theorems arith_simps \<open>the operators on numbers\<close>
named_theorems value_eval \<open>the operations on values given by their constructor\<close>

section \<open>Numbers\<close>

fun as_number :: "pyval \<Rightarrow> (int + f64) option" where
  "as_number (PBool b) = Some (Inl (if b then 1 else 0))"
| "as_number (PInt n) = Some (Inl n)"
| "as_number (PFloat x) = Some (Inr x)"
| "as_number v = None"

definition to_float :: "int + f64 \<Rightarrow> f64 res" where
  "to_float x = (case x of Inl n \<Rightarrow> float_of_int n | Inr y \<Rightarrow> Ret y)"

definition arith2 :: "(int \<Rightarrow> int \<Rightarrow> pyval res) \<Rightarrow> (f64 \<Rightarrow> f64 \<Rightarrow> f64 res) \<Rightarrow> pyval \<Rightarrow> pyval \<Rightarrow> pyval res" where
  "arith2 on_ints on_floats a b =
     (case (as_number a, as_number b) of
        (Some (Inl m), Some (Inl n)) \<Rightarrow> on_ints m n
      | (Some x, Some y) \<Rightarrow>
          bindE (to_float x) (\<lambda>x'. bindE (to_float y) (\<lambda>y'. bindE (on_floats x' y') (\<lambda>z. Ret (PFloat z))))
      | _ \<Rightarrow> Raise TypeError ''unsupported operand type(s)'')"

definition py_add :: "pyval \<Rightarrow> pyval \<Rightarrow> pyval res" where
  "py_add a b =
     (case (a, b) of
        (PStr s, PStr t) \<Rightarrow> Ret (PStr (s @ t))
      | (PList xs, PList ys) \<Rightarrow> Ret (PList (xs @ ys))
      | _ \<Rightarrow> arith2 (\<lambda>m n. Ret (PInt (m + n))) (\<lambda>x y. Ret (x + y)) a b)"

definition py_sub :: "pyval \<Rightarrow> pyval \<Rightarrow> pyval res" where
  "py_sub = arith2 (\<lambda>m n. Ret (PInt (m - n))) (\<lambda>x y. Ret (x - y))"

definition py_mul :: "pyval \<Rightarrow> pyval \<Rightarrow> pyval res" where
  "py_mul = arith2 (\<lambda>m n. Ret (PInt (m * n))) (\<lambda>x y. Ret (x * y))"

definition py_div :: "pyval \<Rightarrow> pyval \<Rightarrow> pyval res" where
  "py_div = arith2 (\<lambda>m n. bindE (int_div m n) (\<lambda>z. Ret (PFloat z))) float_div"

definition py_neg :: "pyval \<Rightarrow> pyval res" where
  "py_neg a =
     (case as_number a of
        Some (Inl n) \<Rightarrow> Ret (PInt (- n))
      | Some (Inr x) \<Rightarrow> Ret (PFloat (- x))
      | None \<Rightarrow> Raise TypeError ''bad operand type for unary -'')"

definition py_ge :: "pyval \<Rightarrow> pyval \<Rightarrow> bool res" where
  "py_ge a b =
     (case (num_value a, num_value b) of
        (Some x, Some y) \<Rightarrow> Ret (y \<le> x)
      | _ \<Rightarrow> Raise TypeError ''>= not supported'')"

text \<open>\<open>sum(...)\<close> starts at the int 0.\<close>

definition py_sum :: "pyval list \<Rightarrow> pyval res" where
  "py_sum vs = foldE py_add (PInt 0) vs"

lemma arith_numbers [arith_simps]:
  "py_add (PInt m) (PInt n) = Inr (PInt (m + n))"
  "py_add (PFloat x) (PFloat y) = Inr (PFloat (x + y))"
  "py_add (PFloat x) (PInt n) = bindE (float_of_int n) (\<lambda>y. Inr (PFloat (x + y)))"
  "py_add (PInt n) (PFloat x) = bindE (float_of_int n) (\<lambda>y. Inr (PFloat (y + x)))"
  "py_sub (PInt m) (PInt n) = Inr (PInt (m - n))"
  "py_sub (PInt n) (PFloat x) = bindE (float_of_int n) (\<lambda>y. Inr (PFloat (y - x)))"
  "py_sub (PFloat x) (PFloat y) = Inr (PFloat (x - y))"
  "py_mul (PInt m) (PInt n) = Inr (PInt (m * n))"
  "py_mul (PFloat x) (PInt n) = bindE (float_of_int n) (\<lambda>y. Inr (PFloat (x * y)))"
  "py_div (PFloat x) (PFloat y) = bindE (float_div x y) (\<lambda>z. Inr (PFloat z))"
  "py_div (PInt m) (PInt n) = bindE (int_div m n) (\<lambda>z. Inr (PFloat z))"
  "py_div (PFloat x) (PInt n) = bindE (float_of_int n) (\<lambda>y. bindE (float_div x y) (\<lambda>z. Inr (PFloat z)))"
  "py_neg (PInt n) = Inr (PInt (- n))"
  "py_neg (PFloat x) = Inr (PFloat (- x))"
  by (simp_all add: py_add_def py_sub_def py_mul_def py_div_def py_neg_def arith2_def to_float_def)

lemma float_of_small_int [arith_simps]: "\<bar>n\<bar> \<le> 2 ^ 53 \<Longrightarrow> float_of_int n = Inr (Fin (of_int n))"
  by (simp add: float_of_int_def rnd_int)

section \<open>Containers\<close>

definition py_len :: "pyval \<Rightarrow> int res" where
  "py_len v =
     (case v of
        PStr s \<Rightarrow> Ret (int (length s)) | PList xs \<Rightarrow> Ret (int (length xs)) | PDict d \<Rightarrow> Ret (int (length d))
      | _ \<Rightarrow> Raise TypeError ''object has no len()'')"

definition py_reversed :: "pyval \<Rightarrow> pyval list res" where
  "py_reversed v = bindE (py_iter v) (\<lambda>xs. Ret (rev xs))"

text \<open>\<open>xs[i]\<close>: a negative index counts from the end.\<close>

definition index_list :: "'a list \<Rightarrow> int \<Rightarrow> 'a res" where
  "index_list xs i =
     (let n = int (length xs); j = (if i < 0 then i + n else i)
      in if 0 \<le> j \<and> j < n then Ret (xs ! nat j) else Raise IndexError ''index out of range'')"

text \<open>\<open>v[k]\<close> for a key that is itself a value of the document. A dictionary of a document has string
  keys.\<close>

definition subscript :: "pyval \<Rightarrow> pyval \<Rightarrow> pyval res" where
  "subscript v k =
     (case v of
        PDict d \<Rightarrow> (case k of
            PStr s \<Rightarrow> getitem v s
          | _ \<Rightarrow> if hashable k then Raise KeyError (py_repr k) else Raise TypeError ''unhashable type'')
      | PList xs \<Rightarrow> (case as_number k of
            Some (Inl i) \<Rightarrow> index_list xs i
          | _ \<Rightarrow> Raise TypeError ''list indices must be integers or slices'')
      | PStr s \<Rightarrow> (case as_number k of
            Some (Inl i) \<Rightarrow> bindE (index_list s i) (\<lambda>c. Ret (PStr [c]))
          | _ \<Rightarrow> Raise TypeError ''string indices must be integers'')
      | _ \<Rightarrow> Raise TypeError ''object is not subscriptable'')"

text \<open>A lookup in a dictionary of the source keyed by strings.\<close>

definition lookup_const :: "(string \<times> 'a) list \<Rightarrow> pyval \<Rightarrow> 'a res" where
  "lookup_const table k =
     (case k of
        PStr s \<Rightarrow> (case map_of table s of Some x \<Rightarrow> Ret x | None \<Rightarrow> Raise KeyError s)
      | _ \<Rightarrow> if hashable k then Raise KeyError (py_repr k) else Raise TypeError ''unhashable type'')"

lemma lookup_const_Inr [py_splits]:
  "lookup_const table k = Inr x \<longleftrightarrow> (\<exists>s. k = PStr s \<and> map_of table s = Some x)"
  by (cases k) (auto simp: lookup_const_def split: option.splits)

text \<open>\<open>a, b = ...\<close>: exactly two values.\<close>

definition unpack2 :: "'a list \<Rightarrow> ('a \<times> 'a) res" where
  "unpack2 xs =
     (case xs of
        [a, b] \<Rightarrow> Ret (a, b)
      | _ \<Rightarrow> Raise ValueError ''wrong number of values to unpack'')"

lemma unpack2_Inr [py_splits]: "unpack2 xs = Inr (a, b) \<longleftrightarrow> xs = [a, b]"
  by (auto simp: unpack2_def split: list.splits)

lemma unpack2_InrE:
  assumes "unpack2 xs = Inr p" obtains a b where "xs = [a, b]" "p = (a, b)"
  using assms by (auto simp: unpack2_def split: list.split_asm)

section \<open>Formats\<close>

text \<open>A float presentation type applied to a value: an int is converted, a string has no such format.\<close>

definition format_value :: "(f64 \<Rightarrow> string) \<Rightarrow> pyval \<Rightarrow> string res" where
  "format_value fmt v =
     (case v of
        PFloat x \<Rightarrow> Ret (fmt x)
      | PInt n \<Rightarrow> bindE (float_of_int n) (\<lambda>x. Ret (fmt x))
      | PBool b \<Rightarrow> Ret (fmt (Fin (if b then 1 else 0)))
      | PStr _ \<Rightarrow> Raise ValueError ''Unknown format code''
      | _ \<Rightarrow> Raise TypeError ''unsupported format string'')"

text \<open>The \<open>+\<close> flag.\<close>

definition plus_sign :: "(f64 \<Rightarrow> string) \<Rightarrow> f64 \<Rightarrow> string" where
  "plus_sign fmt x = (let s = fmt x in if starts_with s ''-'' then s else ''+'' @ s)"

text \<open>\<open>s.replace(c, t)\<close> for one character \<open>c\<close>.\<close>

definition replace_char :: "char \<Rightarrow> string \<Rightarrow> string \<Rightarrow> string" where
  "replace_char c t s = concat (map (\<lambda>d. if d = c then t else [d]) s)"

section \<open>Evaluation\<close>

lemma operations_on_constructors [value_eval]:
  "getitem (PDict d) k = (case map_of d k of None \<Rightarrow> Raise KeyError k | Some x \<Rightarrow> Ret x)"
  "py_iter (PList xs) = Inr xs"
  "py_len (PList xs) = Inr (int (length xs))"
  "subscript (PDict d) (PStr k) = getitem (PDict d) k"
  "lookup_const table (PStr k) = (case map_of table k of Some x \<Rightarrow> Ret x | None \<Rightarrow> Raise KeyError k)"
  "unpack2 [v, w] = Inr (v, w)"
  "py_eq (PInt m) (PInt n) \<longleftrightarrow> m = n"
  "py_ge (PInt m) (PInt n) = Inr (n \<le> m)"
  "format_value fmt (PFloat x) = Inr (fmt x)"
  "format_value fmt (PInt n) = bindE (float_of_int n) (\<lambda>x. Inr (fmt x))"
  by (simp_all add: getitem_def py_iter_def py_len_def subscript_def lookup_const_def unpack2_def py_eq_def
      f64_eq_def py_ge_def format_value_def)

lemma index_list_nth [value_eval]:
  "i < length xs \<Longrightarrow> index_list xs (int i) = Inr (xs ! i)"
  by (simp add: index_list_def Let_def)

lemma index_list_first [value_eval]:
  "index_list (a # xs) 0 = Inr a" "index_list (a # b # xs) 1 = Inr b"
  "index_list (a # b # c # xs) 2 = Inr c" "index_list (a # b # c # d # xs) 3 = Inr d"
  by (simp_all add: index_list_def Let_def)

end
