(* ===== verification/Quality.thy ===== *)
theory Quality
  imports Timing Window Py_Arith
begin

text \<open>
  \<^verbatim>\<open>benchmarks/analysis/quality.py\<close>: the M5 gate of a run. The NDT poses inside the window are joined to the
  nearest ground-truth stamps, and the pose errors, the NDT rate, the goal approach and the lateral deviation
  decide the gate. The series are aligned columns, so a sample is a stamp and a position.
  \<open>np.searchsorted\<close> is a parameter; what it promises on a sorted array is \<open>search_spec\<close>.

  The lemmas: the join pairs every stamp that has a partner within the tolerance with a nearest one and no
  other; the recorded verdict is the one the recorded numbers give; a NaN pose error passes the absolute gate.
\<close>

definition JOIN_TOL_NS :: int where "JOIN_TOL_NS = 25000000"

definition MIN_JOIN_PAIRS :: nat where "MIN_JOIN_PAIRS = 10"

record quality_stats =
  qs_pose_err_p50_m :: f64
  qs_pose_err_p95_m :: f64
  qs_pose_err_max_m :: f64
  qs_pose_bias_m :: f64
  qs_lateral_dev_p95_m :: f64
  qs_goal_closest_approach_m :: "f64 option"
  qs_goal_terminal_distance_m :: "f64 option"
  qs_ndt_rate_ratio :: f64
  qs_gate_pass :: bool
  qs_reasons :: "string list"

section \<open>The nearest-stamp join\<close>

text \<open>\<open>np.abs\<close> of an int64 difference, and \<open>np.clip(j, 1, n - 1)\<close>.\<close>

definition i64_dist :: "int \<Rightarrow> int \<Rightarrow> int" where
  "i64_dist a b = wrap64 \<bar>i64_sub a b\<bar>"

definition clip_index :: "int \<Rightarrow> int \<Rightarrow> int" where
  "clip_index n j = min (max j 1) (n - 1)"

text \<open>The partner of one stamp: the better of its two neighbours, if within the tolerance. An index of \<open>-1\<close> is
  the last element, the only one when it occurs.\<close>

definition join_one :: "(int list \<Rightarrow> int \<Rightarrow> nat) \<Rightarrow> int list \<Rightarrow> int \<Rightarrow> int \<Rightarrow> int option res" where
  "join_one search b_ns tol_ns a =
     (let j = clip_index (int (length b_ns)) (int (search b_ns a))
      in bindE (index_list b_ns (j - 1)) (\<lambda>before. bindE (index_list b_ns j) (\<lambda>behind.
         let j' = (if i64_dist a before \<le> i64_dist a behind then j - 1 else j)
         in bindE (index_list b_ns j') (\<lambda>nearest.
              Ret (if i64_dist a nearest \<le> tol_ns then Some j' else None)))))"

text \<open>The pairs in the order of the first series.\<close>

fun pairs_from :: "nat \<Rightarrow> int option list \<Rightarrow> (nat \<times> int) list" where
  "pairs_from i [] = []"
| "pairs_from i (None # js) = pairs_from (Suc i) js"
| "pairs_from i (Some j # js) = (i, j) # pairs_from (Suc i) js"

definition nearest_join ::
  "(int list \<Rightarrow> int \<Rightarrow> nat) \<Rightarrow> int list \<Rightarrow> int list \<Rightarrow> int \<Rightarrow> (nat \<times> int) list res" where
  "nearest_join search a_ns b_ns tol_ns =
     bindE (mapE (join_one search b_ns tol_ns) a_ns) (\<lambda>js. Ret (pairs_from 0 js))"

section \<open>The gate\<close>

definition in_window :: "int \<times> int \<Rightarrow> int \<times> pt \<Rightarrow> bool" where
  "in_window w s \<longleftrightarrow> fst w \<le> fst s \<and> fst s \<le> snd w"

text \<open>\<open>np.min\<close> propagates a NaN, as \<open>np_max\<close> does.\<close>

fun np_min :: "f64 list \<Rightarrow> f64" where
  "np_min [] = NaN"
| "np_min [x] = x"
| "np_min (x # xs) = (let m = np_min xs in if x = NaN \<or> m = NaN then NaN else if m < x then m else x)"

definition pose_errors :: "geo_ops \<Rightarrow> (int \<times> pt) list \<Rightarrow> (int \<times> pt) list \<Rightarrow> (nat \<times> int) list \<Rightarrow> f64 list res" where
  "pose_errors geo ndt gt pairs =
     mapE (\<lambda>(i, j). bindE (index_list ndt (int i)) (\<lambda>p. bindE (index_list gt j) (\<lambda>g.
       Ret (row_norm geo (pt_sub (snd p) (snd g)))))) pairs"

text \<open>\<open>drift\<close>: the last fifth of the errors against the first.\<close>

definition error_drift :: "'g np_ops \<Rightarrow> f64 list \<Rightarrow> f64" where
  "error_drift np err =
     (let k = max 1 (length err div 5) in abs (np_mean np (drop (length err - k) err) - np_mean np (take k err)))"

definition error_spread :: "'g np_ops \<Rightarrow> f64 list \<Rightarrow> f64" where
  "error_spread np err = np_percentile np err (Fin 95) - np_percentile np err (Fin 50)"

definition ndt_rate :: "int list \<Rightarrow> f64" where
  "ndt_rate ts = of_i64 (int (length ts) - 1) div (of_i64 (i64_sub (last ts) (hd ts)) div Fin 1000000000)"

definition rate_reasons :: "f64 \<Rightarrow> string list" where
  "rate_reasons ratio =
     (if ratio < of_lit (9/10) then [''ndt rate ratio '' @ fmt_fixed 2 ratio @ '' < 0.9''] else [])"

definition pose_reasons :: "'g np_ops \<Rightarrow> f64 option \<Rightarrow> f64 list \<Rightarrow> string list" where
  "pose_reasons np abs_pose_gate_m err =
     (case abs_pose_gate_m of
        Some gate \<Rightarrow>
          if gate \<le> np_max err then [''pose_error max '' @ fmt_fixed 3 (np_max err) @ '' >= '' @ repr_f64 gate] else []
      | None \<Rightarrow>
          (let drift = error_drift np err; spread = error_spread np err
           in (if of_lit (2/10) \<le> drift then [''pose_error drift '' @ fmt_fixed 3 drift @ '' >= 0.2''] else []) @
              (if of_lit (3/10) \<le> spread then [''pose_error p95-p50 '' @ fmt_fixed 3 spread @ '' >= 0.3''] else [])))"

definition goal_metrics ::
  "geo_ops \<Rightarrow> (int \<times> pt) list \<Rightarrow> pt \<Rightarrow> (int \<times> int) option \<Rightarrow> ((f64 \<times> f64) option \<times> string list) res" where
  "goal_metrics geo odom goal_xy goal_window =
     (case goal_window of
        None \<Rightarrow> Ret (None, [])
      | Some w \<Rightarrow>
          let goal_d = map (\<lambda>s. row_norm geo (pt_sub (snd s) goal_xy)) (filter (in_window w) odom)
          in if goal_d = [] then Raise ValueError ''no odometry sample inside the goal window''
             else
               let closest = np_min goal_d
               in Ret (Some (closest, last goal_d),
                    if 1 \<le> closest then [''goal closest approach '' @ fmt_fixed 3 closest @ '' >= 1.0''] else []))"

definition quality_of ::
  "'g np_ops \<Rightarrow> f64 list \<Rightarrow> f64 list \<Rightarrow> (f64 \<times> f64) option \<Rightarrow> f64 \<Rightarrow> string list \<Rightarrow> quality_stats" where
  "quality_of np err lat goal ratio reasons =
     \<lparr>qs_pose_err_p50_m = np_percentile np err (Fin 50), qs_pose_err_p95_m = np_percentile np err (Fin 95),
      qs_pose_err_max_m = np_max err, qs_pose_bias_m = np_mean np err,
      qs_lateral_dev_p95_m = np_percentile np lat (Fin 95),
      qs_goal_closest_approach_m = map_option fst goal, qs_goal_terminal_distance_m = map_option snd goal,
      qs_ndt_rate_ratio = ratio, qs_gate_pass = (reasons = []), qs_reasons = reasons\<rparr>"

definition evaluate_quality ::
  "'g np_ops \<Rightarrow> geo_ops \<Rightarrow> (int list \<Rightarrow> int \<Rightarrow> nat) \<Rightarrow> (int \<times> pt) list \<Rightarrow> (int \<times> pt) list \<Rightarrow> (int \<times> pt) list \<Rightarrow>
     pt list \<Rightarrow> pt \<Rightarrow> int \<times> int \<Rightarrow> (int \<times> int) option \<Rightarrow> f64 \<Rightarrow> f64 option \<Rightarrow> quality_stats res" where
  "evaluate_quality np geo search ndt gt odom route_xy goal_xy window goal_window expected_ndt_hz abs_pose_gate_m =
     (let ndt_w = filter (in_window window) ndt
      in bindE (nearest_join search (map fst ndt_w) (map fst gt) JOIN_TOL_NS) (\<lambda>pairs.
         if length pairs < MIN_JOIN_PAIRS then Raise ValueError ''fewer than 10 NDT<->GT stamp pairs in the window''
         else bindE (pose_errors geo ndt_w gt pairs) (\<lambda>err.
           let ratio = ndt_rate (map fst ndt_w) div expected_ndt_hz;
               op = map snd (filter (in_window window) odom)
           in if op = [] then Raise ValueError ''no odometry sample inside the scoring window''
              else bindE (goal_metrics geo odom goal_xy goal_window) (\<lambda>(goal, goal_reasons).
                bindE (project geo route_xy op) (\<lambda>(_, lat).
                  Ret (quality_of np err lat goal ratio
                    (rate_reasons ratio @ pose_reasons np abs_pose_gate_m err @ goal_reasons)))))))"

section \<open>The join pairs nearest stamps\<close>

text \<open>What \<open>np.searchsorted\<close> documents for a sorted array: the number of elements below the key.\<close>

definition search_spec :: "(int list \<Rightarrow> int \<Rightarrow> nat) \<Rightarrow> bool" where
  "search_spec search \<longleftrightarrow> (\<forall>b a. sorted b \<longrightarrow> search b a = length (filter (\<lambda>x. x < a) b))"

definition stamps_ok :: "int list \<Rightarrow> bool" where
  "stamps_ok ns \<longleftrightarrow> (\<forall>n \<in> set ns. 0 \<le> n \<and> in_i64 n)"

lemma sorted_below:
  "sorted b \<Longrightarrow> i < length b \<Longrightarrow> b ! i < (a :: int) \<longleftrightarrow> i < length (filter (\<lambda>x. x < a) b)"
proof (induction b arbitrary: i)
  case (Cons x b)
  have none: "filter (\<lambda>y. y < a) b = []" if "\<not> x < a"
    using Cons.prems(1) that by (auto simp: filter_empty_conv)
  show ?case
  proof (cases i)
    case 0
    with none show ?thesis by auto
  next
    case (Suc k)
    with Cons.prems Cons.IH [of k] none show ?thesis by (auto simp: not_less)
  qed
qed simp

lemma i64_dist_stamps:
  "0 \<le> a \<Longrightarrow> in_i64 a \<Longrightarrow> 0 \<le> b \<Longrightarrow> in_i64 b \<Longrightarrow> i64_dist a b = \<bar>a - b\<bar>"
  unfolding i64_dist_def by (subst i64_sub_stamps, assumption+, rule wrap64_id) (auto simp: in_i64_def)

definition nearest_to :: "int list \<Rightarrow> int \<Rightarrow> int \<Rightarrow> bool" where
  "nearest_to b a m \<longleftrightarrow> m \<in> set b \<and> (\<forall>x \<in> set b. \<bar>a - m\<bar> \<le> \<bar>a - x\<bar>)"

lemma nearest_neighbour:
  fixes a :: int
  assumes "sorted b" "2 \<le> length b" and j: "j = min (max (length (filter (\<lambda>x. x < a) b)) 1) (length b - 1)"
  shows "nearest_to b a (if \<bar>a - b ! (j - 1)\<bar> \<le> \<bar>a - b ! j\<bar> then b ! (j - 1) else b ! j)"
proof -
  define c where "c = length (filter (\<lambda>x. x < a) b)"
  let ?n = "length b"
  have j: "j = min (max c 1) (?n - 1)" using j by (simp add: c_def)
  have cn: "c \<le> ?n" by (simp add: c_def)
  have jb: "1 \<le> j" "j < ?n" using assms(2) j by auto
  have below: "b ! i < a \<longleftrightarrow> i < c" if "i < ?n" for i using sorted_below [OF assms(1) that] by (simp add: c_def)
  have mono: "b ! i \<le> b ! k" if "i \<le> k" "k < ?n" for i k using sorted_nth_mono [OF assms(1)] that by simp
  have "\<bar>a - b ! (j - 1)\<bar> \<le> \<bar>a - b ! i\<bar> \<or> \<bar>a - b ! j\<bar> \<le> \<bar>a - b ! i\<bar>" if i: "i < ?n" for i
  proof (cases "i < c")
    case True
    have "\<exists>k \<in> {j - 1, j}. i \<le> k \<and> k < c" using True jb j i by auto
    then obtain k where k: "k \<in> {j - 1, j}" "i \<le> k" "k < c" by blast
    have "k < ?n" using k(3) cn by linarith
    from mono [OF k(2) this] below [OF this] below [OF i] k(3) True have "\<bar>a - b ! k\<bar> \<le> \<bar>a - b ! i\<bar>" by simp
    with k(1) show ?thesis by auto
  next
    case False
    have "\<exists>k \<in> {j - 1, j}. k \<le> i \<and> c \<le> k" using False jb j i assms(2) by auto
    then obtain k where k: "k \<in> {j - 1, j}" "k \<le> i" "c \<le> k" by blast
    have "k < ?n" using k(2) i by simp
    from mono [OF k(2) i] below [OF this] below [OF i] k(3) False have "\<bar>a - b ! k\<bar> \<le> \<bar>a - b ! i\<bar>" by simp
    with k(1) show ?thesis by auto
  qed
  then have "\<bar>a - b ! (j - 1)\<bar> \<le> \<bar>a - x\<bar> \<or> \<bar>a - b ! j\<bar> \<le> \<bar>a - x\<bar>" if "x \<in> set b" for x
    using that by (auto simp: in_set_conv_nth)
  moreover have "b ! (j - 1) \<in> set b" "b ! j \<in> set b" using jb by auto
  ultimately show ?thesis unfolding nearest_to_def by (auto split: if_split) (meson order_trans linear)+
qed

lemma index_list_nat: "i < length xs \<Longrightarrow> index_list xs (int i) = Inr (xs ! i)"
  by (rule index_list_nth)

text \<open>One stamp is joined to a nearest ground-truth stamp exactly when one lies within the tolerance.\<close>

lemma join_one_correct:
  assumes "search_spec search" "sorted b" "b \<noteq> []" "stamps_ok b" "0 \<le> a" "in_i64 a"
  shows "\<exists>j m. join_one search b tol a = Inr (if \<bar>a - m\<bar> \<le> tol then Some j else None) \<and>
     index_list b j = Inr m \<and> nearest_to b a m"
proof -
  have dist: "i64_dist a x = \<bar>a - x\<bar>" if "x \<in> set b" for x
    using assms(4-6) that by (intro i64_dist_stamps) (auto simp: stamps_ok_def)
  show ?thesis
  proof (cases "length b = 1")
    case True
    then obtain x where b: "b = [x]" by (auto simp: length_Suc_conv)
    have "clip_index (int (length b)) (int (search b a)) = 0" by (auto simp: b clip_index_def)
    then have "join_one search b tol a = Inr (if \<bar>a - x\<bar> \<le> tol then Some (- 1) else None)"
      using dist by (simp add: join_one_def b index_list_def)
    moreover have "index_list b (- 1) = Inr x" by (simp add: b index_list_def)
    moreover have "nearest_to b a x" by (simp add: b nearest_to_def)
    ultimately show ?thesis by blast
  next
    case False
    with assms(3) have n: "2 \<le> length b" by (cases b rule: list.exhaust) (auto simp: Suc_le_eq)
    define j where "j = min (max (length (filter (\<lambda>x. x < a) b)) 1) (length b - 1)"
    have jb: "1 \<le> j" "j < length b" using n by (auto simp: j_def)
    have "search b a = length (filter (\<lambda>x. x < a) b)" using assms(1,2) by (simp add: search_spec_def)
    with n have clip: "clip_index (int (length b)) (int (search b a)) = int j"
      by (auto simp: clip_index_def j_def of_nat_min of_nat_max of_nat_diff)
    have i: "index_list b (int j) = Inr (b ! j)" "index_list b (int j - 1) = Inr (b ! (j - 1))"
      using index_list_nat [of j b] index_list_nat [of "j - 1" b] jb by (simp_all add: of_nat_diff)
    let ?left = "\<bar>a - b ! (j - 1)\<bar> \<le> \<bar>a - b ! j\<bar>"
    define k where "k = (if ?left then int j - 1 else int j)"
    define m where "m = (if ?left then b ! (j - 1) else b ! j)"
    have d: "i64_dist a (b ! j) = \<bar>a - b ! j\<bar>" "i64_dist a (b ! (j - 1)) = \<bar>a - b ! (j - 1)\<bar>"
      using dist jb by simp_all
    have "index_list b k = Inr m" using i by (simp add: k_def m_def)
    moreover have "join_one search b tol a = Inr (if \<bar>a - m\<bar> \<le> tol then Some k else None)"
      using i d by (simp add: join_one_def clip Let_def k_def m_def)
    moreover have "nearest_to b a m" using nearest_neighbour [OF assms(2) n j_def] by (simp add: m_def)
    ultimately show ?thesis by blast
  qed
qed

lemma pairs_from_iff:
  "(i, j) \<in> set (pairs_from k js) \<longleftrightarrow> k \<le> i \<and> i - k < length js \<and> js ! (i - k) = Some j"
proof (induction k js rule: pairs_from.induct)
  case (2 k js)
  then show ?case by (cases "i = k") (auto simp: nth_Cons' Suc_diff_Suc)
next
  case (3 k j' js)
  then show ?case by (cases "i = k") (auto simp: nth_Cons' Suc_diff_Suc)
qed simp

lemma pairs_from_sorted: "sorted_wrt (<) (map fst (pairs_from k js)) \<and> (\<forall>p \<in> set (pairs_from k js). k \<le> fst p)"
  by (induction k js rule: pairs_from.induct) auto

text \<open>C28: The join is the nearest-neighbour join with a tolerance: on non-negative stamps with a sorted, non-empty
  ground truth it succeeds, takes each stamp at most once and in order, joins it exactly when a ground-truth
  stamp lies within the tolerance, and always to one that is nearest.\<close>

theorem nearest_join_correct:
  assumes "search_spec search" "sorted b" "b \<noteq> []" "stamps_ok b" "stamps_ok as"
  shows "\<exists>ps. nearest_join search as b tol = Inr ps \<and> sorted_wrt (<) (map fst ps) \<and>
     (\<forall>i < length as. i \<in> fst ` set ps \<longleftrightarrow> (\<exists>x \<in> set b. \<bar>as ! i - x\<bar> \<le> tol)) \<and>
     (\<forall>(i, j) \<in> set ps. i < length as \<and> (\<exists>m. index_list b j = Inr m \<and> nearest_to b (as ! i) m))"
proof -
  have one: "\<exists>j m. join_one search b tol a = Inr (if \<bar>a - m\<bar> \<le> tol then Some j else None) \<and>
     index_list b j = Inr m \<and> nearest_to b a m" if "a \<in> set as" for a
    using join_one_correct [OF assms(1-4)] assms(5) that by (auto simp: stamps_ok_def)
  then obtain J M where jm: "\<And>a. a \<in> set as \<Longrightarrow> join_one search b tol a =
      Inr (if \<bar>a - M a\<bar> \<le> tol then Some (J a) else None)"
    "\<And>a. a \<in> set as \<Longrightarrow> index_list b (J a) = Inr (M a)" "\<And>a. a \<in> set as \<Longrightarrow> nearest_to b a (M a)"
    by metis
  define js where "js = map (\<lambda>a. if \<bar>a - M a\<bar> \<le> tol then Some (J a) else None) as"
  have "mapE (join_one search b tol) as = Inr js"
    using jm(1) by (simp add: js_def mapE_Inr_list_all2 list_all2_conv_all_nth)
  then have nj: "nearest_join search as b tol = Inr (pairs_from 0 js)" by (simp add: nearest_join_def)
  have mem: "(i, j) \<in> set (pairs_from 0 js) \<longleftrightarrow>
      i < length as \<and> \<bar>as ! i - M (as ! i)\<bar> \<le> tol \<and> j = J (as ! i)" for i j
    by (auto simp: pairs_from_iff js_def split: if_split_asm)
  have "i \<in> fst ` set (pairs_from 0 js) \<longleftrightarrow> (\<exists>x \<in> set b. \<bar>as ! i - x\<bar> \<le> tol)" if i: "i < length as" for i
  proof -
    have "i \<in> fst ` set (pairs_from 0 js) \<longleftrightarrow> (\<exists>j. (i, j) \<in> set (pairs_from 0 js))"
      by (metis (no_types, lifting) fst_conv image_iff prod.collapse)
    also have "\<dots> \<longleftrightarrow> \<bar>as ! i - M (as ! i)\<bar> \<le> tol" using i by (simp add: mem)
    also have "\<dots> \<longleftrightarrow> (\<exists>x \<in> set b. \<bar>as ! i - x\<bar> \<le> tol)"
      using jm(3) [of "as ! i"] i unfolding nearest_to_def by (meson nth_mem order_trans)
    finally show ?thesis .
  qed
  moreover have "\<forall>(i, j) \<in> set (pairs_from 0 js). i < length as \<and>
      (\<exists>m. index_list b j = Inr m \<and> nearest_to b (as ! i) m)"
    using jm(2,3) by (auto simp: mem)
  ultimately show ?thesis using nj pairs_from_sorted [of 0 js] by blast
qed

theorem nearest_join_correct_witness:
  "\<exists>ps m. nearest_join (\<lambda>b a. length (filter (\<lambda>x. x < a) b)) [100, 500] [90, 120, 300] 25 = Inr ps \<and>
     fst ` set ps = {0} \<and> nearest_to [90, 120, 300] 100 m"
proof -
  let ?search = "\<lambda>b a. length (filter (\<lambda>x. x < a) b)"
  let ?as = "[100, 500] :: int list" and ?b = "[90, 120, 300] :: int list"
  have ok: "search_spec ?search" "sorted ?b" "?b \<noteq> []" "stamps_ok ?b" "stamps_ok ?as"
    by (simp_all add: stamps_ok_def in_i64_def search_spec_def)
  from nearest_join_correct [OF ok, of 25] obtain ps where
    ps: "nearest_join ?search ?as ?b 25 = Inr ps"
    "\<forall>i < length ?as. i \<in> fst ` set ps \<longleftrightarrow> (\<exists>x \<in> set ?b. \<bar>?as ! i - x\<bar> \<le> 25)"
    "\<forall>(i, j) \<in> set ps. i < length ?as \<and> (\<exists>m. index_list ?b j = Inr m \<and> nearest_to ?b (?as ! i) m)"
    by (elim exE conjE) (rule that; assumption)
  from ps(2) have z: "0 \<in> fst ` set ps" "1 \<notin> fst ` set ps" by simp_all
  have only: "i = 0" if "i \<in> fst ` set ps" for i
  proof -
    from that obtain j where "(i, j) \<in> set ps" by auto
    from bspec [OF ps(3) this] have "i < 2" by simp
    moreover have "i \<noteq> 1" using that z(2) by blast
    ultimately show ?thesis by simp
  qed
  have "fst ` set ps = {0}"
  proof
    show "fst ` set ps \<subseteq> {0}" using only by (intro subsetI) simp
    show "{0} \<subseteq> fst ` set ps" using z(1) by simp
  qed
  moreover from z(1) obtain j where "(0, j) \<in> set ps" by auto
  from bspec [OF ps(3) this] obtain m where "nearest_to ?b (?as ! 0) m" by auto
  then have "nearest_to ?b 100 m" by simp
  ultimately show ?thesis using ps(1) by (intro exI conjI)
qed

section \<open>The recorded verdict\<close>

lemma reasons_empty:
  "rate_reasons ratio = [] \<longleftrightarrow> \<not> ratio < of_lit (9/10)"
  "pose_reasons np (Some gate) err = [] \<longleftrightarrow> \<not> gate \<le> np_max err"
  "pose_reasons np None err = [] \<longleftrightarrow> \<not> of_lit (2/10) \<le> error_drift np err \<and> \<not> of_lit (3/10) \<le> error_spread np err"
  by (simp_all add: rate_reasons_def pose_reasons_def Let_def)

lemma goal_metrics_Inr:
  assumes "goal_metrics geo odom goal_xy goal_window = Inr (goal, rs)"
  shows "(goal = None \<longleftrightarrow> goal_window = None) \<and> (rs = [] \<longleftrightarrow> (\<forall>c t. goal = Some (c, t) \<longrightarrow> \<not> 1 \<le> c))"
  using assms by (auto simp: goal_metrics_def Let_def split: option.split_asm if_split_asm)

lemma evaluate_quality_Inr:
  assumes "evaluate_quality np geo search ndt gt odom route goal_xy w gw hz gate = Inr s"
  obtains err lat goal ratio grs where
    "goal_metrics geo odom goal_xy gw = Inr (goal, grs)"
    "ratio = ndt_rate (map fst (filter (in_window w) ndt)) div hz"
    "quality_of np err lat goal ratio (rate_reasons ratio @ pose_reasons np gate err @ grs) = s"
proof -
  from assms obtain p err lat where
    "goal_metrics geo odom goal_xy gw = Inr p"
    "Inr (quality_of np err lat (fst p) (ndt_rate (map fst (filter (in_window w) ndt)) div hz)
       (rate_reasons (ndt_rate (map fst (filter (in_window w) ndt)) div hz) @ pose_reasons np gate err @ snd p)) =
       (Inr s :: quality_stats res)"
    unfolding evaluate_quality_def Let_def case_prod_beta by (elim InrE) (rule that, assumption+)
  then show thesis by (intro that [of "fst p" "snd p" _ err lat]) simp_all
qed

text \<open>C29: The verdict on record is the one the numbers on record give: under an absolute gate a run passes exactly
  when its rate ratio is not below nine tenths, its largest pose error does not reach the gate and its closest
  approach, if the goal criteria apply, is not a metre or more; the reasons are empty exactly when it passes,
  and the goal figures are recorded exactly when there is a goal window.\<close>

theorem recorded_verdict:
  assumes "evaluate_quality np geo search ndt gt odom route goal_xy w gw hz (Some gate) = Inr s"
  shows "(qs_gate_pass s \<longleftrightarrow> \<not> qs_ndt_rate_ratio s < of_lit (9/10) \<and> \<not> gate \<le> qs_pose_err_max_m s \<and>
      (\<forall>c. qs_goal_closest_approach_m s = Some c \<longrightarrow> \<not> 1 \<le> c)) \<and>
    (qs_gate_pass s \<longleftrightarrow> qs_reasons s = []) \<and>
    (qs_goal_closest_approach_m s = None \<longleftrightarrow> gw = None) \<and> (qs_goal_terminal_distance_m s = None \<longleftrightarrow> gw = None)"
proof -
  from evaluate_quality_Inr [OF assms] obtain err lat goal ratio grs where
    g: "goal_metrics geo odom goal_xy gw = Inr (goal, grs)"
    and s: "quality_of np err lat goal ratio (rate_reasons ratio @ pose_reasons np (Some gate) err @ grs) = s"
    by metis
  from goal_metrics_Inr [OF g] show ?thesis
    by (cases goal) (auto simp: s [symmetric] quality_of_def reasons_empty)
qed

section \<open>A sample\<close>

text \<open>Ten NDT poses at one stamp, past the warm-up, and one ground-truth row there, at \<open>x\<close>.\<close>

abbreviation sample_stamp :: int where "sample_stamp \<equiv> 20000000005"

definition sample_quality :: "f64 \<Rightarrow> quality_stats res" where
  "sample_quality x =
     evaluate_quality exact_np sample_geo (\<lambda>b a. length (filter (\<lambda>x. x < a) b))
       (replicate 10 (sample_stamp, (Fin 0, Fin 0))) [(sample_stamp, (x, Fin 0))]
       [(0, (Fin 0, Fin 0)), (sample_stamp, (Fin 0, Fin 0))] [(Fin 0, Fin 0), (Fin 1, Fin 0)] (Fin 0, Fin 0)
       (sample_stamp, sample_stamp) (Some (20000000000, sample_stamp)) (Fin 10) (Some (Fin 1))"

lemma sample_join:
  "nearest_join (\<lambda>b a. length (filter (\<lambda>x. x < a) b)) (replicate 10 sample_stamp) [sample_stamp] JOIN_TOL_NS =
    Inr (map (\<lambda>i. (i, - 1)) [0..<10])"
proof -
  have one: "join_one (\<lambda>b a. length (filter (\<lambda>x. x < a) b)) [t] JOIN_TOL_NS t = Inr (Some (- 1))" for t
    by (simp add: join_one_def clip_index_def index_list_def i64_dist_def i64_sub_def wrap64_def JOIN_TOL_NS_def)
  have all: "mapE (join_one (\<lambda>b a. length (filter (\<lambda>x. x < a) b)) [t] JOIN_TOL_NS) (replicate n t) =
      Inr (replicate n (Some (- 1)))" for n t
    by (induction n) (simp_all add: one)
  have "pairs_from k (replicate n (Some (- 1))) = map (\<lambda>i. (i, - 1)) [k..<k + n]" for k n
  proof (induction n arbitrary: k)
    case (Suc n)
    then show ?case by (simp add: upt_rec [of k])
  qed simp
  from this [of 0 10] show ?thesis by (simp only: nearest_join_def all bindE_simps) simp
qed

lemma sample_errors:
  "pose_errors geo (replicate 10 (t, p)) [(t', g)] (map (\<lambda>i. (i, - 1)) [0..<10]) =
     Inr (replicate 10 (row_norm geo (pt_sub p g)))"
  by (simp add: pose_errors_def mapE_Inr_list_all2 list_all2_conv_all_nth index_list_def)

lemma sample_quality_runs:
  "\<exists>lat. sample_quality x =
     (let err = replicate 10 (row_norm sample_geo (pt_sub (Fin 0, Fin 0) (x, Fin 0)))
      in Inr (quality_of exact_np err lat (Some (Fin 0, Fin 0)) PInf (pose_reasons exact_np (Some (Fin 1)) err)))"
proof -
  let ?o = "(sample_stamp, (Fin 0, Fin 0)) :: int \<times> pt"
  let ?goal = "map (\<lambda>s. row_norm sample_geo (pt_sub (snd s) (Fin 0, Fin 0)))"
  obtain lat where lat: "project sample_geo [(Fin 0, Fin 0), (Fin 1, Fin 0)] [(Fin 0, Fin 0)] = Inr ([fst lat], [snd lat])"
    using sample_seg by (simp add: project_def project_point_def project_on_def np_argmin_def segments_def split: if_split)
  have w: "filter (in_window (sample_stamp, sample_stamp)) (replicate 10 ?o) = replicate 10 ?o"
    "filter (in_window (sample_stamp, sample_stamp)) [(0, (Fin 0, Fin 0)), ?o] = [?o]"
    "filter (in_window (20000000000, sample_stamp)) [(0, (Fin 0, Fin 0)), ?o] = [?o]"
    by (simp_all add: in_window_def filter_replicate)
  have r: "ndt_rate (replicate 10 sample_stamp) div Fin 10 = PInf"
    by (simp add: ndt_rate_def of_i64_def rnd_numeral i64_sub_def in_i64_def last_replicate hd_replicate)
  have d: "?goal [?o] = [Fin 0]" by (simp add: sample_geo_def pt_sub_def)
  have "\<not> (1 :: f64) \<le> Fin 0" by (simp add: one_f64_def)
  then have g: "goal_metrics sample_geo [(0, (Fin 0, Fin 0)), ?o] (Fin 0, Fin 0) (Some (20000000000, sample_stamp)) =
      Inr (Some (Fin 0, Fin 0), [])"
    unfolding goal_metrics_def option.case w d by (simp add: Let_def)
  have "rate_reasons PInf = []" by (simp add: rate_reasons_def)
  then have "sample_quality x =
     (let err = replicate 10 (row_norm sample_geo (pt_sub (Fin 0, Fin 0) (x, Fin 0)))
      in Inr (quality_of exact_np err [snd lat] (Some (Fin 0, Fin 0)) PInf (pose_reasons exact_np (Some (Fin 1)) err)))"
    using sample_join
    by (simp only: sample_quality_def evaluate_quality_def Let_def w map_replicate fst_conv list.map bindE_simps sample_errors
        r g option.case prod.case lat snd_conv) (simp add: MIN_JOIN_PAIRS_def)
  then show ?thesis by blast
qed


theorem recorded_verdict_witness:
  "\<exists>s. sample_quality (Fin 0) = Inr s \<and> qs_gate_pass s \<and> qs_pose_err_max_m s = Fin 0"
proof -
  have "row_norm sample_geo (pt_sub (Fin 0, Fin 0) (Fin 0, Fin 0)) = Fin 0" by (simp add: sample_geo_def pt_sub_def)
  moreover have m: "np_max (replicate 10 (Fin 0)) = Fin 0" by (simp add: eval_nat_numeral)
  ultimately obtain s where s: "sample_quality (Fin 0) = Inr s" "qs_pose_err_max_m s = Fin 0"
    "qs_ndt_rate_ratio s = PInf" "qs_goal_closest_approach_m s = Some (Fin 0)"
    using sample_quality_runs [of "Fin 0"] by (auto simp: Let_def quality_of_def)
  from recorded_verdict [OF s(1) [unfolded sample_quality_def]] s show ?thesis by (simp add: one_f64_def)
qed

end
