(* ===== verification/Write_Quality.thy ===== *)
theory Write_Quality
  imports Quality Sweep_Verdict
begin

text \<open>
  \<^verbatim>\<open>benchmarks/scripts/write_quality.py\<close>: the M5 gate step, from a run directory to its \<^verbatim>\<open>quality.json\<close>. The
  workload matrix is what loading it gives or raises, \<open>routes\<close> the route file of a map name: absent, or
  what reading it gives or raises. A polyline that is not a list of pairs is refused where it is read; in the
  program a later step refuses it. The command line is the run directory.

  The lemmas: nothing is written unless the run was scored under a registered branch, what is written is that
  score, and the sweep reads the gate's verdict back; a run that was refused never reads as passing.
\<close>

definition WARMUP_NS :: int where "WARMUP_NS = 20000000000"

definition ODOM_TOPIC :: string where "ODOM_TOPIC = ''/localization/kinematic_state''"

definition LADDER_BRANCHES :: "string list" where "LADDER_BRANCHES = [''absolute'', ''relative'']"

definition EXIT_REFUSED :: int where "EXIT_REFUSED = 2"

section \<open>Inputs\<close>

definition refuse :: "string \<Rightarrow> exc \<Rightarrow> 'a res" where
  "refuse what e = Raise GateRefused what"

definition read_or_refuse :: "'a res \<Rightarrow> string \<Rightarrow> 'a res" where
  "read_or_refuse m what =
     catchE [KeyError, TypeError, ValueError] (refuse (what @ '' does not match its contract''))
       (catchE [OSError] (refuse (''cannot read '' @ what)) m)"

definition resolve_ladder :: "(string \<times> pyval) list \<Rightarrow> (string \<times> f64 option) res" where
  "resolve_ladder metrics =
     bindE (getitem (PDict metrics) ''ladder_branch'') (\<lambda>branch.
     bindE (getitem (PDict metrics) ''abs_pose_gate_m'') (\<lambda>gate.
       if branch = PNone then Raise GateRefused ''metrics.ladder_branch is null''
       else if \<not> in_strs branch LADDER_BRANCHES then Raise GateRefused ''metrics.ladder_branch is not registered''
       else if py_eq branch (PStr ''absolute'')
       then (if gate = PNone then Raise GateRefused ''ladder_branch absolute with a null abs_pose_gate_m''
             else bindE (py_float gate) (\<lambda>g. Ret (''absolute'', Some g)))
       else if gate \<noteq> PNone then Raise GateRefused ''ladder_branch relative with abs_pose_gate_m''
       else Ret (''relative'', None)))"

text \<open>\<open>np.asarray(v, dtype=np.float64)\<close> of a list of pairs: \<open>None\<close> becomes NaN.\<close>

definition array_float :: "pyval \<Rightarrow> f64 res" where
  "array_float v = (if v = PNone then Ret NaN else py_float v)"

definition array_point :: "pyval \<Rightarrow> pt res" where
  "array_point v =
     (case v of
        PList [x, y] \<Rightarrow> bindE (array_float x) (\<lambda>x'. bindE (array_float y) (\<lambda>y'. Ret (x', y')))
      | _ \<Rightarrow> Raise ValueError ''setting an array element with a sequence'')"

record route =
  route_xy :: "pt list"
  start_m :: f64
  end_m :: f64
  goal_xy :: pt

definition route_of_doc :: "pyval \<Rightarrow> route res" where
  "route_of_doc doc =
     bindE (getitem doc ''polyline'') (\<lambda>poly. bindE (py_iter poly) (\<lambda>ps. bindE (mapE array_point ps) (\<lambda>xy.
     bindE (getitem doc ''stations'') (\<lambda>stations. bindE (getitem doc ''goal'') (\<lambda>goal.
     bindE (bindE (getitem stations ''start_m'') py_float) (\<lambda>s. bindE (bindE (getitem stations ''end_m'') py_float) (\<lambda>e.
     bindE (bindE (getitem goal ''x'') py_float) (\<lambda>x. bindE (bindE (getitem goal ''y'') py_float) (\<lambda>y.
       Ret \<lparr>route_xy = xy, start_m = s, end_m = e, goal_xy = (x, y)\<rparr>)))))))))"

definition load_route :: "(string \<Rightarrow> pyval res option) \<Rightarrow> pyval \<Rightarrow> route res" where
  "load_route routes map_name =
     (case routes (py_str map_name) of
        None \<Rightarrow> Raise GateRefused ''no route file for map''
      | Some doc \<Rightarrow>
          bindE doc (\<lambda>d. catchE [KeyError, TypeError, ValueError] (refuse ''route file is missing a required field'')
            (route_of_doc d)))"

section \<open>Windows\<close>

text \<open>The stamps and positions of a topic's rows, and of the ground truth.\<close>

definition samples :: "string \<Rightarrow> typed_columns \<Rightarrow> (int \<times> pt) list" where
  "samples stamp g = zip (col (tc_ints g) stamp) (zip (col (tc_floats g) ''x_m'') (col (tc_floats g) ''y_m''))"

definition resolve_goal_window_sim_ns :: "run_manifest \<Rightarrow> typed_columns \<Rightarrow> (int \<times> int) option res" where
  "resolve_goal_window_sim_ns m odom =
     (if py_eq (m_arm m) (PStr ''static'') then Ret None
      else
        let stamps = col (tc_ints odom) ''header_stamp_ns''
        in bindE (catchE [IndexError, ValueError] (refuse ''cannot resolve the goal window over the ego odometry'')
             (if stamps = [] then Raise IndexError ''index 0 is out of bounds''
              else static_window (hd stamps) (last stamps) WARMUP_NS)) (\<lambda>w. Ret (Some w)))"

text \<open>\<open>int(round((wall - intercept) / slope))\<close>.\<close>

definition wall_to_sim :: "affine_fit \<Rightarrow> int \<Rightarrow> int res" where
  "wall_to_sim fit wall = py_round ((of_i64 wall - af_intercept_ns fit) div af_slope fit)"

definition resolve_window_sim_ns ::
  "'g np_ops \<Rightarrow> geo_ops \<Rightarrow> run_files \<Rightarrow> run_manifest \<Rightarrow> typed_columns \<Rightarrow> route \<Rightarrow> (int \<times> int) res" where
  "resolve_window_sim_ns np geo run_dir m odom r =
     (if py_eq (m_arm m) (PStr ''closed-loop'')
      then catchE [ValueError] (refuse ''cannot resolve the closed-loop spatial window'')
             (spatial_window geo (samples ''header_stamp_ns'' odom) (route_xy r) (start_m r) (end_m r) WARMUP_NS)
      else bindE (read_or_refuse (read_clock_csv (rf_clock run_dir)) ''the /clock series'') (\<lambda>(clock_ns, clock_wall).
        if length clock_ns < 2 then Raise GateRefused ''the run took the UNFITTABLE scoring-window branch''
        else bindE (fit_sim_wall_affine np clock_ns clock_wall) (\<lambda>fit.
          bindE (catchE [ValueError] (refuse ''cannot resolve the static window'')
                   (static_window (Min (set clock_wall)) (Max (set clock_wall)) WARMUP_NS)) (\<lambda>(wall_lo, wall_hi).
          bindE (wall_to_sim fit wall_lo) (\<lambda>lo. bindE (wall_to_sim fit wall_hi) (\<lambda>hi. Ret (lo, hi)))))))"

section \<open>The document\<close>

definition or_null :: "f64 option \<Rightarrow> pyval" where
  "or_null x = (case x of None \<Rightarrow> PNone | Some v \<Rightarrow> PFloat v)"

definition pair_doc :: "int \<times> int \<Rightarrow> pyval" where
  "pair_doc w = PList [PInt (fst w), PInt (snd w)]"

definition quality_doc ::
  "quality_stats \<Rightarrow> pyval \<Rightarrow> int \<times> int \<Rightarrow> (int \<times> int) option \<Rightarrow> string \<Rightarrow> f64 \<Rightarrow> pyval" where
  "quality_doc s arm window goal_window branch hz =
     PDict
       [(''pose_err_p50_m'', PFloat (qs_pose_err_p50_m s)), (''pose_err_p95_m'', PFloat (qs_pose_err_p95_m s)),
        (''pose_err_max_m'', PFloat (qs_pose_err_max_m s)), (''pose_bias_m'', PFloat (qs_pose_bias_m s)),
        (''lateral_dev_p95_m'', PFloat (qs_lateral_dev_p95_m s)),
        (''goal_closest_approach_m'', or_null (qs_goal_closest_approach_m s)),
        (''goal_terminal_distance_m'', or_null (qs_goal_terminal_distance_m s)),
        (''ndt_rate_ratio'', PFloat (qs_ndt_rate_ratio s)), (''gate_pass'', PBool (qs_gate_pass s)),
        (''reasons'', PList (map PStr (qs_reasons s))), (''arm'', arm), (''window_sim_ns'', pair_doc window),
        (''goal_window_sim_ns'', case goal_window of None \<Rightarrow> PNone | Some w \<Rightarrow> pair_doc w),
        (''ladder_branch'', PStr branch), (''expected_ndt_hz'', PFloat hz)]"

text \<open>\<open>metrics_for(doc, manifest.cell)\<close>: a cell that is not a text matches no entry, once every entry has been
  looked at.\<close>

definition metrics_of_cell :: "pyval \<Rightarrow> pyval \<Rightarrow> (string \<times> pyval) list res" where
  "metrics_of_cell doc cell =
     (case cell of
        PStr c \<Rightarrow> metrics_for doc c
      | _ \<Rightarrow>
          bindE (get_or doc ''cells'' (PList [])) (\<lambda>cells. bindE (py_iter cells) (\<lambda>cs.
          bindE (mapE (\<lambda>e. getitem e ''id'') cs) (\<lambda>_. Raise UnknownIdError ''unknown cell''))))"

definition gt_series :: "run_files \<Rightarrow> typed_columns res" where
  "gt_series run_dir =
     bindE (read_or_refuse (read_gt_csv (rf_gt run_dir)) ''the M5 ground truth'') (\<lambda>gt.
       let sim = col (tc_ints gt) ''sim_ns''
       in if sim = [] then Raise GateRefused ''gt.csv has no data rows''
          else if list_ex (\<lambda>d. d < 0) (np_diff sim) then Raise GateRefused ''the sim_ns column is not non-decreasing''
          else Ret gt)"

definition topic_series :: "(cell \<times> typed_columns) list \<Rightarrow> pyval \<Rightarrow> string \<Rightarrow> typed_columns res" where
  "topic_series groups topic what =
     bindE (lookup_group groups topic) (\<lambda>g. case g of None \<Rightarrow> Raise GateRefused what | Some c \<Rightarrow> Ret c)"

definition metric_or_refuse :: "(string \<times> pyval) list \<Rightarrow> string \<Rightarrow> pyval res" where
  "metric_or_refuse metrics k =
     bindE (getitem (PDict metrics) k) (\<lambda>v.
       if v = PNone then Raise GateRefused (''metrics.'' @ k @ '' is null'') else Ret v)"

definition scored_manifest :: "run_files \<Rightarrow> run_manifest res" where
  "scored_manifest run_dir =
     bindE (read_or_refuse (load_manifest (rf_manifest run_dir)) ''the run manifest'') (\<lambda>m.
       if truthy (m_excluded m) then Raise GateRefused ''the run is already marked excluded'' else Ret m)"

definition build_quality ::
  "'g np_ops \<Rightarrow> geo_ops \<Rightarrow> (int list \<Rightarrow> int \<Rightarrow> nat) \<Rightarrow> pyval res \<Rightarrow> (string \<Rightarrow> pyval res option) \<Rightarrow> run_files \<Rightarrow> pyval res" where
  "build_quality np geo search cells_doc routes run_dir =
     bindE (scored_manifest run_dir) (\<lambda>m.
     bindE (catchE [UnknownIdError] (refuse ''unknown cell or metrics block'')
              (bindE cells_doc (\<lambda>doc. metrics_of_cell doc (m_cell m)))) (\<lambda>metrics.
     bindE (resolve_ladder metrics) (\<lambda>(branch, abs_gate).
     bindE (metric_or_refuse metrics ''ndt_expected_hz'') (\<lambda>expected.
     bindE (metric_or_refuse metrics ''ndt_topic'') (\<lambda>topic.
     bindE (read_or_refuse (read_pose_csv (rf_pose run_dir)) ''the NDT pose series'') (\<lambda>pose.
     bindE (topic_series pose topic ''the NDT topic has no rows in pose.csv'') (\<lambda>ndt.
     bindE (read_or_refuse (read_odometry_csv (rf_odometry run_dir)) ''the ego odometry'') (\<lambda>odom_all.
     bindE (topic_series odom_all (PStr ODOM_TOPIC) ''the ego topic has no rows in odometry.csv'') (\<lambda>odom.
     bindE (gt_series run_dir) (\<lambda>gt.
     bindE (load_route routes (m_map_name m)) (\<lambda>r.
     bindE (resolve_window_sim_ns np geo run_dir m odom r) (\<lambda>window.
     bindE (resolve_goal_window_sim_ns m odom) (\<lambda>goal_window.
     bindE (catchE [ValueError, IndexError] (refuse ''evaluate_quality could not score the run'')
              (bindE (py_float expected) (\<lambda>hz.
                 bindE (evaluate_quality np geo search (samples ''header_stamp_ns'' ndt) (samples ''sim_ns'' gt)
                   (samples ''header_stamp_ns'' odom) (route_xy r) (goal_xy r) window goal_window hz abs_gate)
                   (\<lambda>s. Ret (s, hz))))) (\<lambda>(s, hz).
       Ret (quality_doc s (m_arm m) window goal_window branch hz)))))))))))))))"

text \<open>Exit status or escaping exception, and the directory afterwards.\<close>

definition quality_main ::
  "'g np_ops \<Rightarrow> geo_ops \<Rightarrow> (int list \<Rightarrow> int \<Rightarrow> nat) \<Rightarrow> pyval res \<Rightarrow> (string \<Rightarrow> pyval res option) \<Rightarrow> run_files \<Rightarrow>
     int res \<times> run_files" where
  "quality_main np geo search cells_doc routes run_dir =
     (case build_quality np geo search cells_doc routes run_dir of
        Inl e \<Rightarrow> (if exc_isa (exc_of e) GateRefused then Ret EXIT_REFUSED else Inl e, run_dir)
      | Inr doc \<Rightarrow> (Ret 0, run_dir\<lparr>rf_quality := JDoc doc\<rparr>))"

section \<open>What is written\<close>

text \<open>The registered ladder states: an absolute threshold, or the relative branch without one.\<close>

definition registered_ladder :: "string \<Rightarrow> f64 option \<Rightarrow> bool" where
  "registered_ladder branch gate \<longleftrightarrow>
     (branch = ''absolute'' \<and> gate \<noteq> None) \<or> (branch = ''relative'' \<and> gate = None)"

text \<open>\<open>s\<close> is the score of the run \<open>m\<close> under its registered branch, and \<open>doc\<close> its record.\<close>

definition gate_scored ::
  "'g np_ops \<Rightarrow> geo_ops \<Rightarrow> (int list \<Rightarrow> int \<Rightarrow> nat) \<Rightarrow> pyval res \<Rightarrow> (string \<Rightarrow> pyval res option) \<Rightarrow> run_files \<Rightarrow>
     run_manifest \<Rightarrow> quality_stats \<Rightarrow> pyval \<Rightarrow> bool" where
  "gate_scored np geo search cells_doc routes run_dir m s doc \<longleftrightarrow>
     load_manifest (rf_manifest run_dir) = Inr m \<and> \<not> truthy (m_excluded m) \<and>
     (\<exists>metrics branch gate odom r window goal_window ndt gt hz.
        bindE cells_doc (\<lambda>doc. metrics_of_cell doc (m_cell m)) = Inr metrics \<and>
        resolve_ladder metrics = Inr (branch, gate) \<and> registered_ladder branch gate \<and>
        load_route routes (m_map_name m) = Inr r \<and>
        resolve_window_sim_ns np geo run_dir m odom r = Inr window \<and>
        resolve_goal_window_sim_ns m odom = Inr goal_window \<and>
        evaluate_quality np geo search (samples ''header_stamp_ns'' ndt) (samples ''sim_ns'' gt)
          (samples ''header_stamp_ns'' odom) (route_xy r) (goal_xy r) window goal_window hz gate = Inr s \<and>
        doc = quality_doc s (m_arm m) window goal_window branch hz)"

lemma refuse_Inr [simp]: "refuse what e \<noteq> Inr x"
  by (simp add: refuse_def)

lemma catch_refuse_Inr: "catchE cs (refuse what) m = Inr x \<longleftrightarrow> m = Inr x"
  by (auto simp: catchE_def split: sum.splits if_splits)

lemma read_or_refuse_Inr: "read_or_refuse m what = Inr x \<longleftrightarrow> m = Inr x"
  by (simp add: read_or_refuse_def catch_refuse_Inr)

lemma resolve_ladder_Inr: "resolve_ladder metrics = Inr (branch, gate) \<Longrightarrow> registered_ladder branch gate"
  by (auto simp: resolve_ladder_def registered_ladder_def bindE_Inr_iff split: if_splits)

lemma scored_manifest_Inr:
  "scored_manifest run_dir = Inr m \<Longrightarrow> load_manifest (rf_manifest run_dir) = Inr m \<and> \<not> truthy (m_excluded m)"
  unfolding scored_manifest_def by (elim InrE) (auto simp: read_or_refuse_Inr)

lemma build_quality_Inr:
  assumes "build_quality np geo search cells_doc routes run_dir = Inr doc"
  shows "\<exists>m s. gate_scored np geo search cells_doc routes run_dir m s doc"
proof -
  from assms obtain m metrics p expected topic pose ndt odom_all odom gt r window goal_window q where
    m: "scored_manifest run_dir = Inr m"
    and metrics: "catchE [UnknownIdError] (refuse ''unknown cell or metrics block'')
      (bindE cells_doc (\<lambda>doc. metrics_of_cell doc (m_cell m))) = Inr metrics"
    and l: "resolve_ladder metrics = Inr p"
    and "metric_or_refuse metrics ''ndt_expected_hz'' = Inr expected"
    and "metric_or_refuse metrics ''ndt_topic'' = Inr topic"
    and "read_or_refuse (read_pose_csv (rf_pose run_dir)) ''the NDT pose series'' = Inr pose"
    and "topic_series pose topic ''the NDT topic has no rows in pose.csv'' = Inr ndt"
    and "read_or_refuse (read_odometry_csv (rf_odometry run_dir)) ''the ego odometry'' = Inr odom_all"
    and "topic_series odom_all (PStr ODOM_TOPIC) ''the ego topic has no rows in odometry.csv'' = Inr odom"
    and "gt_series run_dir = Inr gt"
    and r: "load_route routes (m_map_name m) = Inr r"
    and w: "resolve_window_sim_ns np geo run_dir m odom r = Inr window"
    and gw: "resolve_goal_window_sim_ns m odom = Inr goal_window"
    and q: "catchE [ValueError, IndexError] (refuse ''evaluate_quality could not score the run'')
              (bindE (py_float expected) (\<lambda>hz.
                 bindE (evaluate_quality np geo search (samples ''header_stamp_ns'' ndt) (samples ''sim_ns'' gt)
                   (samples ''header_stamp_ns'' odom) (route_xy r) (goal_xy r) window goal_window hz (snd p))
                   (\<lambda>s. Ret (s, hz)))) = Inr q"
    and doc: "Inr (quality_doc (fst q) (m_arm m) window goal_window (fst p) (snd q)) = (Inr doc :: pyval res)"
    unfolding build_quality_def case_prod_beta by (elim InrE) (rule that, assumption+)
  from q [unfolded catch_refuse_Inr] obtain hz s where
    s: "evaluate_quality np geo search (samples ''header_stamp_ns'' ndt) (samples ''sim_ns'' gt)
          (samples ''header_stamp_ns'' odom) (route_xy r) (goal_xy r) window goal_window hz (snd p) = Inr s"
    and sq: "Inr (s, hz) = (Inr q :: (quality_stats \<times> f64) res)"
    by (elim InrE) (rule that, assumption+)
  have l': "resolve_ladder metrics = Inr (fst p, snd p)" using l by simp
  have d: "doc = quality_doc s (m_arm m) window goal_window (fst p) hz" using doc sq by auto
  from metrics have m': "bindE cells_doc (\<lambda>doc. metrics_of_cell doc (m_cell m)) = Inr metrics"
    unfolding catch_refuse_Inr .
  show ?thesis unfolding gate_scored_def
    using scored_manifest_Inr [OF m] m' l' resolve_ladder_Inr [OF l'] r w gw s d by blast
qed

lemma quality_main_0:
  assumes "quality_main np geo search cells_doc routes run_dir = (Ret 0, run_dir')"
  obtains m s doc where "gate_scored np geo search cells_doc routes run_dir m s doc"
    "run_dir' = run_dir\<lparr>rf_quality := JDoc doc\<rparr>"
proof -
  from assms obtain doc where "build_quality np geo search cells_doc routes run_dir = Inr doc"
    and d: "run_dir' = run_dir\<lparr>rf_quality := JDoc doc\<rparr>"
    by (cases "build_quality np geo search cells_doc routes run_dir")
      (auto simp: quality_main_def EXIT_REFUSED_def split: if_split_asm)
  from build_quality_Inr [OF this(1)] show thesis using that d by (elim exE)
qed

lemma quality_main_refused:
  assumes "quality_main np geo search cells_doc routes run_dir = (out, run_dir')" "out \<noteq> Ret 0"
  shows "run_dir' = run_dir"
  using assms by (auto simp: quality_main_def split: sum.splits)


section \<open>The sweep reads it back\<close>

lemma quality_ok_doc:
  "quality_ok (run_dir\<lparr>rf_quality := JDoc (quality_doc s arm w gw branch hz)\<rparr>) a = Inr (qs_gate_pass s, None)"
  by (simp add: quality_ok_def read_json_def quality_doc_def getitem_def)


section \<open>A sample run\<close>

definition xy_row :: "string \<Rightarrow> string \<Rightarrow> csv_row" where
  "xy_row topic stamp = [(''topic'', Some topic), (''header_stamp_ns'', Some stamp), (''x_m'', Some ''0''), (''y_m'', Some ''0'')]"

definition gt_row :: "string \<Rightarrow> csv_row" where
  "gt_row stamp = [(''arrival_system_ns'', Some ''1''), (''sim_ns'', Some stamp), (''x_m'', Some ''0''), (''y_m'', Some ''0''),
     (''z_m'', Some ''0''), (''yaw_rad'', Some ''0'')]"

definition gated_manifest :: run_manifest where
  "gated_manifest = sample_manifest\<lparr>m_arm := PStr ''closed-loop''\<rparr>"

definition gated_run :: run_files where
  "gated_run = bare_run
     \<lparr>rf_manifest := JDoc (manifest_asdict gated_manifest),
      rf_pose := CRows (replicate 10 (xy_row ''/ndt'' ''20000000005'')),
      rf_odometry := CRows [xy_row ODOM_TOPIC ''0'', xy_row ODOM_TOPIC ''20000000005''],
      rf_gt := CRows [gt_row ''20000000005'']\<rparr>"

definition gated_metrics :: "pyval \<Rightarrow> (string \<times> pyval) list" where
  "gated_metrics branch =
     [(''lidar_topic'', PNone), (''ndt_topic'', PStr ''/ndt''), (''control_topic'', PNone),
      (''control_published_time_topic'', PNone), (''cpu_process_label'', PNone), (''tick_hz'', PNone),
      (''lidar_expected_hz'', PNone), (''ndt_expected_hz'', PInt 10), (''ladder_branch'', branch),
      (''abs_pose_gate_m'', PInt 1)]"

definition gated_cells :: "pyval \<Rightarrow> pyval" where
  "gated_cells branch =
     PDict [(''cells'', PList [PDict [(''id'', PStr ''A''), (''metrics'', PDict (gated_metrics branch))]])]"

definition gated_routes :: "string \<Rightarrow> pyval res option" where
  "gated_routes name =
     (if name = ''Town10''
      then Some (Inr (PDict
        [(''polyline'', PList [PList [PInt 0, PInt 0], PList [PInt 1, PInt 0]]),
         (''stations'', PDict [(''start_m'', PInt 0), (''end_m'', PInt 1)]),
         (''goal'', PDict [(''x'', PInt 0), (''y'', PInt 0)])]))
      else None)"

abbreviation count_below :: "int list \<Rightarrow> int \<Rightarrow> nat" where
  "count_below \<equiv> \<lambda>b a. length (filter (\<lambda>x. x < a) b)"

lemma cell_0: "py_float (PStr ''0'') = Inr (Fin 0)"
proof -
  have "split_sign (strip ''0'') = (False, ''0'')" "map lower ''0'' = ''0''" by code_simp+
  moreover have "parse_mantissa ''0'' = Some 0" by (simp add: parse_mantissa_def digit_of_def Let_def)
  ultimately show ?thesis by (simp add: py_float_def parse_float_def Let_def del: list.map)
qed

lemma cell_stamps: "py_int (PStr ''20000000005'') = Inr 20000000005" "py_int (PStr ''0'') = Inr 0" "py_int (PStr ''1'') = Inr 1"
  by (simp_all add: py_int_def parse_int_def strip_def is_space_def digit_of_def Let_def)

lemmas cell_simps = cell_0 cell_stamps row_cell_def int_cell_def float_cell_def cell_value_def col_def append_cols_def
  ODOM_INT_COLS_def ODOM_FLOAT_COLS_def add_xy_row_def empty_xy_def empty_cols_def xy_row_def

lemma gated_odometry:
  "read_odometry_csv (rf_odometry gated_run) = Inr [(Some ODOM_TOPIC, \<lparr>tc_ints = [(''header_stamp_ns'', [0, 20000000005])],
     tc_floats = [(''x_m'', [Fin 0, Fin 0]), (''y_m'', [Fin 0, Fin 0])]\<rparr>)]"
  by (simp add: gated_run_def read_odometry_csv_def read_xy_csv_def read_rows_def group_rows_def group_step_def cell_simps
      convert_groups_def convert_typed_def i64_columns_def as_i64_def in_i64_def)

lemma gated_gt:
  "gt_series gated_run = Inr \<lparr>tc_ints = [(''arrival_system_ns'', [1]), (''sim_ns'', [20000000005])],
     tc_floats = [(''x_m'', [Fin 0]), (''y_m'', [Fin 0]), (''z_m'', [Fin 0]), (''yaw_rad'', [Fin 0])]\<rparr>"
  by (simp add: gated_run_def gt_row_def gt_series_def read_or_refuse_def read_gt_csv_def read_rows_def gt_column_def
      GT_INT_COLS_def GT_FLOAT_COLS_def cells_to_i64_def cells_to_f64_def cell_simps as_i64_def in_i64_def)

lemma gated_pose_rows:
  "foldE (group_step (\<lambda>row. row_cell row ''topic'') empty_xy add_xy_row)
     [(Some t, \<lparr>tc_ints = [(''header_stamp_ns'', replicate k 20000000005)],
        tc_floats = [(''x_m'', replicate k (Fin 0)), (''y_m'', replicate k (Fin 0))]\<rparr>)]
     (replicate n (xy_row t ''20000000005'')) =
   Inr [(Some t, \<lparr>tc_ints = [(''header_stamp_ns'', replicate (k + n) 20000000005)],
     tc_floats = [(''x_m'', replicate (k + n) (Fin 0)), (''y_m'', replicate (k + n) (Fin 0))]\<rparr>)]"
proof (induction n arbitrary: k)
  case (Suc n)
  from Suc [of "Suc k"] show ?case by (simp add: group_step_def cell_simps replicate_append_same)
qed simp

lemma gated_pose:
  "read_pose_csv (rf_pose gated_run) = Inr [(Some ''/ndt'', \<lparr>tc_ints = [(''header_stamp_ns'', replicate 10 20000000005)],
     tc_floats = [(''x_m'', replicate 10 (Fin 0)), (''y_m'', replicate 10 (Fin 0))]\<rparr>)]"
proof -
  have ten: "replicate 10 x = x # replicate 9 x" for x :: 'a by (simp add: eval_nat_numeral)
  have g: "group_rows (\<lambda>row. row_cell row ''topic'') empty_xy add_xy_row (replicate 10 (xy_row ''/ndt'' ''20000000005'')) =
      Inr [(Some ''/ndt'', \<lparr>tc_ints = [(''header_stamp_ns'', replicate 10 20000000005)],
        tc_floats = [(''x_m'', replicate 10 (Fin 0)), (''y_m'', replicate 10 (Fin 0))]\<rparr>)]"
    unfolding ten [of "xy_row _ _"] group_rows_def foldE.simps
    using gated_pose_rows [of "''/ndt''" 1 9] by (simp add: group_step_def cell_simps)
  have i: "as_i64 (replicate 10 20000000005) = Inr (replicate 10 20000000005)"
    by (simp add: as_i64_def list_all_iff in_i64_def)
  have "rf_pose gated_run = CRows (replicate 10 (xy_row ''/ndt'' ''20000000005''))"
    by (simp add: gated_run_def bare_run_def)
  then show ?thesis
    by (simp add: read_pose_csv_def read_xy_csv_def read_rows_def g convert_groups_def convert_typed_def i64_columns_def i)
qed

lemma gated_registry:
  "metrics_of_cell (gated_cells b) (m_cell gated_manifest) = Inr (gated_metrics b)"
  "resolve_ladder (gated_metrics (PStr ''absolute'')) = Inr (''absolute'', Some (Fin 1))"
  "metric_or_refuse (gated_metrics b) ''ndt_expected_hz'' = Inr (PInt 10)"
  "metric_or_refuse (gated_metrics b) ''ndt_topic'' = Inr (PStr ''/ndt'')"
  by code_simp+

lemma gated_route:
  "load_route gated_routes (m_map_name gated_manifest) = Inr
     \<lparr>route_xy = [(Fin 0, Fin 0), (Fin 1, Fin 0)], start_m = Fin 0, end_m = Fin 1, goal_xy = (Fin 0, Fin 0)\<rparr>"
  by code_simp

lemma gated_scored_manifest: "scored_manifest gated_run = Inr gated_manifest"
  by (simp add: scored_manifest_def gated_run_def gated_manifest_def sample_manifest_def load_asdict read_or_refuse_def)

lemma gated_stations:
  "project_station_m sample_geo [(Fin 0, Fin 0), (Fin 1, Fin 0)] [(Fin 0, Fin 0), (Fin 0, Fin 0)] = Inr [Fin 0, Fin 0]"
  by (simp add: project_station_m_def project_def project_point_def project_on_def seg_place_def
      np_argmin_def segments_def cum_arclen_def sample_seg)
    (simp add: sample_geo_simps np_cumsum_def)

lemma gated_spatial_window:
  "spatial_window sample_geo [(0, (Fin 0, Fin 0)), (sample_stamp, (Fin 0, Fin 0))] [(Fin 0, Fin 0), (Fin 1, Fin 0)]
     (Fin 0) (Fin 1) WARMUP_NS = Inr (sample_stamp, sample_stamp)"
  by (simp add: spatial_window_def gated_stations window_of_stations_def in_spatial_window_def wrap64_def Let_def
      WARMUP_NS_def)

abbreviation gated_main :: "pyval \<Rightarrow> run_files \<Rightarrow> int res \<times> run_files" where
  "gated_main branch \<equiv> quality_main exact_np sample_geo count_below (Inr (gated_cells branch)) gated_routes"

lemma gated_run_main:
  "\<exists>s. sample_quality (Fin 0) = Inr s \<and>
     gated_main (PStr ''absolute'') gated_run =
       (Ret 0, gated_run\<lparr>rf_quality := JDoc (quality_doc s (PStr ''closed-loop'') (sample_stamp, sample_stamp)
          (Some (20000000000, sample_stamp)) ''absolute'' (Fin 10))\<rparr>)"
proof -
  obtain s where s: "sample_quality (Fin 0) = Inr s" using sample_quality_runs [of "Fin 0"] by (auto simp: Let_def)
  have arm: "m_arm gated_manifest = PStr ''closed-loop''" by (simp add: gated_manifest_def)
  have hz: "py_float (PInt 10) = Inr (Fin 10)"
    by (simp add: py_float_def float_of_int_def rnd_int [of 10, simplified])
  have t: "topic_series [(Some k, g)] (PStr k) what = Inr g" for k g what
    by (simp add: topic_series_def lookup_group_def)
  have w: "static_window 0 sample_stamp WARMUP_NS = Inr (20000000000, sample_stamp)"
    by (simp add: static_window_def WARMUP_NS_def)
  show ?thesis
    using s
    by (simp add: quality_main_def build_quality_def gated_scored_manifest gated_registry t gated_pose gated_odometry gated_gt
        gated_route read_or_refuse_def resolve_window_sim_ns_def resolve_goal_window_sim_ns_def arm gated_spatial_window
        samples_def col_def zip_replicate hz w sample_quality_def)
qed

text \<open>The same run on a cell with no branch selected is refused.\<close>

lemma gated_run_refused: "gated_main PNone gated_run = (Ret EXIT_REFUSED, gated_run)"
  by (simp add: quality_main_def build_quality_def gated_scored_manifest gated_registry(1) resolve_ladder_def
      gated_metrics_def getitem_def)



section \<open>A frozen clock\<close>

text \<open>On an arm that is not closed-loop, a /clock series that never advances has no slope. The conversion of the
  window then fails with an exception that is not a refusal, although the file has the two rows the fit asks for.\<close>

definition frozen_run :: run_files where
  "frozen_run = bare_run\<lparr>rf_clock := CRows [[(''clock_ns'', Some ''5''), (''arrival_system_ns'', Some ''0'')],
     [(''clock_ns'', Some ''5''), (''arrival_system_ns'', Some ''20000000010'')]]\<rparr>"

lemma frozen_fit: "\<exists>b r. fit_sim_wall_affine exact_np [5, 5] [0, 20000000010] = Inr \<lparr>af_slope = NaN, af_intercept_ns = b,
    af_max_abs_residual_ns = r, af_n = 2\<rparr>"
  by (simp add: fit_sim_wall_affine_def Let_def shifted_def exact_np_def sum_f64_def i64_sub_def as_i64_def
        in_i64_def of_i64_def zero_f64_def rnd_numeral rnd_neg_numeral)

theorem frozen_clock_escapes:
  "\<exists>msg. resolve_window_sim_ns exact_np geo frozen_run (sample_manifest\<lparr>m_arm := PStr ''static''\<rparr>) odom r =
     Raise ValueError msg"
proof -
  have "py_int (PStr ''5'') = Inr 5" "py_int (PStr ''0'') = Inr 0" "py_int (PStr ''20000000010'') = Inr 20000000010"
    by (simp_all add: py_int_def parse_int_def strip_def is_space_def digit_of_def Let_def)
  then have "read_clock_csv (rf_clock frozen_run) = Inr ([5, 5], [0, 20000000010])"
    by (simp add: frozen_run_def read_clock_csv_def read_rows_def int_cell_def cell_value_def as_i64_def in_i64_def)
  moreover have "static_window 0 20000000010 WARMUP_NS = Inr (20000000000, 20000000010)"
    by (simp add: static_window_def WARMUP_NS_def)
  ultimately show ?thesis using frozen_fit
    by (auto simp: resolve_window_sim_ns_def read_or_refuse_def wall_to_sim_def py_round_def)
qed

end
