(* ===== verification/Duel_Sample.thy ===== *)
theory Duel_Sample
  imports Duel_Table Write_Quality
begin

text \<open>
  A duel evaluated from its files: three closed-loop runs a side, one metric, and a table whose row is parity. The
  theorems of \<open>Duel_Table\<close> are applied to it.
\<close>

definition duel_manifest :: run_manifest where
  "duel_manifest = sample_manifest\<lparr>m_arm := PStr ''closed-loop'', m_duel_admissible := PBool True, m_duel_id := PStr ''A+B''\<rparr>"

definition duel_clock :: csv_file where
  "duel_clock = CRows [[(''clock_ns'', Some ''0''), (''arrival_system_ns'', Some ''0'')],
     [(''clock_ns'', Some ''2''), (''arrival_system_ns'', Some ''2'')]]"

definition duel_resources :: csv_file where
  "duel_resources = CRows [[(''process'', Some ''sim''), (''sample_system_ns'', Some ''20000000005''), (''rss_bytes'', Some ''0''),
     (''vram_bytes'', Some ''0''), (''cpu_pct'', Some ''0''), (''gpu_util_pct'', Some ''0''), (''rtf'', Some ''0'')]]"

definition duel_run :: "string \<Rightarrow> run_files" where
  "duel_run name = bare_run
     \<lparr>rf_name := name, rf_manifest := JDoc (manifest_asdict duel_manifest), rf_clock := duel_clock,
      rf_resources := duel_resources, rf_odometry := rf_odometry gated_run\<rparr>"

definition duel_dir :: "run_files list" where
  "duel_dir = [duel_run ''run-1'', duel_run ''run-2'', duel_run ''run-3'']"

definition duel_routes :: "string \<Rightarrow> pyval option" where
  "duel_routes name = (case gated_routes name of Some (Inr doc) \<Rightarrow> Some doc | _ \<Rightarrow> None)"

definition duel_cells :: pyval where
  "duel_cells =
     (let metrics = PDict (map (\<lambda>k. (k, if k = ''cpu_process_label'' then PStr ''sim'' else PNone)) METRIC_KEYS);
          entry = (\<lambda>i. PDict [(''id'', PStr i), (''arms'', PList [PStr ''closed-loop'']), (''metrics'', metrics)])
      in PDict [(''cells'', PList [entry ''A'', entry ''B''])])"

definition duel_margins :: pyval where
  "duel_margins = PDict [(''carla_process_cpu_pct'', PDict [(''margin'', PFloat (Fin 10))]),
     (''collision_rate'', PDict [(''margin'', PFloat (Fin 1))])]"

definition duel_sample :: duel_inputs where
  "duel_sample = \<lparr>di_cell_a = ''A'', di_cell_b = ''B'', di_dir_a = duel_dir, di_dir_b = duel_dir, di_min_n = 10, di_arms = None\<rparr>"

section \<open>Its windows and values\<close>

lemma duel_clock_read: "read_clock_csv duel_clock = Inr ([0, 2], [0, 2])"
  by code_simp

lemma duel_fit: "\<exists>f. fit_sim_wall_affine exact_np [0, 2] [0, 2] = Inr f \<and> af_slope f = Fin 1 \<and> af_intercept_ns f = Fin 0"
  by (simp add: fit_sim_wall_affine_def Let_def shifted_def exact_np_def sum_f64_def i64_sub_def as_i64_def
      in_i64_def of_i64_def rnd_numeral rnd_neg_numeral zero_f64_def)

lemma duel_resources_read:
  "read_resources_csv duel_resources = Inr [(Some ''sim'',
     \<lparr>tc_ints = [(''sample_system_ns'', [20000000005]), (''rss_bytes'', [0]), (''vram_bytes'', [0])],
      tc_floats = [(''cpu_pct'', [Fin 0]), (''gpu_util_pct'', [Fin 0]), (''rtf'', [Fin 0]), (''loadavg_1m'', [NaN])]\<rparr>)]"
  by (simp add: duel_resources_def read_resources_csv_def read_rows_def group_rows_def group_step_def cell_simps
      add_resource_row_def empty_resource_def RESOURCE_INT_COLS_def RESOURCE_FLOAT_COLS_def
      RESOURCE_OPTIONAL_FLOAT_COLS_def optional_cell_def optional_float_def convert_groups_def convert_typed_def
      i64_columns_def as_i64_def in_i64_def)

lemma duel_route:
  "Duel_Verdict.load_route duel_routes (m_map_name duel_manifest) =
     Inr ([(Fin 0, Fin 0), (Fin 1, Fin 0)], Fin 0, Fin 1)"
  by code_simp

lemma duel_window:
  "\<exists>w. resolve_window exact_np sample_geo duel_routes (duel_run name) duel_manifest = Inr w \<and>
     rw_wall_lo w = sample_stamp \<and> rw_wall_hi w = sample_stamp"
proof -
  obtain f where f: "fit_sim_wall_affine exact_np [0, 2] [0, 2] = Inr f" "af_slope f = Fin 1" "af_intercept_ns f = Fin 0"
    using duel_fit by blast
  have arm: "m_arm duel_manifest = PStr ''closed-loop''" by (simp add: duel_manifest_def)
  have k: "rf_clock (duel_run name) = duel_clock" "rf_odometry (duel_run name) = rf_odometry gated_run"
    by (simp_all add: duel_run_def)
  have topic: "Duel_Verdict.ODOM_TOPIC = Write_Quality.ODOM_TOPIC" "Duel_Verdict.WARMUP_NS = Write_Quality.WARMUP_NS"
    by (simp_all add: Duel_Verdict.ODOM_TOPIC_def Write_Quality.ODOM_TOPIC_def Duel_Verdict.WARMUP_NS_def
        Write_Quality.WARMUP_NS_def)
  have "spatial_bounds sample_geo duel_routes (duel_run name) duel_manifest f =
      Inr (Fin 20000000005, Fin 20000000005, Fin 20000000005, Fin 20000000005)"
    using f(2,3) gated_spatial_window
    by (simp add: spatial_bounds_def k gated_odometry topic duel_route col_def of_i64_def rnd_numeral)
  moreover have "py_round (Fin 20000000005) = Inr 20000000005"
    by (simp add: py_round_def round_even_def)
  ultimately show ?thesis
    by (simp add: resolve_window_def k duel_clock_read f(1) arm round_window_def)
qed

lemma duel_value:
  assumes "rw_wall_lo w = sample_stamp" "rw_wall_hi w = sample_stamp"
  shows "extract_carla_process_cpu_pct exact_np (PStr ''sim'') (duel_run name) m w = Inr (Fin 0)"
proof -
  have "rf_resources (duel_run name) = duel_resources" by (simp add: duel_run_def)
  then show ?thesis using assms
    by (simp add: extract_carla_process_cpu_pct_def duel_resources_read lookup_group_def wall_mask_def col_def select_def
        exact_np_def)
qed

section \<open>Its rows\<close>

lemma duel_walk_records:
  "duel_walk exact_np sample_geo duel_routes duel_sample ''closed-loop'' duel_dir =
     empty_walk\<lparr>cw_records := map (\<lambda>name. record_run (resolve_window exact_np sample_geo duel_routes) (duel_run name)
       duel_manifest) [''run-1'', ''run-2'', ''run-3'']\<rparr>"
proof -
  have d: "run_dirs duel_dir = duel_dir" by (simp add: run_dirs_def duel_dir_def duel_run_def)
  have l: "load_manifest (rf_manifest (duel_run name)) = Inr duel_manifest" for name
    by (simp add: duel_run_def load_asdict)
  have j: "rf_manifest (duel_run name) \<noteq> JAbsent" for name by (simp add: duel_run_def)
  have a: "duel_admits (Some (duel_id ''A'' ''B'')) legacy (m_duel_id duel_manifest)" for legacy
    by (simp add: duel_admits_def duel_id_def duel_manifest_def)
  have m: "\<not> other_arm (Some ''closed-loop'') duel_manifest" "\<not> truthy (m_excluded duel_manifest)"
      "truthy (m_duel_admissible duel_manifest)"
    by (simp_all add: other_arm_def duel_manifest_def sample_manifest_def)
  show ?thesis
    by (simp add: duel_walk_def walk_cell_runs_def d) (simp add: duel_dir_def walk_step_def l j a m duel_sample_def empty_walk_def)
qed

lemma duel_values:
  "apply_extractor (extract_carla_process_cpu_pct exact_np (PStr ''sim''))
     (cw_records (duel_walk exact_np sample_geo duel_routes duel_sample ''closed-loop'' duel_dir)) =
   ([Fin 0, Fin 0, Fin 0], [])"
proof -
  let ?rec = "\<lambda>name. record_run (resolve_window exact_np sample_geo duel_routes) (duel_run name) duel_manifest"
  have "\<exists>w. rr_window (?rec name) = Some w \<and>
      extract_carla_process_cpu_pct exact_np (PStr ''sim'') (rr_dir (?rec name)) (rr_manifest (?rec name)) w = Inr (Fin 0)"
    for name using duel_window [of name] duel_value by (auto simp: record_run_def)
  then obtain w where w: "rr_window (?rec name) = Some (w name)"
    "extract_carla_process_cpu_pct exact_np (PStr ''sim'') (rr_dir (?rec name)) (rr_manifest (?rec name)) (w name) = Inr (Fin 0)"
    for name by metis
  show ?thesis by (simp add: duel_walk_records w)
qed

lemma bootstrap_exact:
  assumes "0 < n"
  shows "bootstrap_ci_median_diff exact_np [Fin 0, Fin 0, Fin 0] [Fin 0, Fin 0, Fin 0] n seed alpha = Inr (Fin 0, Fin 0)"
  using assms by (cases n) (simp_all add: bootstrap_ci_median_diff_def exact_np_def)

lemma duel_verdict_row:
  "\<exists>row. make_verdict_row exact_np BOOTSTRAP_ITERS BOOTSTRAP_SEED BOOTSTRAP_ALPHA ''carla_process_cpu_pct''
     [Fin 0, Fin 0, Fin 0] [Fin 0, Fin 0, Fin 0] (Fin 10) 10 c arm = Inr row \<and> vr_verdict row = ''parity''"
proof -
  have "0 < BOOTSTRAP_ITERS" by (simp add: BOOTSTRAP_ITERS_def)
  from bootstrap_exact [OF this] show ?thesis
    by (simp add: make_verdict_row_def Let_def equivalence_decision_def)
qed

lemma duel_bindings:
  "metrics_for duel_cells c = Inr ms \<Longrightarrow> c \<in> {''A'', ''B''} \<Longrightarrow>
     getitem (PDict ms) ''cpu_process_label'' = Inr (PStr ''sim'')"
  "\<exists>ms. metrics_for duel_cells ''A'' = Inr ms" "\<exists>ms. metrics_for duel_cells ''B'' = Inr ms"
proof -
  have m: "metrics_for duel_cells c = Inr (map (\<lambda>k. (k, if k = ''cpu_process_label'' then PStr ''sim'' else PNone)) METRIC_KEYS)"
    if "c \<in> {''A'', ''B''}" for c
    using that by (elim insertE emptyE) (simp only:, code_simp)+
  then show "\<exists>ms. metrics_for duel_cells ''A'' = Inr ms" "\<exists>ms. metrics_for duel_cells ''B'' = Inr ms" by auto
  assume "metrics_for duel_cells c = Inr ms" "c \<in> {''A'', ''B''}"
  with m [of c] show "getitem (PDict ms) ''cpu_process_label'' = Inr (PStr ''sim'')"
    by (auto simp: METRIC_KEYS_def getitem_def)
qed

lemma duel_arms: "table_arms duel_sample duel_cells = Inr [''closed-loop'']"
  by code_simp

lemma duel_table:
  "\<exists>t row. duel_tables_of exact_np sample_geo duel_routes duel_sample duel_margins duel_cells = Inr t \<and>
     row \<in> set (dt_rows t) \<and> vr_verdict row = ''parity''"
proof -
  obtain ma mb where ms: "metrics_for duel_cells ''A'' = Inr ma" "metrics_for duel_cells ''B'' = Inr mb"
    using duel_bindings(2,3) by blast
  let ?ex = "extract_carla_process_cpu_pct exact_np (PStr ''sim'')"
  have b: "bind_metrics exact_np ma mb
      [(''carla_process_cpu_pct'', PDict [(''margin'', PFloat (Fin 10))]), (''collision_rate'', PDict [(''margin'', PFloat (Fin 1))])] =
      Inr [(''carla_process_cpu_pct'', PDict [(''margin'', PFloat (Fin 10))], Some (Inl ?ex, Inl ?ex)),
           (''collision_rate'', PDict [(''margin'', PFloat (Fin 1))], None)]"
    using duel_bindings(1) [OF ms(1)] duel_bindings(1) [OF ms(2)]
    by (simp add: bind_metrics_def bind_metric_def METRIC_BINDERS_def bind_carla_process_cpu_pct_def)
  let ?w = "duel_walk exact_np sample_geo duel_routes duel_sample ''closed-loop'' duel_dir"
  obtain row where row: "make_verdict_row exact_np BOOTSTRAP_ITERS BOOTSTRAP_SEED BOOTSTRAP_ALPHA ''carla_process_cpu_pct''
     [Fin 0, Fin 0, Fin 0] [Fin 0, Fin 0, Fin 0] (Fin 10) 10 (counts_of_walks ?w ?w) ''closed-loop'' = Inr row"
    "vr_verdict row = ''parity''" using duel_verdict_row by blast
  have e: "cw_errors ?w = []" by (simp add: duel_walk_records empty_walk_def)
  have m: "metric_row exact_np 10 ''A'' ''B'' ''closed-loop'' ?w ?w
      (''carla_process_cpu_pct'', PDict [(''margin'', PFloat (Fin 10))], Inl ?ex, Inl ?ex) = Inr row"
    by (simp add: metric_row_def duel_values margin_of_def getitem_def row e)
  have "duel_tables_of exact_np sample_geo duel_routes duel_sample duel_margins duel_cells =
      Inr \<lparr>dt_rows = [row], dt_unbindable = [''collision_rate''], dt_reconciliation = []\<rparr>"
    unfolding duel_tables_of_def table_arms_def [symmetric] duel_arms
    by (simp add: ms duel_sample_def [THEN arg_cong, of di_cell_a] duel_sample_def [THEN arg_cong, of di_cell_b]
        duel_margins_def margin_items_def b unbindable_of_def arm_rows_def Let_def
        duel_sample_def [THEN arg_cong, of di_dir_a] duel_sample_def [THEN arg_cong, of di_dir_b]
        duel_sample_def [THEN arg_cong, of di_min_n] m)
  with row(2) show ?thesis by auto
qed

theorem one_row_per_arm_and_metric_witness:
  "\<exists>t. duel_tables_of exact_np sample_geo duel_routes duel_sample duel_margins duel_cells = Inr t \<and>
     map (\<lambda>r. (vr_arm r, vr_metric r)) (dt_rows t) = [(''closed-loop'', ''carla_process_cpu_pct'')] \<and>
     dt_unbindable t = [''collision_rate'']"
proof -
  obtain t where t: "duel_tables_of exact_np sample_geo duel_routes duel_sample duel_margins duel_cells = Inr t"
    using duel_table by blast
  from one_row_per_arm_and_metric [OF t] t show ?thesis by (auto simp: duel_arms duel_margins_def)
qed

theorem parity_is_earned_witness:
  "\<exists>row :: verdict_row. 3 \<le> vr_n_a row \<and> vr_verdict row = ''parity''"
proof -
  obtain t row where t: "duel_tables_of exact_np sample_geo duel_routes duel_sample duel_margins duel_cells = Inr t"
    "row \<in> set (dt_rows t)" "vr_verdict row = ''parity''" using duel_table by blast
  from parity_is_earned [OF t] t(3) show ?thesis by blast
qed

end
