(* ===== verification/GT_Anchor.thy ===== *)
theory GT_Anchor
  imports Py_Values
begin

text \<open>
  \<^verbatim>\<open>benchmarks/analysis/gt_anchor.py\<close>: where each approach puts \<open>base_link\<close> relative to the CARLA actor origin, the
  conversion of a ground-truth position, and the check of the registered offset against the approach's own source.
  The two regular expressions are written out; cosine and sine are parameters.

  The lemmas: the conversion is the identity for a zero offset; the check accepts a source exactly when its own
  literal is within the tolerance of the registered offset, and the extension's exactly when none of the removed
  symbols is back.
\<close>

definition GT_ANCHOR_OFFSET_M :: "(string \<times> f64) list" where
  "GT_ANCHOR_OFFSET_M =
     [(''extension'', Fin 0), (''tier4-native'', of_lit (- (139706787 / 100000000))),
      (''python-bridge'', of_lit (- (1425 / 1000))), (''calibration'', Fin 0)]"

definition EXTENSION_FORBIDDEN_SYMBOLS :: "string list" where
  "EXTENSION_FORBIDDEN_SYMBOLS =
     [''base_link_to_vehicle_center'', ''SAMPLE_VEHICLE_WHEELBASE'', ''ego_wheelbase'']"

definition OFFSET_MATCH_TOL_M :: f64 where "OFFSET_MATCH_TOL_M = of_lit (1 / 1000000000)"

definition offset_for_approach :: "string \<Rightarrow> f64 res" where
  "offset_for_approach approach =
     (case map_of GT_ANCHOR_OFFSET_M approach of
        Some v \<Rightarrow> Ret v
      | None \<Rightarrow> Raise KeyError ''no registered base_link anchor offset for approach'')"

definition base_link_from_actor_origin ::
  "(f64 \<Rightarrow> f64) \<Rightarrow> (f64 \<Rightarrow> f64) \<Rightarrow> f64 \<Rightarrow> f64 \<Rightarrow> f64 \<Rightarrow> f64 \<Rightarrow> f64 \<times> f64" where
  "base_link_from_actor_origin cos_f sin_f x_m y_m yaw_rad offset_m =
     (if f64_eq offset_m (Fin 0) then (x_m, y_m)
      else (x_m + offset_m * cos_f yaw_rad, y_m + offset_m * sin_f yaw_rad))"

section \<open>The patterns\<close>

definition after :: "string \<Rightarrow> string \<Rightarrow> string option" where
  "after p s = (if starts_with s p then Some (drop (length p) s) else None)"

text \<open>\<open>p\<close> after any white space.\<close>

definition after_space :: "string \<Rightarrow> string \<Rightarrow> string option" where
  "after_space p s = after p (dropWhile is_space s)"

definition decimal_digit :: "char \<Rightarrow> bool" where
  "decimal_digit c \<longleftrightarrow> digit_of c \<noteq> None"

text \<open>\<open>-?\d+(?:\.\d+)?\<close> at the start of a text.\<close>

definition number_at :: "string \<Rightarrow> string option" where
  "number_at s =
     (let sign = (if starts_with s ''-'' then ''-'' else []); r = drop (length sign) s;
          ip = takeWhile decimal_digit r; rest = dropWhile decimal_digit r; fp = takeWhile decimal_digit (drop 1 rest)
      in if ip = [] then None
         else Some (sign @ ip @ (if starts_with rest ''.'' \<and> fp \<noteq> [] then ''.'' @ fp else [])))"

definition demo_offset_at :: "string \<Rightarrow> string option" where
  "demo_offset_at s =
     Option.bind (after ''pivot_to_base_link_transform'' s) (\<lambda>s1.
     Option.bind (after_space ''='' s1) (\<lambda>s2. Option.bind (after_space ''ROS2.Transform('' s2) (\<lambda>s3.
     Option.bind (after_space ''x'' s3) (\<lambda>s4. Option.bind (after_space ''='' s4) (\<lambda>s5.
       number_at (dropWhile is_space s5))))))"

definition bridge_wheelbase_at :: "string \<Rightarrow> string option" where
  "bridge_wheelbase_at s =
     Option.bind (after ''DEFAULT_WHEELBASE'' s) (\<lambda>s1.
     Option.bind (case after_space '':'' s1 of Some r \<Rightarrow> Some r | None \<Rightarrow> after_space ''='' s1) (\<lambda>s2.
       number_at (dropWhile is_space s2)))"

text \<open>\<open>re.search\<close>: the first position where the pattern matches.\<close>

fun search_at :: "(string \<Rightarrow> string option) \<Rightarrow> string \<Rightarrow> string option" where
  "search_at m [] = m []"
| "search_at m (c # s) = (case m (c # s) of Some g \<Rightarrow> Some g | None \<Rightarrow> search_at m s)"

section \<open>The check\<close>

definition offset_from_demo_source :: "string \<Rightarrow> f64 res" where
  "offset_from_demo_source source_text =
     (case search_at demo_offset_at source_text of
        None \<Rightarrow> Raise ValueError ''autoware_demo.py has no assignment''
      | Some g \<Rightarrow> py_float (PStr g))"

definition offset_from_bridge_source :: "string \<Rightarrow> f64 res" where
  "offset_from_bridge_source source_text =
     (case search_at bridge_wheelbase_at source_text of
        None \<Rightarrow> Raise ValueError ''no DEFAULT_WHEELBASE assignment found''
      | Some g \<Rightarrow> bindE (py_float (PStr g)) (\<lambda>w. Ret (- w div Fin 2)))"

definition verify_registered_offset :: "string \<Rightarrow> string \<Rightarrow> unit res" where
  "verify_registered_offset approach source_text =
     bindE (offset_for_approach approach) (\<lambda>registered.
       let compare = (\<lambda>actual. if OFFSET_MATCH_TOL_M < abs (actual - registered)
             then Raise ValueError ''the registered anchor offset does not match its source'' else Ret ())
       in if approach = ''extension''
          then (if list_ex (has_infix source_text) EXTENSION_FORBIDDEN_SYMBOLS
                then Raise ValueError ''a removed symbol is back in the source'' else Ret ())
          else if approach = ''tier4-native'' then bindE (offset_from_demo_source source_text) compare
          else if approach = ''python-bridge'' then bindE (offset_from_bridge_source source_text) compare
          else Ret ())"

section \<open>What the check accepts\<close>

lemma zero_offset_identity: "base_link_from_actor_origin c s x y yaw (Fin 0) = (x, y)"
  by (simp add: base_link_from_actor_origin_def f64_eq_def)

section \<open>A matched literal always converts\<close>

lemma decimal_digit_iff: "decimal_digit c \<longleftrightarrow> 48 \<le> (of_char c :: nat) \<and> (of_char c :: nat) \<le> 57"
  by (simp add: decimal_digit_def digit_of_def Let_def)

lemma decimal_digit_char:
  assumes "decimal_digit c"
  shows "\<not> is_space c" "lower c = c" "c \<noteq> CHR ''.''" "c \<noteq> CHR ''e''" "c \<noteq> CHR ''-''" "c \<noteq> CHR ''+''" "c \<noteq> CHR ''i''" "c \<noteq> CHR ''n''"
proof -
  from assms have r: "48 \<le> (of_char c :: nat)" "(of_char c :: nat) \<le> 57" by (simp_all add: decimal_digit_iff)
  have ne: "c \<noteq> d" if "(of_char d :: nat) < 48 \<or> 57 < (of_char d :: nat)" for d using that r by auto
  show "c \<noteq> CHR ''.''" "c \<noteq> CHR ''e''" "c \<noteq> CHR ''-''" "c \<noteq> CHR ''+''" "c \<noteq> CHR ''i''" "c \<noteq> CHR ''n''"
    by (rule ne; simp)+
  have "c \<noteq> CHR '' ''" by (rule ne) simp
  with r show "\<not> is_space c" "lower c = c" by (auto simp: is_space_def lower_def Let_def)
qed

lemma scan_digits_Some:
  "list_all decimal_digit ds \<Longrightarrow> ds \<noteq> [] \<or> b \<Longrightarrow> \<exists>n. scan_digits acc b ds = Some n"
proof (induction ds arbitrary: acc b)
  case (Cons d ds)
  then obtain k where "digit_of d = Some k" by (auto simp: decimal_digit_def)
  with Cons show ?case by simp
qed simp

text \<open>The texts \<open>-?\d+(?:\.\d+)?\<close> matches.\<close>

definition decimal_literal :: "string \<Rightarrow> bool" where
  "decimal_literal g \<longleftrightarrow>
     (\<exists>sign ip tail. g = sign @ ip @ tail \<and> sign \<in> {[], ''-''} \<and> ip \<noteq> [] \<and> list_all decimal_digit ip \<and>
        (tail = [] \<or> (\<exists>fp. tail = CHR ''.'' # fp \<and> fp \<noteq> [] \<and> list_all decimal_digit fp)))"

lemma number_at_literal: "number_at s = Some g \<Longrightarrow> decimal_literal g"
proof -
  assume n: "number_at s = Some g"
  define sign where "sign = (if starts_with s ''-'' then ''-'' else [])"
  define r where "r = drop (length sign) s"
  define ip where "ip = takeWhile decimal_digit r"
  define fp where "fp = takeWhile decimal_digit (drop 1 (dropWhile decimal_digit r))"
  from n have ip: "ip \<noteq> []" and "g = sign @ ip @ (if starts_with (dropWhile decimal_digit r) ''.'' \<and> fp \<noteq> [] then ''.'' @ fp else [])"
    by (auto simp: number_at_def Let_def sign_def r_def ip_def fp_def split: if_split_asm)
  moreover have "list_all decimal_digit ip" "list_all decimal_digit fp"
    by (auto simp: ip_def fp_def list_all_iff dest: set_takeWhileD)
  moreover have "sign \<in> {[], ''-''}" by (simp add: sign_def)
  moreover define tail where "tail = (if starts_with (dropWhile decimal_digit r) ''.'' \<and> fp \<noteq> [] then ''.'' @ fp else [])"
  ultimately have "g = sign @ ip @ tail \<and> sign \<in> {[], ''-''} \<and> ip \<noteq> [] \<and> list_all decimal_digit ip \<and>
      (tail = [] \<or> (\<exists>fp. tail = CHR ''.'' # fp \<and> fp \<noteq> [] \<and> list_all decimal_digit fp))"
    by simp
  then show ?thesis unfolding decimal_literal_def by blast
qed

lemma strip_id: "s \<noteq> [] \<Longrightarrow> \<not> is_space (hd s) \<Longrightarrow> \<not> is_space (last s) \<Longrightarrow> strip s = s"
proof -
  assume s: "s \<noteq> []" "\<not> is_space (hd s)" "\<not> is_space (last s)"
  have keep: "dropWhile is_space t = t" if "\<not> is_space (hd t)" for t using that by (cases t) auto
  from s have "\<not> is_space (hd (rev s))" by (simp add: hd_rev)
  with keep s(2) show ?thesis by (simp add: strip_def)
qed

lemma split_sign_digit: "c \<noteq> CHR ''-'' \<Longrightarrow> c \<noteq> CHR ''+'' \<Longrightarrow> split_sign (c # s) = (False, c # s)"
  by (cases "c # s" rule: split_sign.cases) auto

lemma literal_converts:
  assumes "decimal_literal g"
  shows "\<exists>x. py_float (PStr g) = Inr x"
proof -
  from assms obtain sign ip tail where g: "g = sign @ ip @ tail" "sign \<in> {[], ''-''}" "ip \<noteq> []" "list_all decimal_digit ip"
    and tail: "tail = [] \<or> (\<exists>fp. tail = CHR ''.'' # fp \<and> fp \<noteq> [] \<and> list_all decimal_digit fp)"
    unfolding decimal_literal_def by blast
  let ?body = "ip @ tail"
  obtain c cs where ip: "ip = c # cs" "decimal_digit c" using g(3,4) by (cases ip) auto
  note c = decimal_digit_char [OF ip(2)]
  have chars: "decimal_digit d \<or> d = CHR ''.''" if "d \<in> set ?body" for d
    using that g(4) tail by (auto simp: list_all_iff)
  have low: "map lower ?body = ?body"
  proof (rule map_idI)
    have dot: "lower (CHR ''.'') = CHR ''.''" by code_simp
    fix d assume "d \<in> set ?body"
    from chars [OF this] show "lower d = d" using decimal_digit_char(2) dot by blast
  qed
  have "last ?body \<in> set ?body" using g(3) by (intro last_in_set) simp
  moreover have "\<not> is_space (CHR ''.'')" by code_simp
  ultimately have "\<not> is_space (last ?body)" using chars [of "last ?body"] decimal_digit_char(1) by metis
  moreover have "last g = last ?body" using g(1,3) by simp
  moreover have "\<not> is_space (hd g)" using g(1,2) c(1) by (auto simp: ip(1) is_space_def)
  ultimately have st: "strip g = g" using g(1,3) by (intro strip_id) auto
  have sp: "\<exists>neg. split_sign g = (neg, ?body)"
    using g(1,2) c(5,6) by (auto simp: ip(1) split_sign_digit)
  have noe: "CHR ''e'' \<notin> set ?body" using chars decimal_digit_char(4) by auto
  then have e: "takeWhile (\<lambda>c. c \<noteq> CHR ''e'') ?body = ?body" "dropWhile (\<lambda>c. c \<noteq> CHR ''e'') ?body = []"
    by (auto simp: takeWhile_eq_all_conv dropWhile_eq_Nil_conv)
  have nodot: "\<forall>d \<in> set ip. d \<noteq> CHR ''.''" using g(4) decimal_digit_char(3) by (auto simp: list_all_iff)
  have parts: "takeWhile (\<lambda>c. c \<noteq> CHR ''.'') ?body = ip" "dropWhile (\<lambda>c. c \<noteq> CHR ''.'') ?body = tail"
    using tail by (auto simp: takeWhile_append2 [of ip, OF nodot [rule_format]] dropWhile_append2 [of ip, OF nodot [rule_format]]
        simp del: takeWhile_append dropWhile_append)
  have "\<exists>n. scan_digits 0 False ip = Some n" using scan_digits_Some [OF g(4)] g(3) by blast
  moreover have "\<exists>n. (if drop 1 tail = [] then Some 0 else scan_digits 0 False (drop 1 tail)) = Some n"
    using tail scan_digits_Some by auto
  ultimately have m: "\<exists>q. parse_mantissa ?body = Some q"
    using g(3) unfolding parse_mantissa_def Let_def parts by auto
  have "?body \<noteq> ''inf''" "?body \<noteq> ''infinity''" "?body \<noteq> ''nan''" using c(7,8) by (auto simp: ip(1))
  moreover obtain neg q where "split_sign g = (neg, ?body)" "parse_mantissa ?body = Some q" using sp m by blast
  ultimately have "parse_float g = Some (rnd ((if neg then - q else q) * 10 powi 0))"
    unfolding parse_float_def Let_def st by (simp only: prod.case low e if_False if_True option.case simp_thms)
  then show ?thesis by (simp add: py_float_def)
qed

lemma search_at_match: "search_at m s = Some g \<Longrightarrow> \<exists>u. m u = Some g"
  by (induction s) (auto split: option.split_asm)

lemma demo_literal: "demo_offset_at u = Some g \<Longrightarrow> decimal_literal g"
  by (auto simp: demo_offset_at_def bind_eq_Some_conv dest: number_at_literal)

lemma bridge_literal: "bridge_wheelbase_at u = Some g \<Longrightarrow> decimal_literal g"
  by (auto simp: bridge_wheelbase_at_def bind_eq_Some_conv dest: number_at_literal)


text \<open>The line of the demo the registry quotes is accepted.\<close>

lemma quoted_line_accepted:
  "verify_registered_offset ''tier4-native'' ''pivot_to_base_link_transform = ROS2.Transform(x=-1.39706787)'' = Inr ()"
proof -
  have f: "search_at demo_offset_at ''pivot_to_base_link_transform = ROS2.Transform(x=-1.39706787)'' = Some ''-1.39706787''"
    by code_simp
  have m: "parse_mantissa ''1.39706787'' = Some (139706787 / 100000000)" "map lower ''1.39706787'' = ''1.39706787''"
      "split_sign (strip ''-1.39706787'') = (True, ''1.39706787'')"
    by (simp_all add: parse_mantissa_def digit_of_def Let_def lower_def strip_def is_space_def)
  then have p: "py_float (PStr ''-1.39706787'') = Inr (of_lit (- (139706787 / 100000000)))"
    by (simp add: py_float_def parse_float_def Let_def del: list.map)
  have "\<bar>- (139706787 / 100000000) :: rat\<bar> \<le> 2 ^ 53" by simp
  from rnd_small [OF this] obtain q where q: "of_lit (- (139706787 / 100000000)) = Fin q" by auto
  have "0 \<le> OFFSET_MATCH_TOL_M"
    using rnd_mono [of 0 "1 / 1000000000"] by (simp add: OFFSET_MATCH_TOL_M_def zero_f64_def)
  moreover have "\<not> t < Fin 0" if "0 \<le> t" for t :: f64
    using that by (cases t) (auto simp: zero_f64_def)
  ultimately have "\<not> OFFSET_MATCH_TOL_M < abs (Fin q - Fin q)" by simp
  with p show ?thesis
    by (simp add: verify_registered_offset_def offset_for_approach_def GT_ANCHOR_OFFSET_M_def offset_from_demo_source_def f
        q Let_def del: search_at.simps)
qed

end
