(* ===== verification/Bundle_Pin.thy ===== *)
theory Bundle_Pin
  imports Py_Values
begin

text \<open>
  \<^verbatim>\<open>benchmarks/scripts/bundle_pin.py\<close>: which pinned map bundle is installed, decided by content hash. The digest of
  the file (\<open>hashlib\<close>), whether the file is there and what loading pins.yaml gives are parameters.

  The lemmas: the tool's verdict is decided by the number of registered candidates of the directory that carry the
  digest; it names a pin only when exactly one does, skips exactly the directories without a registration and refuses
  the rest; a pin block that is missing or malformed cannot hide a match.
\<close>

definition BUNDLE_REGISTRY :: "(string \<times> string list) list" where
  "BUNDLE_REGISTRY =
     [(''town10-shifted'', [''town10_pcd_shifted'', ''town10_pcd_refit'']),
      (''town10-regen'', [''town10_pcd_regen'']),
      (''town10'', [''autoware_contents.town10_pcd_sha256'']),
      (''nishishinjuku'', [''nishishinjuku_bundle.pcd_sha256''])]"

definition APPROACH_BUNDLE_DIR :: "(string \<times> string option) list" where
  "APPROACH_BUNDLE_DIR = [(''python-bridge'', Some ''town10''), (''calibration'', None)]"

definition EXIT_FAIL :: int where "EXIT_FAIL = 2"

definition EXIT_UNREGISTERED :: int where "EXIT_UNREGISTERED = 3"

text \<open>\<open>key.partition(".")\<close>, with \<open>sha256\<close> for an empty field.\<close>

definition key_path :: "string \<Rightarrow> string \<times> string" where
  "key_path key =
     (let field = drop 1 (dropWhile (\<lambda>c. c \<noteq> CHR ''.'') key)
      in (takeWhile (\<lambda>c. c \<noteq> CHR ''.'') key, if field = [] then ''sha256'' else field))"

definition pin_digest :: "pyval \<Rightarrow> string \<Rightarrow> string option res" where
  "pin_digest pins key =
     (case key_path key of (block, field) \<Rightarrow>
        bindE (get_or pins block PNone) (\<lambda>entry.
          Ret (case entry of
                 PDict d \<Rightarrow> (case map_of d field of Some (PStr s) \<Rightarrow> Some s | _ \<Rightarrow> None)
               | _ \<Rightarrow> None)))"

definition matching_keys :: "pyval \<Rightarrow> string \<Rightarrow> string list \<Rightarrow> string list res" where
  "matching_keys pins digest keys =
     bindE (mapE (\<lambda>k. bindE (pin_digest pins k) (\<lambda>v. Ret (k, v))) keys) (\<lambda>kvs.
       Ret (map fst (filter (\<lambda>(k, v). v = Some digest) kvs)))"

definition installed_bundle_key :: "pyval \<Rightarrow> string \<Rightarrow> string list \<Rightarrow> string res" where
  "installed_bundle_key pins digest keys =
     bindE (matching_keys pins digest keys) (\<lambda>matches.
       case matches of
         [k] \<Rightarrow> Ret k
       | [] \<Rightarrow> Raise BundlePinError ''matches none of the registered pins''
       | _ \<Rightarrow> Raise BundlePinError ''matches MORE THAN ONE pin'')"

definition bundle_key_for_dir :: "pyval \<Rightarrow> string \<Rightarrow> string \<Rightarrow> string res" where
  "bundle_key_for_dir pins bundle_dir digest =
     (case map_of BUNDLE_REGISTRY bundle_dir of
        Some (k # ks) \<Rightarrow> installed_bundle_key pins digest (k # ks)
      | _ \<Rightarrow> Raise BundleNotRegistered ''no pin block is registered for bundle directory'')"

text \<open>The parsed arguments: the installed file, the \<open>--bundle-dir\<close> override and the name of the file's directory.\<close>

record pin_args =
  pa_pcd :: string
  pa_bundle_dir :: "string option"
  pa_parent_name :: string

definition bundle_dir_of :: "pin_args \<Rightarrow> string" where
  "bundle_dir_of a =
     (case pa_bundle_dir a of Some d \<Rightarrow> if d = [] then pa_parent_name a else d | None \<Rightarrow> pa_parent_name a)"

text \<open>The exit status with what is printed on standard output.\<close>

definition bundle_main :: "pin_args \<Rightarrow> (string \<Rightarrow> bool) \<Rightarrow> (string \<Rightarrow> string res) \<Rightarrow> pyval res \<Rightarrow> (int \<times> string option) res" where
  "bundle_main a is_file sha256_file pins_yaml =
     (if \<not> is_file (pa_pcd a) then Ret (EXIT_FAIL, None)
      else
        bindE pins_yaml (\<lambda>pins.
        catchE [BundlePinError] (\<lambda>_. Ret (EXIT_FAIL, None))
          (catchE [BundleNotRegistered] (\<lambda>_. Ret (EXIT_UNREGISTERED, None))
            (bindE (sha256_file (pa_pcd a)) (\<lambda>digest.
             bindE (bundle_key_for_dir pins (bundle_dir_of a) digest) (\<lambda>key. Ret (0, Some key)))))))"

section \<open>The verdict\<close>

text \<open>The digest a key path names in the document.\<close>

definition pinned :: "(string \<times> pyval) list \<Rightarrow> string \<Rightarrow> string option" where
  "pinned d key =
     (case map_of d (fst (key_path key)) of
        Some (PDict b) \<Rightarrow> (case map_of b (snd (key_path key)) of Some (PStr s) \<Rightarrow> Some s | _ \<Rightarrow> None)
      | _ \<Rightarrow> None)"

definition candidates :: "(string \<times> pyval) list \<Rightarrow> string \<Rightarrow> string \<Rightarrow> string list" where
  "candidates d bundle_dir digest =
     (case map_of BUNDLE_REGISTRY bundle_dir of
        None \<Rightarrow> [] | Some keys \<Rightarrow> filter (\<lambda>k. pinned d k = Some digest) keys)"

lemma pin_digest_dict: "pin_digest (PDict d) key = Inr (pinned d key)"
  by (simp add: pin_digest_def pinned_def get_or_def split_beta split: option.split pyval.split)

lemma matching_keys_dict: "matching_keys (PDict d) digest keys = Inr (filter (\<lambda>k. pinned d k = Some digest) keys)"
proof -
  have "matching_keys (PDict d) digest keys =
      Inr (map fst (filter (\<lambda>(k, v). v = Some digest) (map (\<lambda>k. (k, pinned d k)) keys)))"
    by (simp add: matching_keys_def pin_digest_dict mapE_pure)
  also have "map fst (filter (\<lambda>(k, v). v = Some digest) (map (\<lambda>k. (k, pinned d k)) keys)) =
      filter (\<lambda>k. pinned d k = Some digest) keys"
    by (induction keys) simp_all
  finally show ?thesis .
qed

lemma registry_keys: "map_of BUNDLE_REGISTRY dir = Some keys \<Longrightarrow> keys \<noteq> []"
  by (auto simp: BUNDLE_REGISTRY_def split: if_split_asm)

lemma bundle_key_cases:
  "bundle_key_for_dir (PDict d) dir digest =
     (if map_of BUNDLE_REGISTRY dir = None
      then Raise BundleNotRegistered ''no pin block is registered for bundle directory''
      else case candidates d dir digest of
        [k] \<Rightarrow> Ret k
      | [] \<Rightarrow> Raise BundlePinError ''matches none of the registered pins''
      | _ \<Rightarrow> Raise BundlePinError ''matches MORE THAN ONE pin'')"
proof (cases "map_of BUNDLE_REGISTRY dir")
  case None
  then show ?thesis by (simp add: bundle_key_for_dir_def)
next
  case (Some keys)
  with registry_keys [OF Some] obtain k ks where keys: "keys = k # ks" by (cases keys) auto
  with Some show ?thesis
    by (simp add: bundle_key_for_dir_def installed_bundle_key_def matching_keys_dict candidates_def)
qed

text \<open>C24: The verdict is a matter of counting: for a file that is there and a readable pins.yaml, the tool prints a key and
  exits 0 exactly when one registered candidate of the bundle's directory carries the digest, and prints that one; it
  exits 3 exactly when the directory has no registration; otherwise (no match, or several) it exits 2. It never ends in
  an exception.\<close>

theorem bundle_verdict_counts:
  assumes "is_file (pa_pcd a)" "sha256_file (pa_pcd a) = Inr digest"
  shows "bundle_main a is_file sha256_file (Ret (PDict d)) =
    (case map_of BUNDLE_REGISTRY (bundle_dir_of a) of
       None \<Rightarrow> Inr (3, None)
     | Some keys \<Rightarrow>
         if length (filter (\<lambda>k. pinned d k = Some digest) keys) = 1
         then Inr (0, Some (hd (filter (\<lambda>k. pinned d k = Some digest) keys))) else Inr (2, None))"
  using assms
  by (auto simp: bundle_main_def bundle_key_cases candidates_def catchE_def exc_isa_def EXIT_FAIL_def EXIT_UNREGISTERED_def
      split: option.split list.split)

text \<open>A pin printed for one directory is printed for no other: the registrations have no key in common.\<close>

lemma registry_disjoint:
  assumes "map_of BUNDLE_REGISTRY dir = Some keys" "map_of BUNDLE_REGISTRY dir' = Some keys'" "dir \<noteq> dir'"
  shows "set keys \<inter> set keys' = {}"
  using assms by (auto simp: BUNDLE_REGISTRY_def split: if_split_asm)

text \<open>The launcher table and the registry agree: every directory a launcher mounts has a registration.\<close>

lemma launchers_registered:
  "map_of APPROACH_BUNDLE_DIR approach = Some (Some dir) \<Longrightarrow> map_of BUNDLE_REGISTRY dir \<noteq> None"
  by (auto simp: APPROACH_BUNDLE_DIR_def BUNDLE_REGISTRY_def split: if_split_asm)

text \<open>The shifted Town10 bundle, with its refit block missing from pins.yaml.\<close>

definition shifted_args :: pin_args where
  "shifted_args = \<lparr>pa_pcd = ''pointcloud_map.pcd'', pa_bundle_dir = None, pa_parent_name = ''town10-shifted''\<rparr>"

theorem bundle_verdict_counts_witness:
  "bundle_main shifted_args (\<lambda>_. True) (\<lambda>_. Ret ''ab12'')
     (Ret (PDict [(''town10_pcd_shifted'', PDict [(''sha256'', PStr ''ab12'')])])) =
     Inr (0, Some ''town10_pcd_shifted'')"
proof -
  have dir: "bundle_dir_of shifted_args = ''town10-shifted''" by (simp add: bundle_dir_of_def shifted_args_def)
  show ?thesis
    by (subst bundle_verdict_counts [where digest = "''ab12''"])
      (simp_all add: dir BUNDLE_REGISTRY_def pinned_def key_path_def)
qed

end
