(* ===== verification/Report.thy ===== *)
theory Report
  imports Run_Dir Timing Cadence Py_Arith
begin

text \<open>
  \<^verbatim>\<open>benchmarks/report.py\<close>: the per-cell summaries of a results tree. \<open>summarize_run\<close> is strict, \<open>render_cell\<close> turns
  a failing run into a row of the table, \<open>main\<close> prints the tables and fails when a row reports a failure that no
  exclusion explains. The cell directories come sorted, as \<open>main\<close> walks them.

  The lemmas: what the run directories say decides the exit status, as long as no name, topic or message holds one of
  the two markers the tool searches its own output for; and a message that does hides a failure.
\<close>

record topic_summary =
  ts_hz :: f64
  ts_p95_ms :: f64
  ts_n :: nat
  ts_one_hop_p50_ms :: f64
  ts_one_hop_p99_ms :: f64
  ts_bytes_per_s :: f64

record run_summary =
  rs_manifest :: run_manifest
  rs_fit_slope :: f64
  rs_fit_residual_ns :: f64
  rs_topics :: "(cell \<times> topic_summary) list"

definition summarize_topic :: "'g np_ops \<Rightarrow> affine_fit \<Rightarrow> int columns \<Rightarrow> topic_summary res" where
  "summarize_topic np fit cols =
     (let arrivals = col cols ''arrival_system_ns''
      in bindE (inter_arrival_stats np arrivals) (\<lambda>cad.
         let hop = one_hop_wall_ms (col cols ''header_stamp_ns'') arrivals fit;
             span_s = of_i64 (i64_sub (Max (set arrivals)) (Min (set arrivals))) div Fin 1000000000
         in Ret \<lparr>ts_hz = cs_hz cad, ts_p95_ms = cs_p95_ms cad, ts_n = cs_n cad,
                 ts_one_hop_p50_ms = np_percentile np hop (Fin 50), ts_one_hop_p99_ms = np_percentile np hop (Fin 99),
                 ts_bytes_per_s = of_i64 (wrap64 (sum_list (col cols ''size_bytes''))) div span_s\<rparr>))"

definition summarize_run :: "'g np_ops \<Rightarrow> pyval \<Rightarrow> run_files \<Rightarrow> run_summary res" where
  "summarize_run np cells_doc run_dir =
     bindE (load_manifest (rf_manifest run_dir)) (\<lambda>manifest.
     bindE (manifest_validate cells_doc manifest) (\<lambda>errs.
       if errs \<noteq> [] then Raise ValueError (''invalid manifest manifest.json: '' @ join ''; '' errs)
       else
         bindE (read_clock_csv (rf_clock run_dir)) (\<lambda>(clock_ns, clock_wall).
         bindE (fit_sim_wall_affine np clock_ns clock_wall) (\<lambda>fit.
         bindE (read_observer_csv (rf_observer run_dir)) (\<lambda>groups.
         bindE (mapE (\<lambda>(topic, cols). bindE (summarize_topic np fit cols) (\<lambda>t. Ret (topic, t))) groups) (\<lambda>topics.
           Ret \<lparr>rs_manifest = manifest, rs_fit_slope = af_slope fit, rs_fit_residual_ns = af_max_abs_residual_ns fit,
                rs_topics = topics\<rparr>))))))"

definition best_effort_excluded :: "run_files \<Rightarrow> bool" where
  "best_effort_excluded run_dir =
     (case load_manifest (rf_manifest run_dir) of Inl _ \<Rightarrow> False | Inr m \<Rightarrow> truthy (m_excluded m))"

definition run_label :: "string \<Rightarrow> bool \<Rightarrow> string" where
  "run_label name excluded = (if excluded then name @ '' (EXCLUDED)'' else name)"

text \<open>The message in a cell of the table: no column separator, no line feed.\<close>

definition failure_text :: "exc \<Rightarrow> string" where
  "failure_text e = replace_char (CHR 0x0A) '' '' (replace_char (CHR ''|'') [CHR 0x5C, CHR ''|''] (exc_text e))"

definition failed_line :: "string \<Rightarrow> exc \<Rightarrow> string" where
  "failed_line label e = ''| '' @ label @ '' | RENDER FAILED: '' @ failure_text e @ '' | - | - | - | - | - |''"

definition topic_line :: "string \<Rightarrow> cell \<Rightarrow> topic_summary \<Rightarrow> string" where
  "topic_line label topic t =
     ''| '' @ label @ '' | '' @ (case topic of None \<Rightarrow> ''None'' | Some s \<Rightarrow> s) @ '' | '' @ fmt_fixed 2 (ts_hz t) @ '' | '' @
     fmt_fixed 2 (ts_p95_ms t) @ '' | '' @ fmt_fixed 2 (ts_one_hop_p50_ms t) @ '' | '' @
     fmt_fixed 2 (ts_one_hop_p99_ms t) @ '' | '' @ fmt_fixed 2 (ts_bytes_per_s t div Fin 1000000) @ '' |''"

text \<open>The rows of one run. Sorting the topics is outside the \<open>try\<close>: it raises when a missing topic meets a text.\<close>

definition run_lines :: "'g np_ops \<Rightarrow> pyval \<Rightarrow> run_files \<Rightarrow> string list res" where
  "run_lines np cells_doc run_dir =
     (case summarize_run np cells_doc run_dir of
        Inl e \<Rightarrow> Ret [failed_line (run_label (rf_name run_dir) (best_effort_excluded run_dir)) e]
      | Inr s \<Rightarrow>
          bindE (sorted_cells (map fst (rs_topics s))) (\<lambda>topics.
            Ret (map (\<lambda>topic. topic_line (run_label (rf_name run_dir) (truthy (m_excluded (rs_manifest s)))) topic
                                (the (map_of (rs_topics s) topic))) topics)))"

definition cell_header :: "string \<Rightarrow> string list" where
  "cell_header cell =
     [''## Cell '' @ cell, [],
      ''| run | topic | hz | p95 ms | 1-hop p50 ms | 1-hop p99 ms | MB/s |'', ''|---|---|---|---|---|---|---|'']"

definition render_cell :: "'g np_ops \<Rightarrow> pyval \<Rightarrow> string \<Rightarrow> run_files list \<Rightarrow> string res" where
  "render_cell np cells_doc cell cell_dir =
     bindE (mapE (run_lines np cells_doc) (run_dirs cell_dir)) (\<lambda>rows.
       Ret (join [CHR 0x0A] (cell_header cell @ concat rows)))"

text \<open>The rows \<open>main\<close> takes for an unexplained failure.\<close>

definition unexplained :: "string \<Rightarrow> bool" where
  "unexplained line \<longleftrightarrow> has_infix line ''RENDER FAILED'' \<and> \<not> has_infix line ''(EXCLUDED)''"

text \<open>The exit status with the texts printed.\<close>

definition report_main :: "'g np_ops \<Rightarrow> pyval \<Rightarrow> (string \<times> run_files list) list \<Rightarrow> (int \<times> string list) res" where
  "report_main np cells_doc results =
     bindE (mapE (\<lambda>(cell, cell_dir). render_cell np cells_doc cell cell_dir) results) (\<lambda>pages.
       Ret (if list_ex (\<lambda>t. list_ex unexplained (splitlines t)) pages then 1 else 0, pages))"

section \<open>Searching a text\<close>

lemma has_infix_Cons: "p \<noteq> [] \<Longrightarrow> hd p \<noteq> c \<Longrightarrow> has_infix (c # s) p \<longleftrightarrow> has_infix s p"
  by (cases p) auto

lemma has_infix_whole: "has_infix (a @ p @ b) p"
  by (auto simp: has_infix_iff)

lemma has_infix_empty [simp]: "has_infix s []"
  by (cases s) auto

text \<open>A character the pattern does not hold separates a text.\<close>

lemma starts_with_sep: "c \<notin> set p \<Longrightarrow> starts_with (a @ c # b) p \<longleftrightarrow> starts_with a p"
  by (induction a p rule: starts_with.induct) auto

lemma has_infix_sep:
  "p \<noteq> [] \<Longrightarrow> c \<notin> set p \<Longrightarrow> has_infix (a @ c # b) p \<longleftrightarrow> has_infix a p \<or> has_infix b p"
proof (induction a)
  case Nil
  then show ?case by (cases p) auto
next
  case (Cons d a)
  with starts_with_sep [of c p "d # a" b] show ?case by auto
qed

lemma has_infix_snoc:
  assumes "p \<noteq> []" "last p \<noteq> c"
  shows "has_infix (s @ [c]) p \<longleftrightarrow> has_infix s p"
proof
  assume "has_infix (s @ [c]) p"
  then obtain a b where ab: "s @ [c] = a @ p @ b" by (auto simp: has_infix_iff)
  show "has_infix s p"
  proof (cases b rule: rev_cases)
    case Nil
    with ab have "last (s @ [c]) = last (a @ p)" by simp
    with assms show ?thesis by simp
  next
    case (snoc b' d)
    with ab have "s = a @ p @ b'" by simp
    then show ?thesis by (auto simp: has_infix_iff)
  qed
next
  assume "has_infix s p"
  then obtain a b where "s = a @ p @ b" by (auto simp: has_infix_iff)
  then have "s @ [c] = a @ p @ (b @ [c])" by simp
  then show "has_infix (s @ [c]) p" unfolding has_infix_iff by blast
qed

lemma has_infix_chars: "has_infix s p \<Longrightarrow> set p \<subseteq> set s"
  by (auto simp: has_infix_iff)

lemma has_infix_trans: "has_infix s t \<Longrightarrow> has_infix t p \<Longrightarrow> has_infix s p"
  unfolding has_infix_iff by (metis append.assoc)

section \<open>Lines of a joined text\<close>

lemma split_lines_append:
  "split_lines cur (s @ CHR 0x0A # t) = split_lines cur (s @ [CHR 0x0A]) @ split_lines [] t"
proof (induction cur s rule: split_lines.induct)
  case (1 cur)
  have "is_linebreak (CHR 0x0A)" by (simp add: is_linebreak_def)
  then show ?case by simp
next
  case (2 cur c s)
  then show ?case by (cases s) auto
qed

lemma split_lines_last:
  "(s = [] \<longrightarrow> cur \<noteq> []) \<Longrightarrow> (s \<noteq> [] \<longrightarrow> \<not> is_linebreak (last s)) \<Longrightarrow>
     split_lines cur (s @ [CHR 0x0A]) = split_lines cur s"
proof (induction cur s rule: split_lines.induct)
  case (1 cur)
  have "is_linebreak (CHR 0x0A)" by (simp add: is_linebreak_def)
  with 1 show ?case by simp
next
  case (2 cur c s)
  show ?case
  proof (cases "is_linebreak c")
    case True
    with "2.prems" have s: "s \<noteq> []" "\<not> is_linebreak (last s)" by (auto split: if_split_asm)
    have "\<not> (hd s = CHR 0x0A \<and> tl s = [])"
    proof
      assume "hd s = CHR 0x0A \<and> tl s = []"
      with s(1) have "s = [CHR 0x0A]" by (metis list.collapse)
      with s(2) show False by (simp add: is_linebreak_def)
    qed
    with s "2.IH"(1) [OF True] True show ?thesis by (cases s) auto
  next
    case False
    from "2.IH"(2) [OF False] "2.prems" False show ?thesis by (cases s) auto
  qed
qed

lemma split_lines_plain: "list_all (\<lambda>c. \<not> is_linebreak c) p \<Longrightarrow> split_lines cur (p @ s) = split_lines (rev p @ cur) s"
  by (induction p arbitrary: cur) auto

lemma split_lines_infix: "x \<in> set (split_lines cur s) \<Longrightarrow> has_infix (rev cur @ s) x"
proof (induction cur s rule: split_lines.induct)
  case (1 cur)
  then have "x = rev cur" by (simp split: if_split_asm)
  then show ?case using has_infix_whole [of "[]" "rev cur" "[]"] by simp
next
  case (2 cur c s)
  show ?case
  proof (cases "is_linebreak c")
    case True
    let ?r = "if c = CHR 0x0D \<and> s \<noteq> [] \<and> hd s = CHR 0x0A then tl s else s"
    from True "2.prems" consider "x = rev cur" | "x \<in> set (split_lines [] ?r)" by auto
    then show ?thesis
    proof cases
      case 1
      then show ?thesis using has_infix_whole [of "[]" "rev cur" "c # s"] by simp
    next
      case 2
      from "2.IH"(1) [OF True this] have "has_infix ?r x" by simp
      moreover have "\<exists>a. s = a @ ?r" by (cases s) auto
      then have "has_infix (rev cur @ c # s) ?r" unfolding has_infix_iff by (metis append.assoc append_Cons append_Nil2)
      ultimately show ?thesis by (rule has_infix_trans [rotated])
    qed
  next
    case False
    with "2.IH"(2) [OF False] "2.prems" show ?thesis by simp
  qed
qed

text \<open>What \<open>main\<close> finds in one line of the table: the pieces of the line, when a message breaks it.\<close>

definition pieces :: "string \<Rightarrow> string list" where
  "pieces line = split_lines [] (line @ [CHR 0x0A])"

lemma splitlines_join:
  "rows \<noteq> [] \<Longrightarrow> last rows \<noteq> [] \<Longrightarrow> \<not> is_linebreak (last (last rows)) \<Longrightarrow>
     splitlines (join [CHR 0x0A] rows) = concat (map pieces rows)"
proof (induction rows)
  case Nil
  then show ?case by simp
next
  case (Cons x rows)
  note IH = Cons.IH and prems = Cons.prems
  show ?case
  proof (cases rows)
    case Nil
    with prems have "split_lines [] (x @ [CHR 0x0A]) = split_lines [] x" by (intro split_lines_last) simp_all
    then show ?thesis unfolding Nil splitlines_def pieces_def by (simp del: split_lines.simps)
  next
    case (Cons y ys)
    then have j: "join [CHR 0x0A] (x # rows) = x @ CHR 0x0A # join [CHR 0x0A] rows"
      by (simp only: join.simps append_Cons append_Nil)
    have "splitlines (join [CHR 0x0A] (x # rows)) = pieces x @ splitlines (join [CHR 0x0A] rows)"
      unfolding splitlines_def pieces_def j by (rule split_lines_append)
    moreover have l: "rows \<noteq> []" "last rows = last (x # rows)" using local.Cons by simp_all
    have "splitlines (join [CHR 0x0A] rows) = concat (map pieces rows)"
      by (rule IH) (use l prems in \<open>simp_all only: not_False_eq_True\<close>)
    ultimately show ?thesis by (simp only: list.map concat.simps)
  qed
qed

lemma pieces_infix:
  assumes "x \<in> set (pieces line)" "p \<noteq> []" "last p \<noteq> CHR 0x0A" "has_infix x p"
  shows "has_infix line p"
proof -
  from split_lines_infix [of x "[]" "line @ [CHR 0x0A]"] assms(1) have "has_infix (line @ [CHR 0x0A]) x"
    by (simp add: pieces_def)
  from has_infix_trans [OF this assms(4)] show ?thesis by (simp only: has_infix_snoc [OF assms(2,3)])
qed

section \<open>The exit status\<close>

text \<open>A text that holds neither marker, and one without line boundaries too.\<close>

definition mute :: "string \<Rightarrow> bool" where
  "mute s \<longleftrightarrow> \<not> has_infix s ''RENDER FAILED'' \<and> \<not> has_infix s ''(EXCLUDED)''"

definition plain :: "string \<Rightarrow> bool" where
  "plain s \<longleftrightarrow> mute s \<and> list_all (\<lambda>c. \<not> is_linebreak c) s"

lemma padded_mute: "has_infix (CHR '' '' # s @ [CHR '' '']) ''RENDER FAILED'' \<longleftrightarrow> has_infix s ''RENDER FAILED''"
  "has_infix (CHR '' '' # s @ [CHR '' '']) ''(EXCLUDED)'' \<longleftrightarrow> has_infix s ''(EXCLUDED)''"
  by (subst has_infix_Cons; simp add: has_infix_snoc)+

lemma show_nat_digits: "c \<in> set (show_nat n) \<Longrightarrow> 48 \<le> (of_char c :: nat) \<and> (of_char c :: nat) \<le> 57"
proof (induction n rule: show_nat.induct)
  case (1 n)
  from "1.prems" have "c \<in> set (if n < 10 then [char_of (48 + n)] else show_nat (n div 10) @ [char_of (48 + n mod 10)])"
    by (simp only: show_nat.simps [of n])
  then consider "n < 10" "c = char_of (48 + n)" | "\<not> n < 10" "c \<in> set (show_nat (n div 10))" | "c = char_of (48 + n mod 10)"
    by (auto split: if_split_asm)
  then show ?case
  proof cases
    case 2
    then show ?thesis by (rule "1.IH")
  next
    case 3
    have "n mod 10 < 10" by simp
    with 3 show ?thesis by simp
  qed simp
qed

lemma decimal_layout: "c \<in> set ((if p then ''-'' else []) @ take k ds @ (if n = 0 then [] else ''.'' @ drop k ds)) \<Longrightarrow>
    c \<in> {CHR ''-'', CHR ''.''} \<or> c \<in> set ds"
  by (auto dest!: in_set_takeD in_set_dropD split: if_split_asm)

lemma pad_left_digits: "c \<in> set (pad_left k (show_nat m)) \<Longrightarrow> 48 \<le> (of_char c :: nat) \<and> (of_char c :: nat) \<le> 57"
  using show_nat_digits [of c m] by (auto simp: pad_left_def)

lemma fmt_fixed_chars: "c \<in> set (fmt_fixed n x) \<Longrightarrow> c \<in> {CHR ''n'', CHR ''a'', CHR ''i'', CHR ''f'', CHR ''-'', CHR ''.''} \<or>
    (48 \<le> (of_char c :: nat) \<and> (of_char c :: nat) \<le> 57)"
proof (cases x)
  case (Fin q)
  assume "c \<in> set (fmt_fixed n x)"
  then have "c \<in> {CHR ''-'', CHR ''.''} \<or> c \<in> set (pad_left (Suc n) (show_nat (nat (round_even (\<bar>q\<bar> * 10 ^ n)))))"
    unfolding fmt_fixed_def Fin f64.case Let_def by (rule decimal_layout)
  with pad_left_digits show ?thesis by blast
qed (auto simp: fmt_fixed_def)

lemma fmt_fixed_mute [simp]: "\<not> has_infix (fmt_fixed n x) ''RENDER FAILED''"
proof
  assume "has_infix (fmt_fixed n x) ''RENDER FAILED''"
  from has_infix_chars [OF this] have "CHR ''R'' \<in> set (fmt_fixed n x)" by simp
  from fmt_fixed_chars [OF this] show False by simp
qed

definition cell_text :: "cell \<Rightarrow> string" where
  "cell_text c = (case c of None \<Rightarrow> ''None'' | Some s \<Rightarrow> s)"

lemma label_failed: "\<not> has_infix name ''RENDER FAILED'' \<Longrightarrow> \<not> has_infix (run_label name x) ''RENDER FAILED''"
  using has_infix_sep [of "''RENDER FAILED''" "CHR ''(''" "name @ '' ''" "''EXCLUDED)''"]
  by (auto simp: run_label_def has_infix_snoc)

text \<open>A row of results is never taken for a failure.\<close>

lemma bar_sep: "has_infix (a @ CHR ''|'' # b) ''RENDER FAILED'' \<longleftrightarrow> has_infix a ''RENDER FAILED'' \<or> has_infix b ''RENDER FAILED''"
  by (rule has_infix_sep) simp_all

lemma topic_line_mute:
  assumes "\<not> has_infix label ''RENDER FAILED''" "\<not> has_infix (cell_text topic) ''RENDER FAILED''"
  shows "\<not> has_infix (topic_line label topic t) ''RENDER FAILED''"
proof -
  have bars: "topic_line label topic t = [] @ CHR ''|'' # (CHR '' '' # label @ '' '') @ CHR ''|'' # (CHR '' '' # cell_text topic @ '' '') @
     CHR ''|'' # (CHR '' '' # fmt_fixed 2 (ts_hz t) @ '' '') @ CHR ''|'' # (CHR '' '' # fmt_fixed 2 (ts_p95_ms t) @ '' '') @
     CHR ''|'' # (CHR '' '' # fmt_fixed 2 (ts_one_hop_p50_ms t) @ '' '') @ CHR ''|'' # (CHR '' '' # fmt_fixed 2 (ts_one_hop_p99_ms t) @ '' '') @
     CHR ''|'' # (CHR '' '' # fmt_fixed 2 (ts_bytes_per_s t div Fin 1000000) @ '' '') @ CHR ''|'' # []"
    by (simp add: topic_line_def cell_text_def)
  show ?thesis unfolding bars bar_sep padded_mute using assms by simp
qed

lemma split_lines_first:
  "\<exists>w more. split_lines cur (s @ [CHR 0x0A]) = (rev cur @ w) # more \<and> (\<forall>x \<in> set more. has_infix (s @ [CHR 0x0A]) x)"
proof (induction s arbitrary: cur)
  case Nil
  then show ?case by (simp add: is_linebreak_def)
next
  case (Cons c s)
  show ?case
  proof (cases "is_linebreak c")
    case True
    let ?t = "s @ [CHR 0x0A]"
    let ?r = "if c = CHR 0x0D \<and> ?t \<noteq> [] \<and> hd ?t = CHR 0x0A then tl ?t else ?t"
    have "split_lines cur (c # ?t) = rev cur # split_lines [] ?r" using True by simp
    moreover have "has_infix (c # ?t) x" if "x \<in> set (split_lines [] ?r)" for x
    proof -
      from split_lines_infix [OF that] have "has_infix ?r x" by simp
      moreover have "\<exists>a. c # ?t = a @ ?r @ []"
        by (rule exI [of _ "if c = CHR 0x0D \<and> ?t \<noteq> [] \<and> hd ?t = CHR 0x0A then [c, hd ?t] else [c]"]) (cases s; simp)
      then have "has_infix (c # ?t) ?r" unfolding has_infix_iff by blast
      ultimately show ?thesis by (rule has_infix_trans [rotated])
    qed
    ultimately show ?thesis by (intro exI [of _ "[]"] exI [of _ "split_lines [] ?r"]) simp
  next
    case False
    from Cons.IH [of "c # cur"] obtain w more where
      w: "split_lines (c # cur) (s @ [CHR 0x0A]) = (rev (c # cur) @ w) # more" "\<forall>x \<in> set more. has_infix (s @ [CHR 0x0A]) x"
      by blast
    from w(2) have "\<forall>x \<in> set more. has_infix (c # s @ [CHR 0x0A]) x" by simp
    with w(1) False show ?thesis by (intro exI [of _ "c # w"] exI [of _ more]) simp
  qed
qed

text \<open>A failed run's row is reported exactly when its manifest does not exclude it, wherever the message breaks the
  row.\<close>

lemma failed_line_unexplained:
  assumes "plain name" "mute (failure_text e)"
  shows "list_ex unexplained (pieces (failed_line (run_label name x) e)) \<longleftrightarrow> \<not> x"
proof -
  let ?pre = "''| '' @ run_label name x @ '' | RENDER FAILED: ''"
  let ?rest = "failure_text e @ '' | - | - | - | - | - |''"
  have line: "failed_line (run_label name x) e = ?pre @ ?rest" by (simp add: failed_line_def)
  have pre: "list_all (\<lambda>c. \<not> is_linebreak c) ?pre"
    using assms(1) by (auto simp: plain_def run_label_def is_linebreak_def)
  from split_lines_first [of "rev ?pre" ?rest] obtain w more where
    w: "pieces (failed_line (run_label name x) e) = (?pre @ w) # more"
    and more: "\<forall>y \<in> set more. has_infix (?rest @ [CHR 0x0A]) y"
    unfolding pieces_def line append.assoc [of ?pre] split_lines_plain [OF pre] by auto
  have eq: "?rest = (failure_text e @ '' '') @ CHR ''|'' # '' - | - | - | - | - |''" by simp
  have "\<not> has_infix ?rest ''RENDER FAILED''"
    unfolding eq bar_sep using assms(2) by (simp add: mute_def has_infix_snoc)
  then have rest: "\<not> has_infix (?rest @ [CHR 0x0A]) ''RENDER FAILED''" by (subst has_infix_snoc) simp_all
  have later: "\<not> unexplained y" if "y \<in> set more" for y
    using more that rest has_infix_trans unfolding unexplained_def by blast
  have failed: "has_infix (?pre @ w) ''RENDER FAILED''"
    using has_infix_whole [of "''| '' @ run_label name x @ '' | ''" "''RENDER FAILED''" "'': '' @ w"] by simp
  have "has_infix (?pre @ w) ''(EXCLUDED)'' \<longleftrightarrow> x"
  proof
    assume x
    then show "has_infix (?pre @ w) ''(EXCLUDED)''"
      using has_infix_whole [of "''| '' @ name @ '' ''" "''(EXCLUDED)''" "'' | RENDER FAILED: '' @ w"]
      by (simp add: run_label_def)
  next
    assume i: "has_infix (?pre @ w) ''(EXCLUDED)''"
    show x
    proof (rule ccontr)
      assume "\<not> x"
      have "has_infix (failed_line (run_label name x) e) ''(EXCLUDED)''"
        by (rule pieces_infix [OF _ _ _ i]) (simp_all add: w)
      moreover have "failed_line (run_label name x) e = ''|'' @ CHR '' '' # name @ CHR '' '' # ''|'' @ CHR '' '' # ''RENDER'' @ CHR '' '' #
          ''FAILED:'' @ CHR '' '' # failure_text e @ CHR '' '' # ''| - | - | - | - | - |''"
        using \<open>\<not> x\<close> by (simp add: failed_line_def run_label_def)
      moreover have sep: "has_infix (a @ CHR '' '' # b) ''(EXCLUDED)'' \<longleftrightarrow> has_infix a ''(EXCLUDED)'' \<or> has_infix b ''(EXCLUDED)''" for a b
        by (rule has_infix_sep) simp_all
      ultimately show False using assms by (simp only: sep) (simp add: plain_def mute_def)
    qed
  qed
  with failed later show ?thesis unfolding w by (auto simp: list_ex_iff unexplained_def)
qed

lemma unexplained_needs_marker: "\<not> has_infix line ''RENDER FAILED'' \<Longrightarrow> \<not> list_ex unexplained (pieces line)"
  using pieces_infix [of _ line "''RENDER FAILED''"] by (auto simp: list_ex_iff unexplained_def)

lemma sorted_cells_set:
  assumes "sorted_cells cs = Inr ds"
  shows "set ds = set cs"
proof (cases "None \<in> set cs")
  case True
  with assms show ?thesis by (simp add: sorted_cells_def split: if_split_asm)
next
  case False
  then have "Some (the c) = c" if "c \<in> set cs" for c using that by (cases c) auto
  then have "(\<lambda>c. Some (the c)) ` set cs = set cs" by (simp cong: image_cong)
  with assms False show ?thesis by (auto simp: sorted_cells_def image_image split: if_split_asm)
qed

lemma list_all2_member: "list_all2 R xs ys \<Longrightarrow> y \<in> set ys \<Longrightarrow> \<exists>x \<in> set xs. R x y"
  by (induction rule: list_all2_induct) auto

lemma list_all2_ex:
  "list_all2 R xs ys \<Longrightarrow> (\<And>x y. x \<in> set xs \<Longrightarrow> R x y \<Longrightarrow> P x \<longleftrightarrow> Q y) \<Longrightarrow> (\<exists>x \<in> set xs. P x) \<longleftrightarrow> (\<exists>y \<in> set ys. Q y)"
  by (induction rule: list_all2_induct) auto

definition failed_unexcluded :: "'g np_ops \<Rightarrow> pyval \<Rightarrow> run_files \<Rightarrow> bool" where
  "failed_unexcluded np cells_doc run_dir \<longleftrightarrow>
     (\<exists>e. summarize_run np cells_doc run_dir = Inl e) \<and> \<not> best_effort_excluded run_dir"

text \<open>A run whose name, topics and failure message keep clear of the markers.\<close>

definition clear_run :: "'g np_ops \<Rightarrow> pyval \<Rightarrow> run_files \<Rightarrow> bool" where
  "clear_run np cells_doc run_dir \<longleftrightarrow> plain (rf_name run_dir) \<and>
     (case summarize_run np cells_doc run_dir of
        Inl e \<Rightarrow> mute (failure_text e)
      | Inr s \<Rightarrow> \<forall>t \<in> set (map fst (rs_topics s)). mute (cell_text t))"

lemma run_lines_unexplained:
  assumes "run_lines np doc run = Inr ls" "clear_run np doc run"
  shows "(\<exists>l \<in> set ls. list_ex unexplained (pieces l)) \<longleftrightarrow> failed_unexcluded np doc run"
proof (cases "summarize_run np doc run")
  case (Inl e)
  with assms have "plain (rf_name run)" "mute (failure_text e)" by (simp_all add: clear_run_def)
  note failed = failed_line_unexplained [OF this, of "best_effort_excluded run"]
  from assms(1) Inl have "ls = [failed_line (run_label (rf_name run) (best_effort_excluded run)) e]"
    by (simp add: run_lines_def)
  then show ?thesis by (simp add: failed failed_unexcluded_def Inl)
next
  case (Inr s)
  let ?label = "run_label (rf_name run) (truthy (m_excluded (rs_manifest s)))"
  from assms(1) Inr obtain ts where ts: "sorted_cells (map fst (rs_topics s)) = Inr ts"
    "ls = map (\<lambda>topic. topic_line ?label topic (the (map_of (rs_topics s) topic))) ts"
    by (auto simp: run_lines_def py_splits)
  have "\<not> has_infix ?label ''RENDER FAILED''"
    using assms(2) by (intro label_failed) (simp add: clear_run_def plain_def mute_def)
  moreover have "\<forall>t \<in> set ts. \<not> has_infix (cell_text t) ''RENDER FAILED''"
    using assms(2) Inr sorted_cells_set [OF ts(1)] by (simp add: clear_run_def mute_def)
  ultimately have "\<forall>l \<in> set ls. \<not> list_ex unexplained (pieces l)"
    using topic_line_mute [of ?label] unexplained_needs_marker unfolding ts(2) by auto
  with Inr show ?thesis by (auto simp: failed_unexcluded_def)
qed

lemma run_lines_end: "run_lines np doc run = Inr ls \<Longrightarrow> l \<in> set ls \<Longrightarrow> l \<noteq> [] \<and> last l = CHR ''|''"
  by (auto simp: run_lines_def py_splits failed_line_def topic_line_def split: sum.split_asm)

lemma header_mute: "mute cell \<Longrightarrow> l \<in> set (cell_header cell) \<Longrightarrow> \<not> has_infix l ''RENDER FAILED''"
  by (auto simp: cell_header_def mute_def)

lemma render_cell_unexplained:
  assumes "render_cell np doc cell dir = Inr page" "mute cell" "\<forall>run \<in> set (run_dirs dir). clear_run np doc run"
  shows "list_ex unexplained (splitlines page) \<longleftrightarrow> (\<exists>run \<in> set (run_dirs dir). failed_unexcluded np doc run)"
proof -
  from assms(1) obtain rows where rows: "list_all2 (\<lambda>run ls. run_lines np doc run = Inr ls) (run_dirs dir) rows"
    and page: "page = join [CHR 0x0A] (cell_header cell @ concat rows)"
    by (auto simp: render_cell_def py_splits mapE_Inr_list_all2)
  have l: "ls \<in> set rows \<Longrightarrow> \<exists>run. run_lines np doc run = Inr ls" for ls
    using list_all2_member [OF rows] by blast
  have last: "last (cell_header cell @ concat rows) \<noteq> [] \<and> last (last (cell_header cell @ concat rows)) = CHR ''|''"
  proof (cases "concat rows = []")
    case True
    then show ?thesis by (simp add: cell_header_def)
  next
    case False
    then have "last (concat rows) \<in> set (concat rows)" by (rule last_in_set)
    then obtain ls where "ls \<in> set rows" "last (concat rows) \<in> set ls" by auto
    with l run_lines_end False show ?thesis by (metis last_appendR)
  qed
  have "splitlines page = concat (map pieces (cell_header cell @ concat rows))"
    unfolding page using last by (intro splitlines_join) (auto simp: cell_header_def is_linebreak_def)
  then have "list_ex unexplained (splitlines page) \<longleftrightarrow>
      (\<exists>line \<in> set (cell_header cell @ concat rows). list_ex unexplained (pieces line))"
    by (auto simp: list_ex_iff)
  also have "\<dots> \<longleftrightarrow> (\<exists>ls \<in> set rows. \<exists>line \<in> set ls. list_ex unexplained (pieces line))"
    using header_mute [OF assms(2)] unexplained_needs_marker by auto
  also have "\<dots> \<longleftrightarrow> (\<exists>run \<in> set (run_dirs dir). failed_unexcluded np doc run)"
    by (rule sym, rule list_all2_ex [OF rows]) (use run_lines_unexplained assms(3) in blast)
  finally show ?thesis .
qed

text \<open>C23: The exit status tells what the run directories say: 1 exactly when some run failed to render and its manifest
  does not exclude it, as long as no name, topic or failure message holds a marker the tool looks for in its output.\<close>

theorem report_exit_status:
  assumes "report_main np doc results = Inr (status, pages)"
    and "\<forall>(cell, dir) \<in> set results. mute cell \<and> (\<forall>run \<in> set (run_dirs dir). clear_run np doc run)"
  shows "status = (if \<exists>(cell, dir) \<in> set results. \<exists>run \<in> set (run_dirs dir). failed_unexcluded np doc run then 1 else 0) \<and>
    length pages = length results"
proof -
  from assms(1) have texts: "list_all2 (\<lambda>p page. render_cell np doc (fst p) (snd p) = Inr page) results pages"
    and status: "status = (if list_ex (\<lambda>page. list_ex unexplained (splitlines page)) pages then 1 else 0)"
    by (auto simp: report_main_def py_splits mapE_Inr_list_all2 split_beta)
  have "(\<exists>p \<in> set results. \<exists>run \<in> set (run_dirs (snd p)). failed_unexcluded np doc run) \<longleftrightarrow>
      (\<exists>page \<in> set pages. list_ex unexplained (splitlines page))"
  proof (rule list_all2_ex [OF texts])
    fix p page
    assume "p \<in> set results" "render_cell np doc (fst p) (snd p) = Inr page"
    with assms(2) render_cell_unexplained [of np doc "fst p" "snd p" page]
    show "(\<exists>run \<in> set (run_dirs (snd p)). failed_unexcluded np doc run) \<longleftrightarrow> list_ex unexplained (splitlines page)"
      by (auto simp: split_beta)
  qed
  then have "list_ex (\<lambda>page. list_ex unexplained (splitlines page)) pages \<longleftrightarrow>
      (\<exists>(cell, dir) \<in> set results. \<exists>run \<in> set (run_dirs dir). failed_unexcluded np doc run)"
    by (simp add: list_ex_iff split_beta)
  with status list_all2_lengthD [OF texts] show ?thesis by simp
qed

section \<open>Failures that show and one that does not\<close>

text \<open>A run directory with nothing in it, and one whose manifest names an unregistered cell.\<close>

definition empty_run :: run_files where
  "empty_run = \<lparr>rf_name = ''run-001'', rf_manifest = JAbsent, rf_clock = CAbsent, rf_resources = CAbsent, rf_observer = CAbsent,
     rf_published_time = CAbsent, rf_odometry = CAbsent, rf_pose = CAbsent, rf_gt = CAbsent, rf_counts = JAbsent, rf_quality = JAbsent\<rparr>"

definition unregistered_run :: "string \<Rightarrow> run_files" where
  "unregistered_run c = empty_run\<lparr>rf_manifest := JDoc (manifest_asdict (sample_manifest\<lparr>m_cell := PStr c\<rparr>))\<rparr>"

lemma empty_run_fails: "summarize_run np doc empty_run = Raise FileNotFoundError ''no such file''"
  by (simp add: summarize_run_def empty_run_def load_manifest_def read_json_def)

lemma run_dirs_one: "run_dirs [empty_run] = [empty_run]" "run_dirs [unregistered_run c] = [unregistered_run c]"
  by (simp_all add: run_dirs_def empty_run_def unregistered_run_def)

theorem report_exit_status_witness:
  "\<exists>pages. report_main exact_np sample_doc [(''A'', [empty_run])] = Inr (1, pages)"
proof -
  have clear: "clear_run exact_np sample_doc empty_run"
    by (simp add: clear_run_def empty_run_fails plain_def mute_def) (simp add: empty_run_def is_linebreak_def failure_text_def
        replace_char_def exc_text_def)
  have failed: "failed_unexcluded exact_np sample_doc empty_run"
    by (simp add: failed_unexcluded_def empty_run_fails)
      (simp add: best_effort_excluded_def empty_run_def load_manifest_def read_json_def)
  obtain status pages where m: "report_main exact_np sample_doc [(''A'', [empty_run])] = Inr (status, pages)"
    by (simp add: report_main_def render_cell_def run_dirs_one run_lines_def empty_run_fails)
  from report_exit_status [OF m] clear failed have "status = 1" by (simp add: run_dirs_one mute_def)
  with m show ?thesis by blast
qed

text \<open>A marker in a failure message hides the failure: a manifest whose cell is the text \<open>(EXCLUDED)\<close> is refused, its
  row quotes the cell, and \<open>main\<close> takes the quote for the exclusion it looks for. No run is excluded and the exit
  status is 0.\<close>

lemma quoted_marker_hides_failure:
  "\<exists>pages. report_main np sample_doc [(''A'', [unregistered_run ''(EXCLUDED)''])] = Inr (0, pages) \<and>
     failed_unexcluded np sample_doc (unregistered_run ''(EXCLUDED)'')"
proof -
  let ?r = "unregistered_run ''(EXCLUDED)''"
  have load: "load_manifest (rf_manifest ?r) = Inr (sample_manifest\<lparr>m_cell := PStr ''(EXCLUDED)''\<rparr>)"
    by (simp add: unregistered_run_def load_asdict)
  have "result_opt (manifest_validate sample_doc (sample_manifest\<lparr>m_cell := PStr ''(EXCLUDED)''\<rparr>)) =
      Some [''cell '' @ repr_str ''(EXCLUDED)'' @ '' is not registered in cells.yaml'']"
    by code_simp
  then have val: "manifest_validate sample_doc (sample_manifest\<lparr>m_cell := PStr ''(EXCLUDED)''\<rparr>) =
      Inr [''cell '' @ repr_str ''(EXCLUDED)'' @ '' is not registered in cells.yaml'']"
    by (auto simp: result_opt_def split: sum.splits)
  let ?e = "Exc ValueError (''invalid manifest manifest.json: cell '' @ repr_str ''(EXCLUDED)'' @ '' is not registered in cells.yaml'')"
  have fails: "summarize_run np sample_doc ?r = Inl ?e" by (simp add: summarize_run_def load val)
  have unexcl: "\<not> best_effort_excluded ?r" by (simp add: best_effort_excluded_def load sample_manifest_def)
  have "rf_name ?r = ''run-001''" by (simp add: unregistered_run_def empty_run_def)
  with unexcl have lines: "run_lines np sample_doc ?r = Inr [failed_line ''run-001'' ?e]"
    by (simp add: run_lines_def fails run_label_def)
  have "\<not> list_ex unexplained (splitlines (join [CHR 0x0A] (cell_header ''A'' @ [failed_line ''run-001'' ?e])))"
    by code_simp
  then show ?thesis
    by (simp add: report_main_def render_cell_def run_dirs_one lines failed_unexcluded_def fails unexcl)
qed

end
