(* ===== verification/Lzf.thy ===== *)
theory Lzf
  imports Py_Prelude "HOL-Library.Word"
begin

unbundle bit_operations_syntax

text \<open>
  \<^verbatim>\<open>benchmarks/scripts/shift_pcd.py\<close>, \<open>lzf_decompress\<close>: the decoder of PCL's compressed point data, byte by byte.
  The index into the data is the list of bytes that are left; every subscript that can fail is an \<open>IndexError\<close> that
  the function turns into \<open>PcdFormatError\<close>.

  The specification is a list of tokens, literal bytes or repetitions of what is already there, with what each stands
  for and how it is written. The lemmas: the overlapping copy is the periodic repetition, the decoder inverts the
  encoding of every token list, and it accepts exactly the encodings, with one exception: a literal run cut short at
  the end of the stream is taken as it is.
\<close>

type_synonym byte = "8 word"

definition next_byte :: "byte list \<Rightarrow> (byte \<times> byte list) res" where
  "next_byte data = (case data of [] \<Rightarrow> Raise IndexError ''index out of range'' | b # rest \<Rightarrow> Ret (b, rest))"

text \<open>The copy loop: \<open>out.append(out[ref]); ref += 1\<close>.\<close>

fun copy_back :: "nat \<Rightarrow> nat \<Rightarrow> byte list \<Rightarrow> byte list res" where
  "copy_back 0 ref out = Ret out"
| "copy_back (Suc n) ref out =
     (if ref < length out then copy_back n (ref + 1) (out @ [out ! ref])
      else Raise IndexError ''bytearray index out of range'')"

definition ref_offset :: "byte \<Rightarrow> byte \<Rightarrow> nat" where
  "ref_offset ctrl b = (push_bit 8 (unat ctrl AND 0x1F)) OR unat b"

text \<open>A back-reference after its control byte: the output with the copy, and the bytes left.\<close>

definition back_ref :: "byte list \<Rightarrow> byte \<Rightarrow> byte list \<Rightarrow> (byte list \<times> byte list) res" where
  "back_ref out ctrl data =
     bindE (if drop_bit 5 (unat ctrl) = 7 then bindE (next_byte data) (\<lambda>(b, rest). Ret (7 + unat b, rest))
            else Ret (drop_bit 5 (unat ctrl), data)) (\<lambda>(len, data1).
     bindE (next_byte data1) (\<lambda>(b, data2).
       let offset = ref_offset ctrl b; ref = int (length out) - int offset - 1
       in if ref < 0 then Raise PcdFormatError ''corrupt binary_compressed stream: back-reference offset''
          else bindE (copy_back (len + 2) (nat ref) out) (\<lambda>out'. Ret (out', data2))))"

lemma next_byte_shorter: "next_byte data = Inr (b, rest) \<Longrightarrow> length rest < length data"
  by (auto simp: next_byte_def split: list.split_asm)

lemma back_ref_shorter: "back_ref out ctrl data = Inr (out', rest) \<Longrightarrow> length rest < length data"
  by (auto simp: back_ref_def py_splits Let_def split: if_split_asm dest!: next_byte_shorter)

function lzf_loop :: "byte list \<Rightarrow> byte list \<Rightarrow> byte list res" where
  "lzf_loop out [] = Ret out"
| "lzf_loop out (ctrl # data) =
     (if ctrl < 32 then lzf_loop (out @ take (unat ctrl + 1) data) (drop (unat ctrl + 1) data)
      else bindE (back_ref out ctrl data) (\<lambda>(out', rest). lzf_loop out' rest))"
  by pat_completeness auto
termination
  by (relation "measure (\<lambda>(out, data). length data)") (auto dest: back_ref_shorter)

definition lzf_decompress :: "byte list \<Rightarrow> byte list res" where
  "lzf_decompress data =
     catchE [IndexError] (\<lambda>_. Raise PcdFormatError ''corrupt or truncated binary_compressed stream'') (lzf_loop [] data)"

section \<open>Tokens\<close>

datatype lzf_token = Literal "byte list" | Repeat (offset: nat) (count: nat)

fun token_size :: "lzf_token \<Rightarrow> nat" where
  "token_size (Literal bs) = length bs"
| "token_size (Repeat off n) = n"

text \<open>A token that can be written when \<open>n\<close> bytes are there already.\<close>

fun token_ok :: "nat \<Rightarrow> lzf_token \<Rightarrow> bool" where
  "token_ok n (Literal bs) \<longleftrightarrow> bs \<noteq> [] \<and> length bs \<le> 32"
| "token_ok n (Repeat off k) \<longleftrightarrow> off < 8192 \<and> off < n \<and> 3 \<le> k \<and> k \<le> 264"

text \<open>What a token stands for: a repetition has the period \<open>off + 1\<close>.\<close>

fun expand :: "byte list \<Rightarrow> lzf_token \<Rightarrow> byte list" where
  "expand out (Literal bs) = out @ bs"
| "expand out (Repeat off n) = out @ map (\<lambda>k. out ! (length out - off - 1 + k mod (off + 1))) [0..<n]"

fun write_token :: "lzf_token \<Rightarrow> byte list" where
  "write_token (Literal bs) = of_nat (length bs - 1) # bs"
| "write_token (Repeat off n) =
     (if n \<le> 8 then [of_nat (32 * (n - 2) + off div 256), of_nat (off mod 256)]
      else [of_nat (224 + off div 256), of_nat (n - 9), of_nat (off mod 256)])"

fun tokens_ok :: "nat \<Rightarrow> lzf_token list \<Rightarrow> bool" where
  "tokens_ok n [] = True"
| "tokens_ok n (t # ts) \<longleftrightarrow> token_ok n t \<and> tokens_ok (n + token_size t) ts"

definition expand_all :: "byte list \<Rightarrow> lzf_token list \<Rightarrow> byte list" where
  "expand_all out ts = foldl expand out ts"

definition write_tokens :: "lzf_token list \<Rightarrow> byte list" where
  "write_tokens ts = concat (map write_token ts)"

section \<open>The copy\<close>

lemma length_expand [simp]: "length (expand out t) = length out + token_size t"
  by (cases t) simp_all

lemma expand_nth:
  assumes "off < length out"
  shows "expand out (Repeat off k) ! (length out - off - 1 + k) = out ! (length out - off - 1 + k mod (off + 1))"
proof (cases "k \<le> off")
  case True
  with assms have "length out - off - 1 + k < length out" by linarith
  with True show ?thesis by (simp add: nth_append)
next
  case False
  with assms have i: "length out - off - 1 + k = length out + (k - (off + 1))" by simp
  from False have "(k - (off + 1)) mod (off + 1) = k mod (off + 1)" by (simp add: le_mod_geq)
  then show ?thesis unfolding i using False by (simp add: nth_append)
qed

lemma copy_steps:
  assumes "off < length out"
  shows "copy_back m (length out - off - 1 + k) (expand out (Repeat off k)) = Inr (expand out (Repeat off (k + m)))"
proof (induction m arbitrary: k)
  case 0
  then show ?case by simp
next
  case (Suc m)
  have "expand out (Repeat off k) @ [expand out (Repeat off k) ! (length out - off - 1 + k)] = expand out (Repeat off (Suc k))"
    unfolding expand_nth [OF assms] by simp
  with Suc [of "Suc k"] assms show ?case by (simp del: expand.simps)
qed

text \<open>The byte-by-byte copy is the periodic repetition, and never reads out of range.\<close>

lemma copy_back_repeats:
  "off < length out \<Longrightarrow> copy_back n (length out - off - 1) out = Inr (expand out (Repeat off n))"
  using copy_steps [of off out n 0] by simp

section \<open>Reading and writing tokens\<close>

lemma ref_offset_sum: "ref_offset ctrl b = 256 * (unat ctrl mod 32) + unat b"
proof -
  have m: "unat ctrl AND 0x1F = unat ctrl mod 32"
    using take_bit_eq_mask [of 5 "unat ctrl"] by (simp add: take_bit_eq_mod mask_eq_exp_minus_1)
  have "unat b < 2 ^ 8" using unsigned_less [of b] by simp
  then have b: "take_bit 8 (unat b) = unat b" by (simp add: take_bit_nat_eq_self)
  have "push_bit 8 (unat ctrl mod 32) OR unat b = push_bit 8 (unat ctrl mod 32) + take_bit 8 (unat b)"
    unfolding b by (rule disjunctive_add [symmetric]) (metis b bit_push_bit_iff bit_take_bit_iff not_le)
  then show ?thesis by (simp add: ref_offset_def m b push_bit_eq_mult)
qed

lemma unat_byte: "n < 256 \<Longrightarrow> unat (of_nat n :: byte) = n"
  by (simp add: unat_of_nat)

lemma byte_less_32: "(b :: byte) < 32 \<longleftrightarrow> unat b < 32"
  by (simp add: word_less_nat_alt)

lemma next_byte_iff: "next_byte data = Inr (b, rest) \<longleftrightarrow> data = b # rest"
  by (auto simp: next_byte_def split: list.split)

lemma copy_iff:
  "(if int (length out) - int off - 1 < 0 then Raise PcdFormatError msg
    else bindE (copy_back n (nat (int (length out) - int off - 1)) out) (\<lambda>out'. Ret (out', d))) = Inr (out', rest) \<longleftrightarrow>
   off < length out \<and> d = rest \<and> out' = expand out (Repeat off n)"
proof (cases "off < length out")
  case True
  then have "nat (int (length out) - int off - 1) = length out - off - 1" by simp
  with True copy_back_repeats [OF True, of n] show ?thesis by (auto simp del: expand.simps)
next
  case False
  then show ?thesis by simp
qed

lemma back_ref_iff:
  "back_ref out ctrl data = Inr (out', rest) \<longleftrightarrow>
     (\<exists>n b. (if unat ctrl div 32 = 7 then \<exists>e. data = e # b # rest \<and> n = 7 + unat e else data = b # rest \<and> n = unat ctrl div 32) \<and>
        ref_offset ctrl b < length out \<and> out' = expand out (Repeat (ref_offset ctrl b) (n + 2)))"
proof -
  have "back_ref out ctrl data = Inr (out', rest) \<longleftrightarrow>
      (\<exists>n d1 b d2. (if unat ctrl div 32 = 7 then bindE (next_byte data) (\<lambda>(b, rest). Ret (7 + unat b, rest)) else Ret (unat ctrl div 32, data)) = Inr (n, d1) \<and>
        next_byte d1 = Inr (b, d2) \<and> ref_offset ctrl b < length out \<and> d2 = rest \<and> out' = expand out (Repeat (ref_offset ctrl b) (n + 2)))"
    by (simp only: back_ref_def bindE_Inr_iff Let_def prod.case split_paired_Ex copy_iff drop_bit_eq_div) simp
  also have "\<dots> \<longleftrightarrow> (\<exists>n b. (if unat ctrl div 32 = 7 then \<exists>e. data = e # b # rest \<and> n = 7 + unat e else data = b # rest \<and> n = unat ctrl div 32) \<and>
        ref_offset ctrl b < length out \<and> out' = expand out (Repeat (ref_offset ctrl b) (n + 2)))"
    by (cases "unat ctrl div 32 = 7") (auto simp: next_byte_iff bindE_Inr_iff simp del: expand.simps)
  finally show ?thesis .
qed

text \<open>Every failure of the decoder is the one its callers expect.\<close>

lemma back_ref_errors: "back_ref out ctrl data = Inl e \<Longrightarrow> exc_of e \<in> {IndexError, PcdFormatError}"
proof -
  have n: "next_byte d = Inl e \<Longrightarrow> exc_of e = IndexError" for d
    by (auto simp: next_byte_def split: list.split_asm)
  have c: "copy_back k r o' = Inl e \<Longrightarrow> exc_of e = IndexError" for k r o'
    by (induction k r o' rule: copy_back.induct) (auto split: if_split_asm)
  assume "back_ref out ctrl data = Inl e"
  then show ?thesis
    by (auto simp: back_ref_def py_splits Let_def dest!: n c split: if_split_asm)
qed

lemma lzf_loop_errors: "lzf_loop out data = Inl e \<Longrightarrow> exc_of e \<in> {IndexError, PcdFormatError}"
  by (induction out data rule: lzf_loop.induct)
    (auto simp: py_splits split: if_split_asm dest: back_ref_errors)

lemma write_token_read:
  assumes "token_ok (length out) t"
  shows "lzf_loop out (write_token t @ rest) = lzf_loop (expand out t) rest"
proof (cases t)
  case (Literal bs)
  with assms have bs: "bs \<noteq> []" "length bs \<le> 32" by simp_all
  have "unat (of_nat (length bs - 1) :: byte) = length bs - 1" by (rule unat_byte) (use bs in linarith)
  note u = this bs
  then have n: "unat (of_nat (length bs - 1) :: byte) + 1 = length bs" by (cases bs) auto
  have "(of_nat (length bs - 1) :: byte) < 32" unfolding byte_less_32 using u by (cases bs) auto
  then show ?thesis unfolding Literal write_token.simps append_Cons lzf_loop.simps n by simp
next
  case (Repeat off n)
  with assms have ok: "off < 8192" "off < length out" "3 \<le> n" "n \<le> 264" by simp_all
  have o: "off div 256 < 32" using ok(1) by (simp add: less_mult_imp_div_less)
  have b: "unat (of_nat (off mod 256) :: byte) = off mod 256" by (rule unat_byte) simp
  show ?thesis
  proof (cases "n \<le> 8")
    case True
    let ?c = "of_nat (32 * (n - 2) + off div 256) :: byte"
    have c: "unat ?c = 32 * (n - 2) + off div 256" using True o by (intro unat_byte) linarith
    have d: "unat ?c div 32 = n - 2" "unat ?c mod 32 = off div 256" "n - 2 \<noteq> 7" "32 \<le> unat ?c" unfolding c using True o ok(3) by auto
    have r: "ref_offset ?c (of_nat (off mod 256)) = off" unfolding ref_offset_sum d b by simp
    have "n - 2 + 2 = n" using ok(3) by simp
    then have "back_ref out ?c (of_nat (off mod 256) # rest) = Inr (expand out (Repeat off n), rest)"
      unfolding back_ref_iff d using d(3) r ok(2) by (auto simp del: expand.simps)
    moreover have "\<not> ?c < 32" unfolding byte_less_32 using d(4) by simp
    moreover have "write_token t @ rest = ?c # of_nat (off mod 256) # rest" using True by (simp add: Repeat)
    ultimately show ?thesis by (simp add: Repeat del: expand.simps)
  next
    case False
    let ?c = "of_nat (224 + off div 256) :: byte"
    have c: "unat ?c = 224 + off div 256" using o by (intro unat_byte) linarith
    have d: "unat ?c div 32 = 7" "unat ?c mod 32 = off div 256" "32 \<le> unat ?c" unfolding c using o by (simp_all add: mod_add_eq [symmetric])
    have r: "ref_offset ?c (of_nat (off mod 256)) = off" unfolding ref_offset_sum d b by simp
    have e: "unat (of_nat (n - 9) :: byte) = n - 9" using ok(4) by (intro unat_byte) linarith
    have sum: "7 + (n - 9) + 2 = n" using False by simp
    have "back_ref out ?c (of_nat (n - 9) # of_nat (off mod 256) # rest) = Inr (expand out (Repeat off n), rest)"
      unfolding back_ref_iff d
      by (rule exI [of _ "7 + (n - 9)"], rule exI [of _ "of_nat (off mod 256)"])
        (use r ok(2) e sum in \<open>simp only: sum simp_thms if_True; simp\<close>)
    moreover have "\<not> ?c < 32" unfolding byte_less_32 using d(3) by simp
    moreover have "write_token t @ rest = ?c # of_nat (n - 9) # of_nat (off mod 256) # rest" using False by (simp add: Repeat)
    ultimately show ?thesis by (simp add: Repeat del: expand.simps)
  qed
qed

lemma write_tokens_read:
  "tokens_ok (length out) ts \<Longrightarrow> lzf_loop out (write_tokens ts @ rest) = lzf_loop (expand_all out ts) rest"
proof (induction ts arbitrary: out)
  case Nil
  then show ?case by (simp add: write_tokens_def expand_all_def)
next
  case (Cons t ts)
  have "lzf_loop out (write_tokens (t # ts) @ rest) = lzf_loop out (write_token t @ (write_tokens ts @ rest))"
    by (simp add: write_tokens_def)
  also have "\<dots> = lzf_loop (expand out t) (write_tokens ts @ rest)" using Cons.prems by (intro write_token_read) simp
  also have "\<dots> = lzf_loop (expand_all (expand out t) ts) rest" using Cons.prems by (intro Cons.IH) simp
  finally show ?case by (simp add: expand_all_def)
qed

lemma back_ref_token:
  assumes "back_ref out ctrl data = Inr (out', rest)" "32 \<le> unat ctrl"
  shows "\<exists>t. token_ok (length out) t \<and> ctrl # data = write_token t @ rest \<and> out' = expand out t"
proof -
  from assms(1) obtain n b where
    n: "if unat ctrl div 32 = 7 then \<exists>e. data = e # b # rest \<and> n = 7 + unat e else data = b # rest \<and> n = unat ctrl div 32"
    and ok: "ref_offset ctrl b < length out" "out' = expand out (Repeat (ref_offset ctrl b) (n + 2))"
    by (auto simp: back_ref_iff simp del: expand.simps)
  let ?off = "ref_offset ctrl b"
  have u: "unat x < 256" for x :: byte using unsigned_less [of x] by simp
  have off: "?off div 256 = unat ctrl mod 32" "?off mod 256 = unat b" "?off < 8192"
    unfolding ref_offset_sum using u [of b] by (auto simp: div_mult2_eq)
  have d: "unat ctrl = 32 * (unat ctrl div 32) + unat ctrl mod 32" by simp
  show ?thesis
  proof (cases "unat ctrl div 32 = 7")
    case True
    with n obtain e where e: "data = e # b # rest" "n = 7 + unat e" by auto
    from True d have "224 + ?off div 256 = unat ctrl" unfolding off by simp
    with e u [of e] off ok show ?thesis
      by (intro exI [of _ "Repeat ?off (n + 2)"]) (auto simp del: expand.simps)
  next
    case False
    with n have e: "data = b # rest" "n = unat ctrl div 32" by auto
    have "n < 8" using u [of ctrl] e(2) by (simp add: less_mult_imp_div_less)
    with False e(2) have n6: "n \<le> 6" by simp
    have "1 \<le> n" using assms(2) e(2) by linarith
    moreover have "32 * n + ?off div 256 = unat ctrl" unfolding off e(2) by simp
    ultimately show ?thesis using n6 e off ok
      by (intro exI [of _ "Repeat ?off (n + 2)"]) (auto simp del: expand.simps)
  qed
qed

text \<open>A literal run the stream ends in.\<close>

definition cut_literal :: "byte list \<Rightarrow> bool" where
  "cut_literal endbs \<longleftrightarrow> endbs = [] \<or> (unat (hd endbs) < 32 \<and> length (tl endbs) \<le> unat (hd endbs))"

lemma cut_literal_read: "cut_literal endbs \<Longrightarrow> lzf_loop out endbs = Inr (out @ tl endbs)"
  by (cases endbs) (auto simp: cut_literal_def byte_less_32)

lemma lzf_loop_tokens:
  "lzf_loop out data = Inr res \<Longrightarrow>
   \<exists>ts endbs. tokens_ok (length out) ts \<and> cut_literal endbs \<and> data = write_tokens ts @ endbs \<and> res = expand_all out ts @ tl endbs"
proof (induction out data rule: lzf_loop.induct)
  case (1 out)
  then show ?case
    by (intro exI [of _ "[]"]) (simp add: cut_literal_def write_tokens_def expand_all_def)
next
  case (2 out ctrl data)
  show ?case
  proof (cases "ctrl < 32")
    case lit: True
    then have c: "unat ctrl < 32" by (simp add: byte_less_32)
    show ?thesis
    proof (cases "length data \<le> unat ctrl")
      case True
      with lit c "2.prems" show ?thesis
        by (intro exI [of _ "[]"] exI [of _ "ctrl # data"]) (auto simp: cut_literal_def write_tokens_def expand_all_def)
    next
      case False
      let ?bs = "take (unat ctrl + 1) data"
      from False have l: "length ?bs = unat ctrl + 1" by simp
      from "2.IH"(1) [OF lit] "2.prems" lit obtain ts endbs where
        ts: "tokens_ok (length (out @ ?bs)) ts" "cut_literal endbs" "drop (unat ctrl + 1) data = write_tokens ts @ endbs"
          "res = expand_all (out @ ?bs) ts @ tl endbs"
        by auto
      have "ctrl # data = write_tokens (Literal ?bs # ts) @ endbs"
      proof -
        have "data = ?bs @ write_tokens ts @ endbs" unfolding ts(3) [symmetric] by simp
        moreover have "of_nat (length ?bs - 1) = ctrl" unfolding l by simp
        ultimately show ?thesis by (simp add: write_tokens_def del: of_nat_diff)
      qed
      with ts l c show ?thesis
        by (intro exI [of _ "Literal ?bs # ts"] exI [of _ endbs]) (auto simp: expand_all_def)
    qed
  next
    case False
    then have c: "32 \<le> unat ctrl" by (simp add: byte_less_32)
    from False "2.prems" obtain out' rest where r: "back_ref out ctrl data = Inr (out', rest)" "lzf_loop out' rest = Inr res"
      by (auto simp: py_splits)
    from back_ref_token [OF r(1) c] obtain t where
      t: "token_ok (length out) t" "ctrl # data = write_token t @ rest" "out' = expand out t" by blast
    from "2.IH"(2) [OF False r(1) refl r(2)] obtain ts endbs where
      ts: "tokens_ok (length out') ts" "cut_literal endbs" "rest = write_tokens ts @ endbs" "res = expand_all out' ts @ tl endbs"
      by blast
    with t show ?thesis
      by (intro exI [of _ "t # ts"] exI [of _ endbs]) (auto simp: write_tokens_def expand_all_def)
  qed
qed

text \<open>C25: The decoder is exactly the meaning of the token lists: it returns \<open>out\<close> when and only when the data is the
  writing of tokens that stand for \<open>out\<close>, up to a last literal run that the end of the stream cuts short and whose
  bytes it takes. Any other data is refused with PcdFormatError; no IndexError leaves it and it always ends.\<close>

theorem lzf_accepts:
  "(lzf_decompress data = Inr out \<longleftrightarrow>
     (\<exists>ts endbs. tokens_ok 0 ts \<and> cut_literal endbs \<and> data = write_tokens ts @ endbs \<and> out = expand_all [] ts @ tl endbs)) \<and>
   (case lzf_decompress data of Inr _ \<Rightarrow> True | Inl e \<Rightarrow> exc_of e = PcdFormatError)"
proof -
  have "lzf_loop [] data = Inr out \<longleftrightarrow>
     (\<exists>ts endbs. tokens_ok 0 ts \<and> cut_literal endbs \<and> data = write_tokens ts @ endbs \<and> out = expand_all [] ts @ tl endbs)"
    using lzf_loop_tokens [of "[]" data out] write_tokens_read [of "[]"] cut_literal_read by auto
  moreover have "lzf_decompress data = Inr out \<longleftrightarrow> lzf_loop [] data = Inr out"
    by (cases "lzf_loop [] data") (auto simp: lzf_decompress_def catchE_def)
  moreover have "exc_of e = PcdFormatError" if "lzf_decompress data = Inl e" for e
    using that lzf_loop_errors [of "[]" data]
    by (cases "lzf_loop [] data") (auto simp: lzf_decompress_def catchE_def split: if_split_asm)
  ultimately show ?thesis by (auto split: sum.split)
qed

section \<open>Consequences\<close>

text \<open>Every byte string has a stream: literal runs of at most 32 bytes.\<close>

function literal_runs :: "byte list \<Rightarrow> lzf_token list" where
  "literal_runs bs = (if bs = [] then [] else Literal (take 32 bs) # literal_runs (drop 32 bs))"
  by pat_completeness auto
termination
  by (relation "measure length") auto

declare literal_runs.simps [simp del]

lemma literal_runs_ok: "tokens_ok n (literal_runs bs) \<and> expand_all out (literal_runs bs) = out @ bs"
proof (induction bs arbitrary: n out rule: literal_runs.induct)
  case (1 bs)
  show ?case
  proof (cases "bs = []")
    case True
    then show ?thesis by (simp add: literal_runs.simps [of "[]"] expand_all_def)
  next
    case False
    with "1.IH" [OF False] show ?thesis
      by (simp add: literal_runs.simps [of bs] expand_all_def)
  qed
qed

lemma literal_stream: "lzf_decompress (write_tokens (literal_runs bs)) = Inr bs"
proof -
  have "tokens_ok 0 (literal_runs bs) \<and> cut_literal [] \<and> write_tokens (literal_runs bs) = write_tokens (literal_runs bs) @ [] \<and>
      bs = expand_all [] (literal_runs bs) @ tl []"
    using literal_runs_ok [of 0 bs "[]"] by (simp add: cut_literal_def)
  moreover have "lzf_decompress (write_tokens (literal_runs bs)) = Inr bs \<longleftrightarrow>
      lzf_loop [] (write_tokens (literal_runs bs)) = Inr bs"
    by (cases "lzf_loop [] (write_tokens (literal_runs bs))") (auto simp: lzf_decompress_def catchE_def)
  ultimately show ?thesis
    using write_tokens_read [of "[]" "literal_runs bs" "[]"] by simp
qed

lemma one_literal:
  assumes "bs \<noteq> []" "length bs \<le> 32"
  shows "lzf_decompress (of_nat (length bs - 1) # bs) = Inr bs"
proof -
  have "literal_runs bs = [Literal bs]" using assms by (simp add: literal_runs.simps [of bs] literal_runs.simps [of "[]"])
  with literal_stream [of bs] show ?thesis by (simp add: write_tokens_def)
qed

text \<open>A stream cannot inflate beyond 88 times its size: three bytes stand for at most 264.\<close>

lemma token_inflates: "token_ok n t \<Longrightarrow> token_size t \<le> 88 * length (write_token t)"
  by (cases t) auto

lemma tokens_inflate: "tokens_ok n ts \<Longrightarrow> length (expand_all out ts) \<le> length out + 88 * length (write_tokens ts)"
proof (induction ts arbitrary: n out)
  case Nil
  then show ?case by (simp add: expand_all_def)
next
  case (Cons t ts)
  have "length (expand_all out (t # ts)) \<le> length (expand out t) + 88 * length (write_tokens ts)"
    using Cons.IH [of "n + token_size t" "expand out t"] Cons.prems by (simp add: expand_all_def)
  with token_inflates [of n t] Cons.prems show ?case by (simp add: write_tokens_def)
qed

lemma decompressed_size: "lzf_decompress data = Inr out \<Longrightarrow> length out \<le> 88 * length data"
proof -
  assume "lzf_decompress data = Inr out"
  then have "lzf_loop [] data = Inr out"
    by (cases "lzf_loop [] data") (auto simp: lzf_decompress_def catchE_def split: if_split_asm)
  from lzf_loop_tokens [OF this] obtain ts endbs where
    t: "tokens_ok 0 ts" "data = write_tokens ts @ endbs" "out = expand_all [] ts @ tl endbs" by auto
  from tokens_inflate [OF t(1), of "[]"] show ?thesis by (simp add: t(2,3))
qed

text \<open>A literal run of six bytes with one byte left in the stream is accepted as that byte.\<close>

lemma truncated_literal_accepted: "lzf_decompress [5, 65] = Inr [65]"
  by code_simp

end
