(* ===== verification/Pcd.thy ===== *)
theory Pcd
  imports Lzf Py_Values
begin

text \<open>
  \<^verbatim>\<open>benchmarks/scripts/shift_pcd.py\<close>: reading and writing PCD files. A file is its bytes; a float32 is its 32 bits,
  stored little-endian. The text formats of numpy and its float32 arithmetic are parameters (the record \<open>pcd_ops\<close>).

  The lemmas: the header is kept byte for byte and is read again from what was written; a point survives the way to
  its bytes and back; the two binary layouts, by point and by field, give the same points.
\<close>

section \<open>Bytes\<close>

text \<open>\<open>f.read(k)\<close>: a negative count reads everything.\<close>

definition read_bytes :: "int \<Rightarrow> byte list \<Rightarrow> byte list \<times> byte list" where
  "read_bytes k f = (if k < 0 then (f, []) else (take (nat k) f, drop (nat k) f))"

definition readline :: "byte list \<Rightarrow> byte list \<times> byte list" where
  "readline f =
     (let l = takeWhile (\<lambda>b. b \<noteq> 10) f; r = dropWhile (\<lambda>b. b \<noteq> 10) f
      in if r = [] then (l, []) else (l @ [10], tl r))"

definition decode_ascii :: "byte list \<Rightarrow> string res" where
  "decode_ascii bs =
     (if list_all (\<lambda>b. unat b < 128) bs then Ret (map (\<lambda>b. char_of (unat b)) bs)
      else Raise UnicodeDecodeError ''ordinal not in range(128)'')"

definition encode_ascii :: "string \<Rightarrow> byte list" where
  "encode_ascii s = map (\<lambda>c. of_nat (of_char c)) s"

text \<open>\<open>int.from_bytes(bs, "little")\<close>.\<close>

definition le_int :: "byte list \<Rightarrow> nat" where
  "le_int bs = foldr (\<lambda>b n. unat b + 256 * n) bs 0"

text \<open>\<open>np.frombuffer(raw, dtype=np.float32)\<close> and \<open>tobytes()\<close>.\<close>

fun words_of :: "byte list \<Rightarrow> 32 word list" where
  "words_of (a # b # c # d # bs) = of_nat (le_int [a, b, c, d]) # words_of bs"
| "words_of bs = []"

definition bytes_of :: "32 word \<Rightarrow> byte list" where
  "bytes_of w =
     [of_nat (unat w mod 256), of_nat (unat w div 256 mod 256), of_nat (unat w div 65536 mod 256),
      of_nat (unat w div 16777216)]"

text \<open>\<open>reshape(-1, n)\<close> of an array whose size is a multiple of \<open>n\<close>.\<close>

function rows :: "nat \<Rightarrow> 'a list \<Rightarrow> 'a list list" where
  "rows n vs = (if n = 0 \<or> vs = [] then [] else take n vs # rows n (drop n vs))"
  by pat_completeness auto
termination
  by (relation "measure (\<lambda>(n, vs). length vs)") auto

declare rows.simps [simp del]

section \<open>The header\<close>

definition SUPPORTED_LAYOUTS :: "((string \<times> string \<times> string) \<times> nat) list" where
  "SUPPORTED_LAYOUTS =
     [((''x y z intensity'', ''4 4 4 4'', ''F F F F''), 4), ((''x y z'', ''4 4 4'', ''F F F''), 3)]"

definition SUPPORTED_DATA_FORMATS :: "string list" where
  "SUPPORTED_DATA_FORMATS = [''ascii'', ''binary'', ''binary_compressed'']"

definition header_value :: "string list \<Rightarrow> string \<Rightarrow> string res" where
  "header_value lines key =
     (case find (\<lambda>line. starts_with line (key @ '' '')) lines of
        Some line \<Rightarrow> Ret (strip (drop (length key + 1) line))
      | None \<Rightarrow> Raise PcdFormatError (''missing '' @ repr_str key @ '' header line''))"

lemma readline_shorter: "f \<noteq> [] \<Longrightarrow> length (snd (readline f)) < length f"
  using length_dropWhile_le [of "\<lambda>b. b \<noteq> 10" f]
  by (cases "dropWhile (\<lambda>b. b \<noteq> 10) f") (auto simp: readline_def Let_def)

text \<open>The lines up to and including the \<open>DATA\<close> line, and the bytes after it.\<close>

function header_loop :: "byte list \<Rightarrow> (string list \<times> byte list) res" where
  "header_loop f =
     (if f = [] then Raise PcdFormatError ''unexpected end of file before a DATA line''
      else bindE (decode_ascii (fst (readline f))) (\<lambda>line.
        if starts_with line ''DATA'' then Ret ([line], snd (readline f))
        else bindE (header_loop (snd (readline f))) (\<lambda>(lines, rest). Ret (line # lines, rest))))"
  by pat_completeness auto
termination
  by (relation "measure length") (auto dest: readline_shorter)

declare header_loop.simps [simp del]

text \<open>\<open>s.split()\<close>.\<close>

function split_ws :: "string \<Rightarrow> string list" where
  "split_ws s =
     (let t = dropWhile is_space s
      in if t = [] then [] else takeWhile (\<lambda>c. \<not> is_space c) t # split_ws (dropWhile (\<lambda>c. \<not> is_space c) t))"
  by pat_completeness auto
termination
proof (relation "measure length", simp, goal_cases)
  case (1 s t)
  then have "t \<noteq> []" "\<not> is_space (hd t)" using hd_dropWhile [of is_space s] by auto
  then have "length (dropWhile (\<lambda>c. \<not> is_space c) t) < length t"
    by (cases t) (auto simp: le_imp_less_Suc length_dropWhile_le)
  also have "length t \<le> length s" using 1 by (simp add: length_dropWhile_le)
  finally show ?case by simp
qed

declare split_ws.simps [simp del]

record pcd_header =
  h_lines :: "string list"
  h_format :: string
  h_points :: int
  h_fields :: nat

definition header_of :: "string list \<Rightarrow> pcd_header res" where
  "header_of lines =
     bindE (header_value lines ''FIELDS'') (\<lambda>fields. bindE (header_value lines ''SIZE'') (\<lambda>sizes.
     bindE (header_value lines ''TYPE'') (\<lambda>types. bindE (header_value lines ''COUNT'') (\<lambda>count.
       case map_of SUPPORTED_LAYOUTS (fields, sizes, types) of
         None \<Rightarrow> Raise PcdFormatError ''unsupported FIELDS/SIZE/TYPE combination''
       | Some n_fields \<Rightarrow>
           if count \<noteq> join '' '' (replicate n_fields ''1'') then Raise PcdFormatError ''unsupported COUNT''
           else
             bindE (case split_ws (last lines) of
                      _ # fmt # _ \<Rightarrow> Ret (strip fmt)
                    | _ \<Rightarrow> Raise IndexError ''list index out of range'') (\<lambda>data_format.
               if data_format \<notin> set SUPPORTED_DATA_FORMATS then Raise PcdFormatError ''unsupported DATA''
               else
                 bindE (header_value lines ''POINTS'') (\<lambda>points. bindE (py_int (PStr points)) (\<lambda>n_points.
                   Ret \<lparr>h_lines = lines, h_format = data_format, h_points = n_points, h_fields = n_fields\<rparr>)))))))"

definition read_header :: "byte list \<Rightarrow> (pcd_header \<times> byte list) res" where
  "read_header f =
     bindE (header_loop f) (\<lambda>(lines, rest). bindE (header_of lines) (\<lambda>h. Ret (h, rest)))"

section \<open>The points\<close>

datatype pcd_points = F32 "32 word list list" | F64 "f64 list list"

record pcd_ops =
  po_loadtxt :: "string \<Rightarrow> f64 list res"
  po_savetxt :: "pcd_points \<Rightarrow> byte list"
  po_float32 :: "f64 \<Rightarrow> 32 word"
  po_add32 :: "32 word \<Rightarrow> f64 \<Rightarrow> 32 word"

text \<open>The transpose of a field-major block.\<close>

definition by_point :: "nat \<Rightarrow> nat \<Rightarrow> 'a list \<Rightarrow> 'a list list" where
  "by_point n_points n_fields vs = map (\<lambda>i. map (\<lambda>j. vs ! (j * n_points + i)) [0..<n_fields]) [0..<n_points]"

definition read_points :: "pcd_ops \<Rightarrow> byte list \<Rightarrow> pcd_header \<Rightarrow> pcd_points res" where
  "read_points ops f h =
     (let expected_len = h_points h * int (h_fields h) * 4
      in if h_format h = ''binary'' then
           (let raw = fst (read_bytes expected_len f)
            in if int (length raw) \<noteq> expected_len then Raise PcdFormatError ''binary payload length mismatch''
               else Ret (F32 (rows (h_fields h) (words_of raw))))
         else if h_format h = ''binary_compressed'' then
           (let (c, f1) = read_bytes 4 f; (u, f2) = read_bytes 4 f1
            in bindE (lzf_decompress (fst (read_bytes (int (le_int c)) f2))) (\<lambda>decompressed.
                 if length decompressed \<noteq> le_int u \<or> int (length decompressed) \<noteq> expected_len
                 then Raise PcdFormatError ''binary_compressed payload length mismatch''
                 else Ret (F32 (by_point (nat (h_points h)) (h_fields h) (words_of decompressed)))))
         else
           bindE (decode_ascii f) (\<lambda>t. bindE (po_loadtxt ops t) (\<lambda>vs.
             if length vs mod h_fields h \<noteq> 0 then Raise ValueError ''cannot reshape array''
             else Ret (F64 (rows (h_fields h) vs)))))"

fun shift_row :: "('v \<Rightarrow> f64 \<Rightarrow> 'v) \<Rightarrow> f64 \<Rightarrow> f64 \<Rightarrow> f64 \<Rightarrow> 'v list \<Rightarrow> 'v list res" where
  "shift_row add dx dy dz (x # y # z # others) = Ret (add x dx # add y dy # add z dz # others)"
| "shift_row add dx dy dz row = Raise IndexError ''index is out of bounds''"

definition shift_points :: "pcd_ops \<Rightarrow> pcd_points \<Rightarrow> f64 \<Rightarrow> f64 \<Rightarrow> f64 \<Rightarrow> pcd_points res" where
  "shift_points ops points dx dy dz =
     (case points of
        F32 ps \<Rightarrow> bindE (mapE (shift_row (po_add32 ops) dx dy dz) ps) (\<lambda>qs. Ret (F32 qs))
      | F64 ps \<Rightarrow> bindE (mapE (shift_row (+) dx dy dz) ps) (\<lambda>qs. Ret (F64 qs)))"

definition make_header :: "int \<Rightarrow> string list" where
  "make_header n_points =
     map (\<lambda>l. l @ [CHR 0x0A])
       [''# .PCD v0.7 - Point Cloud Data file format'', ''VERSION 0.7'', ''FIELDS x y z intensity'', ''SIZE 4 4 4 4'',
        ''TYPE F F F F'', ''COUNT 1 1 1 1'', ''WIDTH '' @ show_int n_points, ''HEIGHT 1'', ''VIEWPOINT 0 0 0 1 0 0 0'',
        ''POINTS '' @ show_int n_points, ''DATA binary'']"

definition with_data_format :: "string list \<Rightarrow> string \<Rightarrow> string list" where
  "with_data_format header_lines data_format =
     map (\<lambda>line. if starts_with line ''DATA'' then ''DATA '' @ data_format @ [CHR 0x0A] else line) header_lines"

text \<open>The bytes of a written file.\<close>

definition write_pcd :: "pcd_ops \<Rightarrow> string list \<Rightarrow> pcd_points \<Rightarrow> string \<Rightarrow> byte list" where
  "write_pcd ops header_lines points data_format =
     encode_ascii (concat header_lines) @
     (if data_format = ''binary''
      then concat (map bytes_of (concat (case points of F32 ps \<Rightarrow> ps | F64 ps \<Rightarrow> map (map (po_float32 ops)) ps)))
      else po_savetxt ops points)"

definition read_pcd :: "pcd_ops \<Rightarrow> byte list \<Rightarrow> (pcd_header \<times> pcd_points) res" where
  "read_pcd ops f = bindE (read_header f) (\<lambda>(h, rest). bindE (read_points ops rest h) (\<lambda>points. Ret (h, points)))"

section \<open>Bytes and words\<close>

lemma le_int_four: "le_int [a, b, c, d] = unat a + 256 * unat b + 65536 * unat c + 16777216 * unat d"
  by (simp add: le_int_def)

lemma byte_less [simp]: "unat (b :: byte) < 256"
  using unsigned_less [of b] by simp

lemma byte_of_nat: "unat (of_nat n :: byte) = n mod 256"
  by (simp add: unat_of_nat)

lemma base256: "(n :: nat) mod 256 + 256 * (n div 256 mod 256) + 65536 * (n div 65536 mod 256) + 16777216 * (n div 16777216) = n"
proof -
  have d: "n div 65536 = n div 256 div 256" "n div 16777216 = n div 256 div 256 div 256"
    by (simp_all only: div_mult2_eq [symmetric]) simp_all
  show ?thesis
    unfolding d using mult_div_mod_eq [of 256 n] mult_div_mod_eq [of 256 "n div 256"] mult_div_mod_eq [of 256 "n div 256 div 256"]
    by linarith
qed

lemma bytes_of_word: "of_nat (le_int (bytes_of w)) = w"
proof -
  have u: "unat w < 4294967296" using unsigned_less [of w] by simp
  have "unat w div 16777216 < 256" using u by (simp add: less_mult_imp_div_less)
  then have "le_int (bytes_of w) = unat w" unfolding bytes_of_def le_int_four byte_of_nat using base256 [of "unat w"] by simp
  then show ?thesis by simp
qed

lemma words_of_bytes [simp]: "words_of (concat (map bytes_of ws)) = ws"
proof (induction ws)
  case Nil
  then show ?case by simp
next
  case (Cons w ws)
  have "words_of (bytes_of w @ bs) = of_nat (le_int (bytes_of w)) # words_of bs" for bs
    by (simp add: bytes_of_def)
  with Cons show ?case by (simp add: bytes_of_word)
qed

lemma length_words_of: "length (words_of bs) = length bs div 4"
  by (induction bs rule: words_of.induct) auto

lemma length_bytes [simp]: "length (concat (map bytes_of ws)) = 4 * length ws"
  by (induction ws) (simp_all add: bytes_of_def)

lemma rows_concat: "0 < n \<Longrightarrow> \<forall>r \<in> set rs. length r = n \<Longrightarrow> rows n (concat rs) = rs"
proof (induction rs)
  case Nil
  then show ?case by (simp add: rows.simps)
next
  case (Cons r rs)
  then show ?case by (subst rows.simps) auto
qed

lemma rows_lengths:
  "0 < n \<Longrightarrow> length vs = m * n \<Longrightarrow> length (rows n vs) = m \<and> (\<forall>r \<in> set (rows n vs). length r = n) \<and> concat (rows n vs) = vs"
proof (induction m arbitrary: vs)
  case 0
  then show ?case by (simp add: rows.simps)
next
  case (Suc m)
  then have "vs \<noteq> []" "length (drop n vs) = m * n" by auto
  with Suc.IH [of "drop n vs"] Suc.prems show ?case by (subst (1 2 3) rows.simps) auto
qed

section \<open>The header is kept\<close>

lemma encode_decode: "decode_ascii bs = Inr s \<Longrightarrow> encode_ascii s = bs"
  by (auto simp: decode_ascii_def encode_ascii_def o_def mod_less intro!: map_idI split: if_split_asm)

definition ascii :: "string \<Rightarrow> bool" where
  "ascii s \<longleftrightarrow> (\<forall>c \<in> set s. (of_char c :: nat) < 128)"

lemma decode_encode: "ascii s \<Longrightarrow> decode_ascii (encode_ascii s) = Inr s"
  by (auto simp: decode_ascii_def encode_ascii_def ascii_def list_all_iff unat_of_nat intro!: map_idI)

lemma decode_is_ascii: "decode_ascii bs = Inr s \<Longrightarrow> ascii s"
  by (auto simp: decode_ascii_def ascii_def list_all_iff split: if_split_asm)

lemma encode_append [simp]: "encode_ascii (s @ t) = encode_ascii s @ encode_ascii t"
  by (simp add: encode_ascii_def)

text \<open>A complete line: it ends in its only line feed.\<close>

definition full_line :: "string \<Rightarrow> bool" where
  "full_line l \<longleftrightarrow> ascii l \<and> l \<noteq> [] \<and> last l = CHR 0x0A \<and> CHR 0x0A \<notin> set (butlast l)"

text \<open>The lines of a header: complete lines, of which the last only says \<open>DATA\<close>; it may lack its line feed at the
  end of the file.\<close>

fun header_lines :: "string list \<Rightarrow> bool" where
  "header_lines [] = False"
| "header_lines [l] \<longleftrightarrow> ascii l \<and> starts_with l ''DATA'' \<and> CHR 0x0A \<notin> set (butlast l)"
| "header_lines (l # ls) \<longleftrightarrow> full_line l \<and> \<not> starts_with l ''DATA'' \<and> header_lines ls"

lemma byte_newline: "(of_nat (of_char c) :: byte) = 10 \<longleftrightarrow> c = CHR 0x0A"
proof -
  have u: "unat (of_nat (of_char c) :: byte) = of_char c" by (simp add: byte_of_nat)
  have "(of_nat (of_char c) :: byte) = 10 \<longleftrightarrow> unat (of_nat (of_char c) :: byte) = unat (10 :: byte)"
    by (simp only: word_unat_eq_iff)
  also have "\<dots> \<longleftrightarrow> (of_char c :: nat) = of_char (CHR 0x0A)" unfolding u by simp
  finally show ?thesis by (simp only: of_char_eq_iff)
qed

lemma encode_newline: "10 \<in> set (encode_ascii s) \<longleftrightarrow> CHR 0x0A \<in> set s"
  using byte_newline by (force simp: encode_ascii_def image_iff)

lemma encode_shape [simp]: "encode_ascii s = [] \<longleftrightarrow> s = []" "butlast (encode_ascii s) = encode_ascii (butlast s)"
  by (simp_all add: encode_ascii_def map_butlast)

lemma encode_last: "s \<noteq> [] \<Longrightarrow> last (encode_ascii s) = 10 \<longleftrightarrow> last s = CHR 0x0A"
  by (simp add: encode_ascii_def last_map byte_newline)

lemma until_first: "c \<notin> set a \<Longrightarrow> takeWhile (\<lambda>b. b \<noteq> c) (a @ c # r) = a \<and> dropWhile (\<lambda>b. b \<noteq> c) (a @ c # r) = c # r"
  by (induction a) auto

lemma readline_full: "l \<noteq> [] \<Longrightarrow> 10 \<notin> set (butlast l) \<Longrightarrow> last l = 10 \<Longrightarrow> readline (l @ rest) = (l, rest)"
proof -
  assume l: "l \<noteq> []" "10 \<notin> set (butlast l)" "last l = 10"
  then have e: "l @ rest = butlast l @ 10 # rest" by (metis append_Cons append_Nil append_butlast_last_id append_eq_append_conv2)
  have "takeWhile (\<lambda>b. b \<noteq> 10) (l @ rest) = butlast l" "dropWhile (\<lambda>b. b \<noteq> 10) (l @ rest) = 10 # rest"
    unfolding e using until_first [OF l(2), of rest] by blast+
  with l show ?thesis by (simp add: readline_def Let_def append_butlast_last_id [of l, unfolded l(3)])
qed

lemma readline_end: "10 \<notin> set l \<Longrightarrow> readline l = (l, [])"
  by (simp add: readline_def Let_def takeWhile_eq_all_conv dropWhile_eq_Nil_conv)

lemma readline_spec:
  assumes "f \<noteq> []"
  obtains l where "readline f = (l, snd (readline f))" "f = l @ snd (readline f)" "l \<noteq> []" "10 \<notin> set (butlast l)"
    "last l = 10 \<or> snd (readline f) = []"
proof (cases "10 \<in> set f")
  case True
  then obtain a b where f: "f = a @ 10 # b" "10 \<notin> set a" by (metis split_list_first)
  then have "readline f = (a @ [10], b)" using readline_full [of "a @ [10]" b] by simp
  with f show ?thesis by (intro that [of "a @ [10]"]) simp_all
next
  case False
  then have "10 \<notin> set (butlast f)" by (meson in_set_butlastD)
  with readline_end [OF False] assms show ?thesis by (intro that [of f]) simp_all
qed

text \<open>Reading a header loses nothing, and what comes after it does not matter.\<close>

lemma header_loop_verbatim:
  "header_loop f = Inr (lines, rest) \<Longrightarrow>
     header_lines lines \<and> f = encode_ascii (concat lines) @ rest \<and> (last (last lines) = CHR 0x0A \<or> rest = [])"
proof (induction f arbitrary: lines rule: header_loop.induct)
  case (1 f)
  from "1.prems" have f: "f \<noteq> []" by (auto simp: header_loop.simps [of f])
  obtain l where l: "readline f = (l, snd (readline f))" "f = l @ snd (readline f)" "l \<noteq> []" "10 \<notin> set (butlast l)"
    "last l = 10 \<or> snd (readline f) = []" using readline_spec [OF f] .
  from l(1) have fst: "fst (readline f) = l" by (metis fst_conv)
  from "1.prems" f obtain line where line: "decode_ascii l = Inr line"
    by (auto simp: header_loop.simps [of f] fst py_splits)
  note enc = encode_decode [OF line]
  have ne: "line \<noteq> []" using enc l(3) by auto
  have nl: "CHR 0x0A \<notin> set (butlast line)" using l(4) enc encode_newline [of "butlast line"] by (metis encode_shape(2))
  have last: "last l = 10 \<longleftrightarrow> last line = CHR 0x0A" using encode_last [OF ne] enc by simp
  show ?case
  proof (cases "starts_with line ''DATA''")
    case True
    with "1.prems" f line have "lines = [line]" "rest = snd (readline f)" by (auto simp: header_loop.simps [of f] fst)
    with True nl decode_is_ascii [OF line] enc l(2,5) last show ?thesis by simp
  next
    case False
    with "1.prems" f line obtain ls where ls: "header_loop (snd (readline f)) = Inr (ls, rest)" "lines = line # ls"
      by (auto simp: header_loop.simps [of f] fst py_splits)
    then have "snd (readline f) \<noteq> []" by (auto simp: header_loop.simps [of "[]"])
    with l(5) last have "last line = CHR 0x0A" by simp
    with ne nl decode_is_ascii [OF line] have full: "full_line line" by (simp add: full_line_def)
    have "fst (readline f) = l \<Longrightarrow> header_lines ls \<and> snd (readline f) = encode_ascii (concat ls) @ rest \<and>
        (last (last ls) = CHR 0x0A \<or> rest = [])"
      using "1.IH" [OF f _ False ls(1)] line fst by simp
    with fst have ih: "header_lines ls" "snd (readline f) = encode_ascii (concat ls) @ rest" "last (last ls) = CHR 0x0A \<or> rest = []"
      by blast+
    from ih(1) have "ls \<noteq> []" by auto
    with False full ih enc l(2) ls(2) show ?thesis by (cases ls) auto
  qed
qed

lemma header_loop_again:
  "header_lines lines \<Longrightarrow> last (last lines) = CHR 0x0A \<or> rest = [] \<Longrightarrow>
     header_loop (encode_ascii (concat lines) @ rest) = Inr (lines, rest)"
proof (induction lines rule: header_lines.induct)
  case 1
  then show ?case by simp
next
  case (2 l)
  then have l: "ascii l" "starts_with l ''DATA''" "CHR 0x0A \<notin> set (butlast l)" by simp_all
  then have ne: "l \<noteq> []" by auto
  have nl: "10 \<notin> set (butlast (encode_ascii l))" using l(3) encode_newline [of "butlast l"] by simp
  have r: "readline (encode_ascii l @ rest) = (encode_ascii l, rest)"
  proof (cases "last l = CHR 0x0A")
    case True
    with ne nl encode_last [OF ne] show ?thesis by (intro readline_full) simp_all
  next
    case False
    then have "10 \<notin> set (encode_ascii l)"
      using nl ne encode_last [OF ne] append_butlast_last_id [of "encode_ascii l"]
      by (metis Un_iff encode_shape(1) list.set(1,2) insert_iff empty_iff set_append)
    from readline_end [OF this] False "2.prems"(2) show ?thesis by simp
  qed
  show ?case using ne l by (subst header_loop.simps) (simp add: r decode_encode)
next
  case (3 l l' ls)
  then have l: "full_line l" "\<not> starts_with l ''DATA''" "header_lines (l' # ls)" by simp_all
  then have ne: "l \<noteq> []" "ascii l" by (simp_all add: full_line_def)
  have nl: "10 \<notin> set (butlast (encode_ascii l))" "last (encode_ascii l) = 10"
    using l(1) encode_newline [of "butlast l"] encode_last [OF ne(1)] by (simp_all add: full_line_def)
  have r: "readline (encode_ascii l @ q) = (encode_ascii l, q)" for q
    using ne nl by (intro readline_full) simp_all
  have "header_loop (encode_ascii (concat (l' # ls)) @ rest) = Inr (l' # ls, rest)"
    using "3.prems"(2) by (intro "3.IH" l(3)) simp
  with ne l(2) show ?case by (subst header_loop.simps) (simp add: r decode_encode)
qed

lemma read_header_lines:
  assumes "header_lines lines" "last (last lines) = CHR 0x0A \<or> rest = []"
  shows "read_header (encode_ascii (concat lines) @ rest) = bindE (header_of lines) (\<lambda>h. Ret (h, rest))"
  by (simp add: read_header_def header_loop_again [OF assms])

section \<open>The rewritten DATA line\<close>

lemma header_lines_last: "header_lines lines \<Longrightarrow> lines \<noteq> [] \<and> starts_with (last lines) ''DATA''"
  by (induction lines rule: header_lines.induct) auto

lemma with_data_format_last:
  "header_lines lines \<Longrightarrow> with_data_format lines fmt = butlast lines @ [''DATA '' @ fmt @ [CHR 0x0A]]"
  by (induction lines rule: header_lines.induct) (auto simp: with_data_format_def)

lemma header_lines_with_format:
  "header_lines lines \<Longrightarrow> ascii fmt \<Longrightarrow> CHR 0x0A \<notin> set fmt \<Longrightarrow> header_lines (with_data_format lines fmt)"
proof (induction lines rule: header_lines.induct)
  case 1
  then show ?case by simp
next
  case (2 l)
  then show ?case by (auto simp: with_data_format_def ascii_def butlast_append)
next
  case (3 l l' ls)
  then show ?case by (auto simp: with_data_format_def split: if_split_asm)
qed

lemma find_snoc: "\<not> P x \<Longrightarrow> find P (xs @ [x]) = find P xs"
  by (induction xs) auto

text \<open>No key other than \<open>DATA\<close> is looked up in the last line.\<close>

lemma header_value_last:
  assumes "starts_with l ''DATA''" "key \<noteq> []" "hd key \<noteq> CHR ''D''"
  shows "header_value (ls @ [l]) key = header_value ls key"
proof -
  have "\<not> starts_with l (key @ '' '')"
    using assms by (cases l; cases key) auto
  then show ?thesis by (simp add: header_value_def find_snoc)
qed

lemma header_value_format:
  assumes "header_lines lines" "key \<noteq> []" "hd key \<noteq> CHR ''D''"
  shows "header_value (with_data_format lines fmt) key = header_value lines key"
proof -
  from header_lines_last [OF assms(1)] have l: "lines = butlast lines @ [last lines]" "starts_with (last lines) ''DATA''"
    by simp_all
  have "header_value lines key = header_value (butlast lines) key"
    by (subst l(1)) (rule header_value_last [OF l(2) assms(2,3)])
  moreover have "header_value (with_data_format lines fmt) key = header_value (butlast lines) key"
    unfolding with_data_format_last [OF assms(1)] by (rule header_value_last [OF _ assms(2,3)]) simp
  ultimately show ?thesis by simp
qed

lemma split_data_line: "split_ws ''DATA binary\<newline>'' = [''DATA'', ''binary'']"
  by code_simp

lemma strip_binary: "strip ''binary'' = ''binary''"
  by code_simp

lemma header_of_Inr:
  assumes "header_of lines = Inr h"
  obtains fields sizes types w fmt ws points where "header_value lines ''FIELDS'' = Inr fields" "header_value lines ''SIZE'' = Inr sizes"
    "header_value lines ''TYPE'' = Inr types" "map_of SUPPORTED_LAYOUTS (fields, sizes, types) = Some (h_fields h)"
    "header_value lines ''COUNT'' = Inr (join '' '' (replicate (h_fields h) ''1''))"
    "header_value lines ''POINTS'' = Inr points" "py_int (PStr points) = Inr (h_points h)"
    "split_ws (last lines) = w # fmt # ws" "h_format h = strip fmt" "h_lines h = lines"
  using assms by (auto simp: header_of_def py_splits split: option.split_asm if_split_asm list.split_asm)

lemma header_of_with_format:
  assumes "header_of lines = Inr h" "header_lines lines"
  shows "header_of (with_data_format lines ''binary'') = Inr (h\<lparr>h_lines := with_data_format lines ''binary'', h_format := ''binary''\<rparr>)"
proof -
  have last: "last (with_data_format lines ''binary'') = ''DATA binary\<newline>''"
    unfolding with_data_format_last [OF assms(2)] by simp
  have v: "header_value (with_data_format lines ''binary'') k = header_value lines k"
    if "k \<in> {''FIELDS'', ''SIZE'', ''TYPE'', ''COUNT'', ''POINTS''}" for k
    using that by (intro header_value_format [OF assms(2)]) auto
  show ?thesis
    by (rule header_of_Inr [OF assms(1)])
      (simp add: header_of_def last split_data_line v strip_binary SUPPORTED_DATA_FORMATS_def)
qed

section \<open>Points and their bytes\<close>

text \<open>\<open>n\<close> points of \<open>k\<close> values.\<close>

definition shaped :: "int \<Rightarrow> nat \<Rightarrow> 'a list list \<Rightarrow> bool" where
  "shaped n k ps \<longleftrightarrow> int (length ps) = n \<and> (\<forall>p \<in> set ps. length p = k)"

lemma header_of_fields: "header_of lines = Inr h \<Longrightarrow> h_fields h \<in> {3, 4}"
  by (auto simp: header_of_def py_splits SUPPORTED_LAYOUTS_def split: option.split_asm if_split_asm list.split_asm)

lemma shaped_size: "shaped n k ps \<Longrightarrow> int (length (concat ps)) = n * int k"
proof -
  assume s: "shaped n k ps"
  then have "length (concat ps) = length ps * k"
    by (induction ps arbitrary: n) (auto simp: shaped_def)
  with s show ?thesis by (simp add: shaped_def)
qed

lemma binary_points_shaped:
  assumes "read_points ops f h = Inr (F32 ps)" "h_fields h \<in> {3, 4}"
  shows "shaped (h_points h) (h_fields h) ps"
proof -
  let ?n = "h_points h" and ?k = "h_fields h"
  have k: "0 < ?k" using assms(2) by auto
  show ?thesis
  proof (cases "h_format h = ''binary''")
    case True
    let ?raw = "fst (read_bytes (?n * int ?k * 4) f)"
    from assms(1) True have l: "int (length ?raw) = ?n * int ?k * 4" and ps: "ps = rows ?k (words_of ?raw)"
      by (auto simp: read_points_def Let_def split: if_split_asm)
    have "0 \<le> ?n * int ?k * 4" using l by (metis of_nat_0_le_iff)
    then have n: "0 \<le> ?n" using k by (simp add: zero_le_mult_iff)
    then have "length ?raw = nat ?n * ?k * 4" using l by (metis nat_int nat_mult_distrib nat_numeral of_nat_0_le_iff of_nat_mult of_nat_numeral int_nat_eq)
    then have "length (words_of ?raw) = nat ?n * ?k" by (simp add: length_words_of)
    from rows_lengths [OF k this] n show ?thesis by (simp add: ps shaped_def)
  next
    case False
    have "0 \<le> ?n" if "int m = ?n * int ?k * 4" for m
    proof -
      from that have "0 \<le> ?n * int ?k * 4" by (metis of_nat_0_le_iff)
      with k show ?thesis by (simp add: zero_le_mult_iff)
    qed
    with assms(1) False show ?thesis
      by (auto simp: read_points_def Let_def py_splits shaped_def by_point_def split: if_split_asm prod.split_asm)
  qed
qed

lemma read_written_points:
  assumes "shaped (h_points h) (h_fields h) ps" "0 < h_fields h" "h_format h = ''binary''"
  shows "read_points ops (concat (map bytes_of (concat ps)) @ rest) h = Inr (F32 ps)"
proof -
  let ?b = "concat (map bytes_of (concat ps))"
  have l: "int (length ?b) = h_points h * int (h_fields h) * 4"
    unfolding length_bytes using shaped_size [OF assms(1)] by simp
  then have "nat (h_points h * int (h_fields h) * 4) = length ?b" "\<not> h_points h * int (h_fields h) * 4 < 0"
    by (metis nat_int, metis of_nat_less_0_iff)
  then have r: "fst (read_bytes (h_points h * int (h_fields h) * 4) (?b @ rest)) = ?b"
    by (simp add: read_bytes_def)
  have "rows (h_fields h) (concat ps) = ps"
    using assms(1,2) by (intro rows_concat) (auto simp: shaped_def)
  with l show ?thesis unfolding read_points_def Let_def r using assms(3) by simp
qed

lemma shift_row_length: "shift_row add dx dy dz p = Inr q \<Longrightarrow> length q = length p"
  by (cases "(add, dx, dy, dz, p)" rule: shift_row.cases) auto

lemma shift_shaped: "shift_points ops (F32 ps) dx dy dz = Inr (F32 qs) \<Longrightarrow> shaped n k ps \<Longrightarrow> shaped n k qs"
proof -
  assume "shift_points ops (F32 ps) dx dy dz = Inr (F32 qs)" and s: "shaped n k ps"
  then have "list_all2 (\<lambda>p q. shift_row (po_add32 ops) dx dy dz p = Inr q) ps qs"
    by (auto simp: shift_points_def py_splits mapE_Inr_list_all2)
  then have "list_all2 (\<lambda>p q. length q = length p) ps qs"
    by (rule list_all2_mono) (rule shift_row_length)
  then have m: "map length qs = map length ps"
    by (induction rule: list_all2_induct) auto
  then have "length qs = length ps" by (metis length_map)
  moreover have "length ` set qs = length ` set ps" using m by (metis list.set_map)
  ultimately show ?thesis using s by (auto simp: shaped_def)
qed

section \<open>Files\<close>

text \<open>A binary file that was read and whose points were replaced by as many others is read back as it was written: the
  same header with the \<open>DATA\<close> line \<open>binary\<close>, and those points.\<close>

definition output_lines :: "pcd_header \<Rightarrow> string list" where
  "output_lines h = (if h_format h = ''binary_compressed'' then with_data_format (h_lines h) ''binary'' else h_lines h)"

lemma read_header_parts:
  assumes "read_header f = Inr (h, rest)"
  shows "header_lines (h_lines h) \<and> header_of (h_lines h) = Inr h \<and> f = encode_ascii (concat (h_lines h)) @ rest \<and>
    (last (last (h_lines h)) = CHR 0x0A \<or> rest = []) \<and> h_fields h \<in> {3, 4}"
proof -
  from assms obtain lines where l: "header_loop f = Inr (lines, rest)" "header_of lines = Inr h"
    by (auto simp: read_header_def py_splits)
  moreover have "h_lines h = lines" by (rule header_of_Inr [OF l(2)])
  ultimately show ?thesis using header_loop_verbatim [OF l(1)] header_of_fields [OF l(2)] by simp
qed

lemma binary_payload_empty:
  assumes "read_points ops [] h = Inr (F32 ps)" "h_format h = ''binary''" "h_fields h \<in> {3, 4}"
  shows "ps = []"
proof -
  from assms(1,2) have "ps = rows (h_fields h) (words_of [])"
    by (auto simp: read_points_def Let_def read_bytes_def split: if_split_asm)
  then show ?thesis by (simp add: rows.simps)
qed

lemma written_reads_back:
  assumes "read_pcd ops f = Inr (h, F32 ps)" "h_format h \<in> {''binary'', ''binary_compressed''}"
    and "shaped (h_points h) (h_fields h) qs"
  shows "read_pcd ops (write_pcd ops (output_lines h) (F32 qs) ''binary'') =
    Inr (h\<lparr>h_lines := output_lines h, h_format := ''binary''\<rparr>, F32 qs)"
proof -
  from assms(1) obtain rest where h: "read_header f = Inr (h, rest)" and p: "read_points ops rest h = Inr (F32 ps)"
    by (auto simp: read_pcd_def py_splits)
  note parts = read_header_parts [OF h]
  let ?h = "h\<lparr>h_lines := output_lines h, h_format := ''binary''\<rparr>"
  let ?b = "concat (map bytes_of (concat qs))"
  have "header_lines (output_lines h) \<and> header_of (output_lines h) = Inr ?h \<and>
      (last (last (output_lines h)) = CHR 0x0A \<or> ?b = [])"
  proof (cases "h_format h = ''binary_compressed''")
    case True
    have "ascii ''binary''" by (simp add: ascii_def)
    with parts True show ?thesis
      using header_lines_with_format [of "h_lines h" "''binary''"] header_of_with_format [of "h_lines h" h]
      by (simp add: output_lines_def with_data_format_last)
  next
    case False
    with assms(2) have b: "h_format h = ''binary''" by simp
    have "?b = []" if "rest = []"
    proof -
      from binary_payload_empty [of ops h ps] p that b parts have "ps = []" by simp
      with binary_points_shaped [OF p] parts have "h_points h = 0" by (simp add: shaped_def)
      with assms(3) have "qs = []" by (simp add: shaped_def)
      then show ?thesis by simp
    qed
    with parts b False show ?thesis by (auto simp: output_lines_def)
  qed
  then have loop: "header_loop (encode_ascii (concat (output_lines h)) @ ?b) = Inr (output_lines h, ?b)"
    and hdr: "header_of (output_lines h) = Inr ?h"
    using header_loop_again by auto
  have "read_points ops (?b @ []) ?h = Inr (F32 qs)"
    by (rule read_written_points) (use assms(3) parts in auto)
  then show ?thesis by (simp add: read_pcd_def write_pcd_def read_header_def loop hdr)
qed

section \<open>The two binary layouts\<close>

text \<open>The payload of a compressed file, field by field, and its two counts.\<close>

definition by_field :: "nat \<Rightarrow> 'a list list \<Rightarrow> 'a list" where
  "by_field n_fields ps = concat (map (\<lambda>j. map (\<lambda>p. p ! j) ps) [0..<n_fields])"

definition le4 :: "nat \<Rightarrow> byte list" where
  "le4 n = bytes_of (of_nat n)"

lemma nth_concat_block:
  "\<forall>xs \<in> set xss. length xs = n \<Longrightarrow> j < length xss \<Longrightarrow> i < n \<Longrightarrow> concat xss ! (j * n + i) = xss ! j ! i"
proof (induction xss arbitrary: j)
  case Nil
  then show ?case by simp
next
  case (Cons xs xss)
  then show ?case by (cases j) (auto simp: nth_append add.assoc)
qed

lemma by_point_by_field: "shaped (int n) k ps \<Longrightarrow> by_point n k (by_field k ps) = ps"
proof -
  assume s: "shaped (int n) k ps"
  then have n: "length ps = n" by (simp add: shaped_def)
  have b: "by_field k ps ! (j * n + i) = ps ! i ! j" if "j < k" "i < n" for i j
    unfolding by_field_def using that n nth_concat_block [of "map (\<lambda>j. map (\<lambda>p. p ! j) ps) [0..<k]" n j i] by simp
  have "by_point n k (by_field k ps) = map (\<lambda>i. map (\<lambda>j. ps ! i ! j) [0..<k]) [0..<n]"
    unfolding by_point_def using b by (intro map_cong) auto
  also have "\<dots> = map (\<lambda>i. ps ! i) [0..<n]"
    using s n by (intro map_cong) (auto simp: shaped_def list_eq_iff_nth_eq)
  also have "\<dots> = ps" using n map_nth [of ps] by simp
  finally show ?thesis .
qed

lemma length_by_field: "length (by_field k ps) = k * length ps"
  by (simp add: by_field_def length_concat o_def sum_list_triv)

lemma le_int_le4: "n < 2 ^ 32 \<Longrightarrow> le_int (le4 n) = n"
proof -
  assume n: "n < 2 ^ 32"
  have u: "unat (of_nat m :: 32 word) = m mod 2 ^ 32" for m by (simp add: unat_of_nat)
  have "unat (of_nat (le_int (le4 n)) :: 32 word) = unat (of_nat n :: 32 word)"
    unfolding le4_def bytes_of_word ..
  then have eq: "le_int (le4 n) mod 2 ^ 32 = n mod 2 ^ 32" unfolding u .
  have sum: "x + 256 * y + 65536 * z + 16777216 * w < 2 ^ 32" if "x < 256" "y < 256" "z < 256" "w < 256" for x y z w :: nat
    using that by simp
  have "le_int [a, b, c, d] < 2 ^ 32" for a b c d :: byte
    unfolding le_int_four by (intro sum byte_less)
  then have "le_int (le4 n) < 2 ^ 32" unfolding le4_def bytes_of_def .
  with eq n show ?thesis by simp
qed

text \<open>C26: The two layouts hold the same points: for well-formed sizes, the payload by point read as \<open>binary\<close> and any
  compressed stream of the payload by field read as \<open>binary_compressed\<close> both give the points that were written.\<close>

theorem layouts_agree:
  assumes "shaped (h_points h) (h_fields h) ps" "0 < h_fields h"
    and "lzf_decompress c = Inr (concat (map bytes_of (by_field (h_fields h) ps)))"
    and "length c < 2 ^ 32" "4 * (h_fields h * length ps) < 2 ^ 32"
  shows "read_points ops (concat (map bytes_of (concat ps)) @ rest) (h\<lparr>h_format := ''binary''\<rparr>) = Inr (F32 ps) \<and>
    read_points ops (le4 (length c) @ le4 (4 * (h_fields h * length ps)) @ c @ rest) (h\<lparr>h_format := ''binary_compressed''\<rparr>) =
      Inr (F32 ps)"
proof
  show "read_points ops (concat (map bytes_of (concat ps)) @ rest) (h\<lparr>h_format := ''binary''\<rparr>) = Inr (F32 ps)"
    using assms(1,2) by (intro read_written_points) simp_all
  have l4: "length (le4 m) = 4" for m by (simp add: le4_def bytes_of_def)
  have r4: "read_bytes 4 (le4 m @ f) = (le4 m, f)" for m f by (simp add: read_bytes_def l4)
  have rc: "fst (read_bytes (int (length c)) (c @ rest)) = c" by (simp add: read_bytes_def)
  have n: "int (length ps) = h_points h" using assms(1) by (simp add: shaped_def)
  then have nn: "nat (h_points h) = length ps" by simp
  have "shaped (int (length ps)) (h_fields h) ps" using assms(1) n by simp
  from by_point_by_field [OF this] n show "read_points ops (le4 (length c) @ le4 (4 * (h_fields h * length ps)) @ c @ rest)
      (h\<lparr>h_format := ''binary_compressed''\<rparr>) = Inr (F32 ps)"
    by (simp add: read_points_def r4 le_int_le4 [OF assms(4)] le_int_le4 [OF assms(5)] rc assms(3) length_by_field nn)
qed

text \<open>Two points of three values, the payload by field compressed as one literal run.\<close>

definition text_free_ops :: pcd_ops where
  "text_free_ops =
     \<lparr>po_loadtxt = \<lambda>_. Raise ValueError ''no text'', po_savetxt = \<lambda>_. [], po_float32 = \<lambda>_. 0, po_add32 = \<lambda>w _. w + 1\<rparr>"

theorem layouts_agree_witness:
  "read_points text_free_ops (concat (map bytes_of [1, 2, 3, 4, 5, 6]) @ [])
       \<lparr>h_lines = [], h_format = ''binary'', h_points = 2, h_fields = 3\<rparr> = Inr (F32 [[1, 2, 3], [4, 5, 6]]) \<and>
   read_points text_free_ops (le4 25 @ le4 24 @ (23 # concat (map bytes_of [1, 4, 2, 5, 3, 6])) @ [])
       \<lparr>h_lines = [], h_format = ''binary_compressed'', h_points = 2, h_fields = 3\<rparr> = Inr (F32 [[1, 2, 3], [4, 5, 6]])"
proof -
  let ?h = "\<lparr>h_lines = [], h_format = ''ascii'', h_points = 2, h_fields = 3\<rparr>"
  let ?ps = "[[1, 2, 3], [4, 5, 6]] :: 32 word list list"
  let ?c = "23 # concat (map bytes_of [1, 4, 2, 5, 3, 6])"
  have field: "by_field 3 ?ps = [1, 4, 2, 5, 3, 6]" by code_simp
  have "length (concat (map bytes_of [1, 4, 2, 5, 3, 6])) = 24" by (simp only: length_bytes) simp
  then have "lzf_decompress ?c = Inr (concat (map bytes_of [1, 4, 2, 5, 3, 6]))"
    using one_literal [of "concat (map bytes_of [1, 4, 2, 5, 3, 6])"] by fastforce
  then have "lzf_decompress ?c = Inr (concat (map bytes_of (by_field (h_fields ?h) ?ps)))" by (simp only: field pcd_header.select_convs)
  moreover have "length ?c = 25" by (simp add: bytes_of_def)
  ultimately show ?thesis
    using layouts_agree [of ?h ?ps ?c text_free_ops "[]"] by (simp add: shaped_def)
qed

end
