(* ===== verification/Shift_Pcd.thy ===== *)
theory Shift_Pcd
  imports Pcd Runner_Args
begin

text \<open>
  \<^verbatim>\<open>benchmarks/scripts/shift_pcd.py\<close>, \<open>main\<close>: read a point cloud, translate it, write it, print the digests of both
  files. The files are a map from paths to bytes; writing and printing are taken to succeed, SHA-256 is a parameter.

  The lemmas: the tool either leaves every file alone or writes one file, and a binary output is read back as the input
  with the \<open>DATA\<close> line \<open>binary\<close> and the shifted points; a bare \<open>DATA\<close> line
  leaves the tool as an exception it does not catch.
\<close>

definition shift_parser :: "opt_spec list" where
  "shift_parser =
     [opt ''--in'' ''in_path'' StrOpt PNone, opt ''--out'' ''out_path'' StrOpt PNone,
      opt ''--dx'' ''dx'' FloatOpt (PFloat (Fin 0)), opt ''--dy'' ''dy'' FloatOpt (PFloat (Fin 0)),
      opt ''--dz'' ''dz'' FloatOpt (PFloat (Fin 0))]"

definition EXIT_BAD_FORMAT :: int where "EXIT_BAD_FORMAT = 1"

text \<open>The exit status, the files afterwards, and the digests printed with their paths.\<close>

record shift_run =
  sr_status :: int
  sr_files :: "string \<Rightarrow> byte list option"
  sr_printed :: "(string \<times> string) list"

definition open_rb :: "(string \<Rightarrow> byte list option) \<Rightarrow> string \<Rightarrow> byte list res" where
  "open_rb files path =
     (case files path of None \<Rightarrow> Raise FileNotFoundError ''no such file'' | Some bs \<Rightarrow> Ret bs)"

definition offset_arg :: "namespace \<Rightarrow> string \<Rightarrow> f64" where
  "offset_arg ns d = (case as_float (map_of ns d) of None \<Rightarrow> NaN | Some x \<Rightarrow> x)"

text \<open>\<open>main\<close> with its paths and offsets.\<close>

definition shift_file ::
  "pcd_ops \<Rightarrow> (byte list \<Rightarrow> string) \<Rightarrow> (string \<Rightarrow> byte list option) \<Rightarrow> string \<Rightarrow> string \<Rightarrow> f64 \<Rightarrow> f64 \<Rightarrow> f64 \<Rightarrow> shift_run res" where
  "shift_file ops sha256 files in_path out_path dx dy dz =
     (case bindE (open_rb files in_path) (read_pcd ops) of
        Inl e \<Rightarrow>
          if exc_isa (exc_of e) PcdFormatError then Ret \<lparr>sr_status = EXIT_BAD_FORMAT, sr_files = files, sr_printed = []\<rparr>
          else Inl e
      | Inr (h, points) \<Rightarrow>
          bindE (shift_points ops points dx dy dz) (\<lambda>shifted.
            let (out_header, out_format) =
                  (if h_format h = ''binary_compressed'' then (with_data_format (h_lines h) ''binary'', ''binary'')
                   else (h_lines h, h_format h));
                files' = files(out_path \<mapsto> write_pcd ops out_header shifted out_format)
            in Ret \<lparr>sr_status = 0, sr_files = files',
                    sr_printed = [(sha256 (the (files' in_path)), in_path), (sha256 (the (files' out_path)), out_path)]\<rparr>))"

definition shift_main ::
  "string list \<Rightarrow> pcd_ops \<Rightarrow> (byte list \<Rightarrow> string) \<Rightarrow> (string \<Rightarrow> byte list option) \<Rightarrow> shift_run res" where
  "shift_main argv ops sha256 files =
     (case parse_args shift_parser argv of
        Inl n \<Rightarrow> Ret \<lparr>sr_status = n, sr_files = files, sr_printed = []\<rparr>
      | Inr ns \<Rightarrow>
          (case (as_str (map_of ns ''in_path''), as_str (map_of ns ''out_path'')) of
             (Some in_path, Some out_path) \<Rightarrow>
               shift_file ops sha256 files in_path out_path (offset_arg ns ''dx'') (offset_arg ns ''dy'') (offset_arg ns ''dz'')
           | _ \<Rightarrow> Ret \<lparr>sr_status = 2, sr_files = files, sr_printed = []\<rparr>))"

section \<open>What a run leaves behind\<close>

text \<open>The points as written are the points as read, moved: the file written, read again.\<close>

definition shifted_copy :: "pcd_ops \<Rightarrow> byte list \<Rightarrow> byte list \<Rightarrow> f64 \<Rightarrow> f64 \<Rightarrow> f64 \<Rightarrow> bool" where
  "shifted_copy ops before after dx dy dz \<longleftrightarrow>
     (\<exists>h points shifted. read_pcd ops before = Inr (h, points) \<and> shift_points ops points dx dy dz = Inr shifted \<and>
        (case shifted of
           F32 ps \<Rightarrow> read_pcd ops after = Inr (h\<lparr>h_lines := output_lines h, h_format := ''binary''\<rparr>, shifted)
         | F64 ps \<Rightarrow> after = encode_ascii (concat (h_lines h)) @ po_savetxt ops shifted))"

lemma read_pcd_format:
  assumes "read_pcd ops f = Inr (h, points)"
  shows "case points of F32 ps \<Rightarrow> h_format h \<in> {''binary'', ''binary_compressed''} \<and> shaped (h_points h) (h_fields h) ps
    | F64 ps \<Rightarrow> h_format h \<noteq> ''binary'' \<and> h_format h \<noteq> ''binary_compressed''"
proof -
  from assms obtain rest where h: "read_header f = Inr (h, rest)" "read_points ops rest h = Inr points"
    by (auto simp: read_pcd_def py_splits)
  with read_header_parts [OF h(1)] binary_points_shaped [of ops rest h] show ?thesis
    by (auto simp: read_points_def Let_def py_splits split: pcd_points.split if_split_asm prod.split_asm)
qed

lemma shift_points_kind:
  "shift_points ops (F32 ps) dx dy dz = Inr q \<Longrightarrow> \<exists>qs. q = F32 qs"
  "shift_points ops (F64 xs) dx dy dz = Inr q \<Longrightarrow> \<exists>ys. q = F64 ys"
  by (auto simp: shift_points_def py_splits)

lemma shift_file_copy:
  assumes "shift_file ops sha files i out dx dy dz = Inr r"
  shows "(sr_status r = 1 \<and> sr_files r = files \<and> sr_printed r = []) \<or>
    (\<exists>before after. sr_status r = 0 \<and> files i = Some before \<and> sr_files r = files(out \<mapsto> after) \<and>
       shifted_copy ops before after dx dy dz \<and>
       sr_printed r = [(sha (if i = out then after else before), i), (sha after, out)])"
proof (cases "bindE (open_rb files i) (read_pcd ops)")
  case (Inl e)
  with assms show ?thesis by (auto simp: shift_file_def EXIT_BAD_FORMAT_def split: if_split_asm)
next
  case (Inr hp)
  obtain h points where hp: "hp = (h, points)" by (cases hp)
  with Inr obtain before where before: "files i = Some before" "read_pcd ops before = Inr (h, points)"
    by (auto simp: open_rb_def py_splits split: option.split_asm)
  from assms Inr hp obtain shifted where s: "shift_points ops points dx dy dz = Inr shifted"
    by (auto simp: shift_file_def py_splits)
  let ?fmt = "if h_format h = ''binary_compressed'' then ''binary'' else h_format h"
  let ?after = "write_pcd ops (output_lines h) shifted ?fmt"
  have r: "r = \<lparr>sr_status = 0, sr_files = files(out \<mapsto> ?after),
      sr_printed = [(sha (the ((files(out \<mapsto> ?after)) i)), i), (sha (the ((files(out \<mapsto> ?after)) out)), out)]\<rparr>"
    using assms Inr hp s by (auto simp: shift_file_def output_lines_def Let_def split: if_split_asm)
  note fmt = read_pcd_format [OF before(2)]
  have "shifted_copy ops before ?after dx dy dz"
  proof (cases points)
    case (F32 ps)
    then obtain qs where q: "shifted = F32 qs" using shift_points_kind(1) s by blast
    have "shaped (h_points h) (h_fields h) qs" using shift_shaped [of ops ps dx dy dz qs] s q F32 fmt by simp
    moreover have b: "h_format h \<in> {''binary'', ''binary_compressed''}" using fmt F32 by simp
    ultimately have "read_pcd ops (write_pcd ops (output_lines h) (F32 qs) ''binary'') =
        Inr (h\<lparr>h_lines := output_lines h, h_format := ''binary''\<rparr>, F32 qs)"
      using before(2) F32 by (intro written_reads_back) simp_all
    moreover have "?fmt = ''binary''" using b by auto
    ultimately show ?thesis unfolding shifted_copy_def using before(2) s q by (auto intro!: exI [of _ h])
  next
    case (F64 xs)
    then obtain ys where y: "shifted = F64 ys" using shift_points_kind(2) s by blast
    have "?after = encode_ascii (concat (h_lines h)) @ po_savetxt ops shifted"
      using fmt F64 by (simp add: write_pcd_def output_lines_def)
    then show ?thesis unfolding shifted_copy_def using before(2) s y by (auto intro!: exI [of _ h])
  qed
  then show ?thesis using before(1) by (intro disjI2 exI [of _ before] exI [of _ ?after]) (simp add: r)
qed


section \<open>Two runs\<close>

definition cloud_header :: "string \<Rightarrow> string list" where
  "cloud_header data_line =
     map (\<lambda>l. l @ [CHR 0x0A]) [''FIELDS x y z'', ''SIZE 4 4 4'', ''TYPE F F F'', ''COUNT 1 1 1'', ''POINTS 1'', data_line]"

definition one_file :: "string \<Rightarrow> byte list \<Rightarrow> string \<Rightarrow> byte list option" where
  "one_file path bs = (\<lambda>p. if p = path then Some bs else None)"

definition sample_cloud :: "byte list" where
  "sample_cloud = encode_ascii (concat (cloud_header ''DATA binary'')) @ concat (map bytes_of [1, 2, 3])"

abbreviation cloud_args :: "string list" where
  "cloud_args \<equiv> [''--in'', ''a'', ''--out'', ''b'']"

lemma cloud_args_parsed:
  "case parse_args shift_parser cloud_args of
     Inr ns \<Rightarrow> map_of ns ''in_path'' = Some (PStr ''a'') \<and> map_of ns ''out_path'' = Some (PStr ''b'') \<and>
       offset_arg ns ''dx'' = Fin 0 \<and> offset_arg ns ''dy'' = Fin 0 \<and> offset_arg ns ''dz'' = Fin 0
   | Inl _ \<Rightarrow> False"
  by code_simp

lemma cloud_main:
  "shift_main cloud_args ops sha files = shift_file ops sha files ''a'' ''b'' (Fin 0) (Fin 0) (Fin 0)"
  using cloud_args_parsed by (auto simp: shift_main_def split: sum.split_asm)

lemma cloud_header_lines:
  "header_lines (cloud_header ''DATA binary'')" "header_lines (cloud_header ''DATA'')"
  by code_simp+

lemma cloud_header_last: "last (last (cloud_header l)) = CHR 0x0A"
  by (simp add: cloud_header_def)

lemma cloud_header_of:
  "header_of (cloud_header ''DATA binary'') =
     Inr \<lparr>h_lines = cloud_header ''DATA binary'', h_format = ''binary'', h_points = 1, h_fields = 3\<rparr>"
  by code_simp

lemma read_sample: "\<exists>h. read_pcd ops sample_cloud = Inr (h, F32 [[1, 2, 3]])"
proof -
  let ?h = "\<lparr>h_lines = cloud_header ''DATA binary'', h_format = ''binary'', h_points = 1, h_fields = 3\<rparr>"
  have "read_header sample_cloud = Inr (?h, concat (map bytes_of [1, 2, 3]))"
    unfolding sample_cloud_def read_header_lines [OF cloud_header_lines(1) disjI1, OF cloud_header_last] cloud_header_of
    by simp
  moreover have "read_points ops (concat (map bytes_of (concat [[1, 2, 3]])) @ []) ?h = Inr (F32 [[1, 2, 3]])"
    by (rule read_written_points) (simp_all add: shaped_def)
  ultimately have "read_pcd ops sample_cloud = Inr (?h, F32 [[1, 2, 3]])" by (simp add: read_pcd_def)
  then show ?thesis ..
qed


text \<open>A \<open>DATA\<close> line without a format: the subscript after \<open>split()\<close> raises IndexError, which is not a PcdFormatError.\<close>

lemma bare_data_header: "header_of (cloud_header ''DATA'') = Raise IndexError ''list index out of range''"
  by code_simp

lemma bare_data_line_escapes:
  assumes "files i = Some (encode_ascii (concat (cloud_header ''DATA'')) @ payload)"
  shows "shift_file ops sha files i out dx dy dz = Raise IndexError ''list index out of range''"
proof -
  have "read_pcd ops (encode_ascii (concat (cloud_header ''DATA'')) @ payload) = Raise IndexError ''list index out of range''"
    unfolding read_pcd_def read_header_lines [OF cloud_header_lines(2) disjI1, OF cloud_header_last] bare_data_header
    by simp
  moreover have "\<not> exc_isa IndexError PcdFormatError" by code_simp
  ultimately show ?thesis by (simp add: shift_file_def open_rb_def assms)
qed

end
