(* ===== verification/Canvas.thy ===== *)
theory Canvas
  imports Py_Arith
begin

text \<open>
  Drawing with matplotlib, which is not in the repository: a figure function is the list of the calls it
  makes, in order, with their arguments, or the exception its own code raises before it has saved the
  figure. The calls themselves are taken to return. Text is UTF-8. The palette, the verdict tables and
  the two drawing helpers of \<^verbatim>\<open>docs/evaluation/figures/make_figures.py\<close> are here.

  The lemmas: what a sequence of drawing steps that succeeds has drawn.
\<close>

section \<open>Characters\<close>

definition em_dash :: string where "em_dash = [CHR 0xE2, CHR 0x80, CHR 0x94]"

definition en_dash :: string where "en_dash = [CHR 0xE2, CHR 0x80, CHR 0x93]"

definition minus_sign :: string where "minus_sign = [CHR 0xE2, CHR 0x88, CHR 0x92]"

definition times_sign :: string where "times_sign = [CHR 0xC3, CHR 0x97]"

definition plus_minus :: string where "plus_minus = [CHR 0xC2, CHR 0xB1]"

definition delta_sign :: string where "delta_sign = [CHR 0xCE, CHR 0x94]"

definition approx_sign :: string where "approx_sign = [CHR 0xE2, CHR 0x89, CHR 0x88]"

definition le_sign :: string where "le_sign = [CHR 0xE2, CHR 0x89, CHR 0xA4]"

definition arrow_sign :: string where "arrow_sign = [CHR 0xE2, CHR 0x86, CHR 0x92]"

definition section_sign :: string where "section_sign = [CHR 0xC2, CHR 0xA7]"

abbreviation nl :: string where "nl \<equiv> [CHR 0x0A]"

abbreviation squote :: string where "squote \<equiv> [CHR 0x27]"

abbreviation dquote :: string where "dquote \<equiv> [CHR 0x22]"

section \<open>Calls\<close>

text \<open>An argument is a value, a tuple or list of arguments, a dictionary built for the call, a new
  object (\<open>Line2D(...)\<close>), or an object the script has a name for. \<open>Bind x\<close> is a call whose result the
  script calls \<open>x\<close>.\<close>

datatype arg =
    V pyval
  | Tup "arg list"
  | Lst "arg list"
  | Kws "(string \<times> arg) list"
  | New string "arg list" "(string \<times> arg) list"
  | Name string

datatype mcall =
    Call string string "arg list" "(string \<times> arg) list"
  | Bind string string string "arg list" "(string \<times> arg) list"

abbreviation sA :: "string \<Rightarrow> arg" where "sA s \<equiv> V (PStr s)"

abbreviation iA :: "int \<Rightarrow> arg" where "iA n \<equiv> V (PInt n)"

abbreviation fA :: "rat \<Rightarrow> arg" where "fA q \<equiv> V (PFloat (of_lit q))"

abbreviation bA :: "bool \<Rightarrow> arg" where "bA b \<equiv> V (PBool b)"

type_synonym drawing = "mcall list res"

text \<open>Drawing steps in order.\<close>

definition seqD :: "drawing list \<Rightarrow> drawing" where
  "seqD ds = bindE (mapE (\<lambda>d. d) ds) (\<lambda>css. Ret (concat css))"

text \<open>A loop whose body draws.\<close>

definition forD :: "('a \<Rightarrow> drawing) \<Rightarrow> 'a list \<Rightarrow> drawing" where
  "forD f xs = seqD (map f xs)"

lemma mapE_map: "mapE f (map g xs) = mapE (\<lambda>x. f (g x)) xs"
  by (induction xs) simp_all

lemma forD_Inr:
  "forD f xs = Inr cs \<longleftrightarrow> (\<exists>css. list_all2 (\<lambda>x c. f x = Inr c) xs css \<and> cs = concat css)"
  by (auto simp: forD_def seqD_def mapE_map bindE_Inr_iff mapE_Inr_list_all2)

lemma forD_draws:
  assumes "forD f xs = Inr cs" and "x \<in> set xs"
  obtains c where "f x = Inr c" "set c \<subseteq> set cs"
proof -
  from assms(1) obtain css where css: "list_all2 (\<lambda>x c. f x = Inr c) xs css" "cs = concat css"
    by (auto simp: forD_Inr)
  from assms(2) obtain i where i: "i < length xs" "x = xs ! i" by (auto simp: in_set_conv_nth)
  with css have "f x = Inr (css ! i)" "i < length css" by (auto simp: list_all2_conv_all_nth)
  moreover from this(2) css(2) have "set (css ! i) \<subseteq> set cs" using nth_mem by fastforce
  ultimately show thesis using that by blast
qed

lemma forD_simps [simp]:
  "forD f [] = Inr []"
  "forD f (x # xs) = bindE (f x) (\<lambda>c. bindE (forD f xs) (\<lambda>cs. Inr (c @ cs)))"
  by (simp_all add: forD_def seqD_def bindE_assoc)

section \<open>Palette and verdict tables\<close>

definition palette :: "(string \<times> string) list" where
  "palette =
     [(''surface'', ''#fcfcfb''), (''ink'', ''#0b0b0b''), (''ink2'', ''#52514e''), (''muted'', ''#898781''),
      (''grid'', ''#e1e0d9''), (''axis'', ''#c3c2b7''), (''band'', ''#f0efec''), (''s1'', ''#2a78d6''),
      (''s2'', ''#eb6834''), (''s3'', ''#1baf7a''), (''s4'', ''#eda100''), (''critical'', ''#d03b3b'')]"

definition C :: "string \<Rightarrow> string" where
  "C k = (case map_of palette k of Some c \<Rightarrow> c | None \<Rightarrow> [])"

abbreviation cA :: "string \<Rightarrow> arg" where "cA k \<equiv> sA (C k)"

definition VERDICT_COLOR :: "(string \<times> string) list" where
  "VERDICT_COLOR =
     [(''parity'', C ''s1''), (''a_better'', C ''s1''), (''b_better'', C ''critical''),
      (''insufficient_data'', C ''muted'')]"

definition VERDICT_TEXT :: "(string \<times> string) list" where
  "VERDICT_TEXT =
     [(''parity'', ''parity''), (''a_better'', ''extension better''), (''b_better'', ''tier4-native better''),
      (''insufficient_data'', ''not computed'')]"

lemma same_verdicts: "map fst VERDICT_TEXT = map fst VERDICT_COLOR"
  by (simp add: VERDICT_TEXT_def VERDICT_COLOR_def)

text \<open>What importing the script sets.\<close>

definition rc_params :: mcall where
  "rc_params =
     Call ''plt.rcParams'' ''update''
       [Kws [(''font.family'', sA ''sans-serif''), (''font.sans-serif'', Lst [sA ''DejaVu Sans'']),
             (''svg.fonttype'', sA ''path''), (''figure.facecolor'', cA ''surface''),
             (''axes.facecolor'', cA ''surface''), (''savefig.facecolor'', cA ''surface''), (''text.color'', cA ''ink''),
             (''axes.labelcolor'', cA ''ink2''), (''xtick.color'', cA ''muted''), (''ytick.color'', cA ''muted''),
             (''axes.edgecolor'', cA ''axis''), (''font.size'', iA 9)]] []"

section \<open>Helpers\<close>

definition style_axis :: "string \<Rightarrow> bool \<Rightarrow> bool \<Rightarrow> mcall list" where
  "style_axis ax xgrid ygrid =
     map (\<lambda>side. Call (ax @ ''.spines.'' @ side) ''set_visible'' [bA False] []) [''top'', ''right'', ''left''] @
     [Call (ax @ ''.spines.bottom'') ''set_linewidth'' [fA (8/10)] [],
      Call ax ''tick_params'' [] [(''length'', iA 3), (''width'', fA (8/10)), (''labelsize'', iA 8)]] @
     (if xgrid
      then [Call (ax @ ''.xaxis'') ''grid'' [bA True]
              [(''color'', cA ''grid''), (''linewidth'', fA (7/10)), (''zorder'', iA 0)]]
      else []) @
     (if ygrid
      then [Call (ax @ ''.yaxis'') ''grid'' [bA True]
              [(''color'', cA ''grid''), (''linewidth'', fA (7/10)), (''zorder'', iA 0)]]
      else []) @
     [Call ax ''set_axisbelow'' [bA True] []]"

definition title_block :: "string \<Rightarrow> string \<Rightarrow> string \<Rightarrow> f64 \<Rightarrow> f64 \<Rightarrow> f64 \<Rightarrow> mcall list" where
  "title_block title subtitle footnote x y foot_y =
     [Call ''fig'' ''text'' [V (PFloat x), V (PFloat y), sA title]
        [(''fontsize'', fA (115/10)), (''fontweight'', sA ''bold''), (''va'', sA ''top''), (''color'', cA ''ink'')],
      Call ''fig'' ''text'' [V (PFloat x), V (PFloat (y - of_lit (58/1000))), sA subtitle]
        [(''fontsize'', fA (86/10)), (''va'', sA ''top''), (''color'', cA ''ink2'')],
      Call ''fig'' ''text'' [V (PFloat x), V (PFloat foot_y), sA footnote]
        [(''fontsize'', fA (76/10)), (''va'', sA ''bottom''), (''color'', cA ''muted'')]]"

abbreviation title_x :: f64 where "title_x \<equiv> of_lit (12/1000)"

abbreviation title_y :: f64 where "title_y \<equiv> of_lit (975/1000)"

definition new_figure :: "rat \<Rightarrow> rat \<Rightarrow> mcall" where
  "new_figure w h = Bind ''fig'' ''plt'' ''figure'' [] [(''figsize'', Tup [fA w, fA h])]"

definition new_axes :: "string \<Rightarrow> rat list \<Rightarrow> (string \<times> arg) list \<Rightarrow> mcall" where
  "new_axes ax rect kws = Bind ax ''fig'' ''add_axes'' [Lst (map fA rect)] kws"

text \<open>\<open>fig.savefig(out, dpi=200); plt.close(fig)\<close>.\<close>

definition save_figure :: "string \<Rightarrow> mcall list" where
  "save_figure out =
     [Call ''fig'' ''savefig'' [sA out] [(''dpi'', iA 200)], Call ''plt'' ''close'' [Name ''fig''] []]"

text \<open>Coordinates given as a fraction of the axes horizontally and in data units vertically.\<close>

abbreviation gutter :: "string \<times> arg" where
  "gutter \<equiv> (''xycoords'', Tup [sA ''axes fraction'', sA ''data''])"

abbreviation offset_points :: "string \<times> arg" where
  "offset_points \<equiv> (''textcoords'', sA ''offset points'')"

section \<open>Rows\<close>

text \<open>\<open>range(n - 1, -1, -1)\<close>: the heights of the rows from the top down.\<close>

definition descending :: "int \<Rightarrow> int list" where
  "descending n = map int (rev [0..<nat n])"

lemma length_descending [simp]: "length (descending n) = nat n"
  by (simp add: descending_def)

lemma nth_descending [simp]: "i < nat n \<Longrightarrow> descending n ! i = n - 1 - int i"
  by (simp add: descending_def rev_nth)

lemma descending_few [value_eval]: "descending 1 = [0]" "descending 3 = [2, 1, 0]" "descending 5 = [4, 3, 2, 1, 0]"
  by code_simp+

text \<open>A row's label above its height and the small print below, left of the axes.\<close>

definition row_label :: "rat \<Rightarrow> pyval \<Rightarrow> pyval \<Rightarrow> mcall" where
  "row_label x v y =
     Call ''ax'' ''annotate'' [V v]
       [(''xy'', Tup [fA x, V y]), gutter, (''ha'', sA ''right''), (''va'', sA ''center''), (''fontsize'', iA 9),
        (''fontweight'', sA ''bold''), (''color'', cA ''ink'')]"

definition row_sublabel :: "rat \<Rightarrow> pyval \<Rightarrow> pyval \<Rightarrow> mcall" where
  "row_sublabel x v y =
     Call ''ax'' ''annotate'' [V v]
       [(''xy'', Tup [fA x, V y]), gutter, (''ha'', sA ''right''), (''va'', sA ''center''), (''fontsize'', fA (76/10)),
        (''color'', cA ''muted'')]"

definition two_labels :: "rat \<Rightarrow> rat \<Rightarrow> rat \<Rightarrow> int \<Rightarrow> pyval \<Rightarrow> drawing" where
  "two_labels x up down y r =
     bindE (getitem r ''label'') (\<lambda>label. bindE (py_add (PInt y) (PFloat (of_lit up))) (\<lambda>above.
     bindE (getitem r ''sublabel'') (\<lambda>sublabel. bindE (py_sub (PInt y) (PFloat (of_lit down))) (\<lambda>below.
       Ret [row_label x label above, row_sublabel x sublabel below]))))"

end
