(* ===== verification/Figures_Data.thy ===== *)
theory Figures_Data
  imports Canvas
begin

text \<open>
  \<^verbatim>\<open>docs/evaluation/figures/figures.yaml\<close> as \<open>yaml.safe_load\<close> returns it: the data all figures are drawn
  from, one definition per section, each dictionary in file order. A float is the double nearest to its
  literal.
\<close>

definition yaml_meta :: pyval where
  "yaml_meta =
     PDict [(''direction'', PStr ''delta = extension - tier4-native; lower is better''),
     (''direction_source'', PStr ''benchmarks/config/margins.yaml header; p4-transport-sweep.md 2.2''),
     (''decision_rule_source'', PStr ''benchmarks/analysis/stats.py equivalence_decision'')]"

definition yaml_closed_loop_rows :: "(string \<times> pyval) list" where
  "yaml_closed_loop_rows =
     [(''one_hop_wall_ms'',
         PDict [(''delta'', PFloat (of_lit (1345/1000))),
         (''ci'', PList [PFloat (of_lit (886/1000)), PFloat (of_lit (1942/1000))]),
         (''verdict'', PStr ''parity''), (''note'', PStr ''knife-edge: CI upper is 97.1 % of the margin'')]),
      (''lidar_to_ndt_sim_ms'',
         PDict [(''delta'', PFloat (of_lit (2167/1000))),
         (''ci'', PList [PFloat (of_lit (1882/1000)), PFloat (of_lit (2553/1000))]),
         (''verdict'', PStr ''parity'')]),
      (''control_staleness_ms'',
         PDict [(''delta'', PFloat (of_lit (- 789/1000))),
         (''ci'', PList [PFloat (of_lit (- 1443/1000)), PFloat (of_lit (- 288/1000))]),
         (''verdict'', PStr ''parity'')]),
      (''achieved_rate_ratio'',
         PDict [(''delta'', PFloat (of_lit (0))),
         (''ci'', PList [PFloat (of_lit (0)), PFloat (of_lit (0))]), (''verdict'', PStr ''parity''),
         (''note'', PStr ''degenerate interval - contributes no evidence'')]),
      (''carla_process_cpu_pct'',
         PDict [(''delta'', PFloat (of_lit (58250/1000))),
         (''ci'', PList [PFloat (of_lit (57662/1000)), PFloat (of_lit (59161/1000))]),
         (''verdict'', PStr ''b_better''), (''note'', PStr ''cause not established'')])]"

definition yaml_static_rows :: "(string \<times> pyval) list" where
  "yaml_static_rows =
     [(''one_hop_wall_ms'',
         PDict [(''delta'', PFloat (of_lit (1687/1000))),
         (''ci'', PList [PFloat (of_lit (1441/1000)), PFloat (of_lit (1849/1000))]),
         (''verdict'', PStr ''parity'')]),
      (''lidar_to_ndt_sim_ms'',
         PDict [(''delta'', PFloat (of_lit (1356/1000))),
         (''ci'', PList [PFloat (of_lit (1287/1000)), PFloat (of_lit (1553/1000))]),
         (''verdict'', PStr ''parity'')]),
      (''control_staleness_ms'',
         PDict [(''verdict'', PStr ''insufficient_data''),
         (''note'', PStr ''n = 0/8; no bootstrap CI computable'')]),
      (''achieved_rate_ratio'',
         PDict [(''delta'', PFloat (of_lit (1/1000))),
         (''ci'', PList [PFloat (of_lit (1/1000)), PFloat (of_lit (1/1000))]),
         (''verdict'', PStr ''parity''), (''note'', PStr ''degenerate interval'')]),
      (''carla_process_cpu_pct'',
         PDict [(''delta'', PFloat (of_lit (52005/1000))),
         (''ci'', PList [PFloat (of_lit (49617/1000)), PFloat (of_lit (52871/1000))]),
         (''verdict'', PStr ''b_better''), (''note'', PStr ''cause not established'')])]"

definition yaml_metrics :: "pyval list" where
  "yaml_metrics =
     [PDict [(''key'', PStr ''one_hop_wall_ms''), (''label'', PStr ''one_hop_wall_ms''),
      (''unit'', PStr ''ms''), (''margin'', PFloat (of_lit (2)))],
      PDict [(''key'', PStr ''lidar_to_ndt_sim_ms''), (''label'', PStr ''lidar_to_ndt_sim_ms''),
      (''unit'', PStr ''ms''), (''margin'', PFloat (of_lit (5)))],
      PDict [(''key'', PStr ''control_staleness_ms''), (''label'', PStr ''control_staleness_ms''),
      (''unit'', PStr ''ms''), (''margin'', PFloat (of_lit (10)))],
      PDict [(''key'', PStr ''achieved_rate_ratio''), (''label'', PStr ''achieved_rate_ratio''),
      (''unit'', PStr ([])), (''margin'', PFloat (of_lit (2/100)))],
      PDict [(''key'', PStr ''carla_process_cpu_pct''), (''label'', PStr ''carla_process_cpu_pct''),
      (''unit'', PStr ''pp''), (''margin'', PFloat (of_lit (10)))]]"

definition yaml_arms :: "pyval list" where
  "yaml_arms =
     [PDict [(''key'', PStr ''closed_loop''), (''label'', PStr ''closed-loop arm''),
      (''sublabel'', PStr ''A/run-026..035 vs B-cyc/run-012..021, n = 10/10''), (''rows'',
      PDict yaml_closed_loop_rows)],
      PDict [(''key'', PStr ''static''), (''label'', PStr ''static arm''),
      (''sublabel'', PStr ''n = 10/10, except control_staleness_ms (0/8)''), (''rows'',
      PDict yaml_static_rows)]]"

definition yaml_equivalence :: pyval where
  "yaml_equivalence =
     PDict [(''source'', PStr ''report.md 3.3 (closed-loop) and 3.2 (static); raw tables p4-transport-sweep.md 2.5''),
     (''caption_note'', PStr ''both arms A-vs-B-cyc; every row also spans an uncorrected Autoware image difference''),
     (''metrics'', PList yaml_metrics), (''arms'', PList yaml_arms)]"

definition yaml_cpu_reversal_rows :: "pyval list" where
  "yaml_cpu_reversal_rows =
     [PDict [(''label'', PStr ''P3 static''),
      (''sublabel'', PStr ''mismatched transports (A CycloneDDS vs B Fast-DDS)''),
      (''delta'', PFloat (of_lit (- 12873/1000))),
      (''ci'', PList [PFloat (of_lit (- 16698/1000)), PFloat (of_lit (- 11129/1000))]),
      (''verdict'', PStr ''a_better'')],
      PDict [(''label'', PStr ''P4 static''), (''sublabel'', PStr ''shared transport family (A-vs-B-cyc)''),
      (''delta'', PFloat (of_lit (52005/1000))),
      (''ci'', PList [PFloat (of_lit (49617/1000)), PFloat (of_lit (52871/1000))]),
      (''verdict'', PStr ''b_better'')],
      PDict [(''label'', PStr ''P4 closed-loop''),
      (''sublabel'', PStr ''shared transport family (A-vs-B-cyc)''),
      (''delta'', PFloat (of_lit (58250/1000))),
      (''ci'', PList [PFloat (of_lit (57662/1000)), PFloat (of_lit (59161/1000))]),
      (''verdict'', PStr ''b_better'')]]"

definition yaml_cpu_reversal :: pyval where
  "yaml_cpu_reversal =
     PDict [(''source'', PStr ''report.md 3.2 (comparison table); P3 row p3-baseline.md 4.1/4.2; P4 rows p4-transport-sweep.md 2.5''),
     (''margin'', PFloat (of_lit (10))), (''unit'', PStr ''pp''), (''rows'', PList yaml_cpu_reversal_rows)]"

definition yaml_seam_runs :: "pyval list" where
  "yaml_seam_runs =
     [PDict [(''run'', PStr ''run-001''), (''seam'', PFloat (of_lit (7242/10000))),
      (''in_core'', PFloat (of_lit (4458/10000))), (''delta'', PFloat (of_lit (2784/10000))),
      (''n'', PStr ''508 / 506'')],
      PDict [(''run'', PStr ''run-002''), (''seam'', PFloat (of_lit (7464/10000))),
      (''in_core'', PFloat (of_lit (4593/10000))), (''delta'', PFloat (of_lit (2871/10000))),
      (''n'', PStr ''502 / 499'')],
      PDict [(''run'', PStr ''run-003''), (''seam'', PFloat (of_lit (7447/10000))),
      (''in_core'', PFloat (of_lit (4460/10000))), (''delta'', PFloat (of_lit (2988/10000))),
      (''n'', PStr ''507 / 506'')],
      PDict [(''run'', PStr ''run-004''), (''seam'', PFloat (of_lit (7316/10000))),
      (''in_core'', PFloat (of_lit (4924/10000))), (''delta'', PFloat (of_lit (2392/10000))),
      (''n'', PStr ''501 / 496'')],
      PDict [(''run'', PStr ''run-005''), (''seam'', PFloat (of_lit (7634/10000))),
      (''in_core'', PFloat (of_lit (4987/10000))), (''delta'', PFloat (of_lit (2647/10000))),
      (''n'', PStr ''505 / 497'')]]"

definition yaml_seam :: pyval where
  "yaml_seam =
     PDict [(''source'', PStr ''report.md 3.1 (CAL-seam run table); regeneration report.md 9 command 4b''),
     (''unit'', PStr ''ms''), (''ceiling'', PFloat (of_lit (2988/10000))),
     (''median'', PFloat (of_lit (2784/10000))), (''runs'', PList yaml_seam_runs)]"

definition yaml_bridge_ndt :: pyval where
  "yaml_bridge_ndt =
     PDict [(''source'', PStr ''report.md 4.2 (E0), 4.3 (E); pooled medians report.md 4.2''),
     (''topic'', PStr ''/localization/pose_estimator/pose_with_covariance''),
     (''pooled_ratio'', PStr ''~45x''), (''arms'', PList [PDict [(''key'', PStr ''e0''),
     (''label'', PStr ''as shipped (cell E0)''),
     (''sublabel'', PStr (''5 pooled runs; 3 of the 4 excluded were the cell'' @ squote @ ''s worst'')),
     (''lo'', PFloat (of_lit (8/100))), (''hi'', PFloat (of_lit (27/100))),
     (''median'', PFloat (of_lit (11/100))), (''biased'', PBool True)], PDict [(''key'', PStr ''e''),
     (''label'', PStr ''both registered patches (cell E)''),
     (''sublabel'', PStr ''6 pooled runs; is_dense fix + harmonized rig and remap''),
     (''lo'', PFloat (of_lit (191/100))), (''hi'', PFloat (of_lit (752/100))),
     (''median'', PFloat (of_lit (499/100))), (''biased'', PBool False)]]),
     (''references'', PList [PDict [(''value'', PFloat (of_lit (11))),
     (''label'', PStr (''11 Hz '' @ em_dash @ '' the bridge'' @ squote @ ''s own shipped target'')),
     (''stagger'', PInt 0)], PDict [(''value'', PFloat (of_lit (20))),
     (''label'', PStr (''20 Hz '' @ em_dash @ '' the campaign'' @ squote @ ''s comparability choice'')),
     (''stagger'', PInt 1)]])]"

definition yaml_fork_delta_rows :: "pyval list" where
  "yaml_fork_delta_rows =
     [PDict [(''label'', PStr ''extension''), (''sublabel'', PStr ''required CARLA fork + its own repo''),
      (''segments'', PList [PDict [(''value'', PInt 219), (''kind'', PStr ''fork'')],
      PDict [(''value'', PInt 25), (''kind'', PStr ''repo'')]])],
      PDict [(''label'', PStr ''tier4-native''), (''sublabel'', PStr ''the autoware-support branch''),
      (''segments'', PList [PDict [(''value'', PInt 305), (''kind'', PStr ''fork'')]])],
      PDict [(''label'', PStr ''python-bridge''), (''sublabel'', PStr ''in-tree in autoware_universe''),
      (''segments'', PList [PDict [(''value'', PInt 0), (''kind'', PStr ''fork'')]])]]"

definition yaml_fork_delta :: pyval where
  "yaml_fork_delta =
     PDict [(''source'', PStr ''report.md 3.5; rubric.md criteria 1 and 3''),
     (''rows'', PList yaml_fork_delta_rows), (''segment_labels'',
     PDict [(''fork'', PStr ''CARLA fork delta''),
     (''repo'', PStr (''the approach'' @ squote @ ''s own repository''))])]"

definition yaml_capability :: pyval where
  "yaml_capability =
     PDict [(''source'', PStr ''gap-catalog.md; summarized report.md 5''),
     (''classes'', PList [PDict [(''label'', PStr ''already exists in the extension''), (''main'', PInt 11),
     (''side'', PInt 3)], PDict [(''label'', PStr ''extension-side work''), (''main'', PInt 4),
     (''side'', PInt 4)], PDict [(''label'', PStr (''CARLA-core seam '' @ em_dash @ '' sensor-side'')),
     (''main'', PInt 6), (''side'', PInt 15)],
     PDict [(''label'', PStr (''CARLA-core seam '' @ em_dash @ '' ROS-side'')), (''main'', PInt 7),
     (''side'', PInt 3)]]), (''effort'', PList [PDict [(''label'', PStr ''integration branch''),
     (''S'', PInt 25), (''M'', PInt 3), (''L'', PInt 0)], PDict [(''label'', PStr ''side branches''),
     (''S'', PInt 13), (''M'', PInt 8), (''L'', PInt 4)]]), (''unpriced'', PInt 3),
     (''second_pass_scope'', PInt 14)]"

definition yaml_governance :: pyval where
  "yaml_governance =
     PDict [(''source'', PStr ''report.md 3.5; rubric.md criteria 1 and 6''),
     (''concentration'', PList [PDict [(''label'', PStr ''extension: required CARLA fork delta''),
     (''top2'', PInt 113), (''total'', PInt 219)],
     PDict [(''label'', PStr ''extension: extension-only work''), (''top2'', PInt 109),
     (''total'', PInt 121)], PDict [(''label'', PStr ''tier4-native: autoware-support delta''),
     (''top2'', PInt 160), (''total'', PInt 305)]]), (''review_record'', PDict [(''prs_opened'', PInt 30),
     (''merged'', PInt 24), (''open'', PInt 5), (''closed_unmerged'', PInt 1),
     (''external_reviewers'', PInt 0), (''self_reviews'', PInt 2), (''commits'', PInt 25),
     (''commit_authors'', PInt 1)]), (''maintainers'', PDict [(''extension'', PInt 1),
     (''python_bridge'', PInt 4)]), (''bridge_human_authors_12mo'', PInt 9)]"

definition figures_yaml :: pyval where
  "figures_yaml =
     PDict [(''meta'', yaml_meta), (''equivalence'', yaml_equivalence),
     (''cpu_reversal'', yaml_cpu_reversal), (''seam'', yaml_seam), (''bridge_ndt'', yaml_bridge_ndt),
     (''fork_delta'', yaml_fork_delta), (''capability'', yaml_capability),
     (''governance'', yaml_governance)]"

lemma figures_yaml_sections [simp]:
  "getitem figures_yaml ''equivalence'' = Inr yaml_equivalence"
  "getitem figures_yaml ''cpu_reversal'' = Inr yaml_cpu_reversal"
  "getitem figures_yaml ''seam'' = Inr yaml_seam"
  "getitem figures_yaml ''bridge_ndt'' = Inr yaml_bridge_ndt"
  "getitem figures_yaml ''fork_delta'' = Inr yaml_fork_delta"
  "getitem figures_yaml ''capability'' = Inr yaml_capability"
  "getitem figures_yaml ''governance'' = Inr yaml_governance"
  by (simp_all add: figures_yaml_def getitem_def)

end
