(* ===== verification/Float_Ratio.thy ===== *)
theory Float_Ratio
  imports Float64
begin

text \<open>
  Two facts on binary64 the figures rest on: a rounding error is at most half a unit in the last place,
  and the quotient of two floats is below 1 exactly when the dividend is below the divisor, rounding
  included.
\<close>

definition is_f64 :: "rat \<Rightarrow> bool" where
  "is_f64 q \<longleftrightarrow> rnd_rat q = q"

lemma is_f64_int: "\<bar>n\<bar> \<le> 2 ^ 53 \<Longrightarrow> is_f64 (of_int n)"
  by (simp add: is_f64_def rnd_rat_int)

lemma is_f64_minus [simp]: "is_f64 (- q) = is_f64 q"
  by (simp add: is_f64_def rnd_rat_minus)

section \<open>Exponents\<close>

lemma bin_exp_unique:
  assumes "2 powi e \<le> q" "q < 2 powi (e + 1)"
  shows "bin_exp q = e"
proof -
  have "(0::rat) < 2 powi e" by simp
  with assms(1) have q: "0 < q" by linarith
  from bin_exp_bounds [OF q] assms have "(2::rat) powi bin_exp q < 2 powi (e + 1)" "(2::rat) powi e < 2 powi (bin_exp q + 1)"
    by linarith+
  then show ?thesis by simp
qed

lemma bin_exp_le:
  assumes "0 < q" "q \<le> 2 powi e"
  shows "bin_exp q \<le> e"
proof -
  from bin_exp_bounds(1) [OF assms(1)] assms(2) have "(2::rat) powi bin_exp q \<le> 2 powi e" by linarith
  then show ?thesis by simp
qed

text \<open>A multiple of the unit in its last place is a float.\<close>

lemma is_f64_three_halves: "is_f64 (3 / 2)"
proof -
  have "bin_exp (3 / 2) = 0" by (rule bin_exp_unique) simp_all
  then have u: "ulp_exp (3 / 2) = - 52" by (simp add: ulp_exp_def)
  have "(3 / 2 :: rat) / 2 powi (- 52) = of_int (3 * 2 ^ 51)"
    by (simp add: power_int_def power_one_over)
  then have "round_to (- 52) (3 / 2) = of_int (3 * 2 ^ 51) * 2 powi (- 52)"
    unfolding round_to_def by (simp only: round_even_of_int)
  also have "\<dots> = 3 / 2" by (simp add: power_int_def power_one_over)
  finally show ?thesis by (simp add: is_f64_def rnd_rat_def rnd_pos_def u)
qed

section \<open>The error of a rounding\<close>

lemma round_to_error: "\<bar>round_to u q - q\<bar> \<le> 2 powi u / 2"
proof -
  have "round_to u q - q = (of_int (round_even (q / 2 powi u)) - q / 2 powi u) * 2 powi u"
    by (simp add: round_to_def left_diff_distrib)
  then have "\<bar>round_to u q - q\<bar> = \<bar>of_int (round_even (q / 2 powi u)) - q / 2 powi u\<bar> * 2 powi u"
    by (simp add: abs_mult)
  also have "\<dots> \<le> 1/2 * 2 powi u"
    by (intro mult_right_mono round_even_near) simp
  finally show ?thesis by simp
qed

lemma rnd_rat_error:
  assumes "0 \<le> q" "q \<le> 2 powi e" "- 1022 \<le> e"
  shows "\<bar>rnd_rat q - q\<bar> \<le> 2 powi (e - 53)"
proof (cases "q = 0")
  case False
  with assms have q: "0 < q" by simp
  have "ulp_exp q \<le> e - 52" using bin_exp_le [OF q assms(2)] assms(3) by (simp add: ulp_exp_def)
  then have "(2::rat) powi ulp_exp q \<le> 2 powi (e - 52)" by simp
  also have "(2::rat) powi (e - 52) = 2 powi (e - 53) * 2"
    using power_int_add_1 [of "2::rat" "e - 53"] by simp
  finally have "(2::rat) powi ulp_exp q \<le> 2 powi (e - 53) * 2" .
  with round_to_error [of "ulp_exp q" q] q show ?thesis by (simp add: rnd_rat_def rnd_pos_def)
qed simp

section \<open>A quotient below one\<close>

text \<open>The distance from 1 to the float below it.\<close>

definition eps53 :: rat where "eps53 = 2 powi (- 53)"

lemma eps53_bounds: "0 < eps53" "eps53 < 1"
  by (simp_all add: eps53_def power_int_def power_one_over)

lemma eps53_scale: "2 powi a * eps53 = 2 powi (a - 53)"
  unfolding eps53_def by (subst power_int_add [symmetric]) simp_all

text \<open>A positive float is a whole number of its units in the last place.\<close>

lemma f64_multiple:
  assumes "is_f64 q" "0 < q"
  obtains k where "q = of_int k * 2 powi ulp_exp q"
  using assms by (metis is_f64_def rnd_pos_def rnd_rat_def round_to_def less_irrefl)

lemma multiples_gap:
  fixes x m :: rat
  assumes "x = of_int k * 2 powi u" "m = of_int j * 2 powi u" "x < m"
  shows "x + 2 powi u \<le> m"
proof -
  have p: "(0::rat) < 2 powi u" by simp
  from assms have "(of_int k :: rat) < of_int j" using p by (simp add: mult_less_cancel_right)
  then have "(of_int k :: rat) + 1 \<le> of_int j" by (metis of_int_1 of_int_add of_int_le_iff of_int_less_iff zless_imp_add1_zle)
  from mult_right_mono [OF this, of "2 powi u"] assms(1,2) show ?thesis by (simp add: algebra_simps)
qed

lemma powi_multiple: "u \<le> e \<Longrightarrow> (2::rat) powi e = of_int (2 ^ nat (e - u)) * 2 powi u"
proof -
  assume "u \<le> e"
  then have "of_int (2 ^ nat (e - u)) * (2::rat) powi u = 2 powi (e - u) * 2 powi u" by (simp only: two_powi_nat)
  also have "\<dots> = 2 powi e" by (simp flip: power_int_add)
  finally show ?thesis by simp
qed

lemma f64_gap:
  assumes x: "is_f64 x" "0 < x" and m: "is_f64 m" and less: "x < m"
  shows "x \<le> m * (1 - eps53)"
proof -
  define e where "e = bin_exp m"
  have m0: "0 < m" using x less by simp
  have b: "2 powi e \<le> m" "m < 2 powi (e + 1)" using bin_exp_bounds [OF m0] by (simp_all add: e_def)
  show ?thesis
  proof (cases "ulp_exp x = ulp_exp m")
    case True
    obtain k j where "x = of_int k * 2 powi ulp_exp m" "m = of_int j * 2 powi ulp_exp m"
      using f64_multiple [OF x] f64_multiple [OF m m0] True by metis
    from multiples_gap [OF this less] have gap: "x + 2 powi ulp_exp m \<le> m" .
    have "m * eps53 \<le> 2 powi (e + 1) * eps53"
      using b(2) eps53_bounds by (intro mult_right_mono) simp_all
    also have "\<dots> = 2 powi (e - 52)" by (simp add: eps53_scale)
    also have "\<dots> \<le> 2 powi ulp_exp m" by (simp add: ulp_exp_def e_def)
    finally show ?thesis using gap by (simp add: algebra_simps)
  next
    case False
    have "bin_exp x \<le> e" using bin_exp_mono x(2) less by (simp add: e_def)
    with False have le: "bin_exp x \<le> e - 1" "- 1074 < e - 52" by (auto simp: ulp_exp_def e_def max_def split: if_splits)
    have below: "x \<le> 2 powi e - 2 powi (e - 53)"
    proof (cases "bin_exp x = e - 1")
      case True
      with le have u: "ulp_exp x = e - 53" by (simp add: ulp_exp_def)
      obtain k where k: "x = of_int k * 2 powi (e - 53)" using f64_multiple [OF x] u by metis
      have "x < 2 powi e" using bin_exp_bounds(2) [OF x(2)] True by simp
      from multiples_gap [OF k powi_multiple this] show ?thesis by simp
    next
      case False
      with le have "bin_exp x + 1 \<le> e - 1" by simp
      then have "(2::rat) powi (bin_exp x + 1) \<le> 2 powi (e - 1)" by simp
      with bin_exp_bounds(2) [OF x(2)] have "x < 2 powi (e - 1)" by linarith
      moreover have "(2::rat) powi (e - 53) \<le> 2 powi (e - 1)" by simp
      moreover have "(2::rat) powi e = 2 powi (e - 1) * 2" using power_int_add_1 [of "2::rat" "e - 1"] by simp
      ultimately show ?thesis by linarith
    qed
    also have "\<dots> = 2 powi e * (1 - eps53)" by (simp add: right_diff_distrib eps53_scale)
    also have "\<dots> \<le> m * (1 - eps53)"
      using b(1) eps53_bounds by (intro mult_right_mono) simp_all
    finally show ?thesis .
  qed
qed

lemma rnd_below_one: "rnd_rat (1 - eps53) = 1 - eps53"
proof -
  have "bin_exp (1 - eps53) = - 1" by (rule bin_exp_unique) (simp_all add: eps53_def power_int_def power_one_over)
  then have "ulp_exp (1 - eps53) = - 53" by (simp add: ulp_exp_def)
  moreover have "round_to (- 53) (1 - eps53) = 1 - eps53"
  proof -
    have m: "1 - eps53 = of_int (2 ^ 53 - 1) * 2 powi (- 53)" by (simp add: eps53_def power_int_def power_one_over)
    then have "(1 - eps53) / 2 powi (- 53) = of_int (2 ^ 53 - 1)" by (simp only: m) simp
    then show ?thesis unfolding round_to_def by (simp only: round_even_of_int m)
  qed
  ultimately show ?thesis using eps53_bounds by (simp add: rnd_rat_def rnd_pos_def)
qed

lemma quotient_below_one:
  assumes "is_f64 x" "is_f64 m" "0 < m"
  shows "rnd_rat (x / m) < 1 \<longleftrightarrow> x < m"
proof
  assume less: "x < m"
  show "rnd_rat (x / m) < 1"
  proof (cases "0 < x")
    case True
    from f64_gap [OF assms(1) True assms(2) less] assms(3) have "x / m \<le> 1 - eps53"
      by (simp add: pos_divide_le_eq mult.commute)
    then have "rnd_rat (x / m) \<le> 1 - eps53" using rnd_rat_mono rnd_below_one by metis
    then show ?thesis using eps53_bounds(1) by linarith
  next
    case False
    with assms(3) have "x / m \<le> 0" by (simp add: divide_nonpos_pos)
    from rnd_rat_mono [OF this] show ?thesis by simp
  qed
next
  assume r: "rnd_rat (x / m) < 1"
  show "x < m"
  proof (rule ccontr)
    assume "\<not> x < m"
    with assms(3) have "1 \<le> x / m" by simp
    from rnd_rat_mono [OF this] r show False by simp
  qed
qed

lemma quotient_above_minus_one:
  assumes "is_f64 x" "is_f64 m" "0 < m"
  shows "- 1 < rnd_rat (x / m) \<longleftrightarrow> - m < x"
  using quotient_below_one [of "- x" m] assms by (auto simp: rnd_rat_minus)

text \<open>The same on values: whether the quotient overflows does not matter.\<close>

lemma big_magnitude:
  assumes "r \<noteq> 0" "\<not> bin_exp \<bar>r\<bar> < 1024"
  shows "1 < \<bar>r\<bar>"
proof -
  have "2 powi bin_exp \<bar>r\<bar> \<le> \<bar>r\<bar>" using assms(1) by (simp add: bin_exp_bounds)
  moreover have "(2::rat) powi 0 < 2 powi bin_exp \<bar>r\<bar>" using assms(2) by (simp only: two_powi_less_iff)
  ultimately show ?thesis by simp
qed

lemma rnd_less_one: "rnd q < Fin 1 \<longleftrightarrow> rnd_rat q < 1"
proof (cases "rnd_rat q = 0 \<or> bin_exp \<bar>rnd_rat q\<bar> < 1024")
  case True
  then show ?thesis by (simp add: rnd_def Let_def)
next
  case False
  with big_magnitude [of "rnd_rat q"] have "1 < \<bar>rnd_rat q\<bar>" by simp
  with False show ?thesis by (auto simp: rnd_def Let_def)
qed

lemma rnd_greater_minus_one: "Fin (- 1) < rnd q \<longleftrightarrow> - 1 < rnd_rat q"
proof (cases "rnd_rat q = 0 \<or> bin_exp \<bar>rnd_rat q\<bar> < 1024")
  case True
  then show ?thesis by (simp add: rnd_def Let_def)
next
  case False
  with big_magnitude [of "rnd_rat q"] have "1 < \<bar>rnd_rat q\<bar>" by simp
  with False show ?thesis by (auto simp: rnd_def Let_def)
qed

section \<open>Sums\<close>

lemma add_near:
  assumes "0 \<le> a" "0 \<le> b" "a + b \<le> 2 ^ 32"
  obtains c where "Fin a + Fin b = Fin c" "a + b - 1/100 \<le> c" "c \<le> a + b + 1/100"
proof -
  have b: "0 \<le> a + b" "a + b \<le> 2 powi 32" using assms by (simp_all add: power_int_def)
  have "\<bar>rnd_rat (a + b) - (a + b)\<bar> \<le> 2 powi (32 - 53)" by (rule rnd_rat_error [OF b]) simp
  also have "(2::rat) powi (32 - 53) \<le> 1/100" by (simp add: power_int_def power_one_over)
  finally have e: "\<bar>rnd_rat (a + b) - (a + b)\<bar> \<le> 1/100" .
  have "Fin a + Fin b = Fin (rnd_rat (a + b))" using b by (simp add: rnd_small power_int_def)
  moreover from e have "a + b - 1/100 \<le> rnd_rat (a + b)" "rnd_rat (a + b) \<le> a + b + 1/100"
    unfolding abs_le_iff by linarith+
  ultimately show thesis using that by blast
qed

lemma add_ints: "\<bar>m + n\<bar> \<le> 2 ^ 53 \<Longrightarrow> Fin (of_int m) + Fin (of_int n) = Fin (of_int (m + n))"
  using rnd_int [of "m + n"] by simp

section \<open>Decimal literals\<close>

lemma lit_near:
  assumes "\<bar>q\<bar> \<le> 64"
  obtains x where "of_lit q = Fin x" "q - 1/10^6 \<le> x" "x \<le> q + 1/10^6"
proof -
  have b: "\<bar>q\<bar> \<le> 2 powi 6" using assms by (simp add: power_int_def)
  have "\<bar>rnd_rat \<bar>q\<bar> - \<bar>q\<bar>\<bar> \<le> 2 powi (6 - 53)" by (rule rnd_rat_error [OF _ b]) simp_all
  also have "(2::rat) powi (6 - 53) \<le> 1/10^6" by (simp add: power_int_def power_one_over)
  finally have e: "\<bar>rnd_rat \<bar>q\<bar> - \<bar>q\<bar>\<bar> \<le> 1/10^6" .
  have "\<bar>rnd_rat q - q\<bar> = \<bar>rnd_rat \<bar>q\<bar> - \<bar>q\<bar>\<bar>" by (cases "0 \<le> q") (simp_all add: abs_if rnd_rat_minus)
  with e have e': "\<bar>rnd_rat q - q\<bar> \<le> 1/10^6" by simp
  then have "q - 1/10^6 \<le> rnd_rat q" "rnd_rat q \<le> q + 1/10^6" unfolding abs_le_iff by linarith+
  moreover have "of_lit q = Fin (rnd_rat q)" using assms by (intro rnd_small) simp
  ultimately show thesis using that by blast
qed

lemma lit_nonzero:
  assumes "1/1000 \<le> q" "q \<le> 64"
  shows "of_lit q \<noteq> Fin 0"
proof -
  have "\<bar>q\<bar> \<le> 64" using assms by simp
  then obtain x where x: "of_lit q = Fin x" "q - 1/10^6 \<le> x" by (rule lit_near)
  have "0 < x" using x(2) assms(1) by (simp add: power_one_over)
  with x(1) show ?thesis by simp
qed

end
