(* ===== verification/Fig_Equivalence.thy ===== *)
theory Fig_Equivalence
  imports Figures_Data Float_Ratio Stats
begin

text \<open>
  \<open>fig_equivalence\<close> of \<^verbatim>\<open>docs/evaluation/figures/make_figures.py\<close>: the forest figure, one row per metric
  and arm, every interval divided by its metric's margin and drawn on both panels of a broken axis.

  The lemmas: each row carries its verdict in words at its own height, rows do not overlap, both panels
  show the same interval, and a row lies inside the drawn band exactly when the decision rule says
  parity.
\<close>

section \<open>Texts\<close>

definition eq_no_ci :: string where
  "eq_no_ci =
     ''n = 0/8 '' @ em_dash @ '' no bootstrap CI computable''"

definition eq_zone :: string where
  "eq_zone =
     ''parity zone '' @ em_dash @ '' the whole 95 % CI inside '' @ plus_minus @ ''1 margin''"

definition eq_knife_edge :: string where
  "eq_knife_edge =
     ''CI upper is 0.971'' @ times_sign @ '' the margin '' @ em_dash @ '' at any'' @ nl @
     ''margin '' @ le_sign @ '' '' @ approx_sign @ ''1.94 ms this row returns'' @ nl @
     ''tier4-native better, not undecided''"

definition eq_degenerate :: string where
  "eq_degenerate =
     ''degenerate interval '' @ em_dash @ nl @ ''contributes no evidence either way''"

definition eq_title :: string where
  "eq_title =
     ''Extension vs tier4-native: every '' @ delta_sign @
     '' against its own pre-registered margin''"

definition eq_subtitle :: string where
  "eq_subtitle =
     delta_sign @ '' = extension '' @ minus_sign @ '' tier4-native, divided by that metric'' @
     squote @ ''s margin; lower is better, so a positive '' @ delta_sign @
     '' runs against the extension.'' @ nl @ ''Both arms are A-vs-B-cyc '' @ em_dash @
     '' tier4-native on CycloneDDS, not on the transport it ships.''"

definition eq_footnote :: string where
  "eq_footnote =
     ''Sources: report.md '' @ section_sign @ ''3.3 (closed-loop), '' @ section_sign @
     ''3.2 (static). Every row also spans an uncorrected Autoware container-image '' @
     ''difference.'' @ nl @ ''The four in-band rows are not four equal results '' @ em_dash @
     '' see the two callouts, and the draft'' @ squote @ ''s '' @ section_sign @ ''3.1.''"

section \<open>Rows\<close>

text \<open>The rows from the bottom up: a unit per arm, a further gap after each metric.\<close>

type_synonym eq_row = "f64 \<times> pyval \<times> pyval"

fun place_arms :: "f64 \<Rightarrow> pyval \<Rightarrow> pyval list \<Rightarrow> eq_row list \<times> f64" where
  "place_arms y m [] = ([], y)"
| "place_arms y m (arm # arms) =
     (let (rows, y') = place_arms (y + of_lit 1) m arms in ((y, m, arm) # rows, y'))"

fun place_rows :: "f64 \<Rightarrow> pyval list \<Rightarrow> pyval list \<Rightarrow> eq_row list" where
  "place_rows y [] arms = []"
| "place_rows y (m # ms) arms =
     (let (rows, y') = place_arms y m arms in rows @ place_rows (y' + of_lit (85/100)) ms arms)"

definition eq_rows :: "pyval \<Rightarrow> pyval \<Rightarrow> eq_row list res" where
  "eq_rows metrics arms =
     bindE (py_reversed metrics) (\<lambda>ms.
       if ms = [] then Ret []
       else bindE (py_reversed arms) (\<lambda>as. Ret (place_rows (of_lit 0) ms as)))"

text \<open>\<open>lo, hi = (v / m["margin"] for v in row["ci"])\<close>: at most three values are drawn from the generator.\<close>

definition scaled_ci :: "pyval \<Rightarrow> pyval \<Rightarrow> (pyval \<times> pyval) res" where
  "scaled_ci row m =
     bindE (getitem row ''ci'') (\<lambda>ci. bindE (py_iter ci) (\<lambda>vs.
     bindE (mapE (\<lambda>v. bindE (getitem m ''margin'') (py_div v)) (take 3 vs)) unpack2))"

definition panel_plots :: "pyval \<Rightarrow> pyval \<Rightarrow> pyval \<Rightarrow> f64 \<Rightarrow> string \<Rightarrow> bool \<Rightarrow> string \<Rightarrow> mcall list" where
  "panel_plots lo hi mid yy color filled ax =
     [Call ax ''plot'' [Lst [V lo, V hi], Lst [V (PFloat yy), V (PFloat yy)]]
        [(''color'', sA color), (''lw'', fA 2), (''solid_capstyle'', sA ''round''), (''zorder'', iA 3)],
      Call ax ''plot'' [Lst [V mid], Lst [V (PFloat yy)]]
        [(''marker'', sA (if filled then ''o'' else ''s'')), (''ms'', fA (65/10)),
         (''mfc'', if filled then sA color else cA ''surface''), (''mec'', sA color), (''mew'', fA (16/10)),
         (''zorder'', iA 4)]]"

definition row_interval :: "pyval \<Rightarrow> pyval \<Rightarrow> f64 \<Rightarrow> string \<Rightarrow> bool \<Rightarrow> drawing" where
  "row_interval row m yy color filled =
     bindE (scaled_ci row m) (\<lambda>(lo, hi).
     bindE (getitem row ''delta'') (\<lambda>delta. bindE (getitem m ''margin'') (\<lambda>margin.
     bindE (py_div delta margin) (\<lambda>mid.
       Ret (concat (map (panel_plots lo hi mid yy color filled) [''gsL'', ''gsR'']))))))"

definition no_interval :: "f64 \<Rightarrow> mcall" where
  "no_interval yy =
     Call ''gsL'' ''text'' [fA 0, V (PFloat yy), sA eq_no_ci]
       [(''fontsize'', fA (78/10)), (''color'', cA ''muted''), (''style'', sA ''italic''), (''va'', sA ''center''),
        (''ha'', sA ''center''), (''zorder'', iA 4),
        (''bbox'', Kws [(''fc'', cA ''surface''), (''ec'', sA ''none''), (''pad'', fA (14/10))])]"

definition arm_label :: "pyval \<Rightarrow> f64 \<Rightarrow> mcall" where
  "arm_label label yy =
     Call ''gsL'' ''annotate'' [V label]
       [(''xy'', Tup [fA (- 12/1000), V (PFloat yy)]), gutter, (''ha'', sA ''right''), (''va'', sA ''center''),
        (''fontsize'', fA (82/10)), (''color'', cA ''ink2'')]"

definition verdict_label :: "string \<Rightarrow> string \<Rightarrow> f64 \<Rightarrow> mcall" where
  "verdict_label verdict words yy =
     Call ''gsR'' ''annotate'' [sA words]
       [(''xy'', Tup [fA (1045/1000), V (PFloat yy)]), gutter, (''ha'', sA ''left''), (''va'', sA ''center''),
        (''fontsize'', fA (82/10)), (''color'', if verdict = ''b_better'' then cA ''ink'' else cA ''ink2''),
        (''fontweight'', sA (if verdict = ''b_better'' then ''bold'' else ''normal''))]"

definition draw_row :: "eq_row \<Rightarrow> drawing" where
  "draw_row r =
     (case r of (yy, m, arm) \<Rightarrow>
        bindE (getitem arm ''rows'') (\<lambda>arm_rows. bindE (getitem m ''key'') (\<lambda>key.
        bindE (subscript arm_rows key) (\<lambda>row. bindE (getitem row ''verdict'') (\<lambda>verdict.
        bindE (lookup_const VERDICT_COLOR verdict) (\<lambda>color.
        bindE (getitem arm ''key'') (\<lambda>arm_key.
        let filled = py_eq arm_key (PStr ''closed_loop'')
        in bindE (if py_eq verdict (PStr ''insufficient_data'') then Ret [no_interval yy]
                  else row_interval row m yy color filled) (\<lambda>interval.
           bindE (getitem arm ''label'') (\<lambda>label.
           bindE (lookup_const VERDICT_TEXT verdict) (\<lambda>words.
             Ret (interval @ [arm_label label yy, verdict_label (py_str verdict) words yy])))))))))))"

section \<open>Headers\<close>

text \<open>\<open>max(...)\<close> of floats.\<close>

definition max_floats :: "f64 list \<Rightarrow> f64 res" where
  "max_floats ys =
     (case ys of [] \<Rightarrow> Raise ValueError ''max() arg is an empty sequence'' | y # ys' \<Rightarrow> Ret (foldl py_max y ys'))"

definition heights_of :: "eq_row list \<Rightarrow> pyval \<Rightarrow> f64 list res" where
  "heights_of rows m =
     bindE (mapE (\<lambda>(yy, mm, arm). bindE (getitem mm ''key'') (\<lambda>k. bindE (getitem m ''key'') (\<lambda>k'.
       Ret (if py_eq k k' then [yy] else [])))) rows) (\<lambda>yss. Ret (concat yss))"

definition draw_header :: "eq_row list \<Rightarrow> pyval \<Rightarrow> drawing" where
  "draw_header rows m =
     bindE (heights_of rows m) (\<lambda>ys.
     bindE (getitem m ''unit'') (\<lambda>u.
     bindE (getitem m ''label'') (\<lambda>label. bindE (getitem m ''margin'') (\<lambda>margin.
     bindE (format_value fmt_g margin) (\<lambda>shown.
     bindE (max_floats ys) (\<lambda>highest.
       Ret [Call ''gsL'' ''annotate''
              [sA (py_str label @ ''   margin '' @ plus_minus @ shown @ (if truthy u then '' '' @ py_str u else []))]
              [(''xy'', Tup [fA (- 12/1000), V (PFloat (highest + of_lit (72/100)))]), gutter, (''ha'', sA ''right''),
               (''va'', sA ''center''), (''fontsize'', fA (88/10)), (''fontweight'', sA ''bold''),
               (''color'', cA ''ink'')]]))))))"

section \<open>Callouts\<close>

text \<open>\<open>next(yy for yy, m, a in rows if m["key"] == k and a["key"] == "closed_loop")\<close>.\<close>

fun closed_loop_row :: "string \<Rightarrow> eq_row list \<Rightarrow> f64 res" where
  "closed_loop_row k [] = Raise StopIteration []"
| "closed_loop_row k ((yy, m, a) # rows) =
     bindE (getitem m ''key'') (\<lambda>key.
       if \<not> py_eq key (PStr k) then closed_loop_row k rows
       else bindE (getitem a ''key'') (\<lambda>arm_key.
         if py_eq arm_key (PStr ''closed_loop'') then Ret yy else closed_loop_row k rows))"

definition callout :: "string \<Rightarrow> rat \<Rightarrow> f64 \<Rightarrow> f64 \<Rightarrow> int \<Rightarrow> mcall" where
  "callout note x yy text_y shrink_b =
     Call ''gsL'' ''annotate'' [sA note]
       [(''xy'', Tup [fA x, V (PFloat yy)]), (''xytext'', Tup [fA (- 13/10), V (PFloat text_y)]),
        (''fontsize'', fA (78/10)), (''color'', cA ''ink2''), (''ha'', sA ''left''), (''va'', sA ''center''),
        (''arrowprops'', Kws [(''arrowstyle'', sA ''-''), (''color'', cA ''muted''), (''lw'', fA (8/10)),
           (''shrinkA'', iA 4), (''shrinkB'', iA shrink_b)])]"

definition draw_callouts :: "eq_row list \<Rightarrow> drawing" where
  "draw_callouts rows =
     bindE (closed_loop_row ''one_hop_wall_ms'' rows) (\<lambda>kn.
     bindE (closed_loop_row ''achieved_rate_ratio'' rows) (\<lambda>dg.
       Ret [callout eq_knife_edge (971/1000) kn (kn - of_lit (62/100)) 3,
            callout eq_degenerate 0 dg (dg + of_lit (42/100)) 5]))"

section \<open>The figure\<close>

definition decision_zone :: "string \<Rightarrow> mcall list" where
  "decision_zone ax =
     style_axis ax True False @
     [Call ax ''axvspan'' [iA (- 1), iA 1] [(''color'', cA ''band''), (''zorder'', iA 0), (''lw'', iA 0)],
      Call ax ''axvline'' [iA 0] [(''color'', cA ''axis''), (''lw'', fA (9/10)), (''zorder'', iA 1)]]"

definition eq_axes :: "mcall list" where
  "eq_axes =
     [new_figure (106/10) (66/10),
      new_axes ''gsL'' [295/1000, 150/1000, 415/1000, 685/1000] [],
      new_axes ''gsR'' [735/1000, 150/1000, 115/1000, 685/1000] [(''sharey'', Name ''gsL'')]]"

definition eq_limits :: "f64 \<Rightarrow> mcall list" where
  "eq_limits highest =
     [Call ''gsL'' ''set_xlim'' [fA (- 135/100), fA (135/100)] [],
      Call ''gsR'' ''set_xlim'' [fA (475/100), fA (615/100)] [],
      Call ''gsL'' ''set_ylim'' [fA (- 9/10), V (PFloat (highest + of_lit (125/100)))] [],
      Call ''gsL'' ''set_yticks'' [Lst []] [], Call ''gsR'' ''set_yticks'' [Lst []] [],
      Call ''gsL'' ''set_xticks'' [Lst [iA (- 1), fA (- 5/10), iA 0, fA (5/10), iA 1]] [],
      Call ''gsL'' ''set_xticklabels''
        [Lst [sA (minus_sign @ ''1'' @ times_sign), sA (minus_sign @ ''0.5'' @ times_sign), sA ''0'',
              sA (''+0.5'' @ times_sign), sA (''+1'' @ times_sign)]] [],
      Call ''gsR'' ''set_xticks'' [Lst [iA 5, iA 6]] [],
      Call ''gsR'' ''set_xticklabels'' [Lst [sA (''+5'' @ times_sign), sA (''+6'' @ times_sign)]] [],
      Call ''gsR.spines.bottom'' ''set_visible'' [bA True] []]"

text \<open>The two break marks at 0.7255 and 0.7345, and the caption of the band.\<close>

definition break_mark :: "f64 \<Rightarrow> mcall" where
  "break_mark x0 =
     Call ''fig'' ''add_artist''
       [New ''Line2D'' [Lst [V (PFloat (x0 - of_lit (4/1000))), V (PFloat (x0 + of_lit (4/1000)))],
                       Lst [fA (137/1000), fA (163/1000)]]
          [(''transform'', Name ''fig.transFigure''), (''color'', cA ''axis''), (''lw'', fA 1), (''clip_on'', bA False)]] []"

definition eq_marks :: "mcall list" where
  "eq_marks =
     map break_mark [of_lit (7255/10000), of_lit (7345/10000)] @
     [Call ''gsL'' ''text'' [fA 0, fA (- 62/100), sA eq_zone]
        [(''ha'', sA ''center''), (''va'', sA ''center''), (''fontsize'', iA 8), (''color'', cA ''ink2'')]]"

definition eq_legend :: "mcall list" where
  "eq_legend =
     [Call ''fig'' ''legend'' []
        [(''handles'', Lst
           [New ''Line2D'' [Lst [], Lst []]
              [(''marker'', sA ''o''), (''ls'', sA ''none''), (''ms'', fA (65/10)), (''mfc'', cA ''s1''),
               (''mec'', cA ''s1''), (''label'', sA ''closed-loop arm'')],
            New ''Line2D'' [Lst [], Lst []]
              [(''marker'', sA ''s''), (''ls'', sA ''none''), (''ms'', fA (65/10)), (''mfc'', cA ''surface''),
               (''mec'', cA ''s1''), (''mew'', fA (16/10)), (''label'', sA ''static arm'')],
            New ''Line2D'' [Lst [], Lst []]
              [(''color'', cA ''critical''), (''lw'', fA 2), (''label'', sA ''separated beyond margin'')]]),
         (''loc'', sA ''lower right''), (''bbox_to_anchor'', Tup [fA (995/1000), fA (862/1000)]),
         (''frameon'', bA False), (''fontsize'', iA 8), (''ncol'', iA 3), (''handletextpad'', fA (5/10)),
         (''columnspacing'', fA (14/10))]]"

definition fig_equivalence :: "pyval \<Rightarrow> string \<Rightarrow> drawing" where
  "fig_equivalence d out =
     bindE (getitem d ''equivalence'') (\<lambda>eq. bindE (getitem eq ''metrics'') (\<lambda>metrics.
     bindE (getitem eq ''arms'') (\<lambda>arms. bindE (eq_rows metrics arms) (\<lambda>rows.
     bindE (forD draw_row rows) (\<lambda>drawn_rows. bindE (py_iter metrics) (\<lambda>ms.
     bindE (forD (draw_header rows) ms) (\<lambda>headers. bindE (max_floats (map fst rows)) (\<lambda>highest.
     bindE (draw_callouts rows) (\<lambda>callouts.
       Ret (eq_axes @ concat (map decision_zone [''gsL'', ''gsR'']) @ drawn_rows @ headers @ eq_limits highest @
            eq_marks @ callouts @ eq_legend @
            title_block eq_title eq_subtitle eq_footnote title_x (of_lit (983/1000)) (of_lit (20/1000)) @
            save_figure out))))))))))"


section \<open>Every row says its verdict\<close>

lemma place_arms_covers:
  "a \<in> set as \<Longrightarrow> \<exists>yy. (yy, m, a) \<in> set (fst (place_arms y m as))"
  by (induction y m as rule: place_arms.induct) (auto split: prod.splits)

lemma place_rows_covers:
  assumes "m \<in> set ms" and "a \<in> set as"
  shows "\<exists>yy. (yy, m, a) \<in> set (place_rows y ms as)"
  using assms
proof (induction ms arbitrary: y)
  case (Cons m' ms)
  obtain rows y' where p: "place_arms y m' as = (rows, y')" by (rule prod.exhaust)
  with Cons.prems Cons.IH [of "y' + of_lit (85/100)"] place_arms_covers [OF Cons.prems(2), of m' y]
  show ?case by fastforce
qed simp

lemma eq_rows_cover:
  assumes "eq_rows (PList ms) (PList as) = Inr rows" and "m \<in> set ms" and "a \<in> set as"
  shows "\<exists>yy. (yy, m, a) \<in> set rows"
  using assms place_rows_covers [of m "rev ms" a "rev as" "of_lit 0"]
  by (auto simp: eq_rows_def py_reversed_def py_iter_def split: if_split_asm)

lemma draw_row_Inr:
  assumes "draw_row (yy, m, arm) = Inr cs"
  obtains arm_rows key row s color filled label words where
    "getitem arm ''rows'' = Inr arm_rows" "getitem m ''key'' = Inr key" "subscript arm_rows key = Inr row"
    "getitem row ''verdict'' = Inr (PStr s)" "map_of VERDICT_COLOR s = Some color"
    "map_of VERDICT_TEXT s = Some words" "getitem arm ''label'' = Inr label"
    "{arm_label label yy, verdict_label s words yy} \<subseteq> set cs"
    "s \<noteq> ''insufficient_data'' \<longrightarrow> (\<exists>lo hi mid. scaled_ci row m = Inr (lo, hi) \<and>
       set (panel_plots lo hi mid yy color filled ''gsL'') \<union> set (panel_plots lo hi mid yy color filled ''gsR'') \<subseteq> set cs)"
proof -
  from assms obtain arm_rows key row verdict color arm_key interval label words where steps:
    "getitem arm ''rows'' = Inr arm_rows" "getitem m ''key'' = Inr key" "subscript arm_rows key = Inr row"
    "getitem row ''verdict'' = Inr verdict" "lookup_const VERDICT_COLOR verdict = Inr color"
    "getitem arm ''key'' = Inr arm_key"
    "(if py_eq verdict (PStr ''insufficient_data'') then Ret [no_interval yy]
      else row_interval row m yy color (py_eq arm_key (PStr ''closed_loop''))) = Inr interval"
    "getitem arm ''label'' = Inr label" "lookup_const VERDICT_TEXT verdict = Inr words"
    "Inr (interval @ [arm_label label yy, verdict_label (py_str verdict) words yy]) = (Inr cs :: drawing)"
    unfolding draw_row_def Let_def prod.case bindE_Inr_iff by blast
  from steps(5) obtain s where s: "verdict = PStr s" "map_of VERDICT_COLOR s = Some color"
    by (auto simp: lookup_const_Inr)
  from steps(9) s(1) have w: "map_of VERDICT_TEXT s = Some words" by (auto simp: lookup_const_Inr)
  let ?filled = "py_eq arm_key (PStr ''closed_loop'')"
  have "\<exists>lo hi mid. scaled_ci row m = Inr (lo, hi) \<and>
       set (panel_plots lo hi mid yy color ?filled ''gsL'') \<union> set (panel_plots lo hi mid yy color ?filled ''gsR'') \<subseteq> set cs"
    if "s \<noteq> ''insufficient_data''"
    using steps(7,10) s(1) that by (auto simp: row_interval_def bindE_Inr_iff split: prod.splits)
  moreover from steps(10) s(1) have "{arm_label label yy, verdict_label s words yy} \<subseteq> set cs" by auto
  ultimately show thesis using that [OF steps(1-3) _ s(2) w steps(8), of ?filled] steps(4) s(1) by simp
qed

lemma drawn_rows:
  assumes "fig_equivalence d out = Inr calls"
    and "getitem d ''equivalence'' = Inr eq" "getitem eq ''metrics'' = Inr (PList ms)"
    and "getitem eq ''arms'' = Inr (PList as)" "m \<in> set ms" "a \<in> set as"
  obtains yy cs where "draw_row (yy, m, a) = Inr cs" "set cs \<subseteq> set calls"
proof -
  from assms(1-4) obtain rows drawn where rows: "eq_rows (PList ms) (PList as) = Inr rows"
    and drawn: "forD draw_row rows = Inr drawn" "set drawn \<subseteq> set calls"
  proof -
    from assms(1-4) obtain rows drawn pre post where "eq_rows (PList ms) (PList as) = Inr rows"
      "forD draw_row rows = Inr drawn" "Inr (pre @ drawn @ post) = (Inr calls :: drawing)"
      unfolding fig_equivalence_def bindE_Inr_iff append_assoc [symmetric]
      by simp (metis append_assoc)
    from this(3) have "set drawn \<subseteq> set calls" by auto
    with \<open>eq_rows (PList ms) (PList as) = Inr rows\<close> \<open>forD draw_row rows = Inr drawn\<close> show thesis by (rule that)
  qed
  from eq_rows_cover [OF rows assms(5,6)] obtain yy where "(yy, m, a) \<in> set rows" by blast
  from drawn(1) this obtain cs where cs: "draw_row (yy, m, a) = Inr cs" "set cs \<subseteq> set drawn" by (rule forD_draws)
  from that [OF cs(1) subset_trans [OF cs(2) drawn(2)]] show thesis .
qed

text \<open>C31: Verdict is never told by colour alone: in the forest figure every metric and arm has a row that
  carries the arm's label and the verdict in words at one height, and a row with an interval shows it on
  both panels of the broken axis, the same interval, divided by the metric's margin.\<close>

theorem every_row_labelled:
  assumes "fig_equivalence d out = Inr calls"
    and "getitem d ''equivalence'' = Inr eq" "getitem eq ''metrics'' = Inr (PList ms)"
    and "getitem eq ''arms'' = Inr (PList as)" "m \<in> set ms" "a \<in> set as"
  shows "\<exists>yy arm_rows key row s words label color filled.
    getitem a ''rows'' = Inr arm_rows \<and> getitem m ''key'' = Inr key \<and> subscript arm_rows key = Inr row \<and>
    getitem row ''verdict'' = Inr (PStr s) \<and> map_of VERDICT_TEXT s = Some words \<and>
    getitem a ''label'' = Inr label \<and> {arm_label label yy, verdict_label s words yy} \<subseteq> set calls \<and>
    (s \<noteq> ''insufficient_data'' \<longrightarrow> (\<exists>lo hi mid. scaled_ci row m = Inr (lo, hi) \<and>
       (\<forall>ax \<in> {''gsL'', ''gsR''}. set (panel_plots lo hi mid yy color filled ax) \<subseteq> set calls)))"
proof -
  obtain yy cs where cs: "draw_row (yy, m, a) = Inr cs" "set cs \<subseteq> set calls"
    using drawn_rows [OF assms] by metis
  from cs(1) obtain arm_rows key row s color filled label words where r:
    "getitem a ''rows'' = Inr arm_rows" "getitem m ''key'' = Inr key" "subscript arm_rows key = Inr row"
    "getitem row ''verdict'' = Inr (PStr s)" "map_of VERDICT_COLOR s = Some color"
    "map_of VERDICT_TEXT s = Some words" "getitem a ''label'' = Inr label"
    "{arm_label label yy, verdict_label s words yy} \<subseteq> set cs"
    "s \<noteq> ''insufficient_data'' \<longrightarrow> (\<exists>lo hi mid. scaled_ci row m = Inr (lo, hi) \<and>
       set (panel_plots lo hi mid yy color filled ''gsL'') \<union> set (panel_plots lo hi mid yy color filled ''gsR'') \<subseteq> set cs)"
    by (rule draw_row_Inr)
  have "s \<noteq> ''insufficient_data'' \<longrightarrow> (\<exists>lo hi mid. scaled_ci row m = Inr (lo, hi) \<and>
       (\<forall>ax \<in> {''gsL'', ''gsR''}. set (panel_plots lo hi mid yy color filled ax) \<subseteq> set calls))"
  proof
    assume "s \<noteq> ''insufficient_data''"
    with r(9) obtain lo hi mid where p: "scaled_ci row m = Inr (lo, hi)"
      "set (panel_plots lo hi mid yy color filled ''gsL'') \<union> set (panel_plots lo hi mid yy color filled ''gsR'') \<subseteq> set cs"
      by blast
    from subset_trans [OF p(2) cs(2)] have "\<forall>ax \<in> {''gsL'', ''gsR''}. set (panel_plots lo hi mid yy color filled ax) \<subseteq> set calls"
      by (simp only: Un_subset_iff ball_simps)
    with p(1) show "\<exists>lo hi mid. scaled_ci row m = Inr (lo, hi) \<and>
       (\<forall>ax \<in> {''gsL'', ''gsR''}. set (panel_plots lo hi mid yy color filled ax) \<subseteq> set calls)" by blast
  qed
  note r(1-4,6,7) subset_trans [OF r(8) cs(2)] this
  note conjI [OF this(1) conjI [OF this(2) conjI [OF this(3) conjI [OF this(4) conjI [OF this(5)
    conjI [OF this(6) conjI [OF this(7,8)]]]]]]]
  then show ?thesis by (intro exI)
qed

text \<open>The figure knows four verdicts and the decision rule a fifth: a row the rule left inconclusive
  raises \<open>KeyError\<close> out of the colour table, and no figure is written.\<close>

theorem inconclusive_row_breaks_figure:
  assumes "getitem d ''equivalence'' = Inr eq" "getitem eq ''metrics'' = Inr (PList ms)"
    and "getitem eq ''arms'' = Inr (PList as)" "m \<in> set ms" "a \<in> set as"
    and "getitem a ''rows'' = Inr arm_rows" "getitem m ''key'' = Inr key" "subscript arm_rows key = Inr row"
    and "getitem row ''verdict'' = Inr (PStr (equivalence_decision delta (Fin (- 3), Fin 3) (Fin 2)))"
  shows "fig_equivalence d out \<noteq> Inr calls"
proof
  assume fig: "fig_equivalence d out = Inr calls"
  obtain yy cs where cs: "draw_row (yy, m, a) = Inr cs" using drawn_rows [OF fig assms(1-5)] by blast
  have "equivalence_decision delta (Fin (- 3), Fin 3) (Fin 2) = ''inconclusive''"
    by (simp add: equivalence_decision_def zero_f64_def)
  with assms(6-9) show False by (auto intro: draw_row_Inr [OF cs] simp: VERDICT_COLOR_def)
qed

section \<open>Rows do not overlap\<close>

definition apart :: "eq_row \<Rightarrow> eq_row \<Rightarrow> bool" where
  "apart r r' \<longleftrightarrow> (\<exists>y y'. fst r = Fin y \<and> fst r' = Fin y' \<and> y + 9/10 \<le> y')"

lemma step_up:
  assumes "0 \<le> q" "0 \<le> s" "s \<le> 1" "q \<le> 2 ^ 20 - 2"
  shows "\<exists>q'. Fin q + Fin s = Fin q' \<and> q + s - 1/20 \<le> q' \<and> q' \<le> q + s + 1/20"
proof -
  have b: "0 \<le> q + s" "q + s \<le> 2 powi 20" using assms by (simp_all add: power_int_def)
  have "\<bar>rnd_rat (q + s) - (q + s)\<bar> \<le> 2 powi (20 - 53)" by (rule rnd_rat_error [OF b]) simp
  also have "(2::rat) powi (20 - 53) \<le> 1/20" by (simp add: power_int_def power_one_over)
  finally have e: "\<bar>rnd_rat (q + s) - (q + s)\<bar> \<le> 1/20" .
  have "Fin q + Fin s = Fin (rnd_rat (q + s))" using b by (simp add: rnd_small power_int_def)
  moreover from e have "q + s - 1/20 \<le> rnd_rat (q + s)" "rnd_rat (q + s) \<le> q + s + 1/20"
    unfolding abs_le_iff by linarith+
  ultimately show ?thesis by blast
qed

lemma lit_85: obtains s where "of_lit (85/100) = Fin s" "8/10 \<le> s" "s \<le> 9/10"
proof -
  have "\<bar>rnd_rat (85/100) - 85/100\<bar> \<le> 2 powi (0 - 53)" by (rule rnd_rat_error) simp_all
  also have "(2::rat) powi (0 - 53) \<le> 1/20" by (simp add: power_int_def power_one_over)
  finally have "\<bar>rnd_rat (85/100) - 85/100 :: rat\<bar> \<le> 1/20" .
  then have "8/10 \<le> rnd_rat (85/100)" "rnd_rat (85/100) \<le> (9/10 :: rat)" unfolding abs_le_iff by linarith+
  moreover have "of_lit (85/100) = Fin (rnd_rat (85/100))" by (rule rnd_small) simp
  ultimately show thesis using that by simp
qed

lemma place_arms_apart:
  assumes "0 \<le> q" "q + 2 * of_nat (length as) \<le> 2 ^ 20 - 2"
  obtains rows q' where "place_arms (Fin q) m as = (rows, Fin q')" "q \<le> q'" "q' \<le> q + 2 * of_nat (length as)"
    "sorted_wrt apart rows" "\<forall>r \<in> set rows. \<exists>z. fst r = Fin z \<and> q \<le> z \<and> z + 9/10 \<le> q'"
  using assms
proof (induction as arbitrary: q thesis)
  case Nil
  then show ?case by simp
next
  case (Cons a as)
  have "q \<le> 2 ^ 20 - 2" using Cons.prems(3) by simp
  from step_up [OF Cons.prems(2) zero_le_one order_refl this] obtain q1 where
    sum: "Fin q + Fin 1 = Fin q1" "q + 1 - 1/20 \<le> q1" "q1 \<le> q + 1 + 1/20" by blast
  note q1 = sum(1)
  from sum(2,3) have q1_bounds: "q + 9/10 \<le> q1" "q1 \<le> q + 2" by linarith+
  note q1 = q1 q1_bounds
  have "0 \<le> q1" "q1 + 2 * of_nat (length as) \<le> 2 ^ 20 - 2" using q1 Cons.prems(2,3) by simp_all
  then obtain rows q' where rest: "place_arms (Fin q1) m as = (rows, Fin q')" "q1 \<le> q'"
    "q' \<le> q1 + 2 * of_nat (length as)" "sorted_wrt apart rows"
    "\<forall>r \<in> set rows. \<exists>z. fst r = Fin z \<and> q1 \<le> z \<and> z + 9/10 \<le> q'"
    using Cons.IH by blast
  have "place_arms (Fin q) m (a # as) = ((Fin q, m, a) # rows, Fin q')" using q1(1) rest(1) by simp
  moreover have "sorted_wrt apart ((Fin q, m, a) # rows)"
    using rest(4,5) q1(2) by (force simp: apart_def)
  moreover have "\<forall>r \<in> set ((Fin q, m, a) # rows). \<exists>z. fst r = Fin z \<and> q \<le> z \<and> z + 9/10 \<le> q'"
    using rest(2,5) q1(2) by force
  ultimately show ?case using Cons.prems(1) [of "(Fin q, m, a) # rows" q'] rest(2,3) q1(2,3) by simp
qed

lemma place_rows_apart:
  assumes "0 \<le> q" "q + (2 * of_nat (length as) + 2) * of_nat (length ms) \<le> 2 ^ 20 - 2"
  shows "sorted_wrt apart (place_rows (Fin q) ms as) \<and> (\<forall>r \<in> set (place_rows (Fin q) ms as). \<exists>z. fst r = Fin z \<and> q \<le> z)"
  using assms
proof (induction ms arbitrary: q)
  case Nil
  then show ?case by simp
next
  case (Cons m ms)
  let ?n = "2 * of_nat (length as) + 2 :: rat"
  define t where "t = ?n * of_nat (length ms)"
  have pos: "0 \<le> t" by (simp add: t_def)
  have prem: "q + ?n + t \<le> 2 ^ 20 - 2" using Cons.prems(2) by (simp add: t_def algebra_simps)
  then have "q + 2 * of_nat (length as) \<le> 2 ^ 20 - 2" using pos by linarith
  from place_arms_apart [OF Cons.prems(1) this] obtain rows q' where
    arms: "place_arms (Fin q) m as = (rows, Fin q')" "q \<le> q'" "q' \<le> q + 2 * of_nat (length as)"
    "sorted_wrt apart rows" "\<forall>r \<in> set rows. \<exists>z. fst r = Fin z \<and> q \<le> z \<and> z + 9/10 \<le> q'" by metis
  obtain s where s: "of_lit (85/100) = Fin s" "8/10 \<le> s" "s \<le> 9/10" by (rule lit_85)
  from arms(2,3) Cons.prems(1) prem pos have "0 \<le> q'" "q' \<le> 2 ^ 20 - 2" by linarith+
  from step_up [OF this(1) _ _ this(2), of s] s(2,3) obtain q2 where
    sum: "Fin q' + Fin s = Fin q2" "q' + s - 1/20 \<le> q2" "q2 \<le> q' + s + 1/20" by auto
  from sum(2,3) s(2,3) have "q' \<le> q2" "q2 \<le> q' + 2" by linarith+
  note q2 = sum(1) this
  have "0 \<le> q2" "q2 + ?n * of_nat (length ms) \<le> 2 ^ 20 - 2"
    using q2 arms(2,3) Cons.prems(1) prem unfolding t_def [symmetric] by linarith+
  from Cons.IH [OF this] have rest: "sorted_wrt apart (place_rows (Fin q2) ms as)"
    "\<forall>r \<in> set (place_rows (Fin q2) ms as). \<exists>z. fst r = Fin z \<and> q2 \<le> z" by blast+
  have e: "place_rows (Fin q) (m # ms) as = rows @ place_rows (Fin q2) ms as"
    using arms(1) s(1) q2(1) by simp
  have "\<forall>r \<in> set rows. \<forall>r' \<in> set (place_rows (Fin q2) ms as). apart r r'"
  proof (intro ballI)
    fix r r' assume "r \<in> set rows" "r' \<in> set (place_rows (Fin q2) ms as)"
    with arms(5) rest(2) obtain z z' where z: "fst r = Fin z" "z + 9/10 \<le> q'" "fst r' = Fin z'" "q2 \<le> z'" by blast
    then have "z + 9/10 \<le> z'" using q2(2) by linarith
    with z(1,3) show "apart r r'" unfolding apart_def by blast
  qed
  moreover have "\<forall>r \<in> set (place_rows (Fin q2) ms as). \<exists>z. fst r = Fin z \<and> q \<le> z"
    using rest(2) q2(2) arms(2) by (meson order_trans)
  ultimately show ?case unfolding e using arms(4,5) rest(1) by (auto simp: sorted_wrt_append)
qed

text \<open>The rows of the forest figure do not overlap: up to sixty-five thousand rows and gaps, the heights
  are finite and ascending by at least nine tenths of a unit from each row to every later one, rounding
  of the running height included.\<close>

theorem rows_do_not_overlap:
  assumes "eq_rows (PList ms) (PList as) = Inr rows" and "length ms * (length as + 1) \<le> 2 ^ 16"
  shows "sorted_wrt (\<lambda>r r'. \<exists>y y'. fst r = Fin y \<and> fst r' = Fin y' \<and> y + 9/10 \<le> y') rows"
proof -
  have "rat_of_nat (length ms * (length as + 1)) \<le> rat_of_nat (2 ^ 16)" using assms(2) by (simp only: of_nat_le_iff)
  then have b: "0 + (2 * of_nat (length (rev as)) + 2) * of_nat (length (rev ms)) \<le> (2 ^ 20 - 2 :: rat)"
    by (simp add: algebra_simps)
  have "rows = (if ms = [] then [] else place_rows (Fin 0) (rev ms) (rev as))"
    using assms(1) by (auto simp: eq_rows_def py_reversed_def py_iter_def split: if_split_asm)
  with place_rows_apart [OF _ b] have "sorted_wrt apart rows" by auto
  then show ?thesis by (simp add: apart_def [abs_def])
qed

section \<open>The band is the rule\<close>

text \<open>C30: The drawn band is the decision rule: for an interval and a positive margin that are floats, the
  interval the figure draws lies strictly inside the band from minus one to one exactly when
  \<open>equivalence_decision\<close> says parity, although the figure compares rounded quotients.\<close>

theorem band_is_the_rule:
  assumes "getitem row ''ci'' = Inr (PList [PFloat (Fin lo), PFloat (Fin hi)])"
    and "getitem m ''margin'' = Inr (PFloat (Fin w))" and "0 < w"
    and "is_f64 lo" "is_f64 hi" "is_f64 w"
  shows "\<exists>l h. scaled_ci row m = Inr (PFloat l, PFloat h) \<and>
    (Fin (- 1) < l \<and> h < Fin 1 \<longleftrightarrow> equivalence_decision delta (Fin lo, Fin hi) (Fin w) = ''parity'')"
proof -
  have "scaled_ci row m = Inr (PFloat (rnd (lo / w)), PFloat (rnd (hi / w)))"
    using assms(1-3) by (simp add: scaled_ci_def py_iter_def arith_simps float_div_def unpack2_def)
  moreover have "equivalence_decision delta (Fin lo, Fin hi) (Fin w) = ''parity'' \<longleftrightarrow> - w < lo \<and> hi < w"
    by (simp add: equivalence_decision_def)
  ultimately show ?thesis
    using quotient_below_one [OF assms(5,6,3)] quotient_above_minus_one [OF assms(4,6,3)]
    by (simp add: rnd_less_one rnd_greater_minus_one)
qed

section \<open>The checked-in data\<close>

lemmas yaml_equivalence_defs = yaml_equivalence_def yaml_metrics_def yaml_arms_def yaml_closed_loop_rows_def
  yaml_static_rows_def

lemma equivalence_draws: "\<exists>calls. fig_equivalence figures_yaml out = Inr calls"
  by (simp add: fig_equivalence_def yaml_equivalence_defs value_eval eq_rows_def py_reversed_def
      draw_row_def VERDICT_COLOR_def VERDICT_TEXT_def row_interval_def
      scaled_ci_def arith_simps float_div_def lit_nonzero rnd_numeral draw_header_def heights_of_def
      max_floats_def draw_callouts_def Let_def)

text \<open>Whether a row's verdict is the one the decision rule gives its interval; a row with no interval must
  say that it was not computed.\<close>

definition follows_rule :: "pyval \<Rightarrow> pyval \<Rightarrow> bool" where
  "follows_rule margin row \<longleftrightarrow>
     getitem row ''verdict'' =
       (case (getitem row ''delta'', getitem row ''ci'', margin) of
          (Inr (PFloat delta), Inr (PList [PFloat lo, PFloat hi]), PFloat w) \<Rightarrow>
            Inr (PStr (equivalence_decision delta (lo, hi) w))
        | _ \<Rightarrow> Inr (PStr ''insufficient_data''))"

definition row_of :: "pyval \<Rightarrow> pyval \<Rightarrow> pyval res" where
  "row_of arm m =
     bindE (getitem arm ''rows'') (\<lambda>rows. bindE (getitem m ''key'') (subscript rows))"

text \<open>The rule on literals that are at least a thousandth apart.\<close>

lemma parity_lits:
  assumes "\<bar>lo\<bar> \<le> 64" "\<bar>hi\<bar> \<le> 64" "\<bar>w\<bar> \<le> 64" "1/1000 - w \<le> lo" "hi + 1/1000 \<le> w"
  shows "equivalence_decision d (of_lit lo, of_lit hi) (of_lit w) = ''parity''"
proof -
  obtain l where l: "of_lit lo = Fin l" "lo - 1/10^6 \<le> l" "l \<le> lo + 1/10^6" by (rule lit_near [OF assms(1)])
  obtain h where h: "of_lit hi = Fin h" "hi - 1/10^6 \<le> h" "h \<le> hi + 1/10^6" by (rule lit_near [OF assms(2)])
  obtain m where m: "of_lit w = Fin m" "w - 1/10^6 \<le> m" "m \<le> w + 1/10^6" by (rule lit_near [OF assms(3)])
  have "- m < l" "h < m" using l(2) h(3) m(2) assms(4,5) by (simp_all add: field_simps)
  then show ?thesis by (simp add: equivalence_decision_def l(1) h(1) m(1))
qed

lemma b_better_lits:
  assumes "\<bar>lo\<bar> \<le> 64" "\<bar>hi\<bar> \<le> 64" "\<bar>w\<bar> \<le> 64" "1/1000 \<le> lo" "1/1000 \<le> hi" "w + 1/1000 \<le> hi"
  shows "equivalence_decision d (of_lit lo, of_lit hi) (of_lit w) = ''b_better''"
proof -
  obtain l where l: "of_lit lo = Fin l" "lo - 1/10^6 \<le> l" "l \<le> lo + 1/10^6" by (rule lit_near [OF assms(1)])
  obtain h where h: "of_lit hi = Fin h" "hi - 1/10^6 \<le> h" "h \<le> hi + 1/10^6" by (rule lit_near [OF assms(2)])
  obtain m where m: "of_lit w = Fin m" "w - 1/10^6 \<le> m" "m \<le> w + 1/10^6" by (rule lit_near [OF assms(3)])
  have "0 < l" "0 < h" "m < h" using l(2) h(2) m(3) assms(4-6) by (simp_all add: field_simps)
  then show ?thesis by (simp add: equivalence_decision_def zero_f64_def l(1) h(1) m(1))
qed

lemma a_better_lits:
  assumes "\<bar>lo\<bar> \<le> 64" "\<bar>hi\<bar> \<le> 64" "\<bar>w\<bar> \<le> 64" "hi \<le> - 1/1000" "lo + 1/1000 \<le> - w"
  shows "equivalence_decision d (of_lit lo, of_lit hi) (of_lit w) = ''a_better''"
proof -
  obtain l where l: "of_lit lo = Fin l" "lo - 1/10^6 \<le> l" "l \<le> lo + 1/10^6" by (rule lit_near [OF assms(1)])
  obtain h where h: "of_lit hi = Fin h" "hi - 1/10^6 \<le> h" "h \<le> hi + 1/10^6" by (rule lit_near [OF assms(2)])
  obtain m where m: "of_lit w = Fin m" "w - 1/10^6 \<le> m" "m \<le> w + 1/10^6" by (rule lit_near [OF assms(3)])
  have "h < 0" "l < - m" using l(3) h(3) m(3) assms(4,5) by (simp_all add: field_simps)
  then show ?thesis by (simp add: equivalence_decision_def zero_f64_def l(1) h(1) m(1))
qed

text \<open>Every verdict in the data file is the one the registered rule gives its interval and margin: both
  arms of the forest figure on all five metrics, and the three conditions of the reversal figure.\<close>

theorem data_follows_the_rule:
  "list_all (\<lambda>arm. list_all (\<lambda>m. \<exists>row w. row_of arm m = Inr row \<and> getitem m ''margin'' = Inr w \<and>
     follows_rule w row) yaml_metrics) yaml_arms \<and>
   (\<exists>w. getitem yaml_cpu_reversal ''margin'' = Inr w \<and> list_all (follows_rule w) yaml_cpu_reversal_rows)"
  by (simp add: yaml_equivalence_defs yaml_cpu_reversal_def yaml_cpu_reversal_rows_def value_eval row_of_def
      follows_rule_def parity_lits a_better_lits b_better_lits del: rnd_0)

text \<open>The knife-edge callout is right: for the closed-loop one-hop interval the rule says parity above the
  interval's upper end and tier4-native better at it and below, and is never undecided.\<close>

theorem knife_edge_callout:
  "\<exists>row lo hi. map_of yaml_closed_loop_rows ''one_hop_wall_ms'' = Some row \<and>
     getitem row ''ci'' = Inr (PList [PFloat lo, PFloat hi]) \<and>
     (\<forall>delta w. equivalence_decision delta (lo, hi) (Fin w) = (if hi < Fin w then ''parity'' else ''b_better''))"
proof -
  obtain l where l: "of_lit (886/1000) = Fin l" "886/1000 - 1/10^6 \<le> l" "l \<le> 886/1000 + 1/10^6"
    by (rule lit_near [of "886/1000"]) simp_all
  obtain h where h: "of_lit (1942/1000) = Fin h" "1942/1000 - 1/10^6 \<le> h" "h \<le> 1942/1000 + 1/10^6"
    by (rule lit_near [of "1942/1000"]) simp_all
  have pos: "0 < l" "0 < h" using l(2) h(2) by (simp_all add: field_simps)
  then have "equivalence_decision delta (of_lit (886/1000), of_lit (1942/1000)) (Fin w) =
      (if of_lit (1942/1000) < Fin w then ''parity'' else ''b_better'')" for delta w
    unfolding l(1) h(1) by (simp add: equivalence_decision_def zero_f64_def)
  moreover have "map_of yaml_closed_loop_rows ''one_hop_wall_ms'' = Some (snd (yaml_closed_loop_rows ! 0))"
    "getitem (snd (yaml_closed_loop_rows ! 0)) ''ci'' =
      Inr (PList [PFloat (of_lit (886/1000)), PFloat (of_lit (1942/1000))])"
    by (simp_all add: yaml_closed_loop_rows_def value_eval)
  ultimately show ?thesis by blast
qed

text \<open>The legend calls a red row separated beyond the margin; the rule makes a row red that straddles it.\<close>

lemma red_is_not_beyond_margin:
  "map_of VERDICT_COLOR (equivalence_decision delta (Fin 1, Fin 3) (Fin 2)) = Some (C ''critical'')"
  by (simp add: equivalence_decision_def zero_f64_def VERDICT_COLOR_def)

section \<open>A sample\<close>

definition sample_metric :: "string \<Rightarrow> pyval" where
  "sample_metric k = PDict [(''key'', PStr k), (''label'', PStr k), (''unit'', PStr ''ms''), (''margin'', PFloat (Fin 2))]"

definition sample_row :: "string \<Rightarrow> pyval" where
  "sample_row verdict =
     PDict [(''delta'', PFloat (Fin 1)), (''ci'', PList [PFloat (Fin (- 1)), PFloat (Fin (3/2))]), (''verdict'', PStr verdict)]"

definition sample_arm :: "string \<Rightarrow> pyval" where
  "sample_arm verdict =
     PDict [(''key'', PStr ''closed_loop''), (''label'', PStr ''closed-loop arm''),
            (''rows'', PDict [(''one_hop_wall_ms'', sample_row verdict),
                              (''achieved_rate_ratio'', PDict [(''verdict'', PStr ''insufficient_data'')])])]"

definition sample_eq :: "string \<Rightarrow> pyval" where
  "sample_eq verdict =
     PDict [(''metrics'', PList [sample_metric ''one_hop_wall_ms'', sample_metric ''achieved_rate_ratio'']),
            (''arms'', PList [sample_arm verdict])]"

lemmas sample_eq_defs = sample_metric_def sample_row_def sample_arm_def sample_eq_def

lemma sample_eq_drawn:
  "\<exists>calls. fig_equivalence (PDict [(''equivalence'', sample_eq ''parity'')]) out = Inr calls"
  by (simp add: fig_equivalence_def sample_eq_defs getitem_def eq_rows_def py_reversed_def py_iter_def
      draw_row_def subscript_def lookup_const_def VERDICT_COLOR_def VERDICT_TEXT_def row_interval_def
      scaled_ci_def arith_simps float_div_def unpack2_def draw_header_def heights_of_def format_value_def
      max_floats_def draw_callouts_def py_eq_def Let_def)

theorem every_row_labelled_witness:
  "\<exists>calls yy. fig_equivalence (PDict [(''equivalence'', sample_eq ''parity'')]) ''f.svg'' = Inr calls \<and>
     verdict_label ''parity'' ''parity'' yy \<in> set calls"
proof -
  obtain calls where fig: "fig_equivalence (PDict [(''equivalence'', sample_eq ''parity'')]) ''f.svg'' = Inr calls"
    using sample_eq_drawn by blast
  let ?m = "sample_metric ''one_hop_wall_ms''" and ?a = "sample_arm ''parity''"
  have "getitem (PDict [(''equivalence'', sample_eq ''parity'')]) ''equivalence'' = Inr (sample_eq ''parity'')"
    "getitem (sample_eq ''parity'') ''metrics'' = Inr (PList [?m, sample_metric ''achieved_rate_ratio''])"
    "getitem (sample_eq ''parity'') ''arms'' = Inr (PList [?a])"
    by (simp_all add: sample_eq_def getitem_def)
  from every_row_labelled [OF fig this list.set_intros(1) list.set_intros(1)] obtain yy arm_rows key row s words where
    r: "getitem ?a ''rows'' = Inr arm_rows" "getitem ?m ''key'' = Inr key" "subscript arm_rows key = Inr row"
    "getitem row ''verdict'' = Inr (PStr s)" "map_of VERDICT_TEXT s = Some words"
    "verdict_label s words yy \<in> set calls" unfolding insert_subset by blast
  have "key = PStr ''one_hop_wall_ms''" using r(2) by (simp add: sample_metric_def getitem_def)
  with r(1,3) have "row = sample_row ''parity''" by (auto simp: sample_arm_def getitem_def subscript_def)
  with r(4,5) have "s = ''parity''" "words = ''parity''"
    by (auto simp: sample_row_def getitem_def VERDICT_TEXT_def)
  with fig r(6) show ?thesis by blast
qed

theorem inconclusive_row_breaks_figure_witness:
  "\<nexists>calls. fig_equivalence (PDict [(''equivalence'', sample_eq ''inconclusive'')]) ''f.svg'' = Inr calls"
proof -
  let ?d = "PDict [(''equivalence'', sample_eq ''inconclusive'')]"
  let ?m = "sample_metric ''one_hop_wall_ms''" and ?a = "sample_arm ''inconclusive''"
  have "equivalence_decision 0 (Fin (- 3), Fin 3) (Fin 2) = ''inconclusive''"
    by (simp add: equivalence_decision_def zero_f64_def)
  then have v: "getitem (sample_row ''inconclusive'') ''verdict'' =
      Inr (PStr (equivalence_decision 0 (Fin (- 3), Fin 3) (Fin 2)))"
    by (simp add: sample_row_def getitem_def)
  have g: "getitem ?d ''equivalence'' = Inr (sample_eq ''inconclusive'')"
    "getitem (sample_eq ''inconclusive'') ''metrics'' = Inr (PList [?m, sample_metric ''achieved_rate_ratio''])"
    "getitem (sample_eq ''inconclusive'') ''arms'' = Inr (PList [?a])"
    by (simp_all add: sample_eq_def getitem_def)
  have k: "getitem ?m ''key'' = Inr (PStr ''one_hop_wall_ms'')" by (simp add: sample_metric_def getitem_def)
  obtain arm_rows where rows: "getitem ?a ''rows'' = Inr arm_rows"
    "subscript arm_rows (PStr ''one_hop_wall_ms'') = Inr (sample_row ''inconclusive'')"
    by (simp add: sample_arm_def getitem_def subscript_def)
  have "fig_equivalence ?d ''f.svg'' \<noteq> Inr calls" for calls
    by (rule inconclusive_row_breaks_figure [OF g _ _ rows(1) k rows(2) v]) simp_all
  then show ?thesis by blast
qed

theorem rows_do_not_overlap_witness:
  "\<exists>rows. eq_rows (PList [sample_metric ''a'', sample_metric ''b'']) (PList [sample_arm ''parity'']) = Inr rows \<and>
     sorted_wrt (\<lambda>r r'. \<exists>y y'. fst r = Fin y \<and> fst r' = Fin y' \<and> y + 9/10 \<le> y') rows"
proof -
  obtain rows where rows: "eq_rows (PList [sample_metric ''a'', sample_metric ''b'']) (PList [sample_arm ''parity'']) = Inr rows"
    by (simp add: eq_rows_def py_reversed_def py_iter_def)
  from rows_do_not_overlap [OF rows] rows show ?thesis by simp
qed

theorem band_is_the_rule_witness:
  "\<exists>l h. scaled_ci (sample_row ''parity'') (sample_metric ''one_hop_wall_ms'') = Inr (PFloat l, PFloat h) \<and>
     Fin (- 1) < l \<and> h < Fin 1"
proof -
  have f: "is_f64 (- 1)" "is_f64 (3/2)" "is_f64 2"
    using is_f64_int [of 1] is_f64_int [of 2] is_f64_three_halves by simp_all
  have "getitem (sample_row ''parity'') ''ci'' = Inr (PList [PFloat (Fin (- 1)), PFloat (Fin (3/2))])"
    "getitem (sample_metric ''one_hop_wall_ms'') ''margin'' = Inr (PFloat (Fin 2))"
    by (simp_all add: sample_row_def sample_metric_def getitem_def)
  from band_is_the_rule [OF this _ f, of "Fin 1"] show ?thesis by (auto simp: equivalence_decision_def)
qed

end
