(* ===== verification/Fig_Intervals.thy ===== *)
theory Fig_Intervals
  imports Figures_Data Stats
begin

text \<open>
  Three figures of \<^verbatim>\<open>docs/evaluation/figures/make_figures.py\<close>: \<open>fig_cpu_reversal\<close> (one interval per
  measurement condition), \<open>fig_seam\<close> (the two ends of each run and their difference) and \<open>fig_bridge\<close>
  (two ranges on a logarithmic axis with reference lines).

  The lemmas: every row is drawn once, at its own height from the top down, with its label and its
  verdict in words.
\<close>

section \<open>The CPU reversal\<close>

definition cpu_xlabel :: string where
  "cpu_xlabel =
     delta_sign @ '' simulator-process CPU (percentage points)''"

definition cpu_margin_note :: string where
  "cpu_margin_note =
     plus_minus @ ''10 pp margin''"

definition cpu_title :: string where
  "cpu_title =
     ''The one reversal the campaign did not resolve: simulator-process CPU''"

definition cpu_subtitle :: string where
  "cpu_subtitle =
     ''Same metric, same two approaches, three measurement conditions. The sign flips '' @
     ''with the transport condition '' @ em_dash @ '' but the pre-registered rule'' @ nl @
     ''attributes the P3 '' @ arrow_sign @
     '' P4 change on the metrics that returned parity to the transport, and does not '' @
     ''license retro-attributing this row.''"

definition cpu_footnote :: string where
  "cpu_footnote =
     ''Sources: report.md '' @ section_sign @ ''3.2; P3 row p3-baseline.md '' @ section_sign @
     ''4.2, P4 rows p4-transport-sweep.md '' @ section_sign @
     ''2.5. Cause not established on either P4 row.'' @ nl @
     ''This row and those three cannot both be an approach difference.''"

text \<open>\<open>f"{v:+.3f} pp"\<close> with a typographic minus.\<close>

definition signed_pp :: "pyval \<Rightarrow> string res" where
  "signed_pp v =
     bindE (format_value (plus_sign (fmt_fixed 3)) v) (\<lambda>s. Ret (replace_char CHR ''-'' minus_sign (s @ '' pp'')))"

definition verdict_note :: "string \<Rightarrow> int \<Rightarrow> mcall" where
  "verdict_note words y =
     Call ''ax'' ''annotate'' [sA words]
       [(''xy'', Tup [fA (102/100), iA y]), gutter, (''ha'', sA ''left''), (''va'', sA ''center''),
        (''fontsize'', fA (82/10)), (''fontweight'', sA ''bold''), (''color'', cA ''ink'')]"

definition interval_plot :: "pyval \<Rightarrow> pyval \<Rightarrow> int \<Rightarrow> string \<Rightarrow> mcall" where
  "interval_plot lo hi y color =
     Call ''ax'' ''plot'' [Lst [V lo, V hi], Lst [iA y, iA y]]
       [(''color'', sA color), (''lw'', fA (24/10)), (''solid_capstyle'', sA ''round''), (''zorder'', iA 3)]"

definition point_plot :: "pyval \<Rightarrow> int \<Rightarrow> string \<Rightarrow> mcall" where
  "point_plot delta y color =
     Call ''ax'' ''plot'' [Lst [V delta], Lst [iA y], sA ''o'']
       [(''ms'', iA 7), (''mfc'', sA color), (''mec'', sA color), (''zorder'', iA 4)]"

definition delta_note :: "string \<Rightarrow> pyval \<Rightarrow> int \<Rightarrow> mcall" where
  "delta_note shown delta y =
     Call ''ax'' ''annotate'' [sA shown]
       [(''xy'', Tup [V delta, iA y]), (''xytext'', Tup [iA 0, iA 9]), offset_points, (''ha'', sA ''center''),
        (''fontsize'', fA (82/10)), (''fontweight'', sA ''bold''), (''color'', cA ''ink'')]"

definition cpu_row :: "int \<Rightarrow> pyval \<Rightarrow> drawing" where
  "cpu_row y r =
     bindE (getitem r ''verdict'') (\<lambda>verdict. bindE (lookup_const VERDICT_COLOR verdict) (\<lambda>color.
     bindE (getitem r ''ci'') (\<lambda>ci. bindE (py_iter ci) (\<lambda>vs. bindE (unpack2 vs) (\<lambda>(lo, hi).
     bindE (getitem r ''delta'') (\<lambda>delta. bindE (signed_pp delta) (\<lambda>shown.
     bindE (two_labels (- 12/1000) (10/100) (20/100) y r) (\<lambda>labels.
     bindE (lookup_const VERDICT_TEXT verdict) (\<lambda>words.
       Ret ([interval_plot lo hi y color, point_plot delta y color, delta_note shown delta y] @ labels @
            [verdict_note words y]))))))))))"

definition cpu_limits :: "pyval \<Rightarrow> mcall list" where
  "cpu_limits upper =
     [Call ''ax'' ''set_xlim'' [iA (- 22), iA 64] [],
      Call ''ax'' ''set_ylim'' [fA (- 6/10), V upper] [],
      Call ''ax'' ''set_yticks'' [Lst []] [],
      Call ''ax'' ''set_xticks'' [Lst (map iA [- 20, - 10, 0, 10, 20, 30, 40, 50, 60])] [],
      Call ''ax'' ''set_xticklabels''
        [Lst (map sA [minus_sign @ ''20'', minus_sign @ ''10'', ''0'', ''10'', ''20'', ''30'', ''40'', ''50'', ''60''])] [],
      Call ''ax'' ''set_xlabel'' [sA cpu_xlabel] [(''fontsize'', fA (84/10)), (''color'', cA ''ink2'')],
      Call ''ax'' ''annotate'' [sA cpu_margin_note]
        [(''xy'', Tup [iA 0, fA 1]), (''xycoords'', Tup [sA ''data'', sA ''axes fraction'']),
         (''xytext'', Tup [iA 0, iA 7]), offset_points, (''ha'', sA ''center''), (''fontsize'', fA (78/10)),
         (''color'', cA ''ink2'')]]"

definition fig_cpu_reversal :: "pyval \<Rightarrow> string \<Rightarrow> drawing" where
  "fig_cpu_reversal d out =
     bindE (getitem d ''cpu_reversal'') (\<lambda>cr. bindE (getitem cr ''margin'') (\<lambda>margin.
     bindE (getitem cr ''rows'') (\<lambda>rows. bindE (py_neg margin) (\<lambda>low. bindE (py_len rows) (\<lambda>n.
     bindE (py_iter rows) (\<lambda>rs. bindE (forD (\<lambda>(y, r). cpu_row y r) (zip (descending n) rs)) (\<lambda>drawn.
     bindE (py_sub (PInt n) (PFloat (of_lit (35/100)))) (\<lambda>upper.
       Ret ([new_figure (106/10) (35/10), new_axes ''ax'' [325/1000, 245/1000, 505/1000, 50/100] []] @
            style_axis ''ax'' True False @
            [Call ''ax'' ''axvspan'' [V low, V margin] [(''color'', cA ''band''), (''zorder'', iA 0), (''lw'', iA 0)],
             Call ''ax'' ''axvline'' [iA 0] [(''color'', cA ''axis''), (''lw'', fA (9/10)), (''zorder'', iA 1)]] @
            drawn @ cpu_limits upper @
            title_block cpu_title cpu_subtitle cpu_footnote title_x title_y (of_lit (35/1000)) @
            save_figure out)))))))))"

section \<open>The seam ceiling\<close>

definition seam_xlabel :: string where
  "seam_xlabel =
     ''p50 one-hop (ms) '' @ em_dash @ '' same 921 908-byte cloud, same CARLA process''"

definition seam_delta_xlabel :: string where
  "seam_delta_xlabel =
     delta_sign @ '' p50 (ms) '' @ em_dash @ '' positive in 5 of 5 runs''"

definition seam_title :: string where
  "seam_title =
     ''What the C ABI seam costs: an upper bound of +0.2988 ms, measured 5 of 5 times''"

definition seam_subtitle :: string where
  "seam_subtitle =
     ''Both twins publish an identical cloud inside one CARLA process, so the '' @ delta_sign @
     '' is paired and within-run. Against the registered claim'' @ nl @ ''('' @ dquote @
     ''no measurable overhead'' @ dquote @ '') this is a downgrade '' @ em_dash @
     '' an overhead WAS measured. It is small and bounded, not zero.''"

definition seam_footnote :: string where
  "seam_footnote =
     ''Source: report.md '' @ section_sign @ ''3.1; regeneration report.md '' @ section_sign @
     ''9 command 4b. n = 5. The tails do not separate, and no claim is made about them '' @
     ''at this n.''"

definition dot_plot :: "string \<Rightarrow> pyval \<Rightarrow> int \<Rightarrow> string \<Rightarrow> mcall" where
  "dot_plot ax v y c =
     Call ax ''plot'' [Lst [V v], Lst [iA y], sA ''o'']
       [(''ms'', iA 7), (''mfc'', cA c), (''mec'', cA c), (''zorder'', iA 3)]"

definition signed4 :: "pyval \<Rightarrow> string res" where
  "signed4 v = bindE (format_value (fmt_fixed 4) v) (\<lambda>s. Ret (''+'' @ s))"

definition seam_ends :: "int \<Rightarrow> pyval \<Rightarrow> drawing" where
  "seam_ends y r =
     bindE (getitem r ''in_core'') (\<lambda>core. bindE (getitem r ''seam'') (\<lambda>seam.
     bindE (getitem r ''delta'') (\<lambda>delta. bindE (signed4 delta) (\<lambda>shown.
     bindE (py_add core seam) (\<lambda>both. bindE (py_div both (PInt 2)) (\<lambda>mid.
       Ret [Call ''axL'' ''plot'' [Lst [V core, V seam], Lst [iA y, iA y]]
              [(''color'', cA ''axis''), (''lw'', fA (14/10)), (''zorder'', iA 2)],
            dot_plot ''axL'' core y ''s3'', dot_plot ''axL'' seam y ''s2'',
            Call ''axL'' ''annotate'' [sA shown]
              [(''xy'', Tup [V mid, iA y]), (''xytext'', Tup [iA 0, iA 8]), offset_points, (''ha'', sA ''center''),
               (''fontsize'', fA (78/10)), (''color'', cA ''ink2'')]]))))))"

definition seam_delta :: "int \<Rightarrow> pyval \<Rightarrow> drawing" where
  "seam_delta y r = bindE (getitem r ''delta'') (\<lambda>delta. Ret [dot_plot ''axR'' delta y ''s2''])"

definition seam_left :: "int list \<Rightarrow> pyval list \<Rightarrow> pyval \<Rightarrow> mcall list" where
  "seam_left ys names upper =
     [Call ''axL'' ''set_yticks'' [Lst (map iA ys)] [],
      Call ''axL'' ''set_yticklabels'' [Lst (map V names)] [(''fontsize'', fA (82/10)), (''color'', cA ''ink2'')],
      Call ''axL'' ''tick_params'' [] [(''axis'', sA ''y''), (''length'', iA 0)],
      Call ''axL'' ''set_xlim'' [fA (40/100), fA (82/100)] [],
      Call ''axL'' ''set_ylim'' [fA (- 145/100), V upper] [],
      Call ''axL'' ''set_xlabel'' [sA seam_xlabel] [(''fontsize'', fA (82/10)), (''color'', cA ''ink2'')],
      Call ''fig'' ''legend'' []
        [(''handles'', Lst
           (map (\<lambda>(c, label). New ''Line2D'' [Lst [], Lst []]
              [(''marker'', sA ''o''), (''ls'', sA ''none''), (''ms'', iA 7), (''color'', cA c), (''label'', sA label)])
            [(''s3'', ''in-core twin''), (''s2'', ''through the C ABI seam'')])),
         (''loc'', sA ''lower left''), (''bbox_to_anchor'', Tup [fA (85/1000), fA (735/1000)]),
         (''frameon'', bA False), (''fontsize'', iA 8), (''ncol'', iA 2)]]"

definition seam_lines :: "pyval \<Rightarrow> pyval \<Rightarrow> string \<Rightarrow> string \<Rightarrow> pyval \<Rightarrow> mcall list" where
  "seam_lines median roof median_text roof_text y_median =
     [Call ''axR'' ''axvline'' [V median]
        [(''color'', cA ''ink2''), (''lw'', fA 1), (''ls'', Tup [iA 0, Tup [iA 4, iA 2]]), (''zorder'', iA 2)],
      Call ''axR'' ''axvline'' [V roof] [(''color'', cA ''critical''), (''lw'', fA (14/10)), (''zorder'', iA 2)],
      Call ''axR'' ''annotate'' [sA (''median'' @ nl @ median_text)]
        [(''xy'', Tup [V median, V y_median]), (''xytext'', Tup [iA (- 5), iA 0]), offset_points, (''ha'', sA ''right''),
         (''va'', sA ''top''), (''fontsize'', fA (78/10)), (''color'', cA ''ink2'')],
      Call ''axR'' ''annotate''
        [sA (''quote this: '' @ roof_text @ '' ms '' @ em_dash @ '' a ceiling, not a point estimate'')]
        [(''xy'', Tup [V roof, fA (- 102/100)]), (''xytext'', Tup [iA (- 5), iA 0]), offset_points,
         (''ha'', sA ''right''), (''va'', sA ''center''), (''fontsize'', fA (78/10)), (''fontweight'', sA ''bold''),
         (''color'', cA ''critical'')]]"

definition seam_right :: "pyval \<Rightarrow> mcall list" where
  "seam_right upper =
     [Call ''axR'' ''set_yticks'' [Lst []] [],
      Call ''axR'' ''set_xlim'' [fA (232/1000), fA (3045/10000)] [],
      Call ''axR'' ''set_ylim'' [fA (- 145/100), V upper] [],
      Call ''axR'' ''set_xticks'' [Lst (map fA [24/100, 26/100, 28/100, 30/100])] [],
      Call ''axR'' ''set_xlabel'' [sA seam_delta_xlabel] [(''fontsize'', fA (82/10)), (''color'', cA ''ink2'')]]"

definition fig_seam :: "pyval \<Rightarrow> string \<Rightarrow> drawing" where
  "fig_seam d out =
     bindE (getitem d ''seam'') (\<lambda>s. bindE (getitem s ''runs'') (\<lambda>runs. bindE (py_len runs) (\<lambda>n.
     bindE (py_iter runs) (\<lambda>rs. bindE (forD (\<lambda>(y, r). seam_ends y r) (zip (descending n) rs)) (\<lambda>ends.
     bindE (mapE (\<lambda>r. getitem r ''run'') rs) (\<lambda>names.
     bindE (py_sub (PInt n) (PFloat (of_lit (25/100)))) (\<lambda>upper.
     bindE (forD (\<lambda>(y, r). seam_delta y r) (zip (descending n) rs)) (\<lambda>deltas.
     bindE (getitem s ''median'') (\<lambda>median. bindE (getitem s ''ceiling'') (\<lambda>roof.
     bindE (signed4 median) (\<lambda>median_text. bindE (py_sub (PInt n) (PFloat (of_lit (30/100)))) (\<lambda>y_median.
     bindE (signed4 roof) (\<lambda>roof_text.
       Ret ([new_figure (106/10) (38/10),
             new_axes ''axL'' [85/1000, 235/1000, 44/100, 46/100] [],
             new_axes ''axR'' [625/1000, 235/1000, 30/100, 46/100] []] @
            concat (map (\<lambda>ax. style_axis ax True False) [''axL'', ''axR'']) @
            ends @ seam_left (descending n) names upper @
            deltas @ seam_lines median roof median_text roof_text y_median @ seam_right upper @
            title_block seam_title seam_subtitle seam_footnote title_x title_y (of_lit (30/1000)) @
            save_figure out))))))))))))))"

section \<open>The python-bridge rate\<close>

definition bridge_title :: string where
  "bridge_title =
     ''The python-bridge is starved by a one-flag contract mismatch, not by its '' @
     ''architecture''"

definition bridge_subtitle :: string where
  "bridge_subtitle =
     ''Same architecture, same CARLA, same container '' @ em_dash @
     '' the difference is the two registered patches. The pooled medians differ by '' @
     approx_sign @ ''45'' @ times_sign @ '' and the'' @ nl @
     ''ranges do not overlap. No paired design exists between the arms, so no per-run '' @
     ''recovery factor is computable: this is not a 45'' @ times_sign @ '' speed-up claim.''"

definition bridge_footnote :: string where
  "bridge_footnote =
     ''Sources: report.md '' @ section_sign @ ''4.2, '' @ section_sign @
     ''4.3. The as-shipped figures are optimistically biased '' @ em_dash @
     '' 3 of the 4 excluded runs were the cell'' @ squote @ ''s worst, and the bias'' @ nl @
     ''is not estimable from the surviving pool. The cause is a two-sided contract '' @
     ''mismatch: the bridge publishes is_dense=False, a valid'' @ nl @
     ''PointCloud2 value, and Autoware'' @ squote @
     ''s crop_box_filter_self rejects every cloud carrying it.''"

definition reference_line :: "pyval \<Rightarrow> drawing" where
  "reference_line ref =
     bindE (getitem ref ''value'') (\<lambda>value. bindE (getitem ref ''label'') (\<lambda>label.
     bindE (getitem ref ''stagger'') (\<lambda>stagger. bindE (py_mul (PInt 13) stagger) (\<lambda>step.
     bindE (py_add (PInt 6) step) (\<lambda>rise.
       Ret [Call ''ax'' ''axvline'' [V value]
              [(''color'', cA ''axis''), (''lw'', fA 1), (''ls'', Tup [iA 0, Tup [iA 3, iA 3]]), (''zorder'', iA 1)],
            Call ''ax'' ''annotate'' [V label]
              [(''xy'', Tup [V value, fA 1]), (''xycoords'', Tup [sA ''data'', sA ''axes fraction'']),
               (''xytext'', Tup [iA 0, V rise]), offset_points,
               (''ha'', sA (if truthy stagger then ''right'' else ''center'')), (''va'', sA ''bottom''),
               (''fontsize'', fA (74/10)), (''color'', cA ''muted'')]])))))"

definition range_text :: "pyval \<Rightarrow> pyval \<Rightarrow> pyval \<Rightarrow> string res" where
  "range_text lo hi median =
     bindE (format_value fmt_g lo) (\<lambda>l. bindE (format_value fmt_g hi) (\<lambda>h. bindE (format_value fmt_g median) (\<lambda>m.
       Ret (l @ '' '' @ en_dash @ '' '' @ h @ '' Hz    pooled median '' @ m @ '' Hz''))))"

definition bridge_arm :: "int \<Rightarrow> pyval \<Rightarrow> drawing" where
  "bridge_arm y arm =
     bindE (getitem arm ''key'') (\<lambda>key.
     let color = (if py_eq key (PStr ''e0'') then cA ''critical'' else cA ''s3'')
     in bindE (getitem arm ''lo'') (\<lambda>lo. bindE (getitem arm ''hi'') (\<lambda>hi. bindE (getitem arm ''median'') (\<lambda>median.
        bindE (range_text lo hi median) (\<lambda>shown. bindE (two_labels (- 12/1000) (11/100) (16/100) y arm) (\<lambda>labels.
          Ret ([Call ''ax'' ''plot'' [Lst [V lo, V hi], Lst [iA y, iA y]]
                  [(''color'', color), (''lw'', iA 9), (''solid_capstyle'', sA ''butt''), (''alpha'', fA (30/100)),
                   (''zorder'', iA 2)],
                Call ''ax'' ''plot'' [Lst [V lo, V hi], Lst [iA y, iA y]]
                  [(''color'', color), (''lw'', fA (14/10)), (''zorder'', iA 3)],
                Call ''ax'' ''plot'' [Lst [V median], Lst [iA y], sA ''o'']
                  [(''ms'', iA 8), (''mfc'', color), (''mec'', cA ''surface''), (''mew'', fA (14/10)), (''zorder'', iA 4)],
                Call ''ax'' ''annotate'' [sA shown]
                  [(''xy'', Tup [V lo, iA y]), (''xytext'', Tup [iA 0, iA 13]), offset_points, (''ha'', sA ''left''),
                   (''va'', sA ''bottom''), (''fontsize'', fA (82/10)), (''color'', cA ''ink'')]] @ labels)))))))"

definition bridge_limits :: "mcall list" where
  "bridge_limits =
     [Call ''ax'' ''set_xlim'' [fA (5/100), iA 26] [],
      Call ''ax'' ''set_ylim'' [fA (- 7/10), fA (17/10)] [],
      Call ''ax'' ''set_yticks'' [Lst []] [],
      Call ''ax'' ''set_xticks'' [Lst [fA (1/10), iA 1, iA 10]] [],
      Call ''ax'' ''set_xticklabels'' [Lst [sA ''0.1'', sA ''1'', sA ''10'']] [],
      Call ''ax'' ''minorticks_off'' [] [],
      Call ''ax'' ''set_xlabel'' [sA ''NDT pose rate (Hz, log scale)''] [(''fontsize'', fA (84/10)), (''color'', cA ''ink2'')]]"

definition fig_bridge :: "pyval \<Rightarrow> string \<Rightarrow> drawing" where
  "fig_bridge d out =
     bindE (getitem d ''bridge_ndt'') (\<lambda>b. bindE (getitem b ''references'') (\<lambda>refs. bindE (py_iter refs) (\<lambda>rs.
     bindE (forD reference_line rs) (\<lambda>lines. bindE (getitem b ''arms'') (\<lambda>arms. bindE (py_iter arms) (\<lambda>as.
     bindE (forD (\<lambda>(y, arm). bridge_arm y arm) (zip [1, 0] as)) (\<lambda>drawn.
       Ret ([new_figure (106/10) (34/10), new_axes ''ax'' [315/1000, 315/1000, 505/1000, 345/1000] []] @
            style_axis ''ax'' True False @ [Call ''ax'' ''set_xscale'' [sA ''log''] []] @
            lines @ drawn @ bridge_limits @
            title_block bridge_title bridge_subtitle bridge_footnote title_x title_y (of_lit (20/1000)) @
            save_figure out))))))))"

section \<open>Every condition is drawn and named\<close>

lemma cpu_row_Inr:
  assumes "cpu_row y r = Inr cs"
  obtains s color words lo hi delta shown label above where
    "getitem r ''verdict'' = Inr (PStr s)" "map_of VERDICT_COLOR s = Some color"
    "map_of VERDICT_TEXT s = Some words" "bindE (getitem r ''ci'') py_iter = Inr [lo, hi]"
    "getitem r ''delta'' = Inr delta" "signed_pp delta = Inr shown" "getitem r ''label'' = Inr label"
    "{interval_plot lo hi y color, point_plot delta y color, delta_note shown delta y,
      row_label (- 12/1000) label above, verdict_note words y} \<subseteq> set cs"
proof -
  obtain verdict color ci lo hi delta shown labels words where steps:
    "getitem r ''verdict'' = Inr verdict" "lookup_const VERDICT_COLOR verdict = Inr color"
    "getitem r ''ci'' = Inr ci" "py_iter ci = Inr [lo, hi]"
    "getitem r ''delta'' = Inr delta" "signed_pp delta = Inr shown"
    "two_labels (- 12/1000) (10/100) (20/100) y r = Inr labels" "lookup_const VERDICT_TEXT verdict = Inr words"
    "Inr ([interval_plot lo hi y color, point_plot delta y color, delta_note shown delta y] @ labels @
          [verdict_note words y]) = (Inr cs :: drawing)"
    using assms unfolding cpu_row_def
    by (elim bindE_InrE unpack2_InrE) (simp only: prod.case, elim bindE_InrE, rule that; assumption)
  from steps(2,8) obtain s where s: "verdict = PStr s" "map_of VERDICT_COLOR s = Some color"
    "map_of VERDICT_TEXT s = Some words" by (auto simp: lookup_const_Inr)
  from steps(7) obtain label above sublabel below where l: "getitem r ''label'' = Inr label"
    "labels = [row_label (- 12/1000) label above, row_sublabel (- 12/1000) sublabel below]"
    unfolding two_labels_def bindE_Inr_iff by blast
  have ci: "bindE (getitem r ''ci'') py_iter = Inr [lo, hi]" using steps(3,4) by simp
  have drawn: "{interval_plot lo hi y color, point_plot delta y color, delta_note shown delta y,
      row_label (- 12/1000) label above, verdict_note words y} \<subseteq> set cs"
    using steps(9) l(2) by auto
  from that [OF steps(1) [unfolded s(1)] s(2,3) ci steps(5,6) l(1) drawn] show thesis .
qed

lemma forD_zip_draws:
  assumes "forD (\<lambda>(y, r). f y r) (zip ys rs) = Inr cs" and "i < length ys" "i < length rs"
  obtains c where "f (ys ! i) (rs ! i) = Inr c" "set c \<subseteq> set cs"
proof -
  have "(ys ! i, rs ! i) \<in> set (zip ys rs)" using assms(2,3) by (auto simp: in_set_zip)
  from forD_draws [OF assms(1) this] that show thesis by auto
qed

text \<open>Each measurement condition of the reversal figure stands at its own height, from the top down, with its
  interval, its point, the signed difference, its label and the words of its verdict.\<close>

theorem cpu_rows_labelled:
  assumes fig: "fig_cpu_reversal d out = Inr calls" and "getitem d ''cpu_reversal'' = Inr cr"
    and "getitem cr ''rows'' = Inr (PList rs)" and i: "i < length rs"
  shows "\<exists>y s color words lo hi delta shown label above. y = int (length rs) - 1 - int i \<and>
     getitem (rs ! i) ''verdict'' = Inr (PStr s) \<and> map_of VERDICT_COLOR s = Some color \<and>
     map_of VERDICT_TEXT s = Some words \<and> bindE (getitem (rs ! i) ''ci'') py_iter = Inr [lo, hi] \<and>
     getitem (rs ! i) ''delta'' = Inr delta \<and> signed_pp delta = Inr shown \<and>
     getitem (rs ! i) ''label'' = Inr label \<and>
     {interval_plot lo hi y color, point_plot delta y color, delta_note shown delta y,
      row_label (- 12/1000) label above, verdict_note words y} \<subseteq> set calls"
proof -
  from fig obtain cr' rows n rs' drawn where steps:
    "getitem d ''cpu_reversal'' = Inr cr'" "getitem cr' ''rows'' = Inr rows" "py_len rows = Inr n"
    "py_iter rows = Inr rs'" "forD (\<lambda>(y, r). cpu_row y r) (zip (descending n) rs') = Inr drawn"
    "set drawn \<subseteq> set calls"
    unfolding fig_cpu_reversal_def by (elim bindE_InrE) (rule that, assumption+, clarsimp)
  from steps(1-4) assms(2,3) have n: "n = int (length rs)" "rs' = rs" by (auto simp: py_len_def py_iter_def)
  have "i < length (descending n)" using n i by simp
  from forD_zip_draws [OF steps(5) this, unfolded n(2), OF i] obtain c where
    c: "cpu_row (descending n ! i) (rs ! i) = Inr c" "set c \<subseteq> set drawn" by blast
  have y: "descending n ! i = int (length rs) - 1 - int i" using n i by simp
  have sub: "set c \<subseteq> set calls" using c(2) steps(6) by (rule subset_trans)
  from cpu_row_Inr [OF c(1)] obtain s color words lo hi delta shown label above where r:
    "getitem (rs ! i) ''verdict'' = Inr (PStr s)" "map_of VERDICT_COLOR s = Some color"
    "map_of VERDICT_TEXT s = Some words" "bindE (getitem (rs ! i) ''ci'') py_iter = Inr [lo, hi]"
    "getitem (rs ! i) ''delta'' = Inr delta" "signed_pp delta = Inr shown"
    "getitem (rs ! i) ''label'' = Inr label"
    "{interval_plot lo hi (descending n ! i) color, point_plot delta (descending n ! i) color,
      delta_note shown delta (descending n ! i), row_label (- 12/1000) label above,
      verdict_note words (descending n ! i)} \<subseteq> set c" by metis
  from r(8) sub have "{interval_plot lo hi (descending n ! i) color, point_plot delta (descending n ! i) color,
      delta_note shown delta (descending n ! i), row_label (- 12/1000) label above,
      verdict_note words (descending n ! i)} \<subseteq> set calls" by (rule subset_trans)
  note conjI [OF y conjI [OF r(1) conjI [OF r(2) conjI [OF r(3) conjI [OF r(4) conjI [OF r(5) conjI [OF r(6)
    conjI [OF r(7) this]]]]]]]]
  then show ?thesis by (intro exI)
qed

section \<open>The checked-in data\<close>

lemmas figure_eval = value_eval arith_simps two_labels_def

lemma cpu_reversal_draws: "\<exists>calls. fig_cpu_reversal figures_yaml out = Inr calls"
  by (simp add: fig_cpu_reversal_def yaml_cpu_reversal_def yaml_cpu_reversal_rows_def cpu_row_def signed_pp_def
      VERDICT_COLOR_def VERDICT_TEXT_def figure_eval)

lemma seam_draws: "\<exists>calls. fig_seam figures_yaml out = Inr calls"
  by (simp add: fig_seam_def yaml_seam_def yaml_seam_runs_def seam_ends_def seam_delta_def signed4_def
      float_div_def figure_eval)

lemma bridge_draws: "\<exists>calls. fig_bridge figures_yaml out = Inr calls"
  by (simp add: fig_bridge_def yaml_bridge_ndt_def bridge_arm_def reference_line_def range_text_def Let_def figure_eval)

theorem cpu_rows_labelled_witness:
  "\<exists>calls lo hi. fig_cpu_reversal figures_yaml ''f.svg'' = Inr calls \<and>
     verdict_note ''extension better'' 2 \<in> set calls \<and> interval_plot lo hi 2 (C ''s1'') \<in> set calls"
proof -
  obtain calls where fig: "fig_cpu_reversal figures_yaml ''f.svg'' = Inr calls" using cpu_reversal_draws by blast
  have rows: "getitem yaml_cpu_reversal ''rows'' = Inr (PList yaml_cpu_reversal_rows)"
    by (simp add: yaml_cpu_reversal_def value_eval)
  have len: "0 < length yaml_cpu_reversal_rows" "length yaml_cpu_reversal_rows = 3"
    by (simp_all add: yaml_cpu_reversal_rows_def)
  have "getitem (yaml_cpu_reversal_rows ! 0) ''verdict'' = Inr (PStr ''a_better'')"
    by (simp add: yaml_cpu_reversal_rows_def value_eval)
  with cpu_rows_labelled [OF fig figures_yaml_sections(2) rows len(1)] len(2) fig show ?thesis
    by (auto simp: VERDICT_COLOR_def VERDICT_TEXT_def)
qed

end
