(* ===== verification/Fig_Bars.thy ===== *)
theory Fig_Bars
  imports Figures_Data Float_Ratio
begin

text \<open>
  Three figures of \<^verbatim>\<open>docs/evaluation/figures/make_figures.py\<close> made of bars: \<open>fig_fork_delta\<close> and
  \<open>fig_capability\<close> (stacked segments) and \<open>fig_governance\<close> (shares of a hundred and four tiles).

  The lemmas: the segments of a stacked bar follow each other with a gap and never overlap, a segment's
  label is the value it draws, and a share stays on its axis.
\<close>

section \<open>Fork delta\<close>

definition fork_title :: string where
  "fork_title =
     ''What each approach carries outside upstream CARLA''"

definition fork_subtitle :: string where
  "fork_subtitle =
     ''A dated snapshot over moving refs, not a regenerable number '' @ em_dash @
     '' endpoint SHAs are pinned in the report.''"

definition fork_footnote :: string where
  "fork_footnote =
     ''Source: report.md '' @ section_sign @
     ''3.5. The upstreaming ratios in the same section are deliberately NOT charted: '' @
     ''they are computed over different'' @ nl @
     ''populations, and the report states that no ordering between those cells is '' @
     ''supported.''"

definition kind_color :: "(string \<times> string) list" where
  "kind_color = [(''fork'', C ''s1''), (''repo'', C ''s2'')]"

definition zero_note :: "int \<Rightarrow> mcall" where
  "zero_note y =
     Call ''ax'' ''annotate'' [sA ''0'']
       [(''xy'', Tup [iA 0, iA y]), (''xytext'', Tup [iA 6, iA 0]), offset_points, (''va'', sA ''center''),
        (''fontsize'', fA (86/10)), (''fontweight'', sA ''bold''), (''color'', cA ''ink''), (''zorder'', iA 4)]"

definition segment_bar :: "string \<Rightarrow> int \<Rightarrow> pyval \<Rightarrow> pyval \<Rightarrow> rat \<Rightarrow> string \<Rightarrow> mcall" where
  "segment_bar ax y v left height color =
     Call ax ''barh'' [iA y, V v]
       [(''left'', V left), (''height'', fA height), (''color'', sA color), (''zorder'', iA 3), (''linewidth'', iA 0)]"

definition segment_note :: "bool \<Rightarrow> string \<Rightarrow> pyval \<Rightarrow> int \<Rightarrow> mcall" where
  "segment_note inside words x y =
     Call ''ax'' ''annotate'' [sA words]
       [(''xy'', Tup [V x, iA y]), (''xytext'', if inside then Tup [iA 0, iA 0] else Tup [iA 6, iA 0]), offset_points,
        (''ha'', sA (if inside then ''center'' else ''left'')), (''va'', sA ''center''), (''fontsize'', fA (86/10)),
        (''fontweight'', sA ''bold''), (''color'', if inside then cA ''surface'' else cA ''ink''), (''zorder'', iA 4)]"

text \<open>One segment: what it draws, and the left edge of the next one.\<close>

definition fork_segment :: "int \<Rightarrow> pyval \<Rightarrow> pyval \<Rightarrow> (pyval \<times> mcall list) res" where
  "fork_segment y left seg =
     bindE (getitem seg ''value'') (\<lambda>v.
       if py_eq v (PInt 0) then Ret (left, [zero_note y])
       else bindE (getitem seg ''kind'') (\<lambda>kind. bindE (lookup_const kind_color kind) (\<lambda>color.
         bindE (py_ge v (PInt 40)) (\<lambda>inside.
         bindE (if inside then bindE (py_div v (PInt 2)) (py_add left) else py_add left v) (\<lambda>x.
         bindE (py_add v (PInt 2)) (\<lambda>step. bindE (py_add left step) (\<lambda>left'.
           Ret (left', [segment_bar ''ax'' y v left (44/100) color, segment_note inside (py_str v) x y]))))))))"

text \<open>The segments of a row from the left edge on.\<close>

fun draw_stack :: "(pyval \<Rightarrow> 'a \<Rightarrow> (pyval \<times> mcall list) res) \<Rightarrow> pyval \<Rightarrow> 'a list \<Rightarrow> drawing" where
  "draw_stack f left [] = Ret []"
| "draw_stack f left (s # ss) =
     bindE (f left s) (\<lambda>(left', cs). bindE (draw_stack f left' ss) (\<lambda>cs'. Ret (cs @ cs')))"

definition fork_row :: "int \<Rightarrow> pyval \<Rightarrow> drawing" where
  "fork_row y r =
     bindE (getitem r ''segments'') (\<lambda>segments. bindE (py_iter segments) (\<lambda>ss.
     bindE (draw_stack (fork_segment y) (PFloat (of_lit 0)) ss) (\<lambda>bars.
     bindE (two_labels (- 14/1000) (13/100) (17/100) y r) (\<lambda>labels. Ret (bars @ labels)))))"

definition items_of :: "pyval \<Rightarrow> (string \<times> pyval) list res" where
  "items_of v = (case v of PDict d \<Rightarrow> Ret d | _ \<Rightarrow> Raise AttributeError ''items'')"

definition fork_legend :: "arg list \<Rightarrow> mcall" where
  "fork_legend patches =
     Call ''fig'' ''legend'' []
       [(''handles'', Lst patches), (''loc'', sA ''lower left''), (''bbox_to_anchor'', Tup [fA (245/1000), fA (705/1000)]),
        (''frameon'', bA False), (''fontsize'', iA 8), (''ncol'', iA 2), (''handlelength'', fA (12/10)),
        (''handleheight'', fA (9/10))]"

definition fig_fork_delta :: "pyval \<Rightarrow> string \<Rightarrow> drawing" where
  "fig_fork_delta d out =
     bindE (getitem d ''fork_delta'') (\<lambda>fd. bindE (getitem fd ''rows'') (\<lambda>rows. bindE (py_len rows) (\<lambda>n.
     bindE (py_iter rows) (\<lambda>rs. bindE (forD (\<lambda>(y, r). fork_row y r) (zip (descending n) rs)) (\<lambda>drawn.
     bindE (py_sub (PInt n) (PFloat (of_lit (4/10)))) (\<lambda>upper.
     bindE (getitem fd ''segment_labels'') (\<lambda>labels. bindE (items_of labels) (\<lambda>items.
     bindE (mapE (\<lambda>(k, v). bindE (lookup_const kind_color (PStr k)) (\<lambda>color.
        Ret (New ''Patch'' [] [(''fc'', sA color), (''label'', V v)]))) items) (\<lambda>patches.
       Ret ([new_figure (106/10) (31/10), new_axes ''ax'' [245/1000, 315/1000, 545/1000, 365/1000] []] @
            style_axis ''ax'' True False @ drawn @
            [Call ''ax'' ''set_xlim'' [iA 0, iA 330] [],
             Call ''ax'' ''set_ylim'' [fA (- 6/10), V upper] [],
             Call ''ax'' ''set_yticks'' [Lst []] [],
             Call ''ax'' ''set_xlabel'' [sA ''commits carried outside upstream CARLA'']
               [(''fontsize'', fA (84/10)), (''color'', cA ''ink2'')],
             fork_legend patches] @
            title_block fork_title fork_subtitle fork_footnote title_x title_y (of_lit (30/1000)) @
            save_figure out))))))))))"

section \<open>The capability catalog\<close>

definition cap_effort_note :: string where
  "cap_effort_note =
     ''effort class per entry '' @ em_dash @ '' the REMAINING delta from the extension'' @
     squote @ ''s side, never cumulative''"

definition cap_unpriced_note :: string where
  "cap_unpriced_note =
     '' entries depend on artifacts'' @ nl @ ''that exist in neither tree '' @ em_dash @
     '' their'' @ nl @ ''cost is a lower bound, not a'' @ nl @ ''reachability class''"

definition cap_title :: string where
  "cap_title =
     ''The capability roadmap: 53 entries, and where the work actually sits''"

definition cap_subtitle :: string where
  "cap_subtitle =
     ''Code reading at pinned SHAs '' @ em_dash @
     '' no running stack, no runtime measurement backs any verdict in it. The '' @
     ''side-branch half skews far harder'' @ nl @
     ''toward CARLA-core seam work (18 of 25, against 13 of 28 on main); that '' @
     ''statistic received no second pass and no inter-rater check.''"

definition cap_footnote :: string where
  "cap_footnote =
     ''Source: gap-catalog.md, summarized report.md '' @ section_sign @
     ''5. A class is the remaining delta from this repository'' @ squote @
     ''s side, not the size of tier4'' @ squote @ ''s'' @ nl @ ''original change '' @ em_dash @
     '' '' @ dquote @ ''89 % of tier4'' @ squote @
     ''s merged integration work is a small lift'' @ dquote @ '' is NOT what this figure says.''"

definition cls_colors :: "string list" where
  "cls_colors = [C ''s3'', C ''s1'', C ''s2'', C ''s4'']"

definition eff_colors :: "string list" where
  "eff_colors = [C ''s1'', C ''s2'', C ''s4'']"

text \<open>The edge of the next segment, \<open>left + (v + 0.35)\<close>, and the middle of this one, \<open>left + v / 2\<close>.\<close>

definition next_left :: "pyval \<Rightarrow> pyval \<Rightarrow> pyval res" where
  "next_left left v = bindE (py_add v (PFloat (of_lit (35/100)))) (py_add left)"

definition middle :: "pyval \<Rightarrow> pyval \<Rightarrow> pyval res" where
  "middle left v = bindE (py_div v (PInt 2)) (py_add left)"

definition stack_note :: "string \<Rightarrow> string \<Rightarrow> pyval \<Rightarrow> int \<Rightarrow> rat \<Rightarrow> bool \<Rightarrow> mcall" where
  "stack_note ax words x y points dark =
     Call ax ''annotate'' [sA words]
       [(''xy'', Tup [V x, iA y]), (''ha'', sA ''center''), (''va'', sA ''center''), (''fontsize'', fA points),
        (''fontweight'', sA ''bold''), (''color'', if dark then cA ''ink'' else cA ''surface''), (''zorder'', iA 4)]"

definition class_segment :: "string \<Rightarrow> int \<Rightarrow> pyval \<Rightarrow> nat \<times> pyval \<Rightarrow> (pyval \<times> mcall list) res" where
  "class_segment key y left icl =
     (case icl of (i, cl) \<Rightarrow>
        bindE (getitem cl key) (\<lambda>v. bindE (index_list cls_colors (int i)) (\<lambda>color.
        bindE (middle left v) (\<lambda>x. bindE (next_left left v) (\<lambda>left'.
          Ret (left', [segment_bar ''axT'' y v left (46/100) color,
                       stack_note ''axT'' (py_str v) x y (84/10) (i = 3)]))))))"

definition stack_label :: "string \<Rightarrow> arg \<Rightarrow> int \<Rightarrow> mcall" where
  "stack_label ax words y =
     Call ax ''annotate'' [words]
       [(''xy'', Tup [fA (- 12/1000), iA y]), gutter, (''ha'', sA ''right''), (''va'', sA ''center''),
        (''fontsize'', fA (88/10)), (''fontweight'', sA ''bold''), (''color'', cA ''ink'')]"

definition class_row :: "pyval \<Rightarrow> int \<times> string \<times> string \<Rightarrow> drawing" where
  "class_row classes ykl =
     (case ykl of (y, key, label) \<Rightarrow>
        bindE (py_iter classes) (\<lambda>cls.
        bindE (draw_stack (class_segment key y) (PFloat (of_lit 0)) (enumerate 0 cls)) (\<lambda>bars.
        bindE (mapE (\<lambda>cl. getitem cl key) cls) (\<lambda>vs. bindE (py_sum vs) (\<lambda>total.
          Ret (bars @ [stack_label ''axT'' (sA (label @ ''  ('' @ py_str total @ '')'')) y]))))))"

definition effort_segment :: "pyval \<Rightarrow> int \<Rightarrow> pyval \<Rightarrow> nat \<times> string \<Rightarrow> (pyval \<times> mcall list) res" where
  "effort_segment row y left ik =
     (case ik of (i, k) \<Rightarrow>
        bindE (getitem row k) (\<lambda>v.
          if \<not> truthy v then Ret (left, [])
          else bindE (index_list eff_colors (int i)) (\<lambda>color. bindE (middle left v) (\<lambda>x.
            bindE (next_left left v) (\<lambda>left'.
              Ret (left', [segment_bar ''axB'' y v left (46/100) color,
                stack_note ''axB'' (py_str v @ '' '' @ times_sign @ '' '' @ k) x y 8 (i = 2)]))))))"

definition effort_row :: "int \<Rightarrow> pyval \<Rightarrow> drawing" where
  "effort_row y row =
     bindE (draw_stack (effort_segment row y) (PFloat (of_lit 0)) (enumerate 0 [''S'', ''M'', ''L''])) (\<lambda>bars.
     bindE (getitem row ''label'') (\<lambda>label. Ret (bars @ [stack_label ''axB'' (V label) y])))"

definition stack_limits :: "string \<Rightarrow> mcall list" where
  "stack_limits ax =
     [Call ax ''set_xlim'' [iA 0, iA 29] [], Call ax ''set_ylim'' [fA (- 55/100), fA (155/100)] [],
      Call ax ''set_yticks'' [Lst []] [], Call ax ''set_xticks'' [Lst []] [],
      Call (ax @ ''.spines.bottom'') ''set_visible'' [bA False] [], Call (ax @ ''.xaxis'') ''grid'' [bA False] []]"

definition cap_legend :: "arg list \<Rightarrow> mcall" where
  "cap_legend patches =
     Call ''fig'' ''legend'' []
       [(''handles'', Lst patches), (''loc'', sA ''lower left''), (''bbox_to_anchor'', Tup [fA (185/1000), fA (748/1000)]),
        (''frameon'', bA False), (''fontsize'', iA 8), (''ncol'', iA 2), (''handlelength'', fA (12/10)),
        (''handleheight'', fA (9/10)), (''columnspacing'', fA (16/10))]"

definition class_patch :: "nat \<times> pyval \<Rightarrow> arg res" where
  "class_patch icl =
     (case icl of (i, cl) \<Rightarrow>
        bindE (index_list cls_colors (int i)) (\<lambda>color. bindE (getitem cl ''label'') (\<lambda>label.
          Ret (New ''Patch'' [] [(''fc'', sA color), (''label'', V label)]))))"

definition side_note :: "rat \<Rightarrow> string \<Rightarrow> mcall" where
  "side_note y words =
     Call ''fig'' ''text'' [fA (787/1000), fA y, sA words]
       [(''fontsize'', fA (78/10)), (''va'', sA ''top''), (''color'', cA ''ink2'')]"

definition fig_capability :: "pyval \<Rightarrow> string \<Rightarrow> drawing" where
  "fig_capability d out =
     bindE (getitem d ''capability'') (\<lambda>cap. bindE (getitem cap ''classes'') (\<lambda>classes.
     bindE (getitem cap ''effort'') (\<lambda>effort.
     bindE (forD (class_row classes) [(1, ''main'', ''integration branch''), (0, ''side'', ''side branches'')]) (\<lambda>upper.
     bindE (py_iter classes) (\<lambda>cls. bindE (mapE class_patch (enumerate 0 cls)) (\<lambda>patches.
     bindE (py_iter effort) (\<lambda>es. bindE (forD (\<lambda>(y, row). effort_row y row) (zip [1, 0] es)) (\<lambda>lower.
     bindE (getitem cap ''unpriced'') (\<lambda>unpriced. bindE (getitem cap ''second_pass_scope'') (\<lambda>scope.
       Ret ([new_figure (106/10) (37/10),
             new_axes ''axT'' [185/1000, 590/1000, 585/1000, 155/1000] [],
             new_axes ''axB'' [185/1000, 260/1000, 585/1000, 155/1000] []] @
            concat (map (\<lambda>ax. style_axis ax True False) [''axT'', ''axB'']) @
            upper @ stack_limits ''axT'' @ [cap_legend patches] @
            lower @ stack_limits ''axB'' @
            [Call ''fig'' ''text'' [fA (185/1000), fA (470/1000), sA cap_effort_note]
               [(''fontsize'', fA (84/10)), (''color'', cA ''ink2'')],
             side_note (745/1000) (py_str unpriced @ cap_unpriced_note),
             side_note (415/1000)
               (''the adversarial re-argument covered'' @ nl @ ''the '' @ py_str scope @
                '' already-exists verdicts only;'' @ nl @ ''the other 39 had one pass each'')] @
            title_block cap_title cap_subtitle cap_footnote title_x title_y (of_lit (20/1000)) @
            save_figure out)))))))))))"

section \<open>Governance\<close>

definition gov_bus_factor :: string where
  "gov_bus_factor =
     ''Bus factor does NOT separate the two natives''"

definition gov_record :: string where
  "gov_record =
     ''The review record does''"

definition gov_title :: string where
  "gov_title =
     ''Where this proposal is weakest '' @ em_dash @ '' and it is not the bus factor''"

definition gov_subtitle :: string where
  "gov_subtitle =
     ''The extension'' @ squote @ ''s required fork and tier4-native'' @ squote @
     ''s branch show the SAME 52 % top-2 concentration. The extension separates on '' @
     ''review:'' @ nl @
     ''no external reviewer has ever reviewed a PR in this repository, and no human '' @
     ''approval is required on main.''"

definition gov_footnote :: string where
  "gov_footnote =
     ''Sources: report.md '' @ section_sign @ ''3.5; rubric.md criteria 1 and 6. tier4-native'' @
     squote @ ''s branch has no GitHub-side approval gate either '' @ em_dash @
     '' but an internal'' @ nl @
     ''review process would not be visible to this snapshot, and the absence of a '' @
     ''ruleset is not the absence of governance.''"

text \<open>\<open>pct = 100.0 * r["top2"] / r["total"]\<close>.\<close>

definition share :: "pyval \<Rightarrow> pyval res" where
  "share r =
     bindE (getitem r ''top2'') (\<lambda>top2. bindE (py_mul (PFloat (of_lit 100)) top2) (\<lambda>hundred.
     bindE (getitem r ''total'') (py_div hundred)))"

definition share_bar :: "pyval \<Rightarrow> int \<Rightarrow> mcall" where
  "share_bar pct y =
     Call ''ax'' ''barh'' [iA y, V pct]
       [(''height'', fA (46/100)), (''color'', cA ''s1''), (''zorder'', iA 3), (''linewidth'', iA 0)]"

definition share_row :: "int \<Rightarrow> pyval \<Rightarrow> drawing" where
  "share_row y r =
     bindE (share r) (\<lambda>pct. bindE (format_value (fmt_fixed 0) pct) (\<lambda>shown.
     bindE (getitem r ''top2'') (\<lambda>top2. bindE (getitem r ''total'') (\<lambda>total. bindE (getitem r ''label'') (\<lambda>label.
       Ret [share_bar pct y,
            Call ''ax'' ''annotate'' [sA (shown @ '' %   ('' @ py_str top2 @ ''/'' @ py_str total @ '')'')]
              [(''xy'', Tup [V pct, iA y]), (''xytext'', Tup [iA 6, iA 0]), offset_points, (''va'', sA ''center''),
               (''fontsize'', fA (84/10)), (''fontweight'', sA ''bold''), (''color'', cA ''ink'')],
            Call ''ax'' ''annotate'' [V label]
              [(''xy'', Tup [fA (- 15/1000), iA y]), gutter, (''ha'', sA ''right''), (''va'', sA ''center''),
               (''fontsize'', fA (84/10)), (''color'', cA ''ink2'')]])))))"

definition heading :: "rat \<Rightarrow> rat \<Rightarrow> string \<Rightarrow> mcall" where
  "heading x y words =
     Call ''fig'' ''text'' [fA x, fA y, sA words]
       [(''fontsize'', iA 9), (''fontweight'', sA ''bold''), (''color'', cA ''ink'')]"

definition share_limits :: "pyval \<Rightarrow> mcall list" where
  "share_limits upper =
     [Call ''ax'' ''set_xlim'' [iA 0, iA 100] [],
      Call ''ax'' ''set_ylim'' [fA (- 6/10), V upper] [],
      Call ''ax'' ''set_yticks'' [Lst []] [],
      Call ''ax'' ''set_xticks'' [Lst (map iA [0, 25, 50, 75, 100])] [],
      Call ''ax'' ''set_xlabel'' [sA ''share of commits by the top 2 authors'']
        [(''fontsize'', fA (82/10)), (''color'', cA ''ink2'')],
      heading (245/1000) (745/1000) gov_bus_factor,
      heading (62/1000) (355/1000) gov_record]"

definition tiles :: "pyval \<Rightarrow> pyval \<Rightarrow> (string \<times> string \<times> string) list res" where
  "tiles rec mnt =
     bindE (getitem rec ''external_reviewers'') (\<lambda>reviewers. bindE (getitem rec ''prs_opened'') (\<lambda>prs.
     bindE (getitem rec ''self_reviews'') (\<lambda>selfs. bindE (getitem rec ''commits'') (\<lambda>commits.
     bindE (getitem rec ''commit_authors'') (\<lambda>authors. bindE (getitem mnt ''extension'') (\<lambda>ours.
     bindE (getitem mnt ''python_bridge'') (\<lambda>theirs.
       Ret [(py_str reviewers, ''external reviewers ever,'' @ nl @ ''across '' @ py_str prs @ '' PRs'', C ''critical''),
            (py_str selfs, ''self-reviews '' @ em_dash @ '' the only'' @ nl @ ''reviews ever recorded'', C ''ink''),
            (py_str commits @ ''/'' @ py_str commits,
             ''commits in this repo by'' @ nl @ py_str authors @ '' author'', C ''ink''),
            (py_str ours @ '' vs '' @ py_str theirs,
             ''named maintainers,'' @ nl @ ''extension vs python-bridge'', C ''ink'')])))))))"

definition draw_tile :: "nat \<times> string \<times> string \<times> string \<Rightarrow> mcall list" where
  "draw_tile t =
     (case t of (i, value, label, color) \<Rightarrow>
        let x = V (PFloat (of_lit (62/1000) + Fin (of_nat i) * of_lit (238/1000)))
        in [Call ''fig'' ''text'' [x, fA (245/1000), sA value]
              [(''fontsize'', iA 21), (''fontweight'', sA ''bold''), (''color'', sA color), (''va'', sA ''center''),
               (''ha'', sA ''left'')],
            Call ''fig'' ''text'' [x, fA (150/1000), sA label]
              [(''fontsize'', fA (78/10)), (''color'', cA ''ink2''), (''va'', sA ''center''), (''ha'', sA ''left'')]])"

definition fig_governance :: "pyval \<Rightarrow> string \<Rightarrow> drawing" where
  "fig_governance d out =
     bindE (getitem d ''governance'') (\<lambda>g. bindE (getitem g ''concentration'') (\<lambda>conc.
     bindE (getitem g ''review_record'') (\<lambda>rec. bindE (py_len conc) (\<lambda>n. bindE (py_iter conc) (\<lambda>rs.
     bindE (forD (\<lambda>(y, r). share_row y r) (zip (descending n) rs)) (\<lambda>drawn.
     bindE (py_sub (PInt n) (PFloat (of_lit (4/10)))) (\<lambda>upper.
     bindE (getitem g ''maintainers'') (\<lambda>mnt. bindE (tiles rec mnt) (\<lambda>ts.
       Ret ([new_figure (106/10) (44/10), new_axes ''ax'' [245/1000, 505/1000, 50/100, 215/1000] []] @
            style_axis ''ax'' True False @ drawn @ share_limits upper @
            concat (map draw_tile (enumerate 0 ts)) @
            title_block gov_title gov_subtitle gov_footnote title_x title_y (of_lit (20/1000)) @
            save_figure out))))))))))"

section \<open>Stacked bars\<close>

text \<open>The bars among a list of calls: left edge and width.\<close>

definition bar_of :: "mcall \<Rightarrow> (pyval \<times> pyval) list" where
  "bar_of c =
     (case c of
        Call ax m [y, V v] ((k, V left) # kws) \<Rightarrow> if m = ''barh'' \<and> k = ''left'' then [(left, v)] else []
      | _ \<Rightarrow> [])"

definition bars :: "mcall list \<Rightarrow> (pyval \<times> pyval) list" where
  "bars cs = concat (map bar_of cs)"

lemma bars_append [simp]: "bars (cs @ cs') = bars cs @ bars cs'"
  by (simp add: bars_def)

lemma bars_simps [simp]:
  "bars [] = []"
  "bars (c # cs) = bar_of c @ bars cs"
  "bar_of (segment_bar ax y v left h color) = [(left, v)]"
  "bar_of (zero_note y) = []" "bar_of (segment_note inside words x y) = []"
  "bar_of (stack_note ax words x y points dark) = []" "bar_of (stack_label ax label y) = []"
  "bar_of (row_label left_of v w) = []" "bar_of (row_sublabel left_of v w) = []"
  by (simp_all add: bars_def bar_of_def segment_bar_def zero_note_def segment_note_def stack_note_def
      stack_label_def row_label_def row_sublabel_def)

text \<open>One bar ends at least \<open>gap\<close> before the other begins.\<close>

definition clear_of :: "rat \<Rightarrow> pyval \<times> pyval \<Rightarrow> pyval \<times> pyval \<Rightarrow> bool" where
  "clear_of gap b b' \<longleftrightarrow>
     (\<exists>q n q'. b = (PFloat (Fin q), PInt n) \<and> fst b' = PFloat (Fin q') \<and> q + of_int n + gap \<le> q')"

text \<open>The contract of a stacking step: a value it draws takes a bar of that width at the running edge and
  moves the edge past it, a value it skips leaves the edge.\<close>

locale stacked_bars =
  fixes step :: "pyval \<Rightarrow> 'a \<Rightarrow> (pyval \<times> mcall list) res"
    and width :: "'a \<Rightarrow> pyval res"
    and drawn :: "int \<Rightarrow> bool"
    and edge :: "rat \<Rightarrow> bool"
    and gap :: rat
  assumes gap_pos: "0 \<le> gap"
    and skipped: "width s = Inr (PInt w) \<Longrightarrow> \<not> drawn w \<Longrightarrow> step left s = Inr (left', cs) \<Longrightarrow>
      left' = left \<and> bars cs = []"
    and placed: "width s = Inr (PInt w) \<Longrightarrow> drawn w \<Longrightarrow> 0 \<le> w \<Longrightarrow> w \<le> 2 ^ 20 \<Longrightarrow> edge q \<Longrightarrow> 0 \<le> q \<Longrightarrow> q \<le> 2 ^ 30 \<Longrightarrow>
      step (PFloat (Fin q)) s = Inr (left', cs) \<Longrightarrow>
      bars cs = [(PFloat (Fin q), PInt w)] \<and>
      (\<exists>q'. left' = PFloat (Fin q') \<and> edge q' \<and> q + of_int w + gap \<le> q' \<and> q' \<le> q + of_int w + 3)"
begin

lemma stack_clear:
  assumes "draw_stack step (PFloat (Fin q)) ss = Inr cs" "edge q" "0 \<le> q"
    and "map width ss = map (\<lambda>n. Inr (PInt n)) ns" "\<forall>n \<in> set ns. 0 \<le> n \<and> n \<le> 2 ^ 20"
    and "q + (2 ^ 20 + 3) * of_nat (length ns) \<le> 2 ^ 30"
  shows "map snd (bars cs) = map PInt (filter drawn ns) \<and> sorted_wrt (clear_of gap) (bars cs) \<and>
    (\<forall>b \<in> set (bars cs). \<exists>q'. fst b = PFloat (Fin q') \<and> q \<le> q')"
  using assms
proof (induction ss arbitrary: q cs ns)
  case Nil
  then show ?case by simp
next
  case (Cons s ss)
  from Cons.prems(4) obtain n ns' where ns: "ns = n # ns'" by (cases ns) auto
  with Cons.prems(4,5) have n: "width s = Inr (PInt n)" "0 \<le> n" "n \<le> 2 ^ 20"
    "map width ss = map (\<lambda>n. Inr (PInt n)) ns'" "\<forall>n \<in> set ns'. 0 \<le> n \<and> n \<le> 2 ^ 20" by auto
  from Cons.prems(1) obtain left' cs1 cs2 where step: "step (PFloat (Fin q)) s = Inr (left', cs1)"
    and rest: "draw_stack step left' ss = Inr cs2" and cs: "cs = cs1 @ cs2"
    by (auto simp: bindE_Inr_iff)
  have room: "q + (2 ^ 20 + 3) + (2 ^ 20 + 3) * of_nat (length ns') \<le> 2 ^ 30"
    using Cons.prems(6) ns by (simp add: algebra_simps)
  have nat0: "(0::rat) \<le> (2 ^ 20 + 3) * of_nat (length ns')" by simp
  show ?case
  proof (cases "drawn n")
    case False
    from skipped [OF n(1) False step] have l: "left' = PFloat (Fin q)" "bars cs1 = []" by auto
    have "q + (2 ^ 20 + 3) * of_nat (length ns') \<le> 2 ^ 30"
      using room zero_le_power [of "2::rat" 20] by linarith
    from Cons.IH [OF rest [unfolded l] Cons.prems(2,3) n(4,5) this] show ?thesis
      using False by (simp add: cs ns l)
  next
    case True
    have "q \<le> 2 ^ 30" using room nat0 zero_le_power [of "2::rat" 20] by linarith
    from placed [OF n(1) True n(2,3) Cons.prems(2,3) this step] obtain q' where
      q': "bars cs1 = [(PFloat (Fin q), PInt n)]" "left' = PFloat (Fin q')" "edge q'"
      "q + of_int n + gap \<le> q'" "q' \<le> q + of_int n + 3" by blast
    have "(of_int n :: rat) \<le> of_int (2 ^ 20)" using n(3) by (simp only: of_int_le_iff)
    then have n20: "(of_int n :: rat) \<le> 2 ^ 20" by simp
    have n0: "(0 :: rat) \<le> of_int n" using n(2) by simp
    have le: "q \<le> q'" "0 \<le> q'" using q'(4) n0 gap_pos Cons.prems(3) by linarith+
    have "q' + (2 ^ 20 + 3) * of_nat (length ns') \<le> 2 ^ 30" using room q'(5) n20 by linarith
    from Cons.IH [OF rest [unfolded q'(2)] q'(3) le(2) n(4,5) this] have
      ih: "map snd (bars cs2) = map PInt (filter drawn ns')" "sorted_wrt (clear_of gap) (bars cs2)"
      "\<forall>b \<in> set (bars cs2). \<exists>z. fst b = PFloat (Fin z) \<and> q' \<le> z" by blast+
    have "clear_of gap (PFloat (Fin q), PInt n) b" if "b \<in> set (bars cs2)" for b
    proof -
      from ih(3) that obtain z where "fst b = PFloat (Fin z)" "q' \<le> z" by blast
      with q'(4) have "fst b = PFloat (Fin z) \<and> q + of_int n + gap \<le> z" by linarith
      then show ?thesis unfolding clear_of_def by blast
    qed
    moreover have "\<forall>b \<in> set (bars cs2). \<exists>z. fst b = PFloat (Fin z) \<and> q \<le> z"
      using ih(3) le(1) by (meson order_trans)
    ultimately show ?thesis using ih(1,2) True by (simp add: cs ns q'(1))
  qed
qed

end

section \<open>The segments of the fork delta\<close>

lemma fork_placed:
  assumes "getitem seg ''value'' = Inr (PInt n)" "n \<noteq> 0" "0 \<le> n" "n \<le> 2 ^ 20"
    and "q = of_int k" "0 \<le> q" "q \<le> 2 ^ 30"
    and "fork_segment y (PFloat (Fin q)) seg = Inr (left', cs)"
  shows "bars cs = [(PFloat (Fin q), PInt n)] \<and> left' = PFloat (Fin (q + of_int n + 2))"
proof -
  have k: "0 \<le> k" "k \<le> 2 ^ 30"
  proof -
    show "0 \<le> k" using assms(5,6) by simp
    have "(of_int k :: rat) \<le> of_int (2 ^ 30)" using assms(5,7) by simp
    then show "k \<le> 2 ^ 30" by (simp only: of_int_le_iff)
  qed
  have "Fin (of_int k) + Fin (of_int (n + 2)) = Fin (of_int (k + (n + 2)))"
    using k assms(3,4) by (intro add_ints) simp
  then have edge: "bindE (py_add (PInt n) (PInt 2)) (py_add (PFloat (Fin q))) = Inr (PFloat (Fin (q + of_int n + 2)))"
    using assms(3-5) by (simp add: arith_simps algebra_simps)
  from assms(8) obtain color inside x step where
    "bindE (py_add (PInt n) (PInt 2)) (py_add (PFloat (Fin q))) = Inr left'"
    "cs = [segment_bar ''ax'' y (PInt n) (PFloat (Fin q)) (44/100) color, segment_note inside (py_str (PInt n)) x y]"
    unfolding fork_segment_def assms(1)
    by (auto simp: value_eval assms(2) bindE_Inr_iff)
  with edge show ?thesis by simp
qed

interpretation fork: stacked_bars "fork_segment y" "\<lambda>seg. getitem seg ''value''" "\<lambda>n. n \<noteq> 0" "\<lambda>q. q \<in> \<int>" 2 for y
proof unfold_locales
  fix seg w left left' cs
  assume "getitem seg ''value'' = Inr (PInt w)" "\<not> w \<noteq> 0" "fork_segment y left seg = Inr (left', cs)"
  then show "left' = left \<and> bars cs = []" by (auto simp: fork_segment_def value_eval)
next
  fix seg w q left' cs
  assume a: "getitem seg ''value'' = Inr (PInt w)" "w \<noteq> 0" "0 \<le> w" "w \<le> 2 ^ 20" "q \<in> \<int>" "0 \<le> q" "q \<le> 2 ^ 30"
    "fork_segment y (PFloat (Fin q)) seg = Inr (left', cs)"
  from a(5) obtain k where k: "q = of_int k" by (auto elim: Ints_cases)
  from fork_placed [OF a(1-4) k a(6-8)] have
    "bars cs = [(PFloat (Fin q), PInt w)]" "left' = PFloat (Fin (q + of_int w + 2))" by auto
  moreover have "q + of_int w + 2 \<in> \<int>" using a(5) by simp
  ultimately show "bars cs = [(PFloat (Fin q), PInt w)] \<and>
      (\<exists>q'. left' = PFloat (Fin q') \<and> q' \<in> \<int> \<and> q + of_int w + 2 \<le> q' \<and> q' \<le> q + of_int w + 3)" by auto
qed simp

text \<open>The commits of a row are stacked in order, one bar per value that is not zero and exactly as wide as the
  value, and two units of surface separate each bar from every later one: no bar hides another.\<close>

theorem fork_bars_disjoint:
  assumes "fork_row y r = Inr cs" and "getitem r ''segments'' = Inr (PList ss)"
    and "map (\<lambda>seg. getitem seg ''value'') ss = map (\<lambda>n. Inr (PInt n)) ns"
    and "\<forall>n \<in> set ns. 0 \<le> n \<and> n \<le> 2 ^ 20" and "length ns \<le> 1000"
  shows "map snd (bars cs) = map PInt (filter (\<lambda>n. n \<noteq> 0) ns) \<and> sorted_wrt (clear_of 2) (bars cs)"
proof -
  from assms(1,2) obtain b labels where b: "draw_stack (fork_segment y) (PFloat (Fin 0)) ss = Inr b"
    "two_labels (- 14/1000) (13/100) (17/100) y r = Inr labels" "cs = b @ labels"
    by (auto simp: fork_row_def bindE_Inr_iff value_eval)
  from b(2) have "bars labels = []" by (auto simp: two_labels_def bindE_Inr_iff)
  moreover have "rat_of_nat (length ns) \<le> rat_of_nat 1000" using assms(5) by (simp only: of_nat_le_iff)
  then have "0 + (2 ^ 20 + 3) * rat_of_nat (length ns) \<le> 2 ^ 30" by simp
  ultimately show ?thesis using fork.stack_clear [OF b(1) _ order_refl assms(3,4)] by (simp add: b(3))
qed

section \<open>The segments of the catalog\<close>

lemma next_left_near:
  assumes "0 \<le> n" "n \<le> 2 ^ 20" "0 \<le> q" "q \<le> 2 ^ 30" "next_left (PFloat (Fin q)) (PInt n) = Inr left'"
  obtains q' where "left' = PFloat (Fin q')" "q + of_int n + 3/10 \<le> q'" "q' \<le> q + of_int n + 3"
proof -
  have "(of_int n :: rat) \<le> of_int (2 ^ 20)" using assms(2) by (simp only: of_int_le_iff)
  then have n: "(0::rat) \<le> of_int n" "(of_int n :: rat) \<le> 2 ^ 20" using assms(1) by simp_all
  obtain g where g: "of_lit (35/100) = Fin g" "35/100 - 1/10^6 \<le> g" "g \<le> 35/100 + 1/10^6"
    by (rule lit_near [of "35/100"]) simp_all
  then have g': "34/100 \<le> g" "g \<le> 36/100" by (simp_all add: field_simps)
  have "of_int n + g \<le> 2 ^ 32" using n g' by simp
  with n(1) g' obtain s where s: "Fin (of_int n) + Fin g = Fin s" "of_int n + g - 1/100 \<le> s" "s \<le> of_int n + g + 1/100"
    using add_near [of "of_int n" g] by auto
  have "0 \<le> s" "q + s \<le> 2 ^ 32" using s(2,3) n g' assms(4) by simp_all
  then obtain t where t: "Fin q + Fin s = Fin t" "q + s - 1/100 \<le> t" "t \<le> q + s + 1/100"
    using add_near [OF assms(3)] by blast
  have "left' = PFloat (Fin t)"
    using assms(1,2,5) g(1) s(1) t(1) by (simp add: next_left_def arith_simps)
  moreover have "q + of_int n + 3/10 \<le> t" "t \<le> q + of_int n + 3" using s(2,3) t(2,3) g' by linarith+
  ultimately show thesis using that by blast
qed

interpretation classes: stacked_bars "class_segment key y" "\<lambda>icl. getitem (snd icl) key" "\<lambda>n. True" "\<lambda>q. True" "3/10"
  for key y
proof unfold_locales
  fix icl :: "nat \<times> pyval" and w q left' cs
  assume a: "getitem (snd icl) key = Inr (PInt w)" "0 \<le> w" "w \<le> 2 ^ 20" "0 \<le> q" "q \<le> 2 ^ 30"
    "class_segment key y (PFloat (Fin q)) icl = Inr (left', cs)"
  from a(1,6) have b: "next_left (PFloat (Fin q)) (PInt w) = Inr left'" "bars cs = [(PFloat (Fin q), PInt w)]"
    by (auto simp: class_segment_def bindE_Inr_iff split: prod.split_asm)
  from next_left_near [OF a(2-5) b(1)] b(2) show "bars cs = [(PFloat (Fin q), PInt w)] \<and>
      (\<exists>q'. left' = PFloat (Fin q') \<and> True \<and> q + of_int w + 3/10 \<le> q' \<and> q' \<le> q + of_int w + 3)" by metis
qed simp_all

interpretation effort: stacked_bars "effort_segment row y" "\<lambda>ik. getitem row (snd ik)" "\<lambda>n. n \<noteq> 0" "\<lambda>q. True" "3/10"
  for row y
proof unfold_locales
  fix ik :: "nat \<times> string" and w left left' cs
  assume "getitem row (snd ik) = Inr (PInt w)" "\<not> w \<noteq> 0" "effort_segment row y left ik = Inr (left', cs)"
  then show "left' = left \<and> bars cs = []" by (auto simp: effort_segment_def split: prod.split_asm)
next
  fix ik :: "nat \<times> string" and w q left' cs
  assume a: "getitem row (snd ik) = Inr (PInt w)" "w \<noteq> 0" "0 \<le> w" "w \<le> 2 ^ 20" "0 \<le> q" "q \<le> 2 ^ 30"
    "effort_segment row y (PFloat (Fin q)) ik = Inr (left', cs)"
  from a(1,2,7) have b: "next_left (PFloat (Fin q)) (PInt w) = Inr left'" "bars cs = [(PFloat (Fin q), PInt w)]"
    by (auto simp: effort_segment_def bindE_Inr_iff split: prod.split_asm)
  from next_left_near [OF a(3-6) b(1)] b(2) show "bars cs = [(PFloat (Fin q), PInt w)] \<and>
      (\<exists>q'. left' = PFloat (Fin q') \<and> True \<and> q + of_int w + 3/10 \<le> q' \<and> q' \<le> q + of_int w + 3)" by metis
qed simp

lemma draw_stack_all:
  "draw_stack f left ss = Inr cs \<Longrightarrow> s \<in> set ss \<Longrightarrow> \<exists>left' r. f left' s = Inr r"
  by (induction ss arbitrary: left cs) (auto simp: bindE_Inr_iff)

lemma sum_ints: "foldE py_add (PInt a) (map PInt ns) = Inr (PInt (a + sum_list ns))"
  by (induction ns arbitrary: a) (simp_all add: arith_simps add.assoc)

text \<open>A row of the catalog draws one bar per class, exactly as wide as its count, the bars in order and clear of
  each other by three tenths of an entry, rounding included; the count in the row's label is the sum of the widths.
  There are four colours, so a row that draws has at most four classes.\<close>

theorem class_row_adds_up:
  assumes "class_row (PList cls) (y, key, label) = Inr cs"
    and "map (\<lambda>cl. getitem cl key) cls = map (\<lambda>n. Inr (PInt n)) ns" and "\<forall>n \<in> set ns. 0 \<le> n \<and> n \<le> 2 ^ 20"
  shows "map snd (bars cs) = map PInt ns \<and> sorted_wrt (clear_of (3/10)) (bars cs) \<and> length cls \<le> 4 \<and>
     stack_label ''axT'' (sA (label @ ''  ('' @ show_int (sum_list ns) @ '')'')) y \<in> set cs"
proof -
  from assms(1) obtain b vs total where b:
    "draw_stack (class_segment key y) (PFloat (Fin 0)) (enumerate 0 cls) = Inr b"
    "mapE (\<lambda>cl. getitem cl key) cls = Inr vs" "py_sum vs = Inr total"
    "cs = b @ [stack_label ''axT'' (sA (label @ ''  ('' @ py_str total @ '')'')) y]"
    by (auto simp: class_row_def bindE_Inr_iff value_eval)
  have "mapE (\<lambda>cl. getitem cl key) cls = Inr (map PInt ns)"
    using assms(2) by (simp add: mapE_Inr_list_all2 list_all2_conv_all_nth list_eq_iff_nth_eq)
  with b(2,3) have total: "total = PInt (sum_list ns)" using sum_ints [of 0 ns] by (auto simp: py_sum_def)
  have len: "length cls \<le> 4"
  proof (rule ccontr)
    assume "\<not> length cls \<le> 4"
    then have "(4, cls ! 4) \<in> set (enumerate 0 cls)" by (simp add: in_set_enumerate_eq)
    from draw_stack_all [OF b(1) this] show False
      by (auto simp: class_segment_def bindE_Inr_iff index_list_def cls_colors_def)
  qed
  have "length ns = length cls" using assms(2) map_eq_imp_length_eq by metis
  with len have "rat_of_nat (length ns) \<le> rat_of_nat 4" by (simp only: of_nat_le_iff)
  then have room: "0 + (2 ^ 20 + 3) * rat_of_nat (length ns) \<le> 2 ^ 30" by simp
  have "map (\<lambda>icl. getitem (snd icl) key) (enumerate 0 cls) = map (\<lambda>cl. getitem cl key) (map snd (enumerate 0 cls))"
    by (simp only: map_map o_def)
  then have "map (\<lambda>icl. getitem (snd icl) key) (enumerate 0 cls) = map (\<lambda>n. Inr (PInt n)) ns"
    using assms(2) by simp
  from classes.stack_clear [OF b(1) TrueI order_refl this assms(3) room] b(4) len total show ?thesis
    by (simp add: py_str_def)
qed

section \<open>Shares\<close>

text \<open>A share stays on its axis: of \<open>b\<close> commits, \<open>a\<close> by the top two authors is a bar between 0 and 100.\<close>

theorem share_on_axis:
  assumes "getitem r ''top2'' = Inr (PInt a)" "getitem r ''total'' = Inr (PInt b)"
    and "0 \<le> a" "a \<le> b" "0 < b" "b \<le> 2 ^ 46"
  shows "\<exists>p. share r = Inr (PFloat (Fin p)) \<and> 0 \<le> p \<and> p \<le> 100"
proof -
  have r: "0 \<le> (of_int (100 * a) :: rat) / of_int b" "(of_int (100 * a) :: rat) / of_int b \<le> 100"
    using assms(3-5) by (simp_all add: pos_divide_le_eq)
  have "Fin 100 * Fin (of_int a) = Fin (of_int (100 * a))"
    using rnd_int [of "100 * a"] assms(3,4,6) by simp
  moreover have "Fin (of_int (100 * a)) div Fin (of_int b) = Fin (rnd_rat (of_int (100 * a) / of_int b))"
    using r assms(5) by (simp add: rnd_small)
  ultimately have "share r = Inr (PFloat (Fin (rnd_rat (of_int (100 * a) / of_int b))))"
    using assms by (simp add: share_def arith_simps rnd_numeral float_div_def)
  moreover have "0 \<le> rnd_rat (of_int (100 * a) / of_int b)" using rnd_rat_mono [OF r(1)] by simp
  moreover have "rnd_rat (of_int (100 * a) / of_int b) \<le> 100"
    using rnd_rat_mono [OF r(2)] rnd_rat_int [of 100] by simp
  ultimately show ?thesis by blast
qed

section \<open>The checked-in data\<close>

lemmas bars_eval = value_eval arith_simps two_labels_def kind_color_def cls_colors_def eff_colors_def
  middle_def next_left_def py_sum_def int_div_nonzero

lemma fork_delta_draws: "\<exists>calls. fig_fork_delta figures_yaml out = Inr calls"
  by (simp add: fig_fork_delta_def yaml_fork_delta_def yaml_fork_delta_rows_def fork_row_def fork_segment_def
      items_of_def bars_eval)

lemma capability_draws: "\<exists>calls. fig_capability figures_yaml out = Inr calls"
  by (simp add: fig_capability_def yaml_capability_def class_row_def class_segment_def effort_row_def
      effort_segment_def class_patch_def enumerate_eq_zip bars_eval)

lemma governance_draws: "\<exists>calls. fig_governance figures_yaml out = Inr calls"
  by (simp add: fig_governance_def yaml_governance_def share_row_def share_def tiles_def float_div_def bars_eval)

lemma fmt_fixed_52:
  assumes "515/10 < q" "q < 525/10"
  shows "fmt_fixed 0 (Fin q) = ''52''"
proof -
  have "\<bar>of_int (round_even q) - q\<bar> \<le> 1/2" by (rule round_even_near)
  then have "of_int (round_even q) - q \<le> 1/2" "q - of_int (round_even q) \<le> 1/2" unfolding abs_le_iff by linarith+
  with assms have "(51 :: rat) < of_int (round_even q)" "(of_int (round_even q) :: rat) < 53" by linarith+
  then have "round_even q = 52" by linarith
  moreover have "show_nat 52 = ''52''" by code_simp
  ultimately show ?thesis using assms by (simp add: fmt_fixed_def pad_left_def)
qed

lemma share_52:
  assumes "share r = Inr (PFloat (of_lit q))" "516/10 \<le> q + 1/10 ^ 2" "q \<le> 524/10 + 9/10 ^ 2"
  shows "bindE (share r) (format_value (fmt_fixed 0)) = Inr ''52''"
proof -
  have "\<bar>q\<bar> \<le> 64" using assms(2,3) by simp
  then obtain x where x: "of_lit q = Fin x" "q - 1/10^6 \<le> x" "x \<le> q + 1/10^6" by (rule lit_near)
  have "515/10 < x" "x < 525/10" using x(2,3) assms(2,3) by (simp_all add: field_simps)
  from fmt_fixed_52 [OF this] show ?thesis by (simp add: assms(1) x(1) value_eval)
qed

text \<open>The headline of the governance figure, the same 52 percent for the two natives, is what its bars say.\<close>

theorem same_share_in_headline:
  "\<exists>ours other theirs. getitem yaml_governance ''concentration'' = Inr (PList [ours, other, theirs]) \<and>
     bindE (share ours) (format_value (fmt_fixed 0)) = Inr ''52'' \<and>
     bindE (share theirs) (format_value (fmt_fixed 0)) = Inr ''52''"
proof -
  let ?r = "\<lambda>label a b. PDict [(''label'', PStr label), (''top2'', PInt a), (''total'', PInt b)]"
  have s: "share (?r label a b) = Inr (PFloat (of_lit (of_int (100 * a) / of_int b)))"
    if "0 \<le> a" "a \<le> 1000" "0 < b" "b \<le> 1000" for label a b
    using that rnd_int [of "100 * a"] by (simp add: share_def value_eval arith_simps rnd_numeral float_div_def)
  from share_52 [OF s [of 113 219]] share_52 [OF s [of 160 305]] show ?thesis
    by (simp add: yaml_governance_def value_eval)
qed

theorem fork_bars_disjoint_witness:
  "\<exists>cs. fork_row 2 (yaml_fork_delta_rows ! 0) = Inr cs \<and> map snd (bars cs) = [PInt 219, PInt 25] \<and>
     sorted_wrt (clear_of 2) (bars cs)"
proof -
  let ?r = "yaml_fork_delta_rows ! 0"
  obtain cs where cs: "fork_row 2 ?r = Inr cs"
    by (simp add: yaml_fork_delta_rows_def fork_row_def fork_segment_def bars_eval)
  obtain ss where ss: "getitem ?r ''segments'' = Inr (PList ss)"
    "map (\<lambda>seg. getitem seg ''value'') ss = map (\<lambda>n. Inr (PInt n)) [219, 25]"
    by (simp add: yaml_fork_delta_rows_def value_eval)
  from fork_bars_disjoint [OF cs ss] cs show ?thesis by simp
qed

theorem class_row_adds_up_witness:
  "\<exists>cls cs. getitem yaml_capability ''classes'' = Inr (PList cls) \<and>
     class_row (PList cls) (1, ''main'', ''integration branch'') = Inr cs \<and>
     map snd (bars cs) = [PInt 11, PInt 4, PInt 6, PInt 7] \<and>
     stack_label ''axT'' (sA (''integration branch  ('' @ show_int 28 @ '')'')) 1 \<in> set cs"
proof -
  obtain cls cs where cls: "getitem yaml_capability ''classes'' = Inr (PList cls)"
    and cs: "class_row (PList cls) (1, ''main'', ''integration branch'') = Inr cs"
    and ns: "map (\<lambda>cl. getitem cl ''main'') cls = map (\<lambda>n. Inr (PInt n)) [11, 4, 6, 7]"
    by (simp add: yaml_capability_def class_row_def class_segment_def enumerate_eq_zip bars_eval)
  from class_row_adds_up [OF cs ns] cls cs show ?thesis by auto
qed

theorem share_on_axis_witness:
  "\<exists>p. share (PDict [(''top2'', PInt 113), (''total'', PInt 219)]) = Inr (PFloat (Fin p)) \<and> 0 \<le> p \<and> p \<le> 100"
  using share_on_axis [of "PDict [(''top2'', PInt 113), (''total'', PInt 219)]" 113 219] by (simp add: value_eval)

end
