(* ===== verification/Figures_Main.thy ===== *)
theory Figures_Main
  imports Fig_Equivalence Fig_Intervals Fig_Bars Runner_Args
begin

text \<open>
  The table \<open>FIGURES\<close> and \<open>main\<close> of \<^verbatim>\<open>docs/evaluation/figures/make_figures.py\<close>: the command line, the data
  file, and one SVG, with \<open>--preview\<close> also one PNG, per requested name. \<open>here\<close> is the script's directory, and
  the data file is what reading \<^verbatim>\<open>figures.yaml\<close> gives or raises. Paths are \<open>pathlib\<close>'s.

  The lemmas: a figure's path decides nothing but where it is saved, the requested figures are written in
  order, an unknown name draws nothing, and the checked-in data draws all seven.
\<close>

section \<open>Paths\<close>

fun split_on :: "char \<Rightarrow> string \<Rightarrow> string list" where
  "split_on d [] = [[]]"
| "split_on d (c # s) =
     (case split_on d s of
        [] \<Rightarrow> []
      | p # ps \<Rightarrow> if c = d then [] # p # ps else (c # p) # ps)"

text \<open>The root (two leading slashes, and not three, are kept) and the parts that are neither empty nor a dot.\<close>

definition path_root :: "string \<Rightarrow> string" where
  "path_root s =
     (if starts_with s ''//'' \<and> \<not> starts_with s ''///'' then ''//'' else if starts_with s ''/'' then ''/'' else [])"

definition path_parts :: "string \<Rightarrow> string list" where
  "path_parts s = filter (\<lambda>p. p \<noteq> [] \<and> p \<noteq> ''.'') (split_on CHR ''/'' s)"

definition path_str :: "string \<Rightarrow> string list \<Rightarrow> string" where
  "path_str anchor parts = (if anchor = [] \<and> parts = [] then ''.'' else anchor @ join ''/'' parts)"

text \<open>\<open>str(Path(s))\<close> and \<open>str(Path(base) / name)\<close>.\<close>

definition path_of :: "string \<Rightarrow> string" where
  "path_of s = path_str (path_root s) (path_parts s)"

definition path_div :: "string \<Rightarrow> string \<Rightarrow> string" where
  "path_div base name =
     (if path_root name \<noteq> [] then path_of name else path_str (path_root base) (path_parts base @ path_parts name))"

section \<open>The figures\<close>

definition FIGURES :: "(string \<times> (pyval \<Rightarrow> string \<Rightarrow> drawing)) list" where
  "FIGURES =
     [(''fig-equivalence-forest'', fig_equivalence),
      (''fig-cpu-reversal'', fig_cpu_reversal),
      (''fig-seam-ceiling'', fig_seam),
      (''fig-bridge-ndt'', fig_bridge),
      (''fig-fork-delta'', fig_fork_delta),
      (''fig-capability-catalog'', fig_capability),
      (''fig-governance'', fig_governance)]"

definition figure_names :: "string list" where
  "figure_names = sort (map fst FIGURES)"

definition figure_parser :: "opt_spec list" where
  "figure_parser =
     [opt ''--preview'' ''preview'' StrOpt PNone, opt ''--only'' ''only'' (ChoiceList figure_names) PNone]"

section \<open>The run\<close>

text \<open>What a run does, in order: a figure drawn and saved to a path, a line printed, a directory made. It
  ends by itself, with an exit status of \<open>argparse\<close>, or with an exception.\<close>

datatype fig_event = Drew string "mcall list" | Printed string | MadeDirs string

datatype fig_end = Finished | Exited int | Raised exc

definition load :: "pyval res \<Rightarrow> pyval res" where
  "load file = file"

definition render :: "string \<Rightarrow> string option \<Rightarrow> pyval \<Rightarrow> string \<Rightarrow> fig_event list \<times> exc option" where
  "render here preview data name =
     (case lookup_const FIGURES (PStr name) of
        Inl e \<Rightarrow> ([], Some e)
      | Inr fig \<Rightarrow>
          let out = path_div here (name @ ''.svg'')
          in case fig data out of
            Inl e \<Rightarrow> ([], Some e)
          | Inr svg \<Rightarrow>
              (let svg_events = [Drew out svg, Printed (''wrote '' @ out)]
               in case preview of
                 None \<Rightarrow> (svg_events, None)
               | Some dir \<Rightarrow>
                   (let png = path_div dir (name @ ''.png'')
                    in case fig data png of
                      Inl e \<Rightarrow> (svg_events @ [MadeDirs (path_of dir)], Some e)
                    | Inr cs \<Rightarrow>
                        (svg_events @ [MadeDirs (path_of dir), Drew png cs, Printed (''  preview '' @ png)], None))))"

fun render_all :: "string \<Rightarrow> string option \<Rightarrow> pyval \<Rightarrow> string list \<Rightarrow> fig_event list \<times> exc option" where
  "render_all here preview data [] = ([], None)"
| "render_all here preview data (name # names) =
     (case render here preview data name of
        (es, Some e) \<Rightarrow> (es, Some e)
      | (es, None) \<Rightarrow> (case render_all here preview data names of (es', r) \<Rightarrow> (es @ es', r)))"

text \<open>\<open>args.only or sorted(FIGURES)\<close> and \<open>args.preview\<close>; a \<open>Path\<close> is always true.\<close>

definition requested :: "namespace \<Rightarrow> string list" where
  "requested ns =
     (case map_of ns ''only'' of
        Some (PList vs) \<Rightarrow> if vs = [] then figure_names else map py_str vs
      | _ \<Rightarrow> figure_names)"

definition preview_dir :: "namespace \<Rightarrow> string option" where
  "preview_dir ns = (case map_of ns ''preview'' of Some (PStr s) \<Rightarrow> Some s | _ \<Rightarrow> None)"

definition main :: "string \<Rightarrow> pyval res \<Rightarrow> string list \<Rightarrow> fig_event list \<times> fig_end" where
  "main here file argv =
     (case parse_args figure_parser argv of
        Inl n \<Rightarrow> ([], Exited n)
      | Inr ns \<Rightarrow>
          (case load file of
             Inl e \<Rightarrow> ([], Raised e)
           | Inr data \<Rightarrow>
               (case render_all here (preview_dir ns) data (requested ns) of
                  (es, None) \<Rightarrow> (es, Finished)
                | (es, Some e) \<Rightarrow> (es, Raised e))))"

section \<open>The path only says where\<close>

definition saves_last :: "(string \<Rightarrow> drawing) \<Rightarrow> bool" where
  "saves_last f \<longleftrightarrow> (\<exists>body. \<forall>out. f out = bindE body (\<lambda>cs. Ret (cs @ save_figure out)))"

lemma saves_last_bind [intro]:
  assumes "\<And>x. saves_last (f x)"
  shows "saves_last (\<lambda>out. bindE m (\<lambda>x. f x out))"
proof -
  from assms obtain body where "\<And>x out. f x out = bindE (body x) (\<lambda>cs. Ret (cs @ save_figure out))"
    unfolding saves_last_def by metis
  then have "bindE m (\<lambda>x. f x out) = bindE (bindE m body) (\<lambda>cs. Ret (cs @ save_figure out))" for out
    by (simp add: bindE_assoc)
  then show ?thesis unfolding saves_last_def by blast
qed

lemma saves_last_Ret: "saves_last (\<lambda>out. Ret (cs @ save_figure out))"
  unfolding saves_last_def by (rule exI [of _ "Ret cs"]) simp

lemmas saves_last_rules = saves_last_bind saves_last_Ret

lemma figures_save_last:
  "saves_last (fig_equivalence d)" "saves_last (fig_cpu_reversal d)" "saves_last (fig_seam d)"
  "saves_last (fig_bridge d)" "saves_last (fig_fork_delta d)" "saves_last (fig_capability d)"
  "saves_last (fig_governance d)"
  unfolding fig_equivalence_def fig_cpu_reversal_def fig_seam_def fig_bridge_def fig_fork_delta_def
    fig_capability_def fig_governance_def append_assoc [symmetric]
  by (intro saves_last_rules)+

text \<open>In every figure the output path decides nothing but where the figure is saved: all that is drawn before
  is the same for any path, and saving it is the last thing the figure does, so the preview shows what the SVG
  shows and cannot fail where the SVG succeeded.\<close>

theorem path_only_says_where:
  "list_all (\<lambda>(name, fig). \<exists>body. \<forall>out. fig d out = bindE body (\<lambda>cs. Ret (cs @ save_figure out))) FIGURES"
  using figures_save_last unfolding saves_last_def FIGURES_def by simp

section \<open>What a run writes\<close>

lemma figure_names:
  "figure_names =
     [''fig-bridge-ndt'', ''fig-capability-catalog'', ''fig-cpu-reversal'', ''fig-equivalence-forest'',
      ''fig-fork-delta'', ''fig-governance'', ''fig-seam-ceiling'']"
  unfolding figure_names_def FIGURES_def by code_simp

lemma lookup_figure:
  "name \<in> set figure_names \<longleftrightarrow> (\<exists>fig. lookup_const FIGURES (PStr name) = Inr fig)"
  using map_of_eq_None_iff [of FIGURES name]
  by (cases "map_of FIGURES name") (auto simp: figure_names_def lookup_const_Inr)

definition saved :: "fig_event list \<Rightarrow> string list" where
  "saved es = concat (map (\<lambda>e. case e of Drew out cs \<Rightarrow> [out] | _ \<Rightarrow> []) es)"

lemma saved_simps [simp]:
  "saved [] = []" "saved (es @ es') = saved es @ saved es'"
  "saved (Drew out cs # es) = out # saved es" "saved (Printed s # es) = saved es" "saved (MadeDirs s # es) = saved es"
  by (simp_all add: saved_def)

text \<open>The files a name stands for.\<close>

definition outputs :: "string \<Rightarrow> string option \<Rightarrow> string \<Rightarrow> string list" where
  "outputs here preview name =
     path_div here (name @ ''.svg'') # (case preview of None \<Rightarrow> [] | Some dir \<Rightarrow> [path_div dir (name @ ''.png'')])"

lemma FIGURES_save_last: "(name, fig) \<in> set FIGURES \<Longrightarrow> saves_last (fig d)"
  using figures_save_last by (auto simp: FIGURES_def)

lemma saves_last_same:
  assumes "saves_last f" "f out = Inr cs" obtains cs' where "f out' = Inr cs'"
  using assms by (force simp: saves_last_def bindE_Inr_iff)

lemma render_ok: "render here preview data name = (es, None) \<Longrightarrow> saved es = outputs here preview name"
  by (auto simp: render_def outputs_def Let_def split: sum.split_asm option.split_asm)

lemma render_draws:
  assumes "lookup_const FIGURES (PStr name) = Inr fig" "fig data out = Inr cs"
  obtains es where "render here preview data name = (es, None)"
proof -
  from assms(1) have "saves_last (fig data)" by (auto simp: lookup_const_Inr dest: map_of_SomeD FIGURES_save_last)
  from saves_last_same [OF this assms(2)] have d: "\<exists>cs. fig data out' = Inr cs" for out' by metis
  obtain c1 where "fig data (path_div here (name @ ''.svg'')) = Inr c1" using d by blast
  moreover obtain c2 where "fig data (path_div (the preview) (name @ ''.png'')) = Inr c2" using d by blast
  ultimately have "\<exists>es. render here preview data name = (es, None)"
    using assms(1) by (cases preview) (simp_all add: render_def Let_def)
  with that show thesis by blast
qed

lemma render_all_ok:
  "render_all here preview data names = (es, None) \<Longrightarrow> saved es = concat (map (outputs here preview) names)"
  by (induction names arbitrary: es) (auto dest: render_ok split: prod.split_asm option.split_asm)

text \<open>A run stops at the first exception: what was saved until then is the outputs of a prefix of the names,
  with the SVG of the name after it when its preview failed.\<close>

lemma render_failed:
  assumes "render here preview data name = (es, Some e)"
  shows "saved es = []"
proof (cases "lookup_const FIGURES (PStr name)")
  case (Inr fig)
  then have sl: "saves_last (fig data)" by (auto simp: lookup_const_Inr dest: map_of_SomeD FIGURES_save_last)
  show ?thesis
  proof (cases "fig data (path_div here (name @ ''.svg''))")
    case (Inr cs)
    with saves_last_same [OF sl this] obtain cs' where "fig data (path_div (the preview) (name @ ''.png'')) = Inr cs'"
      by metis
    with assms Inr \<open>lookup_const FIGURES (PStr name) = Inr fig\<close> show ?thesis
      by (auto simp: render_def Let_def split: option.split_asm)
  qed (use assms Inr in \<open>auto simp: render_def Let_def\<close>)
qed (use assms in \<open>simp add: render_def\<close>)

lemma render_all_failed:
  assumes "render_all here preview data names = (es, Some e)"
  shows "\<exists>k < length names. saved es = concat (map (outputs here preview) (take k names)) \<and>
    (\<exists>es'. render here preview data (names ! k) = (es', Some e))"
  using assms
proof (induction names arbitrary: es)
  case (Cons name names)
  obtain es1 r1 where r: "render here preview data name = (es1, r1)" by fastforce
  show ?case
  proof (cases r1)
    case (Some e')
    with Cons.prems r render_failed [of here preview data name es1 e'] show ?thesis by (intro exI [of _ 0]) auto
  next
    case None
    with Cons.prems r obtain es2 where es2: "render_all here preview data names = (es2, Some e)" "es = es1 @ es2"
      by (auto split: prod.split_asm)
    from Cons.IH [OF es2(1)] obtain k where "k < length names"
      "saved es2 = concat (map (outputs here preview) (take k names))"
      "\<exists>es'. render here preview data (names ! k) = (es', Some e)" by blast
    with render_ok [OF r [unfolded None]] es2(2) show ?thesis by (intro exI [of _ "Suc k"]) simp
  qed
qed simp

lemma requested_known:
  assumes "parse_args figure_parser argv = Inr ns"
  shows "set (requested ns) \<subseteq> set figure_names"
proof -
  have d: "distinct (map opt_dest figure_parser)" and c: "append_from_none figure_parser"
    by (simp_all add: figure_parser_def append_from_none_def)
  from assms have "parse_tokens figure_parser (defaults figure_parser) False argv = Inr ns"
    by (simp add: parse_args_def split: if_split_asm)
  from parse_tokens_typed [OF this defaults_typed [OF d] d c] obtain v where v: "map_of ns ''only'' = Some v"
    "v = PNone \<or> kind_value (ChoiceList figure_names) v"
    by (auto simp: typed_ns_def figure_parser_def default_of_def)
  from v(2) consider "v = PNone" | ss where "v = PList (map PStr ss)" "ss \<noteq> []" "set ss \<subseteq> set figure_names"
    by (auto simp: kind_value_def)
  then show ?thesis
  proof cases
    case 1
    with v(1) show ?thesis by (simp add: requested_def)
  next
    case 2
    have "map py_str (map PStr ss) = ss" by (induction ss) simp_all
    with 2 v(1) show ?thesis by (simp add: requested_def)
  qed
qed

text \<open>C32: A command line that does not parse touches nothing; one that does asks for known figures only, and a run
  that ends has saved, for each requested name in order, its SVG beside the script and with a preview directory
  its PNG in there; a run an exception stops has saved exactly the files of the names before the failing one.\<close>

theorem main_saves_requested:
  assumes "main here file argv = (es, ending)"
  shows "case ending of
      Exited n \<Rightarrow> parse_args figure_parser argv = Inl n \<and> es = []
    | Finished \<Rightarrow> \<exists>ns. parse_args figure_parser argv = Inr ns \<and> set (requested ns) \<subseteq> set figure_names \<and>
        saved es = concat (map (outputs here (preview_dir ns)) (requested ns))
    | Raised e \<Rightarrow> \<exists>ns. parse_args figure_parser argv = Inr ns \<and>
        (file = Inl e \<and> es = [] \<or>
         (\<exists>k < length (requested ns).
            saved es = concat (map (outputs here (preview_dir ns)) (take k (requested ns)))))"
proof (cases "parse_args figure_parser argv")
  case (Inl n)
  with assms show ?thesis by (auto simp: main_def)
next
  case (Inr ns)
  show ?thesis
  proof (cases "file")
    case (Inl e)
    with assms \<open>parse_args figure_parser argv = Inr ns\<close> show ?thesis by (auto simp: main_def load_def)
  next
    case (Inr data)
    obtain es' r where run: "render_all here (preview_dir ns) data (requested ns) = (es', r)" by fastforce
    show ?thesis
    proof (cases r)
      case None
      with assms \<open>parse_args figure_parser argv = Inr ns\<close> Inr run have "es = es'" "ending = Finished"
        by (auto simp: main_def load_def)
      with render_all_ok [OF run [unfolded None]] requested_known [OF \<open>parse_args figure_parser argv = Inr ns\<close>]
        \<open>parse_args figure_parser argv = Inr ns\<close> show ?thesis by simp
    next
      case (Some e)
      with assms \<open>parse_args figure_parser argv = Inr ns\<close> Inr run have "es = es'" "ending = Raised e"
        by (auto simp: main_def load_def)
      with render_all_failed [OF run [unfolded Some]] \<open>parse_args figure_parser argv = Inr ns\<close> show ?thesis by auto
    qed
  qed
qed

lemma checked_in_draws:
  assumes "name \<in> set figure_names"
  obtains fig cs where "lookup_const FIGURES (PStr name) = Inr fig" "fig figures_yaml out = Inr cs"
proof -
  from assms obtain fig where fig: "lookup_const FIGURES (PStr name) = Inr fig" unfolding lookup_figure by blast
  then have "(name, fig) \<in> set FIGURES" by (auto simp: lookup_const_Inr dest: map_of_SomeD)
  then have "\<exists>cs. fig figures_yaml out = Inr cs"
    using equivalence_draws cpu_reversal_draws seam_draws bridge_draws fork_delta_draws capability_draws
      governance_draws by (auto simp: FIGURES_def)
  with fig that show thesis by blast
qed

lemma render_all_checked_in:
  "set names \<subseteq> set figure_names \<Longrightarrow> \<exists>es. render_all here preview figures_yaml names = (es, None)"
proof (induction names)
  case (Cons name names)
  then have "name \<in> set figure_names" by simp
  then obtain fig cs where f: "lookup_const FIGURES (PStr name) = Inr fig" "fig figures_yaml [] = Inr cs"
    by (rule checked_in_draws)
  obtain es where "render here preview figures_yaml name = (es, None)" by (rule render_draws [OF f])
  with Cons show ?case by auto
qed simp

text \<open>Any command line that parses, on the data file of the repository, ends without an exception.\<close>

lemma checked_in_finishes:
  assumes "parse_args figure_parser argv = Inr ns"
  shows "\<exists>es. main here (Inr figures_yaml) argv = (es, Finished) \<and>
    saved es = concat (map (outputs here (preview_dir ns)) (requested ns))"
proof -
  from render_all_checked_in [OF requested_known [OF assms]] obtain es where
    es: "render_all here (preview_dir ns) figures_yaml (requested ns) = (es, None)" by blast
  with render_all_ok [OF es] assms show ?thesis by (simp add: main_def load_def)
qed


theorem main_saves_requested_witness:
  "\<exists>es. main ''/figures'' (Inr figures_yaml) [''--only'', ''fig-governance'', ''--preview'', ''/tmp''] = (es, Finished) \<and>
     saved es = [''/figures/fig-governance.svg'', ''/tmp/fig-governance.png'']"
proof -
  let ?argv = "[''--only'', ''fig-governance'', ''--preview'', ''/tmp'']"
  have c: "classify figure_parser ''--only'' = TOpt (opt ''--only'' ''only'' (ChoiceList figure_names) PNone) None"
    "classify figure_parser ''--preview'' = TOpt (opt ''--preview'' ''preview'' StrOpt PNone) None"
    "classify figure_parser ''fig-governance'' = TArg" "classify figure_parser ''/tmp'' = TArg"
    by (simp_all add: classify_def figure_parser_def)
  have d: "defaults figure_parser = [(''preview'', PNone), (''only'', PNone)]" "''fig-governance'' \<in> set figure_names"
    by (simp_all add: figure_parser_def defaults_def default_of_def figure_names)
  obtain ns where ns: "parse_args figure_parser ?argv = Inr ns" "requested ns = [''fig-governance'']"
    "preview_dir ns = Some ''/tmp''"
    by (simp add: parse_args_def c d take_value_def convert_opt_def store_def Let_def requested_def preview_dir_def)
  from checked_in_finishes [OF ns(1), of "''/figures''"] obtain es where
    es: "main ''/figures'' (Inr figures_yaml) ?argv = (es, Finished)" by blast
  have "path_div ''/figures'' ''fig-governance.svg'' = ''/figures/fig-governance.svg''"
    "path_div ''/tmp'' ''fig-governance.png'' = ''/tmp/fig-governance.png''" by code_simp+
  with main_saves_requested [OF es] ns es show ?thesis by (auto simp: outputs_def)
qed

end
