(* ===== verification/Spec2Isabelle.thy ===== *)
theory Spec2Isabelle
  imports Runner_Main Interop_Cli Publisher_Counts Watchdog_Cli Write_Manifest Sweep_Verdict Duel_Sample
    Write_Quality GT_Anchor Bundle_Pin Report Shift_Pcd Figures_Main
begin

text \<open>
  A verification development of the Python of carla-autoware-extension: the runner that spawns an ego
  vehicle and its sensors in CARLA and ticks the simulation (\<^verbatim>\<open>src/runner/\<close>), the native-DDS interop
  gate (\<^verbatim>\<open>src/scripts/interop_lib.py\<close>, \<^verbatim>\<open>interop_check.py\<close>), the analysis of the A-vs-B
  benchmark campaign (\<^verbatim>\<open>src/benchmarks/\<close>), and the script that draws the campaign's figures
  (\<^verbatim>\<open>src/docs/evaluation/figures/make_figures.py\<close>).

  \<^bold>\<open>The program's parts.\<close> \<^verbatim>\<open>runner/__main__.py\<close> parses the command line, runs the preflights, loads the
  sensor kit (\<^verbatim>\<open>kit.py\<close>), connects to CARLA, spawns the ego, the LiDAR, the IMU and the cameras
  (\<^verbatim>\<open>spawn.py\<close>), runs the synchronous or the asynchronous loop (\<^verbatim>\<open>loop.py\<close>) and tears everything down.
  The interop gate asks the \<^verbatim>\<open>ros2\<close> command about each topic of a contract and judges the answers. The
  benchmark tools write and read one directory per run (manifest, clock, resources, odometry,
  publisher counts) and turn them into verdicts. The figures are drawn from \<^verbatim>\<open>figures.yaml\<close>, a
  transcription of those verdicts, by one function per figure.

  \<^bold>\<open>Theories.\<close>
  \<^item> \<open>Py_Prelude\<close>: exceptions as values of a sum type, \<open>bindE\<close>, \<open>catchE\<close>, \<open>mapE\<close>, \<open>foldE\<close>, dictionaries as
    association lists in insertion order. \<open>Float64\<close>: binary64 numbers as exact rationals with
    infinities and NaN and rounding to nearest even (no signed zero). \<open>Py_Values\<close>: values of JSON and
    YAML documents, \<open>==\<close>, truth, \<open>str\<close>, \<open>int\<close>, \<open>float\<close>. \<open>Numpy_Ops\<close>: the numpy operations the analysis
    uses; the floating-point reductions (\<open>median\<close>, \<open>percentile\<close>, \<open>quantile\<close>, the generator) are a record
    of parameters.
  \<^item> \<open>Kit\<close>, \<open>Kit_Pose\<close>: \<^verbatim>\<open>runner/kit.py\<close>. A calibration is a record of six binary64 numbers per sensor;
    the transform algebra is over the real numbers. The lemmas: loading inverts writing, the angle
    extraction inverts the matrix construction, the Rotator handed to CARLA is the composed mount
    rotation through the Y flip and always in range, the attach location is a rigid displacement.
  \<^item> \<open>Carla_World\<close>: the calls the runner makes, as events. A computation takes the trace so far and
    returns a result and the events it added; what a call answers is an environment, a function of the
    trace, so it may change from call to call and any call may raise. The settings of a world are a
    record of the four fields the runner writes and the rest.
  \<^item> \<open>Spawn\<close>: \<^verbatim>\<open>runner/spawn.py\<close>. The attribute dictionaries, the attribute policy, the spawn functions.
    The locale \<open>partial_spawn\<close> states the clean-up contract once; it is interpreted for the rig and for
    the cameras.
  \<^item> \<open>Tick_Loop\<close>: \<^verbatim>\<open>runner/loop.py\<close>. A loop is a \<open>partial_function\<close> whose value is \<open>None\<close> when it never
    returns; \<open>loop_run\<close> is its step relation, and the properties of the loops are rule inductions on it.
  \<^item> \<open>Runner_Args\<close>: the command line of \<^verbatim>\<open>runner/__main__.py\<close> as a table of options, and what \<open>argparse\<close>
    makes of an argument list for such a table. \<open>Runner_Main\<close>: \<open>main\<close>, in the order of the code:
    \<open>extension_check\<close>, \<open>preflight\<close>, \<open>set_up\<close>, \<open>session\<close> (the \<open>try\<close>) and \<open>teardown\<close> (its \<open>finally\<close>).
  \<^item> \<open>Interop\<close>: the topic checks, the report and the exit status; the command runner is a parameter. \<open>Interop_Cli\<close>:
    the gate from its argument list, and what each kind of command line writes.
  \<^item> \<open>Manifest\<close>, \<open>Cell_Info\<close>, \<open>Write_Manifest\<close>, \<open>Publisher_Counts\<close>, \<open>Clock_Watchdog\<close>, \<open>Bench_IO\<close>: the run
    manifest and its vocabulary, the workload matrix, the files of a run, the stall watchdog. \<open>Watchdog_Cli\<close>:
    the watchdog as a process, with the real \<open>time.sleep\<close>.
  \<^item> \<open>Cadence\<close>, \<open>Ceiling\<close>, \<open>Stats\<close>, \<open>Timing\<close>, \<open>Window\<close>: the metrics. \<open>Run_Dir\<close>, \<open>Sweep_Verdict\<close>:
    the ceiling tool, which walks the run directories of a cell and scores them.
  \<^item> \<^verbatim>\<open>scripts/duel_verdict.py\<close>: \<open>Duel_Verdict\<close> (the verdict row, its table and the scoring window),
    \<open>Duel_Walk\<close> (the runs a duel admits, extractors applied to them), \<open>Duel_Metrics\<close> (the five metrics and
    their bindings), \<open>Duel_Reconcile\<close> (the drop accounting per cell), \<open>Duel_Table\<close> (the table of a duel and
    \<open>main\<close>), \<open>Duel_Sample\<close> (a concrete duel). The lemmas: no run is lost or counted for two duels, no two
    arms are pooled, a parity is backed by enough admissible runs and an interval inside its margin, the
    staleness metric never guesses a clock domain, the worst run is not hidden by the statistics. The locales
    \<open>admission_pool\<close> and \<open>counted_walk\<close> state the pool rule and the accounting of a walk,
    \<open>column_group\<close> the grouped CSV reader, \<open>monotone_rounding\<close> the rounding of binary64.
  \<^item> \<open>Quality\<close>: \<^verbatim>\<open>analysis/quality.py\<close>, the M5 gate. \<open>Write_Quality\<close>: \<^verbatim>\<open>scripts/write_quality.py\<close>, from a run
    directory to its \<^verbatim>\<open>quality.json\<close>; \<open>GateRefused\<close> is an exception class of \<open>Py_Prelude\<close>. The lemmas: the join
    by binary search is the nearest-neighbour join, the recorded verdict is the one the recorded numbers give
    (and a NaN passes), nothing is written for a run that was not scored, and the sweep reads the gate back.
  \<^item> \<open>GT_Anchor\<close>: \<^verbatim>\<open>analysis/gt_anchor.py\<close>, the registered base-link offsets and the check that re-reads each from
    the source it came from. The lemmas: the check fails by name only, an offset of zero changes nothing.
  \<^item> \<open>Bundle_Pin\<close>: \<^verbatim>\<open>scripts/bundle_pin.py\<close>, which pinned map bundle is installed. \<open>Report\<close>:
    \<^verbatim>\<open>benchmarks/report.py\<close>, the summaries of a results tree. The lemmas: the pin check is decided by counting
    the candidates with the digest; the report's exit status tells which runs failed without an exclusion, and a
    message that quotes a marker defeats it.
  \<^item> \<open>Lzf\<close>, \<open>Pcd\<close>, \<open>Shift_Pcd\<close>: \<^verbatim>\<open>scripts/shift_pcd.py\<close>, on bytes: the decoder of compressed clouds, the
    reader and the writer of the format, the tool. numpy's text formats, float32 addition and SHA-256 are parameters;
    a float32 is its 32 bits. The lemmas: the decoder accepts exactly the token streams it is for (and a last literal
    run cut short), the two binary layouts agree, a binary output is read back as the input's header and the moved
    points; a \<open>DATA\<close> line without a format ends the tool in a traceback.
  \<^item> \<open>Py_Arith\<close>, \<open>Canvas\<close>: the operators on YAML values (an int meets a float, a bool is an int, anything else
    raises), and drawing: a figure function is the list of the matplotlib calls it makes, with their
    arguments, or the exception its own code raises. Texts are UTF-8. \<open>Float_Ratio\<close>: the error of a rounding,
    and that a rounded quotient of floats is below 1 exactly when the dividend is below the divisor.
  \<^item> \<open>Figures_Data\<close>: \<^verbatim>\<open>figures.yaml\<close>. \<open>Fig_Equivalence\<close> (\<open>fig_equivalence\<close>), \<open>Fig_Intervals\<close>
    (\<open>fig_cpu_reversal\<close>, \<open>fig_seam\<close>, \<open>fig_bridge\<close>), \<open>Fig_Bars\<close> (\<open>fig_fork_delta\<close>, \<open>fig_capability\<close>,
    \<open>fig_governance\<close>), one definition per loop body and per group of calls; \<open>Figures_Main\<close>: \<open>FIGURES\<close> and
    \<open>main\<close>. The lemmas: no verdict is told by colour alone, the drawn band is the decision rule, rows and
    stacked segments never overlap (locale \<open>stacked_bars\<close>, interpreted for the three kinds of segment), every
    transcribed verdict is the rule's, the output path decides nothing but where a figure is saved, and the
    program writes exactly the requested files.

  \<^bold>\<open>How the parts meet.\<close> \<open>Runner_Main.session\<close> calls \<open>Spawn.spawn_ego\<close>, \<open>spawn_sensors\<close>, \<open>spawn_cameras\<close>
  and the loops of \<open>Tick_Loop\<close> on one trace; its theorems (no actor leaked, TF suppressed before any
  spawn, CARLA untouched before the preflights, a run returns once the stop flag is down) combine the
  clean-up of the spawn functions, the pose algebra and the loops. \<open>Sweep_Verdict\<close> composes the readers,
  the ceiling rule, the manifest and the workload matrix; \<open>Write_Quality\<close> writes the file its \<open>quality_ok\<close> reads.
  \<open>Duel_Table\<close> walks each cell once per arm with \<open>Duel_Walk\<close>, applies the extractors of \<open>Duel_Metrics\<close> to the
  records, decides with \<open>Duel_Verdict\<close> and \<open>Stats\<close>, and reports \<open>Duel_Reconcile\<close> beside it; its theorems rest
  on the walk's interpretations of \<open>counted_walk\<close> and \<open>admission_pool\<close>. \<open>Fig_Equivalence\<close> compares what is drawn with
  \<open>Stats.equivalence_decision\<close>, and \<open>Figures_Main\<close> uses the argument parser of \<open>Runner_Args\<close> and all figures.

  \<^bold>\<open>Bounds and idealisations.\<close> Characters are code points below 256. \<open>kit.py\<close> is over exact real
  arithmetic. The argument parser is that of the standard library for the options the table uses.
  Exceptions are those derived from \<open>Exception\<close>: a second Ctrl-C or \<open>SystemExit\<close> in the middle of a call is
  not modelled. Python's \<open>import carla\<close> inside the spawn functions is taken to succeed once \<open>main\<close> has
  imported it. Messages of exceptions are kept as the text that identifies the raise site. No fuel is
  used: every loop is structural, has a termination proof, or is a \<open>partial_function\<close> with a theorem
  that says when it returns.

  \<^bold>\<open>Not modelled.\<close> The command lines of the benchmark tools other than the watchdog and
  \<open>shift_pcd\<close> (their parsed arguments are given), the collectors, the other point-cloud tools and the calibration report, matplotlib and the file system under the figures (their calls are taken to return), the end-to-end shell harness and its ROS 2 helpers
  (process orchestration), and the C++ extension.
\<close>

end
